(* ===== verification/Flux_Prelude.thy ===== *)
theory Flux_Prelude
  imports Main "HOL-Library.Word" "HOL-Library.Code_Target_Nat"
begin

text \<open>
  Shared vocabulary of the development: the machine types of the Rust sources, \<open>Result\<close> as a sum
  type with the combinators the code uses, checked and saturating arithmetic, byte encodings of
  words, and the slice and iterator functions of the Rust standard library that more than one
  component calls.

  Integers of the code are words of their width (\<open>u8\<close> .. \<open>u128\<close>), so \<open>+\<close> and \<open>*\<close> wrap exactly
  where release builds do and the checked operations are written out. \<open>usize\<close> values are lengths
  and offsets of buffers that exist in memory, hence natural numbers. The native byte order of every
  supported target (aarch64, and x86-64 for host tests) is little-endian.
\<close>

unbundle bit_operations_syntax

section \<open>Machine types\<close>

type_synonym u8 = "8 word"
type_synonym u16 = "16 word"
type_synonym u32 = "32 word"
type_synonym u64 = "64 word"
type_synonym u128 = "128 word"
type_synonym bytes = "u8 list"

named_theorems layout_simps \<open>facts that compute positions and lengths in byte buffers\<close>
named_theorems text_simps \<open>facts about splitting and joining text\<close>
named_theorems result_splits \<open>case splits on results\<close>

section \<open>Results\<close>

abbreviation Ok :: "'a \<Rightarrow> 'e + 'a" where
  "Ok \<equiv> Inr"

abbreviation Err :: "'e \<Rightarrow> 'e + 'a" where
  "Err \<equiv> Inl"

definition and_then :: "'e + 'a \<Rightarrow> ('a \<Rightarrow> 'e + 'b) \<Rightarrow> 'e + 'b" where
  "and_then r f = (case r of Err e \<Rightarrow> Err e | Ok x \<Rightarrow> f x)"

definition map_err :: "('e \<Rightarrow> 'f) \<Rightarrow> 'e + 'a \<Rightarrow> 'f + 'a" where
  "map_err f r = (case r of Err e \<Rightarrow> Err (f e) | Ok x \<Rightarrow> Ok x)"

definition ok_or :: "'e \<Rightarrow> 'a option \<Rightarrow> 'e + 'a" where
  "ok_or e x = (case x of None \<Rightarrow> Err e | Some v \<Rightarrow> Ok v)"

text \<open>\<open>Iterator::collect\<close> into a \<open>Result\<close>: the first error wins.\<close>

fun try_collect :: "('a \<Rightarrow> 'e + 'b) \<Rightarrow> 'a list \<Rightarrow> 'e + 'b list" where
  "try_collect f [] = Ok []"
| "try_collect f (x # xs) = and_then (f x) (\<lambda>y. and_then (try_collect f xs) (\<lambda>ys. Ok (y # ys)))"

lemma and_then_simps [simp]:
  "and_then (Ok x) f = f x"
  "and_then (Err e) f = Err e"
  by (simp_all add: and_then_def)

lemma map_err_simps [simp]:
  "map_err f (Ok x) = Ok x"
  "map_err f (Err e) = Err (f e)"
  by (simp_all add: map_err_def)

lemma ok_or_simps [simp]:
  "ok_or e (Some x) = Ok x"
  "ok_or e None = Err e"
  by (simp_all add: ok_or_def)

lemma and_then_eq_Ok: "and_then r f = Ok y \<longleftrightarrow> (\<exists>x. r = Ok x \<and> f x = Ok y)"
  by (cases r) auto

lemma map_err_eq_Ok: "map_err f r = Ok y \<longleftrightarrow> r = Ok y"
  by (cases r) auto

lemma ok_or_eq_Ok: "ok_or e x = Ok y \<longleftrightarrow> x = Some y"
  by (cases x) auto

lemmas result_Ok_iffs = and_then_eq_Ok map_err_eq_Ok ok_or_eq_Ok

lemma try_collect_eq_Ok:
  "try_collect f xs = Ok ys \<longleftrightarrow> list_all2 (\<lambda>x y. f x = Ok y) xs ys"
proof (induction xs arbitrary: ys)
  case (Cons x xs)
  then show ?case by (cases ys) (auto simp: and_then_eq_Ok)
qed auto

section \<open>Checked and saturating arithmetic\<close>

definition checked_add :: "'a::len word \<Rightarrow> 'a word \<Rightarrow> 'a word option" where
  "checked_add a b = (if unat a + unat b < 2 ^ LENGTH('a) then Some (a + b) else None)"

definition checked_mul :: "'a::len word \<Rightarrow> 'a word \<Rightarrow> 'a word option" where
  "checked_mul a b = (if unat a * unat b < 2 ^ LENGTH('a) then Some (a * b) else None)"

definition saturating_add :: "'a::len word \<Rightarrow> 'a word \<Rightarrow> 'a word" where
  "saturating_add a b = (if unat a + unat b < 2 ^ LENGTH('a) then a + b else - 1)"

lemma unat_of_nat_small: "n < 2 ^ LENGTH('a) \<Longrightarrow> unat (word_of_nat n :: 'a::len word) = n"
  by (simp add: unat_of_nat)

lemma unat_add_small:
  "unat a + unat b < 2 ^ LENGTH('a) \<Longrightarrow> unat (a + b :: 'a::len word) = unat a + unat b"
  by (simp add: unat_word_ariths)

lemma unat_mult_small:
  "unat a * unat b < 2 ^ LENGTH('a) \<Longrightarrow> unat (a * b :: 'a::len word) = unat a * unat b"
  by (simp add: unat_word_ariths)

lemma checked_add_eq_Some:
  "checked_add a b = Some c \<longleftrightarrow>
     unat a + unat b < 2 ^ LENGTH('a) \<and> unat (c :: 'a::len word) = unat a + unat b"
  by (auto simp: checked_add_def unat_add_small word_unat_eq_iff)

lemma checked_mul_eq_Some:
  "checked_mul a b = Some c \<longleftrightarrow>
     unat a * unat b < 2 ^ LENGTH('a) \<and> unat (c :: 'a::len word) = unat a * unat b"
  by (auto simp: checked_mul_def unat_mult_small word_unat_eq_iff)

lemma checked_add_fits:
  "unat a + unat b < 2 ^ LENGTH('a) \<Longrightarrow>
   \<exists>c :: 'a::len word. checked_add a b = Some c \<and> unat c = unat a + unat b"
  by (simp add: checked_add_def unat_add_small)

lemma checked_mul_fits:
  "unat a * unat b < 2 ^ LENGTH('a) \<Longrightarrow>
   \<exists>c :: 'a::len word. checked_mul a b = Some c \<and> unat c = unat a * unat b"
  by (simp add: checked_mul_def unat_mult_small)

lemma unat_minus_one_max: "unat (- 1 :: 'a::len word) = 2 ^ LENGTH('a) - 1"
  by (simp add: unsigned_minus_1_eq_mask mask_eq_exp_minus_1)

lemma unat_saturating_add:
  "unat (saturating_add a b :: 'a::len word) = min (unat a + unat b) (2 ^ LENGTH('a) - 1)"
  by (auto simp: saturating_add_def unat_add_small unat_minus_one_max)

section \<open>Words as bytes\<close>

primrec le_bytes :: "nat \<Rightarrow> 'a::len word \<Rightarrow> bytes" where
  "le_bytes 0 w = []"
| "le_bytes (Suc n) w = ucast w # le_bytes n (drop_bit 8 w)"

primrec from_le_bytes :: "bytes \<Rightarrow> 'a::len word" where
  "from_le_bytes [] = 0"
| "from_le_bytes (b # bs) = ucast b OR push_bit 8 (from_le_bytes bs)"

definition be_bytes :: "nat \<Rightarrow> 'a::len word \<Rightarrow> bytes" where
  "be_bytes n w = rev (le_bytes n w)"

definition from_be_bytes :: "bytes \<Rightarrow> 'a::len word" where
  "from_be_bytes bs = from_le_bytes (rev bs)"

lemma length_le_bytes [simp, layout_simps]: "length (le_bytes n w) = n"
  by (induction n arbitrary: w) auto

lemma length_be_bytes [simp, layout_simps]: "length (be_bytes n w) = n"
  by (simp add: be_bytes_def)

lemma bit_from_le_bytes:
  "bit (from_le_bytes bs :: 'a::len word) i \<longleftrightarrow>
    i < LENGTH('a) \<and> i < 8 * length bs \<and> bit (bs ! (i div 8)) (i mod 8)"
proof (induction bs arbitrary: i)
  case (Cons b bs)
  show ?case
  proof (cases "i < 8")
    case True
    then show ?thesis by (auto simp: bit_simps)
  next
    case False
    then have "i div 8 = Suc ((i - 8) div 8)" "i mod 8 = (i - 8) mod 8"
      by (auto simp: div_if [of i 8] mod_if [of i 8])
    with False show ?thesis using Cons.IH [of "i - 8"]
      by (auto simp: bit_simps dest: bit_imp_le_length)
  qed
qed simp

lemma nth_le_bytes: "k < n \<Longrightarrow> le_bytes n w ! k = ucast (drop_bit (8 * k) w)"
proof (induction n arbitrary: w k)
  case (Suc n)
  then show ?case by (cases k) (auto simp: algebra_simps)
qed simp

lemma from_le_bytes_le_bytes: "from_le_bytes (le_bytes n w) = take_bit (8 * n) (w :: 'a::len word)"
proof (rule bit_word_eqI)
  fix i
  assume "i < LENGTH('a)"
  moreover have "i < 8 * n \<Longrightarrow> i div 8 < n" by auto
  moreover have "8 * (i div 8) + i mod 8 = i" by simp
  ultimately show "bit (from_le_bytes (le_bytes n w) :: 'a word) i \<longleftrightarrow> bit (take_bit (8 * n) w) i"
    by (auto simp: bit_from_le_bytes nth_le_bytes bit_simps)
qed

lemma take_bit_length_word: "LENGTH('a) \<le> n \<Longrightarrow> take_bit n (w :: 'a::len word) = w"
  by (rule bit_word_eqI) (auto simp: bit_simps)

lemma from_le_bytes_inverse [simp]:
  "LENGTH('a) \<le> 8 * n \<Longrightarrow> from_le_bytes (le_bytes n w) = (w :: 'a::len word)"
  by (simp add: from_le_bytes_le_bytes take_bit_length_word)

lemma from_be_bytes_inverse [simp]:
  "LENGTH('a) \<le> 8 * n \<Longrightarrow> from_be_bytes (be_bytes n w) = (w :: 'a::len word)"
  by (simp add: from_be_bytes_def be_bytes_def)

lemma le_bytes_from_le_bytes:
  assumes "8 * length bs \<le> LENGTH('a)"
  shows "le_bytes (length bs) (from_le_bytes bs :: 'a::len word) = bs"
proof (rule nth_equalityI)
  fix k
  assume "k < length (le_bytes (length bs) (from_le_bytes bs :: 'a word))"
  then have k: "k < length bs" by simp
  show "le_bytes (length bs) (from_le_bytes bs :: 'a word) ! k = bs ! k"
  proof (rule bit_word_eqI)
    fix i
    assume "i < LENGTH(8)"
    with k assms show
      "bit (le_bytes (length bs) (from_le_bytes bs :: 'a word) ! k) i = bit (bs ! k) i"
      by (auto simp: nth_le_bytes bit_simps bit_from_le_bytes)
  qed
qed simp

text \<open>Integer arithmetic for the evaluation of the two conversions.\<close>

primrec le_int :: "bytes \<Rightarrow> int" where
  "le_int [] = 0"
| "le_int (b # bs) = uint b + 256 * le_int bs"

primrec int_le_bytes :: "nat \<Rightarrow> int \<Rightarrow> bytes" where
  "int_le_bytes 0 i = []"
| "int_le_bytes (Suc n) i = word_of_int i # int_le_bytes n (i div 256)"

lemma from_le_bytes_int [code]: "from_le_bytes bs = (word_of_int (le_int bs) :: 'a::len word)"
proof (induction bs)
  case (Cons b bs)
  have "ucast b OR push_bit 8 (from_le_bytes bs) = ucast b + push_bit 8 (from_le_bytes bs :: 'a word)"
    by (rule sym, rule disjunctive_add_eq_or, rule bit_word_eqI)
      (auto simp: bit_simps dest: bit_imp_le_length)
  also have "\<dots> = word_of_int (le_int (b # bs))" by (simp add: Cons push_bit_eq_mult)
  finally show ?case by simp
qed simp

lemma le_bytes_int [code]: "le_bytes n (w :: 'a::len word) = int_le_bytes n (uint w)"
proof (induction n arbitrary: w)
  case (Suc n)
  have "uint (drop_bit 8 w) = drop_bit 8 (uint w)"
    by (rule bit_eqI) (auto simp: bit_simps dest: bit_imp_le_length)
  then have "uint (drop_bit 8 w) = uint w div 256" by (simp only: drop_bit_eq_div) simp
  moreover have "(ucast w :: u8) = word_of_int (uint w)" by simp
  ultimately show ?case by (simp add: Suc)
qed simp

text \<open>\<open>u16::to_be\<close> and \<open>u16::from_be\<close> on a little-endian target.\<close>

definition to_be16 :: "u16 \<Rightarrow> u16" where
  "to_be16 v = from_le_bytes (be_bytes 2 v)"

definition from_be16 :: "u16 \<Rightarrow> u16" where
  "from_be16 v = from_be_bytes (le_bytes 2 v)"

lemma from_to_be16: "from_be16 (to_be16 v) = v" "to_be16 (from_be16 v) = v"
proof -
  have "le_bytes 2 (to_be16 v) = be_bytes 2 v" for v
    using le_bytes_from_le_bytes [of "be_bytes 2 v", where 'a = 16] by (simp add: to_be16_def be_bytes_def)
  then show "from_be16 (to_be16 v) = v"
    by (simp add: from_be16_def from_be_bytes_def be_bytes_def from_le_bytes_inverse)
  have "be_bytes 2 (from_be16 v) = le_bytes 2 v"
    using le_bytes_from_le_bytes [of "rev (le_bytes 2 v)", where 'a = 16] by (simp add: from_be16_def be_bytes_def from_be_bytes_def)
  then show "to_be16 (from_be16 v) = v" by (simp add: to_be16_def from_le_bytes_inverse)
qed

section \<open>Text as bytes\<close>

text \<open>A Rust \<open>str\<close> is its UTF-8 byte sequence; \<open>char\<close> is HOL's type of 8-bit characters.\<close>

definition byte_of_char :: "char \<Rightarrow> u8" where
  "byte_of_char c = word_of_nat (of_char c)"

definition char_of_byte :: "u8 \<Rightarrow> char" where
  "char_of_byte b = char_of (unat b)"

definition as_bytes :: "string \<Rightarrow> bytes" where
  "as_bytes s = map byte_of_char s"

lemma char_of_byte_inverse [simp]: "char_of_byte (byte_of_char c) = c"
proof -
  have "of_char c < (256 :: nat)" by simp
  then show ?thesis by (simp add: char_of_byte_def byte_of_char_def unat_of_nat)
qed

lemma byte_of_char_inverse [simp]: "byte_of_char (char_of_byte b) = b"
proof -
  have "unat b < 256" using unsigned_less [of b, where ?'a = nat] by simp
  then show ?thesis by (simp add: char_of_byte_def byte_of_char_def)
qed

lemma byte_of_char_eq_iff [simp]: "byte_of_char c = byte_of_char d \<longleftrightarrow> c = d"
  by (metis char_of_byte_inverse)

lemma length_as_bytes [simp, layout_simps]: "length (as_bytes s) = length s"
  by (simp add: as_bytes_def)

lemma as_bytes_simps [simp]:
  "as_bytes [] = []"
  "as_bytes (c # s) = byte_of_char c # as_bytes s"
  "as_bytes (s @ t) = as_bytes s @ as_bytes t"
  by (simp_all add: as_bytes_def)

lemma as_bytes_inj [simp]: "as_bytes s = as_bytes t \<longleftrightarrow> s = t"
  by (auto simp: as_bytes_def inj_map_eq_map inj_def)

lemma map_char_of_byte_as_bytes [simp]: "map char_of_byte (as_bytes s) = s"
  by (induction s) auto

section \<open>Slices and iterators\<close>

text \<open>\<open>slice.get(a..b)\<close>.\<close>

definition slice_get :: "nat \<Rightarrow> nat \<Rightarrow> 'a list \<Rightarrow> 'a list option" where
  "slice_get a b xs = (if a \<le> b \<and> b \<le> length xs then Some (take (b - a) (drop a xs)) else None)"

text \<open>\<open>&xs[a..b]\<close> at indices the caller has checked.\<close>

definition slice :: "nat \<Rightarrow> nat \<Rightarrow> 'a list \<Rightarrow> 'a list" where
  "slice a b xs = take (b - a) (drop a xs)"

text \<open>\<open>Iterator::position\<close> and \<open>Iterator::find_map\<close>.\<close>

fun position :: "('a \<Rightarrow> bool) \<Rightarrow> 'a list \<Rightarrow> nat option" where
  "position P [] = None"
| "position P (x # xs) = (if P x then Some 0 else map_option Suc (position P xs))"

fun find_map :: "('a \<Rightarrow> 'b option) \<Rightarrow> 'a list \<Rightarrow> 'b option" where
  "find_map f [] = None"
| "find_map f (x # xs) = (case f x of None \<Rightarrow> find_map f xs | Some y \<Rightarrow> Some y)"

lemma length_slice [simp, layout_simps]:
  "a \<le> b \<Longrightarrow> b \<le> length xs \<Longrightarrow> length (slice a b xs) = b - a"
  by (simp add: slice_def)

lemma slice_get_eq_Some:
  "slice_get a b xs = Some ys \<longleftrightarrow> a \<le> b \<and> b \<le> length xs \<and> ys = slice a b xs"
  by (auto simp: slice_get_def slice_def)

lemma slice_append [layout_simps]:
  "slice a b (xs @ ys) =
    (if b \<le> length xs then slice a b xs
     else if length xs \<le> a then slice (a - length xs) (b - length xs) ys
     else slice a (length xs) xs @ slice 0 (b - length xs) ys)"
  by (auto simp: slice_def)

lemma slice_full [simp, layout_simps]: "slice 0 (length xs) xs = xs"
  by (simp add: slice_def)

lemma position_eq_Some:
  "position P xs = Some i \<longleftrightarrow> i < length xs \<and> P (xs ! i) \<and> (\<forall>j<i. \<not> P (xs ! j))"
proof (induction xs arbitrary: i)
  case (Cons x xs)
  show ?case
  proof (cases i)
    case 0
    then show ?thesis by auto
  next
    case (Suc k)
    then show ?thesis by (auto simp: Cons.IH less_Suc_eq_0_disj)
  qed
qed simp

lemma position_eq_None: "position P xs = None \<longleftrightarrow> (\<forall>x\<in>set xs. \<not> P x)"
  by (induction xs) auto

lemma find_map_eq_None: "find_map f xs = None \<longleftrightarrow> (\<forall>x\<in>set xs. f x = None)"
  by (induction xs) (auto split: option.splits)

lemma find_map_SomeD: "find_map f xs = Some y \<Longrightarrow> \<exists>x\<in>set xs. f x = Some y"
  by (induction xs) (auto split: option.splits)

end
