(* ===== verification/List_Mode.thy ===== *)
theory List_Mode
  imports Flux_Prelude
begin

text \<open>
  The two list directions shared by every selectable dimension of the configuration
  (\<open>ListMode\<close> in crates/flux-core/src/config.rs) and the first dimension that uses them, the
  conditional activation on Wi-Fi networks (crates/flux-core/src/ssid.rs). A Rust \<open>&str\<close> is the
  byte string of its UTF-8 encoding; \<open>as_bytes\<close> reads it as a list of \<open>u8\<close>.
\<close>

section \<open>List directions\<close>

datatype list_mode = Whitelist | Blacklist

fun list_mode_as_str :: "list_mode \<Rightarrow> string" where
  "list_mode_as_str Whitelist = ''whitelist''"
| "list_mode_as_str Blacklist = ''blacklist''"

fun list_mode_includes :: "list_mode \<Rightarrow> bool \<Rightarrow> bool" where
  "list_mode_includes Whitelist listed = listed"
| "list_mode_includes Blacklist listed = (\<not> listed)"

section \<open>SSID activation\<close>

record ssid_decision =
  sv_paused :: bool
  sv_matched_entry :: "nat option"

definition ssid_verdict :: "list_mode \<Rightarrow> string list \<Rightarrow> bytes list \<Rightarrow> ssid_decision" where
  "ssid_verdict mode lst connected =
    (if connected = [] then \<lparr>sv_paused = False, sv_matched_entry = None\<rparr>
     else
       let matched_entry =
             position (\<lambda>entry. list_ex (\<lambda>ssid. as_bytes entry = ssid) connected) lst
       in case mode of
            Blacklist \<Rightarrow>
              \<lparr>sv_paused = matched_entry \<noteq> None,
               sv_matched_entry = map_option (\<lambda>index. index + 1) matched_entry\<rparr>
          | Whitelist \<Rightarrow>
              \<lparr>sv_paused = matched_entry = None, sv_matched_entry = None\<rparr>)"

definition ssid_listed :: "string list \<Rightarrow> bytes list \<Rightarrow> bool" where
  "ssid_listed lst connected \<longleftrightarrow> (\<exists>entry\<in>set lst. as_bytes entry \<in> set connected)"

lemma ssid_match_iff:
  "position (\<lambda>entry. list_ex (\<lambda>ssid. as_bytes entry = ssid) connected) lst \<noteq> None \<longleftrightarrow>
   ssid_listed lst connected"
  by (auto simp: position_eq_None ssid_listed_def list_ex_iff)

end
