(* ===== verification/Control_Wire.thy ===== *)
theory Control_Wire
  imports List_Mode
begin

text \<open>
  The control-protocol wire types of crates/flux-core/src/control_wire.rs: the daemon state, the
  request commands and the records a status reply carries. The JSON encoding itself is serde_json's
  and is not modelled; the defaults the code gives to absent fields are.
\<close>

definition MAX_REQUEST_BYTES :: nat where
  "MAX_REQUEST_BYTES = 64 * 1024"

datatype wire_state = St_Disabled | St_Inactive | St_Active

datatype request =
    Req_Status | Req_Check | Req_Enable | Req_Disable | Req_Reload | Req_Subscribe | Req_Stop

record engine_status =
  es_running :: bool
  es_pid :: "u32 option"
  es_sockets_verified :: u8
  es_effective_config :: "string option"

record policy_counts =
  pc_apps_mode :: list_mode
  pc_cidr_mode :: list_mode
  pc_interfaces_mode :: list_mode
  pc_selected :: u32
  pc_draining :: u32
  pc_bypass_v4 :: u32
  pc_bypass_v6 :: u32
  pc_self_addresses :: u32

definition policy_counts_default :: policy_counts where
  "policy_counts_default =
    \<lparr>pc_apps_mode = Whitelist, pc_cidr_mode = Blacklist, pc_interfaces_mode = Blacklist,
     pc_selected = 0, pc_draining = 0, pc_bypass_v4 = 0, pc_bypass_v6 = 0,
     pc_self_addresses = 0\<rparr>"

record root_manager_status =
  rm_name :: string
  rm_version :: string
  rm_runtime_mode :: string

definition root_manager_status_default :: root_manager_status where
  "root_manager_status_default =
    \<lparr>rm_name = ''unknown'', rm_version = ''unknown'', rm_runtime_mode = ''n/a''\<rparr>"

record iface_status =
  if_name :: string
  if_ifindex :: u32
  if_arphrd :: "string option"
  if_entry :: "string option"
  if_status :: string
  if_prog_id :: "u32 option"
  if_prog_tag :: "string option"
  if_pref :: "u16 option"
  if_reachable :: "bool option"
  if_reason :: "string option"

record ssid_status =
  ss_connected :: "bool option"
  ss_paused :: bool
  ss_matched_entry :: "nat option"

record counters =
  admit_tcp :: u64
  direct_tcp :: u64
  admit_udp :: u64
  drop_inactive :: u64
  drop_stale_gen :: u64
  drop_handoff :: u64
  drop_selected_fragment :: u64
  drop_corrupt :: u64
  decision_alloc_fail :: u64
  egress_listener_miss :: u64
  in_assign_tcp :: u64
  in_assign_udp :: u64
  in_pass_established :: u64
  in_pass_fragment :: u64
  in_drop_no_listener :: u64
  in_drop_assign :: u64
  in_drop_parse :: u64
  in_drop_snapshot :: u64

record response =
  rsp_ok :: bool
  rsp_version :: string
  rsp_abi_magic :: string
  rsp_state :: wire_state
  rsp_generation :: u64
  rsp_backoff_seconds :: u64
  rsp_root_manager :: root_manager_status
  rsp_engine :: engine_status
  rsp_policy :: policy_counts
  rsp_ssid :: "ssid_status option"
  rsp_ifaces :: "iface_status list"
  rsp_counters :: counters
  rsp_sysctl :: "(string \<times> int) list"
  rsp_warnings :: "string list"
  rsp_hints :: "string list"
  rsp_last_error :: "string option"

end
