(* ===== verification/Runtime.thy ===== *)
theory Runtime
  imports Control_Wire
begin

text \<open>
  The pure lifecycle planner of crates/flux-core/src/runtime.rs: phases, stimuli, adapter commands,
  the event table \<open>step\<close>, command identities (\<open>plan\<close>), the reconstruction of a phase from observed
  facts (\<open>Phase::observe\<close>), the status projection (\<open>project\<close>) and the engine generation counter.

  Constructors keep the source's names; a phase is prefixed \<open>Ph\<close> and a display kind \<open>Dk\<close> where two
  enumerations share a variant name. Lemmas: what every step keeps, the order in which capture is
  frozen, the freshness of command identities over a run, and the agreement of the projections.
\<close>

section \<open>Phases, stimuli and commands\<close>

datatype phase =
  Ph_Disabled | Ph_Stopping | Ph_Paused | Ph_Inactive | Ph_Activating | Ph_Active

datatype stimulus =
    Bootstrap
  | Enable
  | Disable
  | Reload
  | Stop
  | Status
  | Check
  | NewInterface
  | InterfaceGone (last_active_iface: bool)
  | AddressChange
  | CaptureSideDrift
  | CoreDrift
  | NetlinkOverrun
  | FluxTomlChanged
  | TemplateOrListChanged
  | PackagesChanged
  | SsidPause
  | SsidResume
  | EngineExited
  | CurrentGenerationFault
  | StaleOrDuplicateFault
  | DebounceExpired
  | BackoffExpired
  | ReadinessBackoff
  | Sighup
  | Sigterm
  | ActivationCommitted
  | ActivationFailed
  | EngineStopped

datatype command_kind =
    IgnoreUnexpected
  | AttemptActivation
  | StopEngine
  | PublishInactive
  | ExitProcess
  | RevalidateOnly
  | PolicyTransaction
  | EngineCandidateSwitch
  | ReevaluateAdmission
  | AdmitAndAttach
  | ExcludeInterface
  | UpdateSelfAddresses
  | ReattachCaptureLocally
  | FullRedump
  | RegenerateThenSwitch
  | ReparseThenPolicy
  | RestartWithBackoff
  | ClearLatchOnly
  | RunPendingConvergence
  | RetryActivation
  | RecheckSockDiag

record cmd =
  cmd_id :: u64
  cmd_kind :: command_kind

record model =
  m_phase :: phase
  m_next_id :: u64

definition model_new :: "phase \<Rightarrow> model" where
  "model_new p = \<lparr>m_phase = p, m_next_id = 1\<rparr>"

record step_result =
  st_phase :: phase
  st_commands :: "command_kind list"

section \<open>The event table\<close>

definition stay :: "phase \<Rightarrow> step_result" where
  "stay p = \<lparr>st_phase = p, st_commands = []\<rparr>"

definition with_cmds :: "phase \<Rightarrow> command_kind list \<Rightarrow> step_result" where
  "with_cmds p cs = \<lparr>st_phase = p, st_commands = cs\<rparr>"

definition unexpected :: "phase \<Rightarrow> step_result" where
  "unexpected p = with_cmds p [IgnoreUnexpected]"

fun step :: "phase \<Rightarrow> stimulus \<Rightarrow> step_result" where
  "step p Status = stay p"
| "step p Check = stay p"
| "step p Bootstrap =
    (case p of
       Ph_Disabled \<Rightarrow> stay p
     | Ph_Stopping \<Rightarrow> stay p
     | Ph_Inactive \<Rightarrow> with_cmds p [AttemptActivation]
     | Ph_Paused \<Rightarrow> with_cmds p [AttemptActivation]
     | Ph_Activating \<Rightarrow> unexpected p
     | Ph_Active \<Rightarrow> unexpected p)"
| "step p Enable =
    (case p of
       Ph_Disabled \<Rightarrow> with_cmds Ph_Inactive [AttemptActivation]
     | _ \<Rightarrow> stay p)"
| "step p Disable =
    (case p of
       Ph_Disabled \<Rightarrow> stay p
     | Ph_Stopping \<Rightarrow> stay p
     | Ph_Inactive \<Rightarrow> with_cmds Ph_Stopping [StopEngine]
     | Ph_Paused \<Rightarrow> with_cmds Ph_Stopping [StopEngine]
     | Ph_Activating \<Rightarrow> with_cmds Ph_Stopping [StopEngine]
     | Ph_Active \<Rightarrow> with_cmds Ph_Stopping [PublishInactive, StopEngine])"
| "step p Reload =
    (case p of
       Ph_Disabled \<Rightarrow> with_cmds p [RevalidateOnly]
     | Ph_Stopping \<Rightarrow> with_cmds p [RevalidateOnly]
     | Ph_Inactive \<Rightarrow> with_cmds p [AttemptActivation]
     | Ph_Paused \<Rightarrow> with_cmds p [AttemptActivation]
     | Ph_Activating \<Rightarrow> stay p
     | Ph_Active \<Rightarrow> with_cmds Ph_Active [PolicyTransaction, EngineCandidateSwitch])"
| "step p Sighup =
    (case p of
       Ph_Disabled \<Rightarrow> with_cmds p [RevalidateOnly]
     | Ph_Stopping \<Rightarrow> with_cmds p [RevalidateOnly]
     | Ph_Inactive \<Rightarrow> with_cmds p [AttemptActivation]
     | Ph_Paused \<Rightarrow> with_cmds p [AttemptActivation]
     | Ph_Activating \<Rightarrow> stay p
     | Ph_Active \<Rightarrow> with_cmds Ph_Active [PolicyTransaction, EngineCandidateSwitch])"
| "step p Stop =
    (case p of
       Ph_Disabled \<Rightarrow> with_cmds p [ExitProcess]
     | Ph_Stopping \<Rightarrow> with_cmds p [ExitProcess]
     | _ \<Rightarrow> with_cmds Ph_Stopping [PublishInactive, StopEngine, ExitProcess])"
| "step p Sigterm =
    (case p of
       Ph_Disabled \<Rightarrow> with_cmds p [ExitProcess]
     | Ph_Stopping \<Rightarrow> with_cmds p [ExitProcess]
     | _ \<Rightarrow> with_cmds Ph_Stopping [PublishInactive, StopEngine, ExitProcess])"
| "step p NewInterface =
    (case p of
       Ph_Disabled \<Rightarrow> stay p
     | Ph_Stopping \<Rightarrow> stay p
     | Ph_Inactive \<Rightarrow> with_cmds p [ReevaluateAdmission]
     | Ph_Paused \<Rightarrow> with_cmds p [ReevaluateAdmission]
     | Ph_Activating \<Rightarrow> stay p
     | Ph_Active \<Rightarrow> with_cmds Ph_Active [AdmitAndAttach])"
| "step p (InterfaceGone lst) =
    (case p of
       Ph_Disabled \<Rightarrow> stay p
     | Ph_Stopping \<Rightarrow> stay p
     | Ph_Inactive \<Rightarrow> with_cmds p [ReevaluateAdmission]
     | Ph_Paused \<Rightarrow> with_cmds p [ReevaluateAdmission]
     | Ph_Activating \<Rightarrow> stay p
     | Ph_Active \<Rightarrow>
         (if lst then with_cmds Ph_Inactive [PublishInactive, ExcludeInterface]
          else with_cmds Ph_Active [ExcludeInterface]))"
| "step p AddressChange =
    (case p of
       Ph_Disabled \<Rightarrow> stay p
     | Ph_Stopping \<Rightarrow> stay p
     | Ph_Inactive \<Rightarrow> with_cmds p [UpdateSelfAddresses]
     | Ph_Paused \<Rightarrow> with_cmds p [UpdateSelfAddresses]
     | Ph_Activating \<Rightarrow> with_cmds p [UpdateSelfAddresses]
     | Ph_Active \<Rightarrow> with_cmds Ph_Active [UpdateSelfAddresses])"
| "step p CaptureSideDrift =
    (case p of
       Ph_Disabled \<Rightarrow> stay p
     | Ph_Stopping \<Rightarrow> stay p
     | Ph_Inactive \<Rightarrow> with_cmds p [RunPendingConvergence]
     | Ph_Paused \<Rightarrow> with_cmds p [RunPendingConvergence]
     | Ph_Activating \<Rightarrow> with_cmds p [RunPendingConvergence]
     | Ph_Active \<Rightarrow> with_cmds Ph_Active [ReattachCaptureLocally])"
| "step p CoreDrift =
    (case p of
       Ph_Disabled \<Rightarrow> stay p
     | Ph_Stopping \<Rightarrow> stay p
     | Ph_Inactive \<Rightarrow> with_cmds p [RunPendingConvergence]
     | Ph_Paused \<Rightarrow> with_cmds p [RunPendingConvergence]
     | Ph_Activating \<Rightarrow> with_cmds p [RunPendingConvergence]
     | Ph_Active \<Rightarrow> with_cmds Ph_Activating [PublishInactive, RunPendingConvergence])"
| "step p NetlinkOverrun =
    (case p of
       Ph_Disabled \<Rightarrow> stay p
     | Ph_Stopping \<Rightarrow> stay p
     | _ \<Rightarrow> with_cmds p [FullRedump])"
| "step p FluxTomlChanged =
    (case p of
       Ph_Disabled \<Rightarrow> with_cmds p [RevalidateOnly]
     | Ph_Stopping \<Rightarrow> with_cmds p [RevalidateOnly]
     | Ph_Inactive \<Rightarrow> with_cmds p [AttemptActivation]
     | Ph_Paused \<Rightarrow> with_cmds p [AttemptActivation]
     | Ph_Activating \<Rightarrow> stay p
     | Ph_Active \<Rightarrow> with_cmds Ph_Active [PolicyTransaction])"
| "step p TemplateOrListChanged =
    (case p of
       Ph_Disabled \<Rightarrow> with_cmds p [RevalidateOnly]
     | Ph_Stopping \<Rightarrow> with_cmds p [RevalidateOnly]
     | Ph_Inactive \<Rightarrow> with_cmds p [AttemptActivation]
     | Ph_Paused \<Rightarrow> with_cmds p [AttemptActivation]
     | Ph_Activating \<Rightarrow> stay p
     | Ph_Active \<Rightarrow> with_cmds Ph_Active [RegenerateThenSwitch])"
| "step p PackagesChanged =
    (case p of
       Ph_Disabled \<Rightarrow> stay p
     | Ph_Stopping \<Rightarrow> stay p
     | Ph_Inactive \<Rightarrow> with_cmds p [ReparseThenPolicy]
     | Ph_Paused \<Rightarrow> with_cmds p [ReparseThenPolicy]
     | Ph_Activating \<Rightarrow> stay p
     | Ph_Active \<Rightarrow> with_cmds Ph_Active [ReparseThenPolicy])"
| "step p SsidPause =
    (case p of
       Ph_Disabled \<Rightarrow> stay p
     | Ph_Stopping \<Rightarrow> stay p
     | Ph_Inactive \<Rightarrow> stay Ph_Paused
     | Ph_Paused \<Rightarrow> stay Ph_Paused
     | Ph_Activating \<Rightarrow> with_cmds Ph_Paused [PublishInactive, StopEngine]
     | Ph_Active \<Rightarrow> with_cmds Ph_Paused [PublishInactive, StopEngine])"
| "step p SsidResume =
    (case p of
       Ph_Paused \<Rightarrow> with_cmds Ph_Inactive [AttemptActivation]
     | _ \<Rightarrow> stay p)"
| "step p EngineExited =
    (case p of
       Ph_Disabled \<Rightarrow> unexpected p
     | Ph_Stopping \<Rightarrow> stay Ph_Disabled
     | Ph_Inactive \<Rightarrow> with_cmds p [RestartWithBackoff]
     | Ph_Paused \<Rightarrow> with_cmds p [RestartWithBackoff]
     | Ph_Activating \<Rightarrow> with_cmds Ph_Inactive [PublishInactive, RestartWithBackoff]
     | Ph_Active \<Rightarrow> with_cmds Ph_Inactive [PublishInactive, RestartWithBackoff])"
| "step p CurrentGenerationFault =
    (case p of
       Ph_Disabled \<Rightarrow> unexpected p
     | Ph_Stopping \<Rightarrow> with_cmds p [ClearLatchOnly]
     | Ph_Inactive \<Rightarrow> with_cmds p [ClearLatchOnly]
     | Ph_Paused \<Rightarrow> with_cmds p [ClearLatchOnly]
     | Ph_Activating \<Rightarrow> with_cmds Ph_Inactive [PublishInactive, RestartWithBackoff]
     | Ph_Active \<Rightarrow> with_cmds Ph_Inactive [PublishInactive, RestartWithBackoff])"
| "step p StaleOrDuplicateFault = with_cmds p [ClearLatchOnly]"
| "step p DebounceExpired =
    (case p of
       Ph_Disabled \<Rightarrow> stay p
     | Ph_Stopping \<Rightarrow> stay p
     | _ \<Rightarrow> with_cmds p [RunPendingConvergence])"
| "step p BackoffExpired =
    (case p of
       Ph_Disabled \<Rightarrow> stay p
     | Ph_Stopping \<Rightarrow> stay p
     | _ \<Rightarrow> with_cmds p [RetryActivation])"
| "step p ReadinessBackoff =
    (case p of
       Ph_Disabled \<Rightarrow> stay p
     | Ph_Stopping \<Rightarrow> stay p
     | _ \<Rightarrow> with_cmds p [RecheckSockDiag])"
| "step p ActivationCommitted =
    (case p of
       Ph_Activating \<Rightarrow> stay Ph_Active
     | _ \<Rightarrow> unexpected p)"
| "step p ActivationFailed =
    (case p of
       Ph_Activating \<Rightarrow> with_cmds Ph_Inactive [PublishInactive]
     | _ \<Rightarrow> unexpected p)"
| "step p EngineStopped =
    (case p of
       Ph_Stopping \<Rightarrow> stay Ph_Disabled
     | _ \<Rightarrow> unexpected p)"

section \<open>Command identities\<close>

text \<open>The closure that \<open>plan\<close> maps over the commands: it reads and advances \<open>next_id\<close>.\<close>

fun assign_ids :: "u64 \<Rightarrow> command_kind list \<Rightarrow> u64 \<times> cmd list" where
  "assign_ids n [] = (n, [])"
| "assign_ids n (k # ks) =
    (let (n', cs) = assign_ids (saturating_add n 1) ks
     in (n', \<lparr>cmd_id = n, cmd_kind = k\<rparr> # cs))"

definition plan :: "model \<Rightarrow> stimulus \<Rightarrow> model \<times> cmd list" where
  "plan m s =
    (let stepped = step (m_phase m) s;
         (n, cs) = assign_ids (m_next_id m) (st_commands stepped)
     in (m\<lparr>m_phase := st_phase stepped, m_next_id := n\<rparr>, cs))"

definition freezes_capture :: "command_kind list \<Rightarrow> bool" where
  "freezes_capture cs \<longleftrightarrow> PublishInactive \<in> set cs"

fun needs_converge :: "command_kind \<Rightarrow> bool" where
  "needs_converge AttemptActivation = True"
| "needs_converge PolicyTransaction = True"
| "needs_converge EngineCandidateSwitch = True"
| "needs_converge ReevaluateAdmission = True"
| "needs_converge AdmitAndAttach = True"
| "needs_converge ExcludeInterface = True"
| "needs_converge UpdateSelfAddresses = True"
| "needs_converge ReattachCaptureLocally = True"
| "needs_converge FullRedump = True"
| "needs_converge RegenerateThenSwitch = True"
| "needs_converge ReparseThenPolicy = True"
| "needs_converge RunPendingConvergence = True"
| "needs_converge RetryActivation = True"
| "needs_converge _ = False"

section \<open>Observation and projection\<close>

record observation =
  disable_present :: bool
  shutdown :: bool
  ssid_paused :: bool
  engine_present :: bool
  dataplane_active :: bool
  awaiting_commit :: bool
  convergence_busy :: bool

definition observe :: "observation \<Rightarrow> phase" where
  "observe ob =
    (if disable_present ob \<or> shutdown ob then
       (if engine_present ob \<or> convergence_busy ob then Ph_Stopping else Ph_Disabled)
     else if ssid_paused ob then Ph_Paused
     else if dataplane_active ob \<and> engine_present ob \<and> \<not> awaiting_commit ob then Ph_Active
     else if engine_present ob \<or> awaiting_commit ob \<or> convergence_busy ob then Ph_Activating
     else Ph_Inactive)"

datatype display_kind = Dk_Running | Dk_Failed | Dk_Starting | Dk_Paused | Dk_Stopped | Dk_Stopping

record committed_view =
  cv_state :: wire_state
  cv_display :: display_kind
  cv_engine_running :: bool

fun project :: "phase \<Rightarrow> string option \<Rightarrow> committed_view" where
  "project Ph_Active err =
    \<lparr>cv_state = St_Active, cv_display = Dk_Running, cv_engine_running = True\<rparr>"
| "project Ph_Disabled err =
    \<lparr>cv_state = St_Disabled, cv_display = Dk_Stopped, cv_engine_running = False\<rparr>"
| "project Ph_Stopping err =
    \<lparr>cv_state = St_Inactive, cv_display = Dk_Stopping, cv_engine_running = False\<rparr>"
| "project Ph_Paused err =
    \<lparr>cv_state = St_Inactive, cv_display = Dk_Paused, cv_engine_running = False\<rparr>"
| "project Ph_Activating err =
    \<lparr>cv_state = St_Inactive,
     cv_display = (if err \<noteq> None then Dk_Failed else Dk_Starting),
     cv_engine_running = False\<rparr>"
| "project Ph_Inactive err =
    \<lparr>cv_state = St_Inactive,
     cv_display = (if err \<noteq> None then Dk_Failed else Dk_Starting),
     cv_engine_running = False\<rparr>"

section \<open>Engine generations\<close>

record generations =
  g_next :: u64
  g_committed :: u64

definition generations_new :: generations where
  "generations_new = \<lparr>g_next = 1, g_committed = 0\<rparr>"

text \<open>\<open>None\<close> is the panic of \<open>expect\<close> on counter overflow.\<close>

definition allocate :: "generations \<Rightarrow> (generations \<times> u64) option" where
  "allocate g =
    (case checked_add (g_next g) 1 of
       None \<Rightarrow> None
     | Some n \<Rightarrow> Some (g\<lparr>g_next := n\<rparr>, g_next g))"

definition gen_commit :: "generations \<Rightarrow> u64 \<Rightarrow> generations" where
  "gen_commit g i = g\<lparr>g_committed := i\<rparr>"

definition peek_next :: "generations \<Rightarrow> u64" where
  "peek_next g = g_next g"

definition fault_is_current :: "generations \<Rightarrow> u64 \<Rightarrow> u64 option \<Rightarrow> bool" where
  "fault_is_current g event_generation child_generation \<longleftrightarrow>
     g_committed g \<noteq> 0
     \<and> event_generation = g_committed g
     \<and> child_generation = Some (g_committed g)"

section \<open>Single steps\<close>

lemmas step_result_defs = stay_def with_cmds_def unexpected_def

lemma step_leaves_active:
  "st_phase (step Ph_Active s) \<noteq> Ph_Active \<Longrightarrow>
     \<exists>cs. st_commands (step Ph_Active s) = PublishInactive # cs \<and> PublishInactive \<notin> set cs"
  by (cases s) (auto simp: step_result_defs split: if_splits)

lemma step_stays_active:
  "st_phase (step Ph_Active s) = Ph_Active \<Longrightarrow> PublishInactive \<notin> set (st_commands (step Ph_Active s))"
  by (cases s) (auto simp: step_result_defs split: if_splits)

lemma step_enters_active:
  "st_phase (step p s) = Ph_Active \<Longrightarrow> p = Ph_Active \<or> p = Ph_Activating \<and> s = ActivationCommitted"
  by (cases s; cases p) (auto simp: step_result_defs split: if_splits)

lemma step_ignore_unexpected:
  "IgnoreUnexpected \<in> set (st_commands (step p s)) \<Longrightarrow> step p s = unexpected p"
  by (cases s; cases p) (auto simp: step_result_defs split: if_splits)

abbreviation off_phases :: "phase set" where
  "off_phases \<equiv> {Ph_Disabled, Ph_Stopping}"

abbreviation off_commands :: "command_kind set" where
  "off_commands \<equiv> {IgnoreUnexpected, RevalidateOnly, ExitProcess, ClearLatchOnly}"

lemma step_off:
  "p \<in> off_phases \<Longrightarrow> s \<noteq> Enable \<Longrightarrow>
     st_phase (step p s) \<in> off_phases \<and> set (st_commands (step p s)) \<subseteq> off_commands"
  by (cases s) (auto simp: step_result_defs)

lemma off_commands_do_not_converge: "k \<in> off_commands \<Longrightarrow> \<not> needs_converge k"
  by auto

section \<open>Runs of an event loop\<close>

text \<open>The loop of the daemon: one event after the other, the emitted commands in order.\<close>

primrec run_events :: "('m \<Rightarrow> 's \<Rightarrow> 'm \<times> 'c list) \<Rightarrow> 'm \<Rightarrow> 's list \<Rightarrow> 'm \<times> 'c list" where
  "run_events emit m [] = (m, [])"
| "run_events emit m (s # ss) =
    (let (m', cs) = emit m s; (m'', ds) = run_events emit m' ss in (m'', cs @ ds))"

text \<open>
  What the adapter relies on: an emitter numbers its commands consecutively from its counter, as
  long as the counter does not saturate. The consequence over whole runs is proved once.
\<close>

locale command_numbering =
  fixes emit :: "'m \<Rightarrow> 's \<Rightarrow> 'm \<times> 'c list"
    and counter :: "'m \<Rightarrow> u64"
    and ident :: "'c \<Rightarrow> u64"
  assumes consecutive:
    "emit m s = (m', cs) \<Longrightarrow> unat (counter m) + length cs < 2 ^ 64 \<Longrightarrow>
       map (\<lambda>c. unat (ident c)) cs = [unat (counter m) ..< unat (counter m')]
       \<and> unat (counter m') = unat (counter m) + length cs"
begin

lemma run_numbered:
  "run_events emit m ss = (m', cs) \<Longrightarrow> unat (counter m) + length cs < 2 ^ 64 \<Longrightarrow>
     map (\<lambda>c. unat (ident c)) cs = [unat (counter m) ..< unat (counter m')]
     \<and> unat (counter m') = unat (counter m) + length cs"
proof (induction ss arbitrary: m cs)
  case Nil
  then show ?case by simp
next
  case (Cons s ss)
  obtain m1 cs1 where e: "emit m s = (m1, cs1)" by (cases "emit m s")
  obtain m2 cs2 where r: "run_events emit m1 ss = (m2, cs2)" by (cases "run_events emit m1 ss")
  from Cons.prems e r have cs: "cs = cs1 @ cs2" and m': "m' = m2" by auto
  have 1: "map (\<lambda>c. unat (ident c)) cs1 = [unat (counter m) ..< unat (counter m1)]"
    "unat (counter m1) = unat (counter m) + length cs1"
    using consecutive [OF e] Cons.prems(2) by (simp_all add: cs)
  have 2: "map (\<lambda>c. unat (ident c)) cs2 = [unat (counter m1) ..< unat (counter m')]"
    "unat (counter m') = unat (counter m1) + length cs2"
    using Cons.IH [OF r [folded m']] Cons.prems(2) 1(2) by (simp_all add: cs)
  have "[unat (counter m) ..< unat (counter m')] =
      [unat (counter m) ..< unat (counter m1)] @ [unat (counter m1) ..< unat (counter m')]"
    unfolding 2(2) using 1(2) by (intro upt_add_eq_append) simp
  with 1(1) 2(1) have "map (\<lambda>c. unat (ident c)) cs = [unat (counter m) ..< unat (counter m')]"
    by (simp only: cs map_append)
  moreover have "unat (counter m') = unat (counter m) + length cs"
    unfolding 2(2) 1(2) cs by simp
  ultimately show ?case ..
qed

lemma run_idents_distinct:
  assumes "run_events emit m ss = (m', cs)" and "unat (counter m) + length cs < 2 ^ 64"
  shows "distinct (map ident cs)"
proof -
  have "map unat (map ident cs) = [unat (counter m) ..< unat (counter m')]"
    using run_numbered [OF assms] by (simp add: comp_def)
  then have "distinct (map unat (map ident cs))" by simp
  then show ?thesis by (rule distinct_map [THEN iffD1, THEN conjunct1])
qed

end

lemma assign_ids_numbered:
  "assign_ids n ks = (n', cs) \<Longrightarrow> unat n + length cs < 2 ^ 64 \<Longrightarrow>
     map (\<lambda>c. unat (cmd_id c)) cs = [unat n ..< unat n'] \<and> unat n' = unat n + length cs"
proof (induction ks arbitrary: n cs)
  case Nil
  then show ?case by simp
next
  case (Cons k ks)
  obtain n1 cs1 where a: "assign_ids (saturating_add n 1) ks = (n1, cs1)"
    by (cases "assign_ids (saturating_add n 1) ks")
  from Cons.prems a have cs: "cs = \<lparr>cmd_id = n, cmd_kind = k\<rparr> # cs1" and n': "n' = n1" by auto
  have next_id: "unat (saturating_add n 1) = Suc (unat n)"
    using Cons.prems(2) by (simp add: unat_saturating_add cs)
  have "map (\<lambda>c. unat (cmd_id c)) cs1 = [Suc (unat n) ..< unat n']
      \<and> unat n' = Suc (unat n) + length cs1"
    using Cons.IH [OF a [folded n']] Cons.prems(2) by (simp add: next_id cs)
  then show ?case using upt_conv_Cons [of "unat n" "unat n'"] by (auto simp: cs)
qed

lemma assign_ids_kinds: "map cmd_kind (snd (assign_ids n ks)) = ks"
  by (induction ks arbitrary: n) (simp_all add: Let_def case_prod_beta)

interpretation planner: command_numbering plan m_next_id cmd_id
proof
  fix m s m' cs
  assume "plan m s = (m', cs)" and len: "unat (m_next_id m) + length cs < 2 ^ 64"
  then have "assign_ids (m_next_id m) (st_commands (step (m_phase m) s)) = (m_next_id m', cs)"
    by (auto simp: plan_def Let_def split: prod.splits)
  then show "map (\<lambda>c. unat (cmd_id c)) cs = [unat (m_next_id m) ..< unat (m_next_id m')]
      \<and> unat (m_next_id m') = unat (m_next_id m) + length cs"
    using len by (rule assign_ids_numbered)
qed

lemma plan_phase: "m_phase (fst (plan m s)) = st_phase (step (m_phase m) s)"
  by (simp add: plan_def Let_def case_prod_beta)

lemma plan_kinds: "map cmd_kind (snd (plan m s)) = st_commands (step (m_phase m) s)"
  by (simp add: plan_def Let_def case_prod_beta assign_ids_kinds)

lemma run_off:
  "m_phase m \<in> off_phases \<Longrightarrow> Enable \<notin> set ss \<Longrightarrow> run_events plan m ss = (m', cs) \<Longrightarrow>
     m_phase m' \<in> off_phases \<and> cmd_kind ` set cs \<subseteq> off_commands"
proof (induction ss arbitrary: m cs)
  case (Cons s ss)
  obtain m1 cs1 where p: "plan m s = (m1, cs1)" by (cases "plan m s")
  obtain m2 cs2 where r: "run_events plan m1 ss = (m2, cs2)" by (cases "run_events plan m1 ss")
  have "s \<noteq> Enable" using Cons.prems(2) by auto
  then have off: "st_phase (step (m_phase m) s) \<in> off_phases"
    "set (st_commands (step (m_phase m) s)) \<subseteq> off_commands"
    using step_off [OF Cons.prems(1)] by blast+
  have off1: "m_phase m1 \<in> off_phases" and sub1: "set (map cmd_kind cs1) \<subseteq> off_commands"
    using off plan_phase [of m s] plan_kinds [of m s] by (simp_all only: p fst_conv snd_conv)
  from Cons.prems p r have eq: "cs = cs1 @ cs2" "m' = m2" by auto
  show ?case
    using Cons.IH [OF off1 _ r [folded eq(2)]] Cons.prems(2) sub1 by (simp add: eq(1) image_Un)
qed auto

lemma run_reaches_active:
  "run_events plan m ss = (m', cs) \<Longrightarrow> m_phase m' = Ph_Active \<Longrightarrow> m_phase m \<noteq> Ph_Active \<Longrightarrow>
     ActivationCommitted \<in> set ss"
proof (induction ss arbitrary: m cs)
  case (Cons s ss)
  obtain m1 cs1 where p: "plan m s = (m1, cs1)" by (cases "plan m s")
  obtain m2 cs2 where r: "run_events plan m1 ss = (m2, cs2)" by (cases "run_events plan m1 ss")
  have ph1: "m_phase m1 = st_phase (step (m_phase m) s)"
    using plan_phase [of m s] by (simp add: p)
  from Cons.prems p r have m': "m' = m2" by auto
  show ?case
  proof (cases "m_phase m1 = Ph_Active")
    case True
    then show ?thesis using step_enters_active [of "m_phase m" s] ph1 Cons.prems(3) by auto
  next
    case False
    then show ?thesis using Cons.IH [of m1 cs2] r m' Cons.prems(2) by simp
  qed
qed auto

section \<open>Generations\<close>

definition gen_inv :: "generations \<Rightarrow> bool" where
  "gen_inv g \<longleftrightarrow> 0 < g_next g \<and> g_committed g < g_next g"

lemma allocate_Some:
  "allocate g = Some (g', i) \<longleftrightarrow>
     unat (g_next g) + 1 < 2 ^ 64 \<and> i = g_next g \<and> g' = g\<lparr>g_next := g_next g + 1\<rparr>"
  by (auto simp: allocate_def checked_add_def split: option.splits if_splits)

lemma gen_inv_new: "gen_inv generations_new"
  by (simp add: gen_inv_def generations_new_def)

lemma gen_inv_allocate:
  assumes "gen_inv g" and "allocate g = Some (g', i)"
  shows "gen_inv g' \<and> 0 < i \<and> g_committed g < i \<and> i < g_next g'"
proof -
  have "unat (g_next g + 1) = unat (g_next g) + 1"
    using assms(2) unat_add_small [of "g_next g" 1] by (simp add: allocate_Some)
  then have "g_next g < g_next g + 1" by (simp add: word_less_nat_alt)
  then show ?thesis
    using assms by (auto simp: gen_inv_def allocate_Some)
qed

lemma gen_inv_commit: "gen_inv g \<Longrightarrow> i < g_next g \<Longrightarrow> gen_inv (gen_commit g i)"
  by (simp add: gen_inv_def gen_commit_def)

text \<open>
  The life of the counter: candidates are allocated, and an id that was allocated may be committed.
\<close>

inductive gen_reachable :: "generations \<Rightarrow> bool" where
  gen_start: "gen_reachable generations_new"
| gen_allocate: "gen_reachable g \<Longrightarrow> allocate g = Some (g', i) \<Longrightarrow> gen_reachable g'"
| gen_committed: "gen_reachable g \<Longrightarrow> 0 < i \<Longrightarrow> i < peek_next g \<Longrightarrow> gen_reachable (gen_commit g i)"

lemma gen_reachable_inv: "gen_reachable g \<Longrightarrow> gen_inv g"
proof (induction rule: gen_reachable.induct)
  case gen_start
  show ?case by (rule gen_inv_new)
next
  case (gen_allocate g g' i)
  then show ?case using gen_inv_allocate by blast
next
  case (gen_committed g i)
  then show ?case by (simp add: gen_inv_commit peek_next_def)
qed

section \<open>Properties\<close>

text \<open>
  C1: leaving the Active phase publishes \<open>active=0\<close> before every other command, and a step that
  keeps the phase Active never freezes capture.
\<close>

theorem plan_freezes_exactly_on_leaving_active:
  assumes "m_phase m = Ph_Active" and "plan m s = (m', cs)"
  shows "if m_phase m' = Ph_Active then \<not> freezes_capture (map cmd_kind cs)
         else \<exists>c rest. cs = c # rest \<and> cmd_kind c = PublishInactive
                \<and> \<not> freezes_capture (map cmd_kind rest)"
proof -
  have ph: "m_phase m' = st_phase (step Ph_Active s)"
    and ks: "map cmd_kind cs = st_commands (step Ph_Active s)"
    using plan_phase [of m s] plan_kinds [of m s] assms by auto
  show ?thesis
  proof (cases "m_phase m' = Ph_Active")
    case True
    then show ?thesis using step_stays_active [of s] by (simp add: freezes_capture_def ks ph)
  next
    case False
    then obtain ks' where "map cmd_kind cs = PublishInactive # ks'" "PublishInactive \<notin> set ks'"
      using step_leaves_active [of s] by (auto simp: ks ph)
    with False show ?thesis by (auto simp: freezes_capture_def Cons_eq_map_conv map_eq_Cons_conv)
  qed
qed

theorem plan_freezes_exactly_on_leaving_active_witness:
  "plan \<lparr>m_phase = Ph_Active, m_next_id = 7\<rparr> CoreDrift =
     (\<lparr>m_phase = Ph_Activating, m_next_id = 9\<rparr>,
      [\<lparr>cmd_id = 7, cmd_kind = PublishInactive\<rparr>, \<lparr>cmd_id = 8, cmd_kind = RunPendingConvergence\<rparr>])
   \<and> (\<exists>c rest. snd (plan \<lparr>m_phase = Ph_Active, m_next_id = 7\<rparr> CoreDrift) = c # rest
        \<and> cmd_kind c = PublishInactive \<and> \<not> freezes_capture (map cmd_kind rest))"
proof -
  have e: "plan \<lparr>m_phase = Ph_Active, m_next_id = 7\<rparr> CoreDrift =
     (\<lparr>m_phase = Ph_Activating, m_next_id = 9\<rparr>,
      [\<lparr>cmd_id = 7, cmd_kind = PublishInactive\<rparr>, \<lparr>cmd_id = 8, cmd_kind = RunPendingConvergence\<rparr>])"
    by (simp add: plan_def with_cmds_def saturating_add_def)
  show ?thesis
    using plan_freezes_exactly_on_leaving_active [OF _ e] e by simp
qed

text \<open>
  Drift of a physical interface's filter is repaired locally: whatever the phase, it is kept and
  capture is not frozen.
\<close>

theorem capture_side_drift_never_freezes:
  "m_phase (fst (plan m CaptureSideDrift)) = m_phase m
   \<and> \<not> freezes_capture (map cmd_kind (snd (plan m CaptureSideDrift)))"
  by (cases "m_phase m") (simp_all add: plan_phase plan_kinds step_result_defs freezes_capture_def)

text \<open>
  C11: over any run of events the planner becomes Active only through an \<open>ActivationCommitted\<close>
  completion.
\<close>

theorem active_only_after_commit:
  assumes "m_phase m \<noteq> Ph_Active" and "m_phase (fst (run_events plan m ss)) = Ph_Active"
  shows "ActivationCommitted \<in> set ss"
  using run_reaches_active [of m ss _ "snd (run_events plan m ss)"] assms by (metis prod.collapse)

theorem active_only_after_commit_witness:
  "m_phase (fst (run_events plan (model_new Ph_Activating) [AddressChange, ActivationCommitted]))
     = Ph_Active
   \<and> ActivationCommitted \<in> set [AddressChange, ActivationCommitted]"
proof -
  let ?m = "model_new Ph_Activating"
  have 1: "m_phase ?m \<noteq> Ph_Active" by (simp add: model_new_def)
  have 2: "m_phase (fst (run_events plan ?m [AddressChange, ActivationCommitted])) = Ph_Active"
    by (simp add: model_new_def plan_def with_cmds_def stay_def)
  show ?thesis using active_only_after_commit [OF 1 2] 2 by blast
qed

text \<open>
  While the switch is off (Disabled or Stopping) and no \<open>Enable\<close> arrives, every run stays off
  and emits no command that runs the shared executor, restarts the engine or touches the data plane.
\<close>

theorem disabled_runs_stay_quiescent:
  assumes "m_phase m \<in> {Ph_Disabled, Ph_Stopping}" and "Enable \<notin> set ss"
    and "run_events plan m ss = (m', cs)"
  shows "m_phase m' \<in> {Ph_Disabled, Ph_Stopping}
    \<and> cmd_kind ` set cs \<subseteq> {IgnoreUnexpected, RevalidateOnly, ExitProcess, ClearLatchOnly}
    \<and> list_all (\<lambda>c. \<not> needs_converge (cmd_kind c)) cs"
proof -
  have off: "m_phase m' \<in> off_phases" "cmd_kind ` set cs \<subseteq> off_commands"
    using run_off [OF assms] by blast+
  then have "list_all (\<lambda>c. \<not> needs_converge (cmd_kind c)) cs"
    unfolding list_all_iff using off_commands_do_not_converge by blast
  with off show ?thesis by blast
qed

theorem disabled_runs_stay_quiescent_witness:
  "m_phase (fst (run_events plan (model_new Ph_Stopping) [Reload, EngineExited, PackagesChanged]))
     \<in> {Ph_Disabled, Ph_Stopping}"
  using disabled_runs_stay_quiescent
    [of "model_new Ph_Stopping" "[Reload, EngineExited, PackagesChanged]"]
  by (simp add: model_new_def case_prod_beta)

text \<open>
  Over any run that does not exhaust the 64-bit counter, the identities of all emitted commands
  are distinct, so a late completion never matches a newer command.
\<close>

theorem command_ids_never_repeat:
  assumes "run_events plan m ss = (m', cs)" and "unat (m_next_id m) + length cs < 2 ^ 64"
  shows "distinct (map cmd_id cs)
    \<and> map (\<lambda>c. unat (cmd_id c)) cs = [unat (m_next_id m) ..< unat (m_next_id m')]"
  using planner.run_idents_distinct [OF assms] planner.run_numbered [OF assms] by simp

theorem command_ids_never_repeat_witness:
  "distinct (map cmd_id (snd (run_events plan (model_new Ph_Active) [Reload, Disable])))
   \<and> length (snd (run_events plan (model_new Ph_Active) [Reload, Disable])) = 4"
proof -
  have e: "run_events plan (model_new Ph_Active) [Reload, Disable] =
     (\<lparr>m_phase = Ph_Stopping, m_next_id = 5\<rparr>,
      [\<lparr>cmd_id = 1, cmd_kind = PolicyTransaction\<rparr>, \<lparr>cmd_id = 2, cmd_kind = EngineCandidateSwitch\<rparr>,
       \<lparr>cmd_id = 3, cmd_kind = PublishInactive\<rparr>, \<lparr>cmd_id = 4, cmd_kind = StopEngine\<rparr>])"
    by (simp add: model_new_def plan_def with_cmds_def saturating_add_def)
  have "unat (m_next_id (model_new Ph_Active)) + 4 < 2 ^ 64" by (simp add: model_new_def)
  then show ?thesis unfolding e using command_ids_never_repeat [OF e] by simp
qed

text \<open>
  The wire state is Active exactly when the control leaf is active, a committed engine is
  present and neither the switch, a shutdown nor the SSID dimension holds Flux down; the engine is
  reported running in no other state.
\<close>

theorem reported_active_iff_committed:
  "(cv_state (project (observe ob) err) = St_Active \<longleftrightarrow>
      dataplane_active ob \<and> engine_present ob \<and> \<not> awaiting_commit ob
      \<and> \<not> disable_present ob \<and> \<not> shutdown ob \<and> \<not> ssid_paused ob)
   \<and> (cv_engine_running (project (observe ob) err) \<longleftrightarrow>
        cv_state (project (observe ob) err) = St_Active)
   \<and> (cv_state (project (observe ob) err) = St_Disabled \<longleftrightarrow>
        (disable_present ob \<or> shutdown ob) \<and> \<not> engine_present ob \<and> \<not> convergence_busy ob)"
  by (auto simp: observe_def split: if_splits)

text \<open>
  A fault record is current only for the committed generation; a candidate that has been
  allocated but not committed can never make one current, and allocation never reuses an id.
\<close>

theorem fault_current_only_for_committed:
  assumes "gen_reachable g" and "allocate g = Some (g', i)"
  shows "\<not> fault_is_current g' i child \<and> g_committed g' < i \<and> i < peek_next g'
    \<and> (fault_is_current g' ev child \<longrightarrow> ev = g_committed g \<and> 0 < ev \<and> ev < i)"
proof -
  have "gen_inv g" using assms(1) by (rule gen_reachable_inv)
  then have "0 < i \<and> g_committed g < i \<and> i < g_next g'"
    using gen_inv_allocate assms(2) by blast
  moreover have "g_committed g' = g_committed g"
    using assms(2) by (auto simp: allocate_Some)
  ultimately show ?thesis
    by (auto simp: fault_is_current_def peek_next_def word_neq_0_conv)
qed

theorem fault_current_only_for_committed_witness:
  "\<not> fault_is_current \<lparr>g_next = 3, g_committed = 1\<rparr> 2 (Some 2)
   \<and> fault_is_current \<lparr>g_next = 3, g_committed = 1\<rparr> 1 (Some 1)"
proof -
  have "gen_reachable \<lparr>g_next = 2, g_committed = 0\<rparr>"
    using gen_allocate [OF gen_start, of "\<lparr>g_next = 2, g_committed = 0\<rparr>" 1]
    by (simp add: allocate_def checked_add_def generations_new_def)
  from gen_committed [OF this, of 1] have r: "gen_reachable \<lparr>g_next = 2, g_committed = 1\<rparr>"
    by (simp add: peek_next_def gen_commit_def)
  have a: "allocate \<lparr>g_next = 2, g_committed = 1\<rparr> = Some (\<lparr>g_next = 3, g_committed = 1\<rparr>, 2)"
    by (simp add: allocate_def checked_add_def)
  show ?thesis
    using fault_current_only_for_committed [OF r a, of "Some 2"] by (simp add: fault_is_current_def)
qed

end
