(* ===== verification/Std_Text.thy ===== *)
theory Std_Text
  imports Flux_Prelude
begin

text \<open>
  The text functions of the Rust standard library that the sources call: searching and splitting
  \<open>str\<close>, \<open>trim\<close>, \<open>lines\<close>, \<open>split_whitespace\<close>, parsing and printing decimal integers, and UTF-8
  validation. A \<open>str\<close> is the byte string of its UTF-8 encoding, so Unicode white space is a set of
  byte sequences. Lemmas: splitting undoes joining, decimal parsing is the inverse of printing on
  canonical numerals.
\<close>

section \<open>Searching and splitting\<close>

fun strip_prefix :: "'a list \<Rightarrow> 'a list \<Rightarrow> 'a list option" where
  "strip_prefix [] s = Some s"
| "strip_prefix (p # ps) [] = None"
| "strip_prefix (p # ps) (c # cs) = (if p = c then strip_prefix ps cs else None)"

definition starts_with :: "'a list \<Rightarrow> 'a list \<Rightarrow> bool" where
  "starts_with s p \<longleftrightarrow> strip_prefix p s \<noteq> None"

definition strip_suffix :: "'a list \<Rightarrow> 'a list \<Rightarrow> 'a list option" where
  "strip_suffix p s = map_option rev (strip_prefix (rev p) (rev s))"

text \<open>\<open>str::split_once\<close> with a string pattern: the first occurrence.\<close>

fun split_once_str :: "'a list \<Rightarrow> 'a list \<Rightarrow> ('a list \<times> 'a list) option" where
  "split_once_str p [] = (if p = [] then Some ([], []) else None)"
| "split_once_str p (c # cs) =
    (case strip_prefix p (c # cs) of
       Some rest \<Rightarrow> Some ([], rest)
     | None \<Rightarrow> map_option (\<lambda>(a, b). (c # a, b)) (split_once_str p cs))"

definition split_once :: "'a \<Rightarrow> 'a list \<Rightarrow> ('a list \<times> 'a list) option" where
  "split_once c s = split_once_str [c] s"

text \<open>\<open>str::rsplit_once\<close> with a character: the last occurrence.\<close>

definition rsplit_once :: "'a \<Rightarrow> 'a list \<Rightarrow> ('a list \<times> 'a list) option" where
  "rsplit_once c s = map_option (\<lambda>(a, b). (rev b, rev a)) (split_once c (rev s))"

definition contains_str :: "'a list \<Rightarrow> 'a list \<Rightarrow> bool" where
  "contains_str s p \<longleftrightarrow> split_once_str p s \<noteq> None"

text \<open>\<open>str::split\<close> with a character: at least one piece.\<close>

fun split_on :: "'a \<Rightarrow> 'a list \<Rightarrow> 'a list list" where
  "split_on c [] = [[]]"
| "split_on c (x # xs) =
    (if x = c then [] # split_on c xs
     else case split_on c xs of [] \<Rightarrow> [[x]] | p # ps \<Rightarrow> (x # p) # ps)"

lemma strip_prefix_append [simp, text_simps]: "strip_prefix p (p @ s) = Some s"
  by (induction p) auto

lemma strip_prefix_eq_Some: "strip_prefix p s = Some r \<longleftrightarrow> s = p @ r"
  by (induction p s rule: strip_prefix.induct) auto

lemma strip_suffix_append [simp, text_simps]: "strip_suffix p (s @ p) = Some s"
  by (simp add: strip_suffix_def)

lemma strip_suffix_eq_Some: "strip_suffix p s = Some r \<longleftrightarrow> s = r @ p"
  by (auto simp: strip_suffix_def strip_prefix_eq_Some rev_swap)

lemma split_once_str_SomeD: "split_once_str p s = Some (a, b) \<Longrightarrow> s = a @ p @ b"
  by (induction p s arbitrary: a b rule: split_once_str.induct)
    (auto simp: strip_prefix_eq_Some split: option.splits if_splits)

lemma split_once_Cons:
  "split_once c (x # xs) =
    (if x = c then Some ([], xs) else map_option (\<lambda>(a, b). (x # a, b)) (split_once c xs))"
  by (simp add: split_once_def)

lemma split_once_Nil [simp]: "split_once c [] = None"
  by (simp add: split_once_def)

lemma split_once_append [simp, text_simps]: "c \<notin> set a \<Longrightarrow> split_once c (a @ c # b) = Some (a, b)"
  by (induction a) (auto simp: split_once_Cons)

lemma split_once_absent [simp, text_simps]: "c \<notin> set s \<Longrightarrow> split_once c s = None"
  by (induction s) (auto simp: split_once_Cons)

lemma split_once_eq_Some:
  "split_once c s = Some (a, b) \<longleftrightarrow> s = a @ c # b \<and> c \<notin> set a"
proof (induction s arbitrary: a)
  case (Cons x s)
  then show ?case by (cases a) (auto simp: split_once_Cons)
qed simp

lemma split_once_str_absent_head:
  "c \<notin> set s \<Longrightarrow> split_once_str (c # p) s = None"
  by (induction s) auto

lemma split_once_str_append_head:
  "c \<notin> set a \<Longrightarrow> split_once_str (c # p) (a @ (c # p) @ b) = Some (a, b)"
proof (induction a)
  case Nil
  have "strip_prefix (c # p) ((c # p) @ b) = Some b" by (rule strip_prefix_append)
  then show ?case by simp
qed auto

lemma split_once_str_two:
  "a \<noteq> b \<Longrightarrow> split_once_str [a, b] s = None \<Longrightarrow> split_once_str [a, b] (s @ [a, b] @ t) = Some (s, t)"
proof (induction s)
  case (Cons x s)
  then show ?case by (cases s) (auto split: if_splits option.splits)
qed simp

text \<open>A text that does not contain a pattern does not contain it after cutting either end.\<close>

lemma split_once_str_Some_append:
  "split_once_str p s = Some (a, b) \<Longrightarrow> split_once_str p (s @ t) \<noteq> None"
proof (induction p s arbitrary: a b rule: split_once_str.induct)
  case (1 p)
  then show ?case by (cases t) (auto split: if_splits)
next
  case (2 p c cs)
  show ?case
  proof (cases "strip_prefix p (c # cs)")
    case None
    then show ?thesis using 2 by (auto split: option.splits)
  next
    case (Some r)
    then have "strip_prefix p (c # cs @ t) = Some (r @ t)" by (simp add: strip_prefix_eq_Some)
    then show ?thesis by simp
  qed
qed

lemma split_once_str_None_infix:
  "split_once_str p (u @ s @ t) = None \<Longrightarrow> split_once_str p s = None"
proof -
  assume "split_once_str p (u @ s @ t) = None"
  then have "split_once_str p (s @ t) = None"
    by (induction u) (auto split: option.splits)
  then show ?thesis using split_once_str_Some_append by (metis not_None_eq surj_pair)
qed

lemma split_once_str_None_before:
  "split_once_str p s = Some (a, b) \<Longrightarrow> p \<noteq> [] \<Longrightarrow> split_once_str p a = None"
proof (induction p s arbitrary: a rule: split_once_str.induct)
  case (2 p c cs)
  show ?case
  proof (cases "strip_prefix p (c # cs)")
    case None
    then obtain a' where a: "a = c # a'" and a': "split_once_str p cs = Some (a', b)"
      using 2(2) by (auto split: option.splits)
    have "strip_prefix p (c # a') = None"
    proof (rule ccontr)
      assume "strip_prefix p (c # a') \<noteq> None"
      then obtain r where "c # a' = p @ r" by (auto simp: strip_prefix_eq_Some)
      then have "c # cs = p @ r @ p @ b" using split_once_str_SomeD [OF a'] by (metis append_Cons append_assoc)
      then show False using None by (metis option.distinct(1) strip_prefix_append)
    qed
    then show ?thesis using 2(1) [OF None a' 2(3)] a by simp
  next
    case (Some r)
    then show ?thesis using 2(2,3) by (auto split: option.splits)
  qed
qed (auto split: if_splits)

lemma split_on_not_Nil [simp]: "split_on c s \<noteq> []"
  by (induction s) (auto split: list.splits)

lemma split_on_absent [simp, text_simps]: "c \<notin> set s \<Longrightarrow> split_on c s = [s]"
  by (induction s) auto

lemma split_on_append [simp, text_simps]:
  "c \<notin> set a \<Longrightarrow> split_on c (a @ c # b) = a # split_on c b"
  by (induction a) auto

text \<open>The pieces joined with the separator give the text back.\<close>

fun join_with :: "'a \<Rightarrow> 'a list list \<Rightarrow> 'a list" where
  "join_with c [] = []"
| "join_with c [p] = p"
| "join_with c (p # q # ps) = p @ c # join_with c (q # ps)"

lemma join_split_on: "join_with c (split_on c s) = s"
proof (induction s)
  case (Cons x s)
  then show ?case
    by (cases "split_on c s" rule: list.exhaust; cases "tl (split_on c s)") auto
qed simp

lemma split_on_pieces: "p \<in> set (split_on c s) \<Longrightarrow> c \<notin> set p"
  by (induction s arbitrary: p) (auto split: list.splits if_splits)

section \<open>White space\<close>

definition white_space :: "string list" where
  "white_space =
    map (\<lambda>b. [char_of (b :: nat)]) [0x09, 0x0A, 0x0B, 0x0C, 0x0D, 0x20]
    @ map (map char_of)
        [[0xC2, 0x85], [0xC2, 0xA0], [0xE1, 0x9A, 0x80 :: nat],
         [0xE2, 0x80, 0x80], [0xE2, 0x80, 0x81], [0xE2, 0x80, 0x82], [0xE2, 0x80, 0x83],
         [0xE2, 0x80, 0x84], [0xE2, 0x80, 0x85], [0xE2, 0x80, 0x86], [0xE2, 0x80, 0x87],
         [0xE2, 0x80, 0x88], [0xE2, 0x80, 0x89], [0xE2, 0x80, 0x8A],
         [0xE2, 0x80, 0xA8], [0xE2, 0x80, 0xA9], [0xE2, 0x80, 0xAF],
         [0xE2, 0x81, 0x9F], [0xE3, 0x80, 0x80]]"

text \<open>Length of the white-space character the text begins with, 0 if it begins with none.\<close>

definition ws_len :: "'a list list \<Rightarrow> 'a list \<Rightarrow> nat" where
  "ws_len ws s = (case find (\<lambda>w. starts_with s w) ws of None \<Rightarrow> 0 | Some w \<Rightarrow> length w)"

function trim_front :: "'a list list \<Rightarrow> 'a list \<Rightarrow> 'a list" where
  "trim_front ws s =
    (if ws_len ws s = 0 \<or> s = [] then s else trim_front ws (drop (ws_len ws s) s))"
  by pat_completeness auto
termination
  by (relation "measure (\<lambda>(ws, s). length s)") auto

declare trim_front.simps [simp del]

definition trim_start :: "string \<Rightarrow> string" where
  "trim_start s = trim_front white_space s"

definition trim_end :: "string \<Rightarrow> string" where
  "trim_end s = rev (trim_front (map rev white_space) (rev s))"

definition trim :: "string \<Rightarrow> string" where
  "trim s = trim_end (trim_start s)"

fun take_word :: "string \<Rightarrow> string" where
  "take_word [] = []"
| "take_word (c # cs) = (if ws_len white_space (c # cs) \<noteq> 0 then [] else c # take_word cs)"

fun drop_word :: "string \<Rightarrow> string" where
  "drop_word [] = []"
| "drop_word (c # cs) = (if ws_len white_space (c # cs) \<noteq> 0 then c # cs else drop_word cs)"

lemma trim_front_length: "length (trim_front ws s) \<le> length s"
  by (induction ws s rule: trim_front.induct) (subst trim_front.simps, auto)

lemma trim_front_ws_len: "trim_front ws s \<noteq> [] \<Longrightarrow> ws_len ws (trim_front ws s) = 0"
proof (induction ws s rule: trim_front.induct)
  case (1 ws s)
  then show ?case
    by (cases "ws_len ws s = 0 \<or> s = []") (auto simp: trim_front.simps [of ws s])
qed

lemma drop_word_length: "length (drop_word s) \<le> length s"
  by (induction s) auto

lemma drop_word_less:
  "s \<noteq> [] \<Longrightarrow> ws_len white_space s = 0 \<Longrightarrow> length (drop_word s) < length s"
  by (cases s) (auto simp: drop_word_length less_Suc_eq_le)

lemma trim_front_infix: "\<exists>u. s = u @ trim_front ws s"
proof (induction ws s rule: trim_front.induct)
  case (1 ws s)
  show ?case
  proof (cases "ws_len ws s = 0 \<or> s = []")
    case True
    then show ?thesis by (simp add: trim_front.simps [of ws s])
  next
    case False
    then obtain u where "drop (ws_len ws s) s = u @ trim_front ws (drop (ws_len ws s) s)"
      using 1 by blast
    then have "s = take (ws_len ws s) s @ u @ trim_front ws (drop (ws_len ws s) s)"
      by (metis append_take_drop_id)
    then show ?thesis using False
      by (simp add: trim_front.simps [of ws s]) (metis append_assoc)
  qed
qed

lemma trim_infix: "\<exists>u t. s = u @ trim s @ t"
proof -
  obtain u where u: "s = u @ trim_start s" using trim_front_infix unfolding trim_start_def by blast
  obtain v where "rev (trim_start s) = v @ trim_front (map rev white_space) (rev (trim_start s))"
    using trim_front_infix by blast
  then have "trim_start s = trim s @ rev v"
    unfolding trim_def trim_end_def by (metis rev_append rev_rev_ident)
  then show ?thesis using u by metis
qed

lemma ws_len_zero_iff: "[] \<notin> set ws \<Longrightarrow> ws_len ws s = 0 \<longleftrightarrow> (\<forall>w\<in>set ws. \<not> starts_with s w)"
  by (auto simp: ws_len_def find_None_iff find_Some_iff split: option.splits) (metis nth_mem)

lemma starts_with_append: "starts_with s w \<Longrightarrow> starts_with (s @ t) w"
  by (auto simp: starts_with_def strip_prefix_eq_Some)

lemma trim_front_id: "ws_len ws s = 0 \<Longrightarrow> trim_front ws s = s"
  by (simp add: trim_front.simps [of ws s])

lemma trim_front_idem: "trim_front ws (trim_front ws s) = trim_front ws s"
  using trim_front_ws_len [of ws s] trim_front_id by (metis trim_front.simps)

lemma trim_idem: "trim (trim s) = trim s"
proof -
  let ?t = "trim_start s"
  obtain v where v: "?t = trim s @ v"
  proof -
    obtain v where "rev ?t = v @ trim_front (map rev white_space) (rev ?t)"
      using trim_front_infix by blast
    then have "?t = trim s @ rev v" unfolding trim_def trim_end_def by (metis rev_append rev_rev_ident)
    then show ?thesis using that by blast
  qed
  have nil: "[] \<notin> set white_space" by (auto simp: white_space_def)
  have "trim s = [] \<or> ws_len white_space (trim s) = 0"
  proof (cases "?t = []")
    case False
    then have "ws_len white_space ?t = 0"
      using trim_front_ws_len [of white_space s] by (simp add: trim_start_def)
    then show ?thesis using v starts_with_append by (metis nil ws_len_zero_iff)
  qed (use v in simp)
  then have "trim_start (trim s) = trim s"
    unfolding trim_start_def by (metis trim_front.simps)
  then show ?thesis by (metis rev_rev_ident trim_def trim_end_def trim_front_idem)
qed

function split_whitespace :: "string \<Rightarrow> string list" where
  "split_whitespace s =
    (let t = trim_start s
     in if t = [] then [] else take_word t # split_whitespace (drop_word t))"
  by pat_completeness auto
termination
proof (relation "measure length", simp)
  fix s t :: string
  assume "t = trim_start s" and "t \<noteq> []"
  then have "length (drop_word t) < length t" "length t \<le> length s"
    using trim_front_ws_len [of white_space s] drop_word_less [of t]
      trim_front_length [of white_space s]
    by (auto simp: trim_start_def)
  then show "(drop_word t, s) \<in> measure length" by simp
qed

declare split_whitespace.simps [simp del]

section \<open>Lines\<close>

abbreviation newline :: char where
  "newline \<equiv> CHR 0x0A"

definition strip_cr :: "string \<Rightarrow> string" where
  "strip_cr s = (case strip_suffix [CHR 0x0D] s of None \<Rightarrow> s | Some t \<Rightarrow> t)"

function lines :: "string \<Rightarrow> string list" where
  "lines s =
    (if s = [] then []
     else case dropWhile (\<lambda>c. c \<noteq> newline) s of
            [] \<Rightarrow> [s]
          | _ # rest \<Rightarrow> strip_cr (takeWhile (\<lambda>c. c \<noteq> newline) s) # lines rest)"
  by pat_completeness auto
termination
proof (relation "measure length", simp)
  fix s rest :: string and x
  assume "dropWhile (\<lambda>c. c \<noteq> newline) s = x # rest"
  then have "length (x # rest) \<le> length s" by (metis length_dropWhile_le)
  then show "(rest, s) \<in> measure length" by simp
qed

declare lines.simps [simp del]

lemma lines_Nil [simp]: "lines [] = []"
  by (simp add: lines.simps)

lemma lines_append_newline [text_simps]:
  assumes "newline \<notin> set l"
  shows "lines (l @ newline # rest) = strip_cr l # lines rest"
proof -
  have ne: "\<forall>c\<in>set l. c \<noteq> newline" using assms by auto
  then have "takeWhile (\<lambda>c. c \<noteq> newline) (l @ newline # rest) = l"
    and "dropWhile (\<lambda>c. c \<noteq> newline) (l @ newline # rest) = newline # rest"
    by (simp_all add: takeWhile_append2 dropWhile_append2)
  then show ?thesis using lines.simps [of "l @ newline # rest"] by simp
qed

lemma lines_single [text_simps]:
  assumes "newline \<notin> set l" and "l \<noteq> []"
  shows "lines l = [l]"
proof -
  have d: "dropWhile (\<lambda>c. c \<noteq> newline) l = []" using assms(1) by auto
  show ?thesis by (subst lines.simps) (simp only: d assms(2) if_False list.case)
qed

lemma set_strip_cr: "set (strip_cr l) \<subseteq> set l"
  by (auto simp: strip_cr_def strip_suffix_eq_Some split: option.splits)

lemma lines_no_newline: "l \<in> set (lines s) \<Longrightarrow> newline \<notin> set l"
proof (induction s rule: lines.induct)
  case (1 s)
  show ?case
  proof (cases "dropWhile (\<lambda>c. c \<noteq> newline) s")
    case Nil
    then have "newline \<notin> set s" by (auto simp: dropWhile_eq_Nil_conv)
    then show ?thesis using "1.prems" lines_single [of s] by (cases "s = []") auto
  next
    case (Cons x rest)
    have ne: "s \<noteq> []" using Cons by auto
    have "lines s = strip_cr (takeWhile (\<lambda>c. c \<noteq> newline) s) # lines rest"
      by (subst lines.simps) (simp only: ne Cons if_False list.case)
    moreover have "newline \<notin> set (strip_cr (takeWhile (\<lambda>c. c \<noteq> newline) s))"
      using set_strip_cr [of "takeWhile (\<lambda>c. c \<noteq> newline) s"] set_takeWhileD by fastforce
    ultimately show ?thesis using "1.IH" [OF ne Cons] "1.prems" by auto
  qed
qed

lemma lines_concat:
  "\<forall>l\<in>set ls. newline \<notin> set l \<Longrightarrow> lines (concat (map (\<lambda>l. l @ [newline]) ls)) = map strip_cr ls"
  by (induction ls) (simp_all add: lines_append_newline)

lemma strip_prefix_strip_cr: "strip_prefix p (strip_cr l) \<noteq> None \<Longrightarrow> strip_prefix p l \<noteq> None"
proof -
  assume "strip_prefix p (strip_cr l) \<noteq> None"
  then obtain x where x: "strip_cr l = p @ x" by (auto simp: strip_prefix_eq_Some)
  obtain y where "l = strip_cr l @ y"
    by (cases "strip_suffix [CHR 0x0D] l") (auto simp: strip_cr_def strip_suffix_eq_Some)
  then have "l = p @ x @ y" using x by simp
  then show ?thesis by simp
qed

lemma strip_cr_append: "s \<noteq> [] \<Longrightarrow> strip_cr (x @ s) = x @ strip_cr s"
proof -
  assume "s \<noteq> []"
  then obtain c t where s: "s = t @ [c]" by (cases s rule: rev_cases) auto
  show ?thesis
    by (cases "c = CHR 0x0D") (auto simp: strip_cr_def s strip_suffix_def)
qed

section \<open>Decimal integers\<close>

definition is_ascii_digit :: "char \<Rightarrow> bool" where
  "is_ascii_digit c \<longleftrightarrow> 48 \<le> (of_char c :: nat) \<and> (of_char c :: nat) \<le> 57"

definition digit_char :: "nat \<Rightarrow> char" where
  "digit_char d = char_of (48 + d)"

fun dec :: "nat \<Rightarrow> string" where
  "dec n = (if n < 10 then [digit_char n] else dec (n div 10) @ [digit_char (n mod 10)])"

declare dec.simps [simp del]

fun parse_digits :: "nat \<Rightarrow> string \<Rightarrow> nat option" where
  "parse_digits acc [] = Some acc"
| "parse_digits acc (c # cs) =
    (if is_ascii_digit c then parse_digits (acc * 10 + (of_char c - 48)) cs else None)"

definition strip_plus :: "string \<Rightarrow> string" where
  "strip_plus s = (case s of c # cs \<Rightarrow> if c = CHR ''+'' then cs else s | [] \<Rightarrow> [])"

text \<open>\<open>str::parse\<close> at an unsigned integer type.\<close>

definition parse_uint :: "string \<Rightarrow> 'a::len word option" where
  "parse_uint s =
    (if strip_plus s = [] then None
     else case parse_digits 0 (strip_plus s) of
            None \<Rightarrow> None
          | Some v \<Rightarrow> if v < 2 ^ LENGTH('a) then Some (word_of_nat v) else None)"

lemma of_digit_char: "d < 10 \<Longrightarrow> (of_char (digit_char d) :: nat) = 48 + d"
  by (simp add: digit_char_def)

lemma is_ascii_digit_digit_char [simp]: "d < 10 \<Longrightarrow> is_ascii_digit (digit_char d)"
  by (simp add: is_ascii_digit_def of_digit_char)

lemma digit_char_of_digit: "is_ascii_digit c \<Longrightarrow> digit_char (of_char c - 48) = c"
  by (auto simp: is_ascii_digit_def digit_char_def)

lemma dec_not_Nil [simp]: "dec n \<noteq> []"
  by (subst dec.simps) simp

lemma dec_digits: "c \<in> set (dec n) \<Longrightarrow> is_ascii_digit c"
proof (induction n rule: dec.induct)
  case (1 n)
  then show ?case by (cases "n < 10") (auto simp: dec.simps [of n])
qed

lemma parse_digits_append:
  "parse_digits acc (xs @ ys) =
    (case parse_digits acc xs of None \<Rightarrow> None | Some v \<Rightarrow> parse_digits v ys)"
  by (induction acc xs rule: parse_digits.induct) auto

lemma parse_digits_dec [simp]: "parse_digits 0 (dec n) = Some n"
proof (induction n rule: dec.induct)
  case (1 n)
  show ?case
  proof (cases "n < 10")
    case True
    then show ?thesis by (simp add: dec.simps [of n] of_digit_char)
  next
    case False
    with "1.IH" show ?thesis
      by (simp add: dec.simps [of n] parse_digits_append of_digit_char)
  qed
qed

lemma dec_inj: "dec m = dec n \<longleftrightarrow> m = n"
  by (metis option.inject parse_digits_dec)

lemma digit_not_special:
  "is_ascii_digit c \<Longrightarrow> c \<notin> {CHR ''+'', CHR ''.'', CHR ''-'', CHR ''/'', CHR '':''}"
  by (auto simp: is_ascii_digit_def)

lemma dec_no_special:
  "CHR ''+'' \<notin> set (dec n)" "CHR ''.'' \<notin> set (dec n)" "CHR ''-'' \<notin> set (dec n)"
  "CHR ''/'' \<notin> set (dec n)" "CHR '':'' \<notin> set (dec n)"
  using dec_digits digit_not_special by blast+

declare dec_no_special [simp, text_simps]

lemma strip_plus_dec [simp]: "strip_plus (dec n) = dec n"
proof (cases "dec n")
  case (Cons c cs)
  then have "c \<noteq> CHR ''+''" using dec_no_special(1) [of n] by auto
  with Cons show ?thesis by (simp add: strip_plus_def)
qed simp

lemma parse_uint_dec [simp]: "parse_uint (dec (unat w)) = Some (w :: 'a::len word)"
  using unsigned_less [of w, where ?'a = nat] by (simp add: parse_uint_def)

lemma dec_digits_no_leading_zero: "dec n = CHR ''0'' # cs \<Longrightarrow> cs = []"
proof (induction n arbitrary: cs rule: dec.induct)
  case (1 n)
  show ?case
  proof (cases "n < 10")
    case True
    then show ?thesis using "1.prems" by (simp add: dec.simps [of n])
  next
    case False
    then obtain ds where ds: "dec (n div 10) = CHR ''0'' # ds"
      using "1.prems" by (cases "dec (n div 10)") (auto simp: dec.simps [of n])
    then have "ds = []" using "1.IH" False by blast
    then have "parse_digits 0 (dec (n div 10)) = Some 0" using ds by (simp add: is_ascii_digit_def)
    then show ?thesis using False by simp
  qed
qed

text \<open>A numeral without leading zeros is the one that \<open>dec\<close> prints.\<close>

lemma parse_digits_SomeD: "parse_digits acc s = Some v \<Longrightarrow> \<forall>c\<in>set s. is_ascii_digit c"
  by (induction acc s rule: parse_digits.induct) (auto split: if_splits)

lemma parse_digits_ge: "parse_digits acc s = Some v \<Longrightarrow> acc \<le> v"
  by (induction acc s rule: parse_digits.induct) (fastforce split: if_splits)+

lemma parse_digits_pos:
  assumes "parse_digits 0 (c # cs) = Some v" and "c \<noteq> CHR ''0''"
  shows "0 < v"
proof -
  have dig: "is_ascii_digit c" and v: "parse_digits (of_char c - 48) cs = Some v"
    using assms(1) by (auto split: if_splits)
  have "(of_char c :: nat) \<noteq> 48"
  proof
    assume "(of_char c :: nat) = 48"
    then have "c = char_of (48 :: nat)" by (metis char_of_char)
    then have "c = digit_char 0" by (simp add: digit_char_def)
    moreover have "digit_char 0 = CHR ''0''" by code_simp
    ultimately show False using assms(2) by simp
  qed
  then have "0 < (of_char c :: nat) - 48" using dig unfolding is_ascii_digit_def by linarith
  then show ?thesis using parse_digits_ge [OF v] by simp
qed

lemma dec_parse_digits:
  "parse_digits 0 s = Some v \<Longrightarrow> s \<noteq> [] \<Longrightarrow> length s > 1 \<longrightarrow> hd s \<noteq> CHR ''0'' \<Longrightarrow> dec v = s"
proof (induction s arbitrary: v rule: rev_induct)
  case (snoc c s)
  then obtain u where u: "parse_digits 0 s = Some u" and c: "is_ascii_digit c"
    and v: "v = u * 10 + (of_char c - 48)"
    by (auto simp: parse_digits_append split: option.splits if_splits)
  have d: "(of_char c :: nat) - 48 < 10" using c unfolding is_ascii_digit_def by linarith
  show ?case
  proof (cases "s = []")
    case True
    then have "v = of_char c - 48" using u v by simp
    then show ?thesis using True d digit_char_of_digit [OF c] by (subst dec.simps) simp
  next
    case False
    then have hd: "hd s \<noteq> CHR ''0''" using snoc.prems(3) by (cases s) auto
    then have "0 < u" using u False parse_digits_pos by (metis list.collapse)
    moreover have "dec u = s" using snoc.IH [OF u False] hd by simp
    moreover have "v div 10 = u" "v mod 10 = of_char c - 48" "\<not> v < 10"
      using v d \<open>0 < u\<close> by simp_all
    ultimately show ?thesis
      using digit_char_of_digit [OF c] by (subst dec.simps) simp
  qed
qed simp

section \<open>UTF-8\<close>

definition utf8_cont :: "u8 \<Rightarrow> bool" where
  "utf8_cont b \<longleftrightarrow> 0x80 \<le> b \<and> b \<le> 0xBF"

fun utf8_valid :: "bytes \<Rightarrow> bool" where
  "utf8_valid [] = True"
| "utf8_valid (a # r) =
    (if a < 0x80 then utf8_valid r
     else if 0xC2 \<le> a \<and> a \<le> 0xDF then
       (case r of b # r' \<Rightarrow> utf8_cont b \<and> utf8_valid r' | _ \<Rightarrow> False)
     else if 0xE0 \<le> a \<and> a \<le> 0xEF then
       (case r of
          b # c # r' \<Rightarrow>
            utf8_cont b \<and> (a = 0xE0 \<longrightarrow> 0xA0 \<le> b) \<and> (a = 0xED \<longrightarrow> b \<le> 0x9F)
            \<and> utf8_cont c \<and> utf8_valid r'
        | _ \<Rightarrow> False)
     else if 0xF0 \<le> a \<and> a \<le> 0xF4 then
       (case r of
          b # c # d # r' \<Rightarrow>
            utf8_cont b \<and> (a = 0xF0 \<longrightarrow> 0x90 \<le> b) \<and> (a = 0xF4 \<longrightarrow> b \<le> 0x8F)
            \<and> utf8_cont c \<and> utf8_cont d \<and> utf8_valid r'
        | _ \<Rightarrow> False)
     else False)"

definition from_utf8 :: "bytes \<Rightarrow> string option" where
  "from_utf8 bs = (if utf8_valid bs then Some (map char_of_byte bs) else None)"

lemma from_utf8_as_bytes: "utf8_valid (as_bytes s) \<Longrightarrow> from_utf8 (as_bytes s) = Some s"
  by (simp add: from_utf8_def)

text \<open>An ASCII byte is a character boundary on both sides.\<close>

lemma utf8_valid_ascii_split:
  "a < 0x80 \<Longrightarrow> utf8_valid (xs @ a # ys) \<longleftrightarrow> utf8_valid xs \<and> utf8_valid ys"
proof (induction xs rule: utf8_valid.induct)
  case 1
  then show ?case by simp
next
  case (2 x r)
  have na: "\<not> utf8_cont a" using "2.prems" by (simp add: utf8_cont_def not_le)
  note unfold = list.sel list.simps if_cancel utf8_valid.simps append.simps if_True if_False list.case simp_thms conj_assoc
  consider (a) "x < 0x80" | (b) "\<not> x < 0x80" "0xC2 \<le> x \<and> x \<le> 0xDF"
    | (c) "\<not> x < 0x80" "\<not> (0xC2 \<le> x \<and> x \<le> 0xDF)" "0xE0 \<le> x \<and> x \<le> 0xEF"
    | (d) "\<not> x < 0x80" "\<not> (0xC2 \<le> x \<and> x \<le> 0xDF)" "\<not> (0xE0 \<le> x \<and> x \<le> 0xEF)" "0xF0 \<le> x \<and> x \<le> 0xF4"
    | (e) "\<not> x < 0x80" "\<not> (0xC2 \<le> x \<and> x \<le> 0xDF)" "\<not> (0xE0 \<le> x \<and> x \<le> 0xEF)" "\<not> (0xF0 \<le> x \<and> x \<le> 0xF4)"
    by blast
  then show ?case
  proof cases
    case a
    then show ?thesis using "2.IH"(1) "2.prems" by simp
  next
    case b
    consider "r = []" | b' r' where "r = b' # r'" by (cases r) auto
    then show ?thesis
      by cases (use "2.IH"(2) [OF b _ "2.prems"] in \<open>simp_all only: unfold b na\<close>)
  next
    case c
    consider "r = []" | b' where "r = [b']" | b' c' r' where "r = b' # c' # r'"
      by (cases r; cases "tl r") auto
    then show ?thesis
      by cases (use "2.IH"(3) [OF c _ _ "2.prems"] in \<open>simp_all only: unfold c na list.case_eq_if cong: if_cong\<close>)
  next
    case d
    consider "r = []" | b' where "r = [b']" | b' c' where "r = [b', c']"
      | b' c' d' r' where "r = b' # c' # d' # r'"
      by (cases r; cases "tl r"; cases "tl (tl r)") auto
    then show ?thesis
      by cases (use "2.IH"(4) [OF d _ _ _ "2.prems"] in \<open>simp_all only: unfold d na list.case_eq_if cong: if_cong\<close>)
  next
    case e
    then show ?thesis by (simp only: unfold)
  qed
qed
text \<open>\<open>str::chars\<close>: each code point is kept as its byte sequence.\<close>

definition utf8_len :: "char \<Rightarrow> nat" where
  "utf8_len c =
    (if (of_char c :: nat) < 0xC0 then 1 else if (of_char c :: nat) < 0xE0 then 2
     else if (of_char c :: nat) < 0xF0 then 3 else 4)"

fun chars :: "string \<Rightarrow> string list" where
  "chars [] = []"
| "chars (c # cs) = (c # take (utf8_len c - 1) cs) # chars (drop (utf8_len c - 1) cs)"

text \<open>The scalar value of a character given as its bytes, and text given as bytes.\<close>

definition bt :: "nat list \<Rightarrow> string" where
  "bt bs = map char_of bs"

fun char_scalar :: "string \<Rightarrow> nat" where
  "char_scalar [a] = of_char a"
| "char_scalar [a, b] = (of_char a mod 32) * 64 + of_char b mod 64"
| "char_scalar [a, b, c] = ((of_char a mod 16) * 64 + of_char b mod 64) * 64 + of_char c mod 64"
| "char_scalar [a, b, c, d] =
    (((of_char a mod 8) * 64 + of_char b mod 64) * 64 + of_char c mod 64) * 64 + of_char d mod 64"
| "char_scalar _ = 0"

lemma concat_chars [simp]: "concat (chars s) = s"
  by (induction s rule: chars.induct) simp_all

lemma chars_not_Nil: "p \<in> set (chars s) \<Longrightarrow> p \<noteq> []"
  by (induction s rule: chars.induct) auto

text \<open>Only the last piece of a text can be incomplete, so cutting before it keeps the boundaries.\<close>

lemma chars_take_append:
  "k < length (chars s) \<Longrightarrow> chars (concat (take k (chars s)) @ t) = take k (chars s) @ chars t"
proof (induction s arbitrary: k rule: chars.induct)
  case (2 c cs)
  show ?case
  proof (cases k)
    case (Suc j)
    then have j: "j < length (chars (drop (utf8_len c - 1) cs))" using "2.prems" by simp
    then have "drop (utf8_len c - 1) cs \<noteq> []" by auto
    then have "length (take (utf8_len c - 1) cs) = utf8_len c - 1" by simp
    then show ?thesis using Suc "2.IH" [OF j] by simp
  qed simp
qed simp

section \<open>ASCII case\<close>

definition to_ascii_lowercase_char :: "char \<Rightarrow> char" where
  "to_ascii_lowercase_char c =
    (if 65 \<le> (of_char c :: nat) \<and> (of_char c :: nat) \<le> 90 then char_of (of_char c + 32 :: nat) else c)"

definition to_ascii_lowercase :: "string \<Rightarrow> string" where
  "to_ascii_lowercase s = map to_ascii_lowercase_char s"

definition eq_ignore_ascii_case :: "string \<Rightarrow> string \<Rightarrow> bool" where
  "eq_ignore_ascii_case s t \<longleftrightarrow> to_ascii_lowercase s = to_ascii_lowercase t"

end
