(* ===== verification/Snapshot.thy ===== *)
theory Snapshot
  imports Std_Text
begin

text \<open>
  Completeness evidence for kernel dumps and the switch-file observation
  (crates/flux-core/src/snapshot.rs). The field of \<open>trusted_snapshot\<close> is private in the source, so
  \<open>try_from_parts\<close> is the only constructor; \<open>done_status\<close> is an \<open>i32\<close>.
\<close>

record incomplete_dump =
  idump_interrupted :: bool
  idump_truncated :: bool
  idump_overrun :: bool
  idump_done_status :: "32 word"

definition display_bool :: "bool \<Rightarrow> string" where
  "display_bool b = (if b then ''true'' else ''false'')"

definition display_i32 :: "32 word \<Rightarrow> string" where
  "display_i32 w = (if sint w < 0 then ''-'' @ dec (nat (- sint w)) else dec (nat (sint w)))"

definition incomplete_dump_display :: "incomplete_dump \<Rightarrow> string" where
  "incomplete_dump_display d =
    ''incomplete kernel dump (interrupted='' @ display_bool (idump_interrupted d)
    @ '', truncated='' @ display_bool (idump_truncated d)
    @ '', overrun='' @ display_bool (idump_overrun d)
    @ '', done_status='' @ display_i32 (idump_done_status d) @ '')''"

datatype 'a trusted_snapshot = Trusted (into_inner: 'a)

definition try_from_parts ::
  "'a \<Rightarrow> bool \<Rightarrow> bool \<Rightarrow> bool \<Rightarrow> 32 word \<Rightarrow> incomplete_dump + 'a trusted_snapshot" where
  "try_from_parts val interrupted truncated overrun done_status =
    (if interrupted \<or> truncated \<or> overrun \<or> done_status \<noteq> 0 then
       Err \<lparr>idump_interrupted = interrupted, idump_truncated = truncated,
            idump_overrun = overrun, idump_done_status = done_status\<rparr>
     else Ok (Trusted val))"

definition snapshot_get :: "'a trusted_snapshot \<Rightarrow> 'a" where
  "snapshot_get s = into_inner s"

datatype presence = Present | Absent | Unreadable

definition capture_permitted :: "presence \<Rightarrow> bool" where
  "capture_permitted p \<longleftrightarrow> p = Absent"

lemma try_from_parts_eq_Ok:
  "try_from_parts v i t r d = Ok s \<longleftrightarrow> \<not> i \<and> \<not> t \<and> \<not> r \<and> d = 0 \<and> s = Trusted v"
  by (auto simp: try_from_parts_def)

end
