(* ===== verification/Abi.thy ===== *)
theory Abi
  imports Flux_Prelude
begin

text \<open>
  The shared ABI of crates/flux-core/src/abi.rs: map and program names, limits, the enumerations and
  \<open>repr(C)\<close> structures of the BPF maps, their sizes and field offsets under the C layout rules, and
  the selection of a PolicyEpoch bank.
\<close>

section \<open>Constants\<close>

definition FLUX_ABI_MAGIC :: u32 where "FLUX_ABI_MAGIC = 0xF10C0905"
definition FLUX_DECISION_MAGIC :: u32 where "FLUX_DECISION_MAGIC = 0xD3C15100"
definition MAP_UID_POLICY_0 :: string where "MAP_UID_POLICY_0 = ''uid_policy_0''"
definition MAP_UID_POLICY_1 :: string where "MAP_UID_POLICY_1 = ''uid_policy_1''"
definition MAP_BYPASS_V4_0 :: string where "MAP_BYPASS_V4_0 = ''bypass_v4_0''"
definition MAP_BYPASS_V4_1 :: string where "MAP_BYPASS_V4_1 = ''bypass_v4_1''"
definition MAP_BYPASS_V6_0 :: string where "MAP_BYPASS_V6_0 = ''bypass_v6_0''"
definition MAP_BYPASS_V6_1 :: string where "MAP_BYPASS_V6_1 = ''bypass_v6_1''"
definition MAP_SELF_ADDR_V4_0 :: string where "MAP_SELF_ADDR_V4_0 = ''self_addr_v4_0''"
definition MAP_SELF_ADDR_V4_1 :: string where "MAP_SELF_ADDR_V4_1 = ''self_addr_v4_1''"
definition MAP_SELF_ADDR_V6_0 :: string where "MAP_SELF_ADDR_V6_0 = ''self_addr_v6_0''"
definition MAP_SELF_ADDR_V6_1 :: string where "MAP_SELF_ADDR_V6_1 = ''self_addr_v6_1''"

definition uid_policy_map :: "u8 \<Rightarrow> string" where
  "uid_policy_map bank = (if bank AND 1 = 0 then MAP_UID_POLICY_0 else MAP_UID_POLICY_1)"

definition bypass_v4_map :: "u8 \<Rightarrow> string" where
  "bypass_v4_map bank = (if bank AND 1 = 0 then MAP_BYPASS_V4_0 else MAP_BYPASS_V4_1)"

definition bypass_v6_map :: "u8 \<Rightarrow> string" where
  "bypass_v6_map bank = (if bank AND 1 = 0 then MAP_BYPASS_V6_0 else MAP_BYPASS_V6_1)"

definition self_addr_v4_map :: "u8 \<Rightarrow> string" where
  "self_addr_v4_map bank = (if bank AND 1 = 0 then MAP_SELF_ADDR_V4_0 else MAP_SELF_ADDR_V4_1)"

definition self_addr_v6_map :: "u8 \<Rightarrow> string" where
  "self_addr_v6_map bank = (if bank AND 1 = 0 then MAP_SELF_ADDR_V6_0 else MAP_SELF_ADDR_V6_1)"

definition inactive_policy_bank :: "u8 \<Rightarrow> u8" where
  "inactive_policy_bank live = 1 - (live AND 1)"

definition MAP_UID_STATS :: string where "MAP_UID_STATS = ''uid_stats''"
definition MAP_TCP_DECISION :: string where "MAP_TCP_DECISION = ''tcp_decision''"
definition MAP_CONTROL_ROOT :: string where "MAP_CONTROL_ROOT = ''control_root''"
definition MAP_CONTROL_LEAF :: string where "MAP_CONTROL_LEAF = ''control_leaf''"
definition MAP_FAULT_LATCH :: string where "MAP_FAULT_LATCH = ''fault_latch''"
definition MAP_FAULT_EVENTS :: string where "MAP_FAULT_EVENTS = ''fault_events''"
definition MAP_COUNTERS :: string where "MAP_COUNTERS = ''counters''"

definition MAP_NAMES :: "string list" where
  "MAP_NAMES =
    [MAP_UID_POLICY_0, MAP_UID_POLICY_1, MAP_BYPASS_V4_0, MAP_BYPASS_V4_1, MAP_BYPASS_V6_0,
     MAP_BYPASS_V6_1, MAP_SELF_ADDR_V4_0, MAP_SELF_ADDR_V4_1, MAP_SELF_ADDR_V6_0,
     MAP_SELF_ADDR_V6_1, MAP_UID_STATS, MAP_TCP_DECISION, MAP_CONTROL_ROOT, MAP_CONTROL_LEAF,
     MAP_FAULT_LATCH, MAP_FAULT_EVENTS, MAP_COUNTERS]"

definition UID_POLICY_MAX_ENTRIES :: u32 where "UID_POLICY_MAX_ENTRIES = 4096"
definition UID_SELECTED_MAX :: u32 where "UID_SELECTED_MAX = 1024"
definition LPM_MAX_ENTRIES :: u32 where "LPM_MAX_ENTRIES = 65536"
definition SELF_ADDR_MAX_ENTRIES :: u32 where "SELF_ADDR_MAX_ENTRIES = 256"
definition UID_STATS_MAX_ENTRIES :: u32 where "UID_STATS_MAX_ENTRIES = 4096"
definition FAULT_LATCH_MAX_ENTRIES :: u32 where "FAULT_LATCH_MAX_ENTRIES = 64"
definition FAULT_RINGBUF_BYTES :: u32 where "FAULT_RINGBUF_BYTES = 16384"
definition COUNTER_SLOTS :: u32 where "COUNTER_SLOTS = 32"
definition APP_ID_MIN :: u32 where "APP_ID_MIN = 10000"
definition APP_ID_MAX :: u32 where "APP_ID_MAX = 19999"
definition USER_ID_STRIDE :: u32 where "USER_ID_STRIDE = 100000"
definition USER_ID_MAX :: u32 where "USER_ID_MAX = 999"
definition LISTEN_V4_STR :: string where "LISTEN_V4_STR = ''198.51.100.1''"
definition LISTEN_V6_STR :: string where "LISTEN_V6_STR = ''2001:db8:0:1::2''"
definition PROBE_REMOTE_V4_STR :: string where "PROBE_REMOTE_V4_STR = ''192.0.2.1''"
definition PROBE_REMOTE_V6_STR :: string where "PROBE_REMOTE_V6_STR = ''2001:db8:ffff::1''"
definition PROBE_REMOTE_PORT :: u16 where "PROBE_REMOTE_PORT = 9"
definition LISTEN_PORT_MIN :: u16 where "LISTEN_PORT_MIN = 61000"
definition LISTEN_PORT_MAX :: u16 where "LISTEN_PORT_MAX = 65535"
definition ETH_HLEN :: u32 where "ETH_HLEN = 14"
definition IPV6_MAX_EXT_HDRS :: u32 where "IPV6_MAX_EXT_HDRS = 4"
definition IPV6_MAX_EXT_BYTES :: u32 where "IPV6_MAX_EXT_BYTES = 256"
definition MAX_PULL_BYTES :: u32 where "MAX_PULL_BYTES = ETH_HLEN + 40 + IPV6_MAX_EXT_BYTES + 20"
definition PROG_CAP_L2 :: string where "PROG_CAP_L2 = ''flx_cap_l2''"
definition PROG_CAP_L3 :: string where "PROG_CAP_L3 = ''flx_cap_l3''"
definition PROG_IN :: string where "PROG_IN = ''flx_in''"
definition PROG_VERIFY :: string where "PROG_VERIFY = ''flx_verify''"

definition PROG_NAMES :: "string list" where
  "PROG_NAMES = [PROG_CAP_L2, PROG_CAP_L3, PROG_IN, PROG_VERIFY]"

definition SEC_CAP_L2 :: string where "SEC_CAP_L2 = ''tc''"
definition SEC_CAP_L3 :: string where "SEC_CAP_L3 = ''classifier''"
definition SEC_IN :: string where "SEC_IN = ''tc/ingress''"
definition SEC_VERIFY :: string where "SEC_VERIFY = ''tc/egress''"

definition PROG_SECTIONS :: "(string \<times> string) list" where
  "PROG_SECTIONS =
    [(PROG_CAP_L2, SEC_CAP_L2), (PROG_CAP_L3, SEC_CAP_L3), (PROG_IN, SEC_IN),
     (PROG_VERIFY, SEC_VERIFY)]"

definition VETH_HOST :: string where "VETH_HOST = ''flxrs0''"
definition VETH_PEER :: string where "VETH_PEER = ''flxrs1''"
definition VETH_HOST_ALIAS :: string where "VETH_HOST_ALIAS = ''flux-rs:managed:v1:host''"
definition VETH_PEER_ALIAS :: string where "VETH_PEER_ALIAS = ''flux-rs:managed:v1:peer''"
definition VETH_MTU :: u32 where "VETH_MTU = 65535"
definition RULE_PRIORITY :: u32 where "RULE_PRIORITY = 100"
definition ROUTE_TABLE :: u32 where "ROUTE_TABLE = 20260"
definition ROUTE_PROTO :: u8 where "ROUTE_PROTO = 202"
definition TC_CHAIN :: u32 where "TC_CHAIN = 0"
definition TC_HANDLE_EGRESS :: u32 where "TC_HANDLE_EGRESS = 0x1"
definition TC_HANDLE_INGRESS :: u32 where "TC_HANDLE_INGRESS = 0x2"
definition TC_HANDLE_VERIFY :: u32 where "TC_HANDLE_VERIFY = 0x3"
definition TC_PREF_PREFERRED :: u16 where "TC_PREF_PREFERRED = 2"
definition TC_PREF_MIN :: u16 where "TC_PREF_MIN = 1"
definition TC_PREF_CLAT_MAX :: u16 where "TC_PREF_CLAT_MAX = 4"

lemmas map_name_defs =
  MAP_UID_POLICY_0_def MAP_UID_POLICY_1_def MAP_BYPASS_V4_0_def MAP_BYPASS_V4_1_def
  MAP_BYPASS_V6_0_def MAP_BYPASS_V6_1_def MAP_SELF_ADDR_V4_0_def MAP_SELF_ADDR_V4_1_def
  MAP_SELF_ADDR_V6_0_def MAP_SELF_ADDR_V6_1_def MAP_UID_STATS_def MAP_TCP_DECISION_def
  MAP_CONTROL_ROOT_def MAP_CONTROL_LEAF_def MAP_FAULT_LATCH_def MAP_FAULT_EVENTS_def
  MAP_COUNTERS_def

section \<open>Enumerations\<close>

datatype uid_mode = Selected | Draining

fun uid_mode_discr :: "uid_mode \<Rightarrow> u8" where
  "uid_mode_discr Selected = 1"
| "uid_mode_discr Draining = 2"

datatype decision_mode = Direct | Captured

fun decision_mode_discr :: "decision_mode \<Rightarrow> u8" where
  "decision_mode_discr Direct = 1"
| "decision_mode_discr Captured = 2"

datatype cidr_mode = Cidr_Blacklist | Cidr_Whitelist

fun cidr_mode_discr :: "cidr_mode \<Rightarrow> u16" where
  "cidr_mode_discr Cidr_Blacklist = 0"
| "cidr_mode_discr Cidr_Whitelist = 1"

datatype bypass_tag = Reserved | Policy

fun bypass_tag_discr :: "bypass_tag \<Rightarrow> u8" where
  "bypass_tag_discr Reserved = 1"
| "bypass_tag_discr Policy = 2"

datatype fault_reason = EgressListener | IngressAssign

fun fault_reason_discr :: "fault_reason \<Rightarrow> u16" where
  "fault_reason_discr EgressListener = 1"
| "fault_reason_discr IngressAssign = 2"

datatype counter =
    AdmitTcp | DirectTcp | AdmitUdp | DropInactive | DropStaleGen | DropHandoff
  | DropSelectedFragment | DropCorrupt | DecisionAllocFail | EgressListenerMiss | InAssignTcp
  | InAssignUdp | InPassEstablished | InPassFragment | InDropNoListener | InDropAssign
  | InDropParse | InDropSnapshot | SawPacket

fun counter_slot :: "counter \<Rightarrow> u32" where
  "counter_slot AdmitTcp = 0"
| "counter_slot DirectTcp = 1"
| "counter_slot AdmitUdp = 2"
| "counter_slot DropInactive = 3"
| "counter_slot DropStaleGen = 4"
| "counter_slot DropHandoff = 5"
| "counter_slot DropSelectedFragment = 6"
| "counter_slot DropCorrupt = 7"
| "counter_slot DecisionAllocFail = 8"
| "counter_slot EgressListenerMiss = 9"
| "counter_slot InAssignTcp = 10"
| "counter_slot InAssignUdp = 11"
| "counter_slot InPassEstablished = 12"
| "counter_slot InPassFragment = 13"
| "counter_slot InDropNoListener = 14"
| "counter_slot InDropAssign = 15"
| "counter_slot InDropParse = 16"
| "counter_slot InDropSnapshot = 17"
| "counter_slot SawPacket = 18"

definition COUNTER_MAX :: u32 where "COUNTER_MAX = 19"

lemma counter_slots_fit:
  "counter_slot c < COUNTER_MAX" "COUNTER_MAX \<le> COUNTER_SLOTS"
  by (cases c) (simp_all add: COUNTER_MAX_def COUNTER_SLOTS_def)

lemma counter_slot_inj: "counter_slot c = counter_slot d \<longleftrightarrow> c = d"
  by (cases c; cases d) simp_all

section \<open>Structures and their C layout\<close>

text \<open>
  A field is its size and its alignment; \<open>repr(C)\<close> places it at the next multiple of its alignment
  and rounds the size of the structure up to the largest alignment.
\<close>

type_synonym field = "nat \<times> nat"

abbreviation f_u8 :: field where "f_u8 \<equiv> (1, 1)"
abbreviation f_u16 :: field where "f_u16 \<equiv> (2, 2)"
abbreviation f_u32 :: field where "f_u32 \<equiv> (4, 4)"
abbreviation f_u64 :: field where "f_u64 \<equiv> (8, 8)"
abbreviation f_bytes :: "nat \<Rightarrow> field" where "f_bytes n \<equiv> (n, 1)"

definition align_up :: "nat \<Rightarrow> nat \<Rightarrow> nat" where
  "align_up n a = (n + a - 1) div a * a"

fun field_offsets :: "nat \<Rightarrow> field list \<Rightarrow> nat list" where
  "field_offsets at [] = []"
| "field_offsets at (f # fs) = align_up at (snd f) # field_offsets (align_up at (snd f) + fst f) fs"

fun fields_end :: "nat \<Rightarrow> field list \<Rightarrow> nat" where
  "fields_end at [] = at"
| "fields_end at (f # fs) = fields_end (align_up at (snd f) + fst f) fs"

definition struct_align :: "field list \<Rightarrow> nat" where
  "struct_align fs = fold max (map snd fs) 1"

definition size_of :: "field list \<Rightarrow> nat" where
  "size_of fs = align_up (fields_end 0 fs) (struct_align fs)"

lemma align_up_dvd [simp]: "a dvd align_up n a"
  by (simp add: align_up_def)

lemma align_up_ge: "0 < a \<Longrightarrow> n \<le> align_up n a"
proof -
  assume "0 < a"
  then have "(n + a - 1) mod a \<le> a - 1"
    using mod_less_divisor [of a "n + a - 1"] by linarith
  moreover have "n + a - 1 = (n + a - 1) div a * a + (n + a - 1) mod a" by simp
  ultimately show ?thesis using \<open>0 < a\<close> unfolding align_up_def by linarith
qed

record decision =
  dec_magic :: u32
  dec_mode :: u8
  dec_reserved :: bytes
  dec_generation :: u64

definition decision_layout :: "field list" where
  "decision_layout = [f_u32, f_u8, f_bytes 3, f_u64]"

record control =
  abi_magic :: u32
  active :: u32
  ctl_generation :: u64
  flxrs0_ifindex :: u32
  flxrs1_ifindex :: u32
  listen_port_v4 :: u16
  listen_port_v6 :: u16
  listen_v4 :: bytes
  probe_remote_v4 :: bytes
  probe_remote_port :: u16
  ctl_cidr_mode :: u16
  listen_v6 :: bytes
  probe_remote_v6 :: bytes
  selected_count :: u32
  draining_count :: u32
  bypass_v4_count :: u32
  bypass_v6_count :: u32
  policy_bank :: u8
  ctl_pad1 :: bytes

definition control_layout :: "field list" where
  "control_layout =
    [f_u32, f_u32, f_u64, f_u32, f_u32, f_u16, f_u16, f_bytes 4, f_bytes 4, f_u16, f_u16,
     f_bytes 16, f_bytes 16, f_u32, f_u32, f_u32, f_u32, f_u8, f_bytes 7]"

record uid_stats =
  us_packets :: u64
  us_bytes :: u64

definition uid_stats_layout :: "field list" where
  "uid_stats_layout = [f_u64, f_u64]"

record lpm_v4_key =
  k4_prefixlen :: u32
  k4_addr :: bytes

definition lpm_v4_key_layout :: "field list" where
  "lpm_v4_key_layout = [f_u32, f_bytes 4]"

record lpm_v6_key =
  k6_prefixlen :: u32
  k6_addr :: bytes

definition lpm_v6_key_layout :: "field list" where
  "lpm_v6_key_layout = [f_u32, f_bytes 16]"

record fault_key =
  fk_generation :: u64
  fk_family :: u8
  fk_protocol :: u8
  fk_reason :: u16
  fk_pad0 :: u32

definition fault_key_layout :: "field list" where
  "fault_key_layout = [f_u64, f_u8, f_u8, f_u16, f_u32]"

record fault_event =
  fe_generation :: u64
  fe_family :: u8
  fe_protocol :: u8
  fe_reason :: u16
  fe_pad0 :: u32
  fe_seq :: u64
  fe_pad1 :: u64

definition fault_event_layout :: "field list" where
  "fault_event_layout = [f_u64, f_u8, f_u8, f_u16, f_u32, f_u64, f_u64]"

lemma struct_sizes [layout_simps]:
  "size_of decision_layout = 16" "size_of control_layout = 96" "size_of uid_stats_layout = 16"
  "size_of lpm_v4_key_layout = 8" "size_of lpm_v6_key_layout = 20" "size_of fault_key_layout = 16"
  "size_of fault_event_layout = 32"
  by code_simp+

text \<open>No structure of the ABI has implicit padding: its fields add up to its size.\<close>

lemma structs_have_no_padding:
  "list_all (\<lambda>fs. sum_list (map fst fs) = size_of fs)
     [decision_layout, control_layout, uid_stats_layout, lpm_v4_key_layout, lpm_v6_key_layout,
      fault_key_layout, fault_event_layout]"
  by code_simp

section \<open>Bank selection\<close>

lemmas bank_map_defs =
  uid_policy_map_def bypass_v4_map_def bypass_v6_map_def self_addr_v4_map_def self_addr_v6_map_def

definition bank_maps :: "u8 \<Rightarrow> string list" where
  "bank_maps b =
    [uid_policy_map b, bypass_v4_map b, bypass_v6_map b, self_addr_v4_map b, self_addr_v6_map b]"

lemma and_one_cases: "(w :: u8) AND 1 = 0 \<or> w AND 1 = 1"
  by (simp add: and_one_eq word_unat_eq_iff unat_word_ariths mod2_eq_if)

lemma inactive_policy_bank_cases: "inactive_policy_bank live \<in> {0, 1}"
  using and_one_cases [of live] by (auto simp: inactive_policy_bank_def)

lemma map_names_distinct: "distinct MAP_NAMES"
  by (simp add: MAP_NAMES_def map_name_defs)

end
