(* ===== verification/Map_Table.thy ===== *)
theory Map_Table
  imports Abi Std_Text
begin

text \<open>
  The canonical table of BPF map parameters, crates/fluxd/src/bpf/map_table.rs, and the C header
  that the build emits from it. \<open>panic!\<close> on an unknown map type is the value \<open>None\<close>.
\<close>

section \<open>The map table\<close>

definition MAP_TYPE_HASH :: u32 where "MAP_TYPE_HASH = 1"
definition MAP_TYPE_ARRAY :: u32 where "MAP_TYPE_ARRAY = 2"
definition MAP_TYPE_PERCPU_HASH :: u32 where "MAP_TYPE_PERCPU_HASH = 5"
definition MAP_TYPE_PERCPU_ARRAY :: u32 where "MAP_TYPE_PERCPU_ARRAY = 6"
definition MAP_TYPE_LPM_TRIE :: u32 where "MAP_TYPE_LPM_TRIE = 11"
definition MAP_TYPE_ARRAY_OF_MAPS :: u32 where "MAP_TYPE_ARRAY_OF_MAPS = 12"
definition MAP_TYPE_SK_STORAGE :: u32 where "MAP_TYPE_SK_STORAGE = 24"
definition MAP_TYPE_RINGBUF :: u32 where "MAP_TYPE_RINGBUF = 27"
definition BPF_F_NO_PREALLOC :: u32 where "BPF_F_NO_PREALLOC = 1"

record map_spec =
  ms_name :: string
  map_type :: u32
  key_size :: u32
  value_size :: u32
  max_entries :: u32
  map_flags :: u32
  needs_btf :: bool
  needs_inner_map :: bool

definition hash_u8 :: "string \<Rightarrow> u32 \<Rightarrow> u32 \<Rightarrow> map_spec" where
  "hash_u8 nm ks mx =
    \<lparr>ms_name = nm, map_type = MAP_TYPE_HASH, key_size = ks, value_size = 1, max_entries = mx,
     map_flags = 0, needs_btf = False, needs_inner_map = False\<rparr>"

definition lpm_spec :: "string \<Rightarrow> u32 \<Rightarrow> map_spec" where
  "lpm_spec nm ks =
    \<lparr>ms_name = nm, map_type = MAP_TYPE_LPM_TRIE, key_size = ks, value_size = 1,
     max_entries = LPM_MAX_ENTRIES, map_flags = BPF_F_NO_PREALLOC, needs_btf = False,
     needs_inner_map = False\<rparr>"

definition MAP_SPECS :: "map_spec list" where
  "MAP_SPECS =
    [hash_u8 MAP_UID_POLICY_0 4 UID_POLICY_MAX_ENTRIES,
     hash_u8 MAP_UID_POLICY_1 4 UID_POLICY_MAX_ENTRIES,
     lpm_spec MAP_BYPASS_V4_0 (word_of_nat (size_of lpm_v4_key_layout)),
     lpm_spec MAP_BYPASS_V4_1 (word_of_nat (size_of lpm_v4_key_layout)),
     lpm_spec MAP_BYPASS_V6_0 (word_of_nat (size_of lpm_v6_key_layout)),
     lpm_spec MAP_BYPASS_V6_1 (word_of_nat (size_of lpm_v6_key_layout)),
     hash_u8 MAP_SELF_ADDR_V4_0 4 SELF_ADDR_MAX_ENTRIES,
     hash_u8 MAP_SELF_ADDR_V4_1 4 SELF_ADDR_MAX_ENTRIES,
     hash_u8 MAP_SELF_ADDR_V6_0 16 SELF_ADDR_MAX_ENTRIES,
     hash_u8 MAP_SELF_ADDR_V6_1 16 SELF_ADDR_MAX_ENTRIES,
     \<lparr>ms_name = MAP_UID_STATS, map_type = MAP_TYPE_PERCPU_HASH, key_size = 4,
      value_size = word_of_nat (size_of uid_stats_layout), max_entries = UID_STATS_MAX_ENTRIES,
      map_flags = 0, needs_btf = False, needs_inner_map = False\<rparr>,
     \<lparr>ms_name = MAP_TCP_DECISION, map_type = MAP_TYPE_SK_STORAGE, key_size = 4,
      value_size = word_of_nat (size_of decision_layout), max_entries = 0,
      map_flags = BPF_F_NO_PREALLOC, needs_btf = True, needs_inner_map = False\<rparr>,
     \<lparr>ms_name = MAP_CONTROL_ROOT, map_type = MAP_TYPE_ARRAY_OF_MAPS, key_size = 4, value_size = 4,
      max_entries = 1, map_flags = 0, needs_btf = False, needs_inner_map = True\<rparr>,
     \<lparr>ms_name = MAP_CONTROL_LEAF, map_type = MAP_TYPE_ARRAY, key_size = 4,
      value_size = word_of_nat (size_of control_layout), max_entries = 1, map_flags = 0,
      needs_btf = False, needs_inner_map = False\<rparr>,
     \<lparr>ms_name = MAP_FAULT_LATCH, map_type = MAP_TYPE_HASH,
      key_size = word_of_nat (size_of fault_key_layout), value_size = 1,
      max_entries = FAULT_LATCH_MAX_ENTRIES, map_flags = 0, needs_btf = False,
      needs_inner_map = False\<rparr>,
     \<lparr>ms_name = MAP_FAULT_EVENTS, map_type = MAP_TYPE_RINGBUF, key_size = 0, value_size = 0,
      max_entries = FAULT_RINGBUF_BYTES, map_flags = 0, needs_btf = False,
      needs_inner_map = False\<rparr>,
     \<lparr>ms_name = MAP_COUNTERS, map_type = MAP_TYPE_PERCPU_ARRAY, key_size = 4, value_size = 8,
      max_entries = COUNTER_SLOTS, map_flags = 0, needs_btf = False, needs_inner_map = False\<rparr>]"

lemma map_specs_names: "map ms_name MAP_SPECS = MAP_NAMES"
  by (simp add: MAP_SPECS_def MAP_NAMES_def hash_u8_def lpm_spec_def)

section \<open>The emitted C header\<close>

definition bpf_map_type_name :: "u32 \<Rightarrow> string option" where
  "bpf_map_type_name t =
    (if t = MAP_TYPE_HASH then Some ''BPF_MAP_TYPE_HASH''
     else if t = MAP_TYPE_ARRAY then Some ''BPF_MAP_TYPE_ARRAY''
     else if t = MAP_TYPE_PERCPU_HASH then Some ''BPF_MAP_TYPE_PERCPU_HASH''
     else if t = MAP_TYPE_PERCPU_ARRAY then Some ''BPF_MAP_TYPE_PERCPU_ARRAY''
     else if t = MAP_TYPE_LPM_TRIE then Some ''BPF_MAP_TYPE_LPM_TRIE''
     else if t = MAP_TYPE_ARRAY_OF_MAPS then Some ''BPF_MAP_TYPE_ARRAY_OF_MAPS''
     else if t = MAP_TYPE_SK_STORAGE then Some ''BPF_MAP_TYPE_SK_STORAGE''
     else if t = MAP_TYPE_RINGBUF then Some ''BPF_MAP_TYPE_RINGBUF''
     else None)"

definition c_key_size :: "map_spec \<Rightarrow> string" where
  "c_key_size spec =
    (if ms_name spec = MAP_BYPASS_V4_0 \<or> ms_name spec = MAP_BYPASS_V4_1
     then ''sizeof(struct flux_lpm_v4_key)''
     else if ms_name spec = MAP_BYPASS_V6_0 \<or> ms_name spec = MAP_BYPASS_V6_1
     then ''sizeof(struct flux_lpm_v6_key)''
     else if ms_name spec = MAP_FAULT_LATCH then ''sizeof(struct flux_fault_key)''
     else if ms_name spec = MAP_TCP_DECISION then ''sizeof(int)''
     else dec (unat (key_size spec)))"

definition c_value_size :: "map_spec \<Rightarrow> string" where
  "c_value_size spec =
    (if ms_name spec = MAP_CONTROL_LEAF then ''sizeof(struct flux_control)''
     else if ms_name spec = MAP_TCP_DECISION then ''sizeof(struct flux_decision)''
     else if ms_name spec = MAP_UID_STATS then ''sizeof(struct flux_uid_stats)''
     else dec (unat (value_size spec)))"

abbreviation nl_tab :: string where
  "nl_tab \<equiv> [CHR 0x0A, CHR 0x09]"

definition emit_fields :: "map_spec \<Rightarrow> string option" where
  "emit_fields spec =
    (case bpf_map_type_name (map_type spec) of
       None \<Rightarrow> None
     | Some ty \<Rightarrow>
         let body = [CHR 0x09] @ ''__uint(type, '' @ ty @ '');'' @ nl_tab
                      @ ''__uint(max_entries, '' @ dec (unat (max_entries spec)) @ '');'';
             body = (if map_flags spec \<noteq> 0
                       then body @ nl_tab @ ''__uint(map_flags, BPF_F_NO_PREALLOC);'' else body)
         in if needs_inner_map spec then
              Some (body @ nl_tab @ ''__type(key, __u32);''
                    @ nl_tab @ ''__array(values, struct control_leaf);'')
            else if map_type spec \<noteq> MAP_TYPE_RINGBUF then
              Some (body @ nl_tab @ ''__uint(key_size, '' @ c_key_size spec @ '');''
                    @ nl_tab @ ''__uint(value_size, '' @ c_value_size spec @ '');'')
            else Some body)"

definition emit_struct :: "map_spec \<Rightarrow> string option" where
  "emit_struct spec =
    (case emit_fields spec of
       None \<Rightarrow> None
     | Some body \<Rightarrow>
         if ms_name spec = MAP_CONTROL_LEAF then
           Some (''struct control_leaf {'' @ [newline] @ body @ [newline] @ ''};''
                 @ [newline, newline])
         else
           Some (''struct {'' @ [newline] @ body @ [newline] @ ''} '' @ ms_name spec
                 @ '' SEC('' @ [CHR 0x22] @ ''.maps'' @ [CHR 0x22] @ '');'' @ [newline, newline]))"

fun emit_all :: "string \<Rightarrow> map_spec list \<Rightarrow> string option" where
  "emit_all out [] = Some out"
| "emit_all out (spec # specs) =
    (case emit_struct spec of None \<Rightarrow> None | Some s \<Rightarrow> emit_all (out @ s) specs)"

definition emit_c_header :: "string option" where
  "emit_c_header =
    emit_all (''/* Generated from crates/fluxd/src/bpf/map_table.rs MAP_SPECS. Do not edit. */''
              @ [newline, newline]) MAP_SPECS"

lemmas map_type_defs =
  MAP_TYPE_HASH_def MAP_TYPE_ARRAY_def MAP_TYPE_PERCPU_HASH_def MAP_TYPE_PERCPU_ARRAY_def
  MAP_TYPE_LPM_TRIE_def MAP_TYPE_ARRAY_OF_MAPS_def MAP_TYPE_SK_STORAGE_def MAP_TYPE_RINGBUF_def

lemma map_specs_types_known: "\<forall>spec\<in>set MAP_SPECS. bpf_map_type_name (map_type spec) \<noteq> None"
  by (simp add: MAP_SPECS_def hash_u8_def lpm_spec_def bpf_map_type_name_def map_type_defs)

lemma emit_struct_Some: "bpf_map_type_name (map_type spec) \<noteq> None \<Longrightarrow> emit_struct spec \<noteq> None"
  by (auto simp: emit_struct_def emit_fields_def Let_def)

lemma emit_all_concat:
  "\<forall>spec\<in>set specs. emit_struct spec \<noteq> None \<Longrightarrow>
   emit_all out specs = Some (out @ concat (map (\<lambda>spec. the (emit_struct spec)) specs))"
  by (induction specs arbitrary: out) auto

text \<open>
  The map table lists exactly the map symbols of the ABI, in their order and without a
  duplicate, every map type it uses is known to the emitter so that the header is produced without
  a panic, and the header declares the maps in the order of the table.
\<close>

theorem map_table_complete:
  "map ms_name MAP_SPECS = MAP_NAMES \<and> distinct MAP_NAMES \<and>
   emit_c_header =
     Some ((''/* Generated from crates/fluxd/src/bpf/map_table.rs MAP_SPECS. Do not edit. */''
            @ [newline, newline]) @ concat (map (\<lambda>spec. the (emit_struct spec)) MAP_SPECS))"
  unfolding emit_c_header_def
  using emit_all_concat map_specs_types_known emit_struct_Some map_specs_names map_names_distinct
  by blast

text \<open>
  The five policy maps of the inactive bank are different maps from those of the live bank, for
  every value of the bank byte, and all ten of them are in the loader's table: writing the inactive
  bank never touches a map that the data plane reads.
\<close>

theorem inactive_bank_is_disjoint:
  "set (bank_maps live) \<inter> set (bank_maps (inactive_policy_bank live)) = {}
   \<and> set (bank_maps live) \<union> set (bank_maps (inactive_policy_bank live))
       \<subseteq> set (map ms_name MAP_SPECS)
   \<and> inactive_policy_bank (inactive_policy_bank live) = live AND 1"
proof -
  have "live AND 1 = 0 \<or> live AND 1 = 1" by (rule and_one_cases)
  then show ?thesis
    unfolding bank_maps_def map_specs_names
    by (elim disjE) (simp_all add: bank_map_defs inactive_policy_bank_def MAP_NAMES_def map_name_defs)
qed

end
