(* ===== verification/Net_Addr.thy ===== *)
theory Net_Addr
  imports Std_Text
begin

text \<open>
  \<open>Ipv4Addr\<close> and \<open>Ipv6Addr\<close> of the standard library: octets and segments, \<open>FromStr\<close> as the
  backtracking parser of \<open>core::net\<close> and \<open>Display\<close> with the compression of the longest zero run and
  the IPv4-mapped form. An address is the big-endian number of its octets, whose order is the order
  of the addresses. Main lemmas: parsing is the inverse of printing for both families.
\<close>

section \<open>Addresses\<close>

type_synonym ipv4_addr = u32
type_synonym ipv6_addr = u128

definition ipv4_octets :: "ipv4_addr \<Rightarrow> bytes" where
  "ipv4_octets a = be_bytes 4 a"

definition ipv6_octets :: "ipv6_addr \<Rightarrow> bytes" where
  "ipv6_octets a = be_bytes 16 a"

definition ipv4_from_octets :: "bytes \<Rightarrow> ipv4_addr" where
  "ipv4_from_octets bs = from_be_bytes bs"

definition ipv6_from_octets :: "bytes \<Rightarrow> ipv6_addr" where
  "ipv6_from_octets bs = from_be_bytes bs"

fun pair_up :: "bytes \<Rightarrow> u16 list" where
  "pair_up (a # b # bs) = from_be_bytes [a, b] # pair_up bs"
| "pair_up _ = []"

definition ipv6_segments :: "ipv6_addr \<Rightarrow> u16 list" where
  "ipv6_segments a = pair_up (ipv6_octets a)"

definition ipv6_from_segments :: "u16 list \<Rightarrow> ipv6_addr" where
  "ipv6_from_segments gs = ipv6_from_octets (concat (map (be_bytes 2) gs))"

lemma be_bytes_from_be_bytes:
  "8 * length bs \<le> LENGTH('a) \<Longrightarrow> be_bytes (length bs) (from_be_bytes bs :: 'a::len word) = bs"
  using le_bytes_from_le_bytes [of "rev bs", where ?'a = 'a]
  by (simp add: be_bytes_def from_be_bytes_def rev_swap)

lemma unpair_pair_up: "even (length bs) \<Longrightarrow> concat (map (be_bytes 2) (pair_up bs)) = bs"
proof (induction bs rule: pair_up.induct)
  case (1 a b bs)
  have "be_bytes 2 (from_be_bytes [a, b] :: u16) = [a, b]"
    using be_bytes_from_be_bytes [of "[a, b]", where ?'a = 16] by (simp add: numeral_2_eq_2)
  with 1 show ?case by simp
qed auto

lemma length_pair_up: "length (pair_up bs) = length bs div 2"
  by (induction bs rule: pair_up.induct) auto

lemma ipv6_from_segments_segments [simp]: "ipv6_from_segments (ipv6_segments a) = a"
  by (simp add: ipv6_from_segments_def ipv6_segments_def ipv6_octets_def ipv6_from_octets_def
      unpair_pair_up)

lemma length_ipv6_segments [simp]: "length (ipv6_segments a) = 8"
  by (simp add: ipv6_segments_def ipv6_octets_def length_pair_up)

lemma ipv4_from_octets_octets [simp]: "ipv4_from_octets (ipv4_octets a) = a"
  by (simp add: ipv4_from_octets_def ipv4_octets_def)

lemma length_ipv4_octets [simp]: "length (ipv4_octets a) = 4"
  by (simp add: ipv4_octets_def)

section \<open>Printing numbers in a radix\<close>

definition hex_digit :: "nat \<Rightarrow> char" where
  "hex_digit d = (if d < 10 then char_of (48 + d) else char_of (87 + d))"

fun num_str :: "nat \<Rightarrow> nat \<Rightarrow> string" where
  "num_str r n =
    (if n < r \<or> r < 2 then [hex_digit n] else num_str r (n div r) @ [hex_digit (n mod r)])"

declare num_str.simps [simp del]

definition hex :: "nat \<Rightarrow> string" where
  "hex n = num_str 16 n"

definition to_digit :: "nat \<Rightarrow> char \<Rightarrow> nat option" where
  "to_digit r c =
    (let n = of_char c;
         d = (if 48 \<le> n \<and> n \<le> 57 then Some (n - 48)
              else if 97 \<le> n \<and> n \<le> 122 then Some (n - 87)
              else if 65 \<le> n \<and> n \<le> 90 then Some (n - 55)
              else None)
     in case d of Some v \<Rightarrow> if v < r then Some v else None | None \<Rightarrow> None)"

lemma dec_eq_num_str: "dec n = num_str 10 n"
proof (induction n rule: dec.induct)
  case (1 n)
  have "n mod 10 < 10" by simp
  with 1 show ?case
    by (cases "n < 10") (simp_all add: dec.simps [of n] num_str.simps [of 10 n] digit_char_def
        hex_digit_def)
qed

lemma to_digit_hex_digit: "d < r \<Longrightarrow> r \<le> 36 \<Longrightarrow> to_digit r (hex_digit d) = Some d"
  by (auto simp: to_digit_def hex_digit_def Let_def)

lemma num_str_not_Nil [simp]: "num_str r n \<noteq> []"
  by (subst num_str.simps) simp

lemma num_str_digits:
  "2 \<le> r \<Longrightarrow> r \<le> 36 \<Longrightarrow> c \<in> set (num_str r n) \<Longrightarrow> to_digit r c \<noteq> None"
proof (induction r n rule: num_str.induct)
  case (1 r n)
  then show ?case
    by (cases "n < r") (auto simp: num_str.simps [of r n] to_digit_hex_digit)
qed

definition horner :: "nat \<Rightarrow> nat \<Rightarrow> string \<Rightarrow> nat" where
  "horner r acc s = foldl (\<lambda>a c. a * r + the (to_digit r c)) acc s"

lemma horner_num_str: "2 \<le> r \<Longrightarrow> r \<le> 36 \<Longrightarrow> horner r 0 (num_str r n) = n"
proof (induction r n rule: num_str.induct)
  case (1 r n)
  then show ?case
    by (cases "n < r") (simp_all add: num_str.simps [of r n] to_digit_hex_digit horner_def)
qed

lemma length_num_str:
  "2 \<le> r \<Longrightarrow> 0 < k \<Longrightarrow> n < r ^ k \<Longrightarrow> length (num_str r n) \<le> k"
proof (induction r n arbitrary: k rule: num_str.induct)
  case (1 r n)
  show ?case
  proof (cases "n < r")
    case True
    with "1.prems" show ?thesis by (simp add: num_str.simps [of r n])
  next
    case False
    have "k \<noteq> 1" using False "1.prems" by auto
    then obtain j where k: "k = Suc j" "0 < j" using "1.prems"(2) by (cases k) auto
    then have "n div r < r ^ j" using "1.prems" by (simp add: less_mult_imp_div_less mult.commute)
    then have "length (num_str r (n div r)) \<le> j" using False k "1.prems"(1) by (intro "1.IH") auto
    then show ?thesis using False k "1.prems"(1) by (simp add: num_str.simps [of r n])
  qed
qed

lemma num_str_leading_zero:
  "2 \<le> r \<Longrightarrow> r \<le> 36 \<Longrightarrow> hd (num_str r n) = CHR ''0'' \<Longrightarrow> n = 0"
proof (induction r n rule: num_str.induct)
  case (1 r n)
  show ?case
  proof (cases "n < r")
    case True
    have "to_digit r CHR ''0'' = Some 0" using "1.prems"(1) by (simp add: to_digit_def)
    then show ?thesis using True "1.prems" to_digit_hex_digit [OF True]
      by (simp add: num_str.simps [of r n])
  next
    case False
    then have "n div r = 0" using 1 by (simp add: num_str.simps [of r n])
    then show ?thesis using False "1.prems"(1) by (simp add: div_eq_0_iff)
  qed
qed

section \<open>The address parser\<close>

fun read_digits :: "nat \<Rightarrow> nat \<Rightarrow> nat \<Rightarrow> nat \<Rightarrow> string \<Rightarrow> (nat \<times> nat \<times> string) option" where
  "read_digits r mx n acc [] = Some (n, acc, [])"
| "read_digits r mx n acc (c # cs) =
    (case to_digit r c of
       None \<Rightarrow> Some (n, acc, c # cs)
     | Some d \<Rightarrow> if n + 1 > mx then None else read_digits r mx (n + 1) (acc * r + d) cs)"

definition read_number :: "nat \<Rightarrow> nat \<Rightarrow> bool \<Rightarrow> string \<Rightarrow> ('a::len word \<times> string) option" where
  "read_number r mx allow_zero_prefix s =
    (case read_digits r mx 0 0 s of
       None \<Rightarrow> None
     | Some (n, v, rest) \<Rightarrow>
         if n = 0 then None
         else if \<not> allow_zero_prefix \<and> starts_with s ''0'' \<and> n > 1 then None
         else if v < 2 ^ LENGTH('a) then Some (word_of_nat v, rest) else None)"

definition read_given_char :: "char \<Rightarrow> string \<Rightarrow> string option" where
  "read_given_char c s = (case s of x # xs \<Rightarrow> if x = c then Some xs else None | [] \<Rightarrow> None)"

definition read_separator ::
    "char \<Rightarrow> nat \<Rightarrow> (string \<Rightarrow> ('b \<times> string) option) \<Rightarrow> string \<Rightarrow> ('b \<times> string) option" where
  "read_separator sep i p s =
    (if i > 0 then (case read_given_char sep s of None \<Rightarrow> None | Some r \<Rightarrow> p r) else p s)"

fun read_octets :: "nat \<Rightarrow> nat \<Rightarrow> string \<Rightarrow> (bytes \<times> string) option" where
  "read_octets i 0 s = Some ([], s)"
| "read_octets i (Suc k) s =
    (case read_separator CHR ''.'' i (read_number 10 3 False) s of
       None \<Rightarrow> None
     | Some (b, r) \<Rightarrow> map_option (\<lambda>(bs, r'). (b # bs, r')) (read_octets (i + 1) k r))"

definition read_ipv4_addr :: "string \<Rightarrow> (ipv4_addr \<times> string) option" where
  "read_ipv4_addr s = map_option (\<lambda>(bs, r). (ipv4_from_octets bs, r)) (read_octets 0 4 s)"

definition parse_ipv4 :: "string \<Rightarrow> ipv4_addr option" where
  "parse_ipv4 s =
    (if length s > 15 then None
     else case read_ipv4_addr s of Some (a, []) \<Rightarrow> Some a | _ \<Rightarrow> None)"

fun read_groups :: "nat \<Rightarrow> nat \<Rightarrow> string \<Rightarrow> u16 list \<times> bool \<times> string" where
  "read_groups i 0 s = ([], False, s)"
| "read_groups i (Suc k) s =
    (case (if k > 0 then read_separator CHR '':'' i read_ipv4_addr s else None) of
       Some (a, r) \<Rightarrow> (pair_up (ipv4_octets a), True, r)
     | None \<Rightarrow>
         (case read_separator CHR '':'' i (read_number 16 4 True) s of
            None \<Rightarrow> ([], False, s)
          | Some (g, r) \<Rightarrow>
              (let (gs, v4, r') = read_groups (i + 1) k r in (g # gs, v4, r'))))"

definition read_ipv6_addr :: "string \<Rightarrow> (ipv6_addr \<times> string) option" where
  "read_ipv6_addr s =
    (let (head, head_ipv4, r) = read_groups 0 8 s
     in if length head = 8 then Some (ipv6_from_segments head, r)
        else if head_ipv4 then None
        else case read_given_char CHR '':'' r of
               None \<Rightarrow> None
             | Some r1 \<Rightarrow>
                 (case read_given_char CHR '':'' r1 of
                    None \<Rightarrow> None
                  | Some r2 \<Rightarrow>
                      (let (tail, _, r3) = read_groups 0 (8 - (length head + 1)) r2
                       in Some (ipv6_from_segments
                                  (head @ replicate (8 - length head - length tail) 0 @ tail), r3))))"

definition parse_ipv6 :: "string \<Rightarrow> ipv6_addr option" where
  "parse_ipv6 s = (case read_ipv6_addr s of Some (a, []) \<Rightarrow> Some a | _ \<Rightarrow> None)"

section \<open>Display\<close>

definition ipv4_display :: "ipv4_addr \<Rightarrow> string" where
  "ipv4_display a = join_with CHR ''.'' (map (\<lambda>b. dec (unat b)) (ipv4_octets a))"

text \<open>The state of the search for the longest zero run: current start and length, longest start and length.\<close>

type_synonym spans = "nat \<times> nat \<times> nat \<times> nat"

fun span_step :: "nat \<times> u16 \<Rightarrow> spans \<Rightarrow> spans" where
  "span_step (i, g) (cs, cl, ls, ll) =
    (if g = 0 then
       (let cs' = (if cl = 0 then i else cs); cl' = cl + 1
        in if cl' > ll then (cs', cl', cs', cl') else (cs', cl', ls, ll))
     else (0, 0, ls, ll))"

definition longest_zeros :: "u16 list \<Rightarrow> nat \<times> nat" where
  "longest_zeros gs =
    (let (_, _, ls, ll) = fold span_step (enumerate 0 gs) (0, 0, 0, 0) in (ls, ll))"

definition fmt_subslice :: "u16 list \<Rightarrow> string" where
  "fmt_subslice gs = join_with CHR '':'' (map (\<lambda>g. hex (unat g)) gs)"

definition to_ipv4_mapped :: "ipv6_addr \<Rightarrow> ipv4_addr option" where
  "to_ipv4_mapped a =
    (if take 6 (ipv6_segments a) = [0, 0, 0, 0, 0, 0xFFFF]
     then Some (ipv4_from_octets (drop 12 (ipv6_octets a))) else None)"

definition ipv6_display :: "ipv6_addr \<Rightarrow> string" where
  "ipv6_display a =
    (case to_ipv4_mapped a of
       Some v4 \<Rightarrow> ''::ffff:'' @ ipv4_display v4
     | None \<Rightarrow>
         (let gs = ipv6_segments a; (start, len) = longest_zeros gs
          in if len > 1 then fmt_subslice (take start gs) @ ''::'' @ fmt_subslice (drop (start + len) gs)
             else fmt_subslice gs))"

section \<open>Numbers are read back\<close>

lemma read_digits_append:
  "\<forall>c\<in>set s. to_digit r c \<noteq> None \<Longrightarrow> n + length s \<le> mx \<Longrightarrow>
   read_digits r mx n acc (s @ rest) = read_digits r mx (n + length s) (horner r acc s) rest"
  by (induction s arbitrary: n acc) (auto simp: horner_def)

lemma read_digits_stop:
  "rest = [] \<or> to_digit r (hd rest) = None \<Longrightarrow> read_digits r mx n acc rest = Some (n, acc, rest)"
  by (cases rest) auto

lemma starts_with_0: "starts_with s ''0'' \<longleftrightarrow> s \<noteq> [] \<and> hd s = CHR ''0''"
  by (cases s) (auto simp: starts_with_def)

lemma read_number_num_str:
  assumes r: "2 \<le> r" "r \<le> 36" and k: "0 < k" and bound: "unat w < r ^ k"
    and rest: "rest = [] \<or> to_digit r (hd rest) = None"
  shows "read_number r k z (num_str r (unat w) @ rest) = Some (w :: 'a::len word, rest)"
proof -
  let ?t = "num_str r (unat w)"
  have "length ?t \<le> k" using length_num_str [OF r(1) k bound] .
  then have "read_digits r k 0 0 (?t @ rest) = Some (length ?t, unat w, rest)"
    using read_digits_append [of ?t r 0 k 0 rest] num_str_digits [OF r]
      read_digits_stop [OF rest] horner_num_str [OF r]
    by auto
  moreover have "starts_with (?t @ rest) ''0'' \<Longrightarrow> length ?t = 1"
  proof -
    assume "starts_with (?t @ rest) ''0''"
    then have "unat w = 0" using num_str_leading_zero [OF r] by (simp add: starts_with_0)
    then show "length ?t = 1" using r by (simp add: num_str.simps [of r 0])
  qed
  ultimately show ?thesis
    using unsigned_less [of w, where ?'a = nat] by (auto simp: read_number_def)
qed

lemma read_number_dec:
  "rest = [] \<or> to_digit 10 (hd rest) = None \<Longrightarrow>
   read_number 10 3 z (dec (unat b) @ rest) = Some (b :: u8, rest)"
  using unsigned_less [of b, where ?'a = nat]
  by (simp only: dec_eq_num_str) (rule read_number_num_str, simp_all)

lemma read_number_hex:
  "rest = [] \<or> to_digit 16 (hd rest) = None \<Longrightarrow>
   read_number 16 4 z (hex (unat g) @ rest) = Some (g :: u16, rest)"
  using unsigned_less [of g, where ?'a = nat]
  by (simp only: hex_def) (rule read_number_num_str, simp_all)

lemma to_digit_separators [simp]:
  "to_digit r CHR ''.'' = None" "to_digit r CHR '':'' = None" "to_digit r CHR ''/'' = None"
  by (simp_all add: to_digit_def)

section \<open>IPv4 addresses are read back\<close>

lemma read_octets_display:
  assumes "rest = [] \<or> to_digit 10 (hd rest) = None"
  shows "read_octets i (length bs)
      ((if i > 0 \<and> bs \<noteq> [] then ''.'' else []) @ join_with CHR ''.'' (map (\<lambda>b. dec (unat b)) bs) @ rest) =
    Some (bs, rest)"
proof (induction bs arbitrary: i)
  case (Cons b bs)
  define A where "A = (if bs \<noteq> [] then ''.'' else []) @ join_with CHR ''.'' (map (\<lambda>b. dec (unat b)) bs) @ rest"
  have split: "join_with CHR ''.'' (map (\<lambda>b. dec (unat b)) (b # bs)) @ rest = dec (unat b) @ A"
    by (cases bs) (simp_all add: A_def)
  have "A = [] \<or> to_digit 10 (hd A) = None" using assms by (cases bs) (auto simp: A_def)
  then have "read_number 10 3 False (dec (unat b) @ A) = Some (b, A)"
    by (rule read_number_dec)
  moreover have "read_octets (i + 1) (length bs) A = Some (bs, rest)"
    using Cons.IH [of "i + 1"] by (simp add: A_def)
  ultimately show ?case
    unfolding split by (auto simp: read_separator_def read_given_char_def)
qed simp

lemma read_ipv4_display:
  assumes "rest = [] \<or> to_digit 10 (hd rest) = None"
  shows "read_ipv4_addr (ipv4_display a @ rest) = Some (a, rest)"
  using read_octets_display [OF assms, of 0 "ipv4_octets a"]
  by (simp add: read_ipv4_addr_def ipv4_display_def numeral_eq_Suc)

lemma length_dec_u8: "length (dec (unat (b :: u8))) \<le> 3"
  using length_num_str [of 10 3 "unat b"] unsigned_less [of b, where ?'a = nat]
  by (simp add: dec_eq_num_str)

lemma length_ipv4_display: "length (ipv4_display a) \<le> 15"
proof -
  obtain b1 b2 b3 b4 where o: "ipv4_octets a = [b1, b2, b3, b4]"
    by (auto simp: ipv4_octets_def be_bytes_def numeral_eq_Suc)
  show ?thesis
    using length_dec_u8 [of b1] length_dec_u8 [of b2] length_dec_u8 [of b3] length_dec_u8 [of b4]
    by (simp add: ipv4_display_def o)
qed

lemma parse_ipv4_display [simp]: "parse_ipv4 (ipv4_display a) = Some a"
  using read_ipv4_display [of "[]" a] length_ipv4_display [of a] by (simp add: parse_ipv4_def)

section \<open>IPv6 addresses are read back\<close>

lemma read_digits_SomeD:
  "read_digits r mx n acc s = Some (m, v, rest) \<Longrightarrow>
   rest = dropWhile (\<lambda>c. to_digit r c \<noteq> None) s"
  by (induction s arbitrary: n acc) (auto split: option.splits if_splits)

lemma read_number_SomeD:
  "read_number r mx z s = Some (v, rest) \<Longrightarrow> rest = dropWhile (\<lambda>c. to_digit r c \<noteq> None) s"
  by (auto simp: read_number_def dest: read_digits_SomeD split: option.splits if_splits)

lemma read_ipv4_addr_needs_dot:
  assumes "read_ipv4_addr s = Some x"
  shows "\<exists>r. dropWhile (\<lambda>c. to_digit 10 c \<noteq> None) s = CHR ''.'' # r"
proof -
  obtain b r where b: "read_number 10 3 False s = Some (b :: u8, r)"
    and more: "read_octets 1 3 r \<noteq> None"
    using assms
    by (auto simp: read_ipv4_addr_def numeral_eq_Suc read_separator_def split: option.splits)
  have "read_given_char CHR ''.'' r \<noteq> None"
    using more by (auto simp: numeral_eq_Suc read_separator_def split: option.splits)
  then show ?thesis
    using read_number_SomeD [OF b]
    by (auto simp: read_given_char_def split: list.splits if_splits)
qed

lemma hex_no_dot: "c \<in> set (hex n) \<Longrightarrow> c \<noteq> CHR ''.'' \<and> c \<noteq> CHR '':'' \<and> c \<noteq> CHR ''/''"
  using num_str_digits [of 16 c n] to_digit_separators [of 16] unfolding hex_def by auto

lemma hex_is_no_ipv4:
  assumes "rest = [] \<or> hd rest = CHR '':''"
  shows "read_ipv4_addr (hex n @ rest) = None"
proof (rule ccontr)
  assume "read_ipv4_addr (hex n @ rest) \<noteq> None"
  then obtain r where r: "dropWhile (\<lambda>c. to_digit 10 c \<noteq> None) (hex n @ rest) = CHR ''.'' # r"
    using read_ipv4_addr_needs_dot by blast
  show False
  proof (cases "\<forall>c\<in>set (hex n). to_digit 10 c \<noteq> None")
    case True
    then have "dropWhile (\<lambda>c. to_digit 10 c \<noteq> None) (hex n @ rest) = rest"
      using assms by (cases rest) (simp_all add: dropWhile_append2)
    then show False using r assms by auto
  next
    case False
    then have "dropWhile (\<lambda>c. to_digit 10 c \<noteq> None) (hex n @ rest) =
        dropWhile (\<lambda>c. to_digit 10 c \<noteq> None) (hex n) @ rest"
      by (auto intro: dropWhile_append1)
    moreover have "dropWhile (\<lambda>c. to_digit 10 c \<noteq> None) (hex n) \<noteq> []" using False by auto
    ultimately have "CHR ''.'' \<in> set (dropWhile (\<lambda>c. to_digit 10 c \<noteq> None) (hex n))"
      using r by (metis append_is_Nil_conv hd_append2 hd_in_set list.sel(1))
    then show False using set_dropWhileD hex_no_dot by metis
  qed
qed

text \<open>Where the reading of groups stops: at the end of the text and at a double colon.\<close>

definition group_end :: "string \<Rightarrow> bool" where
  "group_end rest \<longleftrightarrow> rest = [] \<or> (\<exists>r. rest = ''::'' @ r)"

lemma read_number_Nil [simp]: "read_number r mx z [] = None"
  by (simp add: read_number_def)

lemma read_number_colon [simp]: "read_number r mx z (CHR '':'' # s) = None"
  by (simp add: read_number_def)

lemma read_ipv4_colon [simp]: "read_ipv4_addr [] = None" "read_ipv4_addr (CHR '':'' # s) = None"
  by (simp_all add: read_ipv4_addr_def numeral_eq_Suc read_separator_def)

lemma read_groups_stop: "group_end rest \<Longrightarrow> read_groups i k rest = ([], False, rest)"
  by (cases k) (auto simp: group_end_def read_separator_def read_given_char_def)

lemma read_groups_display:
  assumes rest: "group_end rest" and "length gs \<le> k"
  shows "read_groups i k ((if i > 0 \<and> gs \<noteq> [] then '':'' else []) @ fmt_subslice gs @ rest) =
    (gs, False, rest)"
  using assms(2)
proof (induction gs arbitrary: i k)
  case Nil
  then show ?case using read_groups_stop [OF rest] by (simp add: fmt_subslice_def)
next
  case (Cons g gs)
  then obtain j where k: "k = Suc j" "length gs \<le> j" by (cases k) auto
  define A where "A = (if gs \<noteq> [] then '':'' else []) @ fmt_subslice gs @ rest"
  have split: "fmt_subslice (g # gs) @ rest = hex (unat g) @ A"
    by (cases gs) (simp_all add: fmt_subslice_def A_def)
  have colon: "A = [] \<or> hd A = CHR '':''"
    using rest by (cases gs) (auto simp: group_end_def fmt_subslice_def A_def)
  then have "A = [] \<or> to_digit 16 (hd A) = None" by auto
  then have "read_number 16 4 True (hex (unat g) @ A) = Some (g, A)" by (rule read_number_hex)
  moreover have "read_ipv4_addr (hex (unat g) @ A) = None" using colon by (rule hex_is_no_ipv4)
  moreover have "read_groups (i + 1) j A = (gs, False, rest)"
    using Cons.IH [of j "i + 1"] k(2) by (simp add: A_def)
  ultimately show ?case
    unfolding split k(1) by (auto simp: read_separator_def read_given_char_def)
qed

subsection \<open>The longest run of zeros\<close>

fun span_inv :: "u16 list \<Rightarrow> nat \<Rightarrow> spans \<Rightarrow> bool" where
  "span_inv gs i (cs, cl, ls, ll) \<longleftrightarrow>
    ls + ll \<le> i \<and> (\<forall>j. ls \<le> j \<and> j < ls + ll \<longrightarrow> gs ! j = 0) \<and>
    (cl > 0 \<longrightarrow> cs + cl = i) \<and> (\<forall>j. cs \<le> j \<and> j < cs + cl \<longrightarrow> gs ! j = 0)"

lemma span_inv_step:
  assumes "span_inv gs i sp"
  shows "span_inv gs (Suc i) (span_step (i, gs ! i) sp)"
proof -
  obtain cs cl ls ll where sp: "sp = (cs, cl, ls, ll)" by (cases sp)
  show ?thesis
  proof (cases "gs ! i = 0")
    case True
    have cur: "j < Suc i \<Longrightarrow> cs \<le> j \<Longrightarrow> cl > 0 \<Longrightarrow> gs ! j = 0" for j
      using assms True sp by (cases "j = i") auto
    show ?thesis
      using True assms cur unfolding sp by (auto simp: Let_def less_Suc_eq le_less)
  next
    case False
    then show ?thesis using assms sp by auto
  qed
qed

lemma span_inv_fold:
  "span_inv gs i sp \<Longrightarrow> gs = pre @ suf \<Longrightarrow> length pre = i \<Longrightarrow>
   span_inv gs (i + length suf) (fold span_step (enumerate i suf) sp)"
proof (induction suf arbitrary: pre i sp)
  case (Cons g suf)
  have "gs ! i = g" using Cons.prems by auto
  then have "span_inv gs (Suc i) (span_step (i, g) sp)" using span_inv_step Cons.prems(1) by metis
  then show ?case using Cons.IH [of "Suc i" "span_step (i, g) sp" "pre @ [g]"] Cons.prems by simp
qed simp

lemma longest_zeros_run:
  assumes "longest_zeros gs = (start, len)"
  shows "start + len \<le> length gs" and "gs = take start gs @ replicate len 0 @ drop (start + len) gs"
proof -
  obtain cs cl where f: "fold span_step (enumerate 0 gs) (0, 0, 0, 0) = (cs, cl, start, len)"
    using assms by (auto simp: longest_zeros_def split: prod.splits)
  have "span_inv gs 0 (0, 0, 0, 0)" by simp
  then have "span_inv gs (0 + length gs) (fold span_step (enumerate 0 gs) (0, 0, 0, 0))"
    by (rule span_inv_fold [where pre = "[]"]) simp_all
  then have inv: "span_inv gs (length gs) (cs, cl, start, len)" unfolding f by (simp only: add_0)
  then show le: "start + len \<le> length gs" by simp
  have "take len (drop start gs) = replicate len 0"
    using inv le by (auto intro!: nth_equalityI)
  then show "gs = take start gs @ replicate len 0 @ drop (start + len) gs"
    by (metis add.commute append_take_drop_id drop_drop)
qed

subsection \<open>Round trip\<close>

lemma read_groups_compressed:
  assumes "length hs + length ts < 8"
  shows "read_groups 0 8 (fmt_subslice hs @ ''::'' @ fmt_subslice ts) =
      (hs, False, ''::'' @ fmt_subslice ts)"
    and "read_groups 0 (8 - (length hs + 1)) (fmt_subslice ts) = (ts, False, [])"
  using read_groups_display [of "''::'' @ fmt_subslice ts" hs 8 0]
    read_groups_display [of "[]" ts "8 - (length hs + 1)" 0] assms
  by (simp_all add: group_end_def)

lemma read_ipv6_compressed:
  assumes "length hs + length ts < 8"
  shows "read_ipv6_addr (fmt_subslice hs @ ''::'' @ fmt_subslice ts) =
    Some (ipv6_from_segments (hs @ replicate (8 - length hs - length ts) 0 @ ts), [])"
  using assms read_groups_compressed [OF assms]
  by (simp add: read_ipv6_addr_def read_given_char_def)

lemma pair_up_drop: "pair_up (drop (2 * n) bs) = drop n (pair_up bs)"
proof (induction n arbitrary: bs)
  case (Suc n)
  show ?case
    by (cases bs rule: pair_up.cases) (simp_all add: Suc)
qed simp

lemma mapped_segments:
  assumes "to_ipv4_mapped a = Some v4"
  shows "ipv6_segments a = [0, 0, 0, 0, 0, 0xFFFF] @ pair_up (ipv4_octets v4)"
proof -
  have v4: "v4 = ipv4_from_octets (drop 12 (ipv6_octets a))"
    and pre: "take 6 (ipv6_segments a) = [0, 0, 0, 0, 0, 0xFFFF]"
    using assms by (auto simp: to_ipv4_mapped_def split: if_splits)
  have "ipv4_octets v4 = drop 12 (ipv6_octets a)"
    using be_bytes_from_be_bytes [of "drop 12 (ipv6_octets a)", where ?'a = 32]
    by (simp add: v4 ipv4_octets_def ipv4_from_octets_def ipv6_octets_def)
  then have "pair_up (ipv4_octets v4) = drop 6 (ipv6_segments a)"
    using pair_up_drop [of 6 "ipv6_octets a"] by (simp add: ipv6_segments_def)
  then show ?thesis using pre by (metis append_take_drop_id)
qed

lemma read_groups_mapped:
  assumes "0 < k"
  shows "read_groups 0 (Suc (Suc k)) (''ffff:'' @ ipv4_display v4) =
    (0xFFFF # pair_up (ipv4_octets v4), True, [])"
proof -
  have h: "hex (unat (0xFFFF :: u16)) = ''ffff''"
  proof -
    have "hex_digit 15 = CHR ''f''" by code_simp
    then show ?thesis by (simp add: hex_def num_str.simps)
  qed
  let ?A = "'':'' @ ipv4_display v4"
  have "read_number 16 4 True (''ffff'' @ ?A) = Some (0xFFFF :: u16, ?A)"
    using read_number_hex [of ?A True "0xFFFF"] unfolding h by simp
  moreover have "read_ipv4_addr (''ffff'' @ ?A) = None"
    using hex_is_no_ipv4 [of ?A "unat (0xFFFF :: u16)"] unfolding h by simp
  moreover have "read_ipv4_addr (ipv4_display v4) = Some (v4, [])"
    using read_ipv4_display [of "[]" v4] by simp
  ultimately show ?thesis
    using assms by (simp add: read_separator_def read_given_char_def)
qed

lemma parse_ipv6_mapped:
  assumes "to_ipv4_mapped a = Some v4"
  shows "parse_ipv6 (''::ffff:'' @ ipv4_display v4) = Some a"
proof -
  have "read_groups 0 8 (''::'' @ (''ffff:'' @ ipv4_display v4)) =
      ([], False, ''::'' @ (''ffff:'' @ ipv4_display v4))"
    by (rule read_groups_stop) (simp add: group_end_def)
  moreover have "length (pair_up (ipv4_octets v4)) = 2" by (simp add: length_pair_up)
  moreover have "replicate 5 0 @ 0xFFFF # pair_up (ipv4_octets v4) = ipv6_segments a"
    using mapped_segments [OF assms] by (simp add: numeral_eq_Suc)
  ultimately show ?thesis
    using read_groups_mapped [of 5 v4]
    by (simp add: parse_ipv6_def read_ipv6_addr_def read_given_char_def)
qed

lemma parse_ipv6_display [simp]: "parse_ipv6 (ipv6_display a) = Some a"
proof (cases "to_ipv4_mapped a")
  case (Some v4)
  then show ?thesis using parse_ipv6_mapped by (simp add: ipv6_display_def)
next
  case None
  let ?gs = "ipv6_segments a"
  obtain start len where z: "longest_zeros ?gs = (start, len)" by (cases "longest_zeros ?gs")
  note run = longest_zeros_run [OF z]
  show ?thesis
  proof (cases "len > 1")
    case True
    let ?hs = "take start ?gs" and ?ts = "drop (start + len) ?gs"
    have l: "length ?hs = start" "length ?ts = 8 - (start + len)" using run(1) by simp_all
    then have "8 - length ?hs - length ?ts = len" using run(1) by simp
    moreover have "read_ipv6_addr (fmt_subslice ?hs @ ''::'' @ fmt_subslice ?ts) =
        Some (ipv6_from_segments (?hs @ replicate (8 - length ?hs - length ?ts) 0 @ ?ts), [])"
      using True l run(1) by (intro read_ipv6_compressed) simp
    ultimately show ?thesis
      using None True z run(2) by (simp add: ipv6_display_def parse_ipv6_def Let_def)
  next
    case False
    have "read_groups 0 8 (fmt_subslice ?gs) = (?gs, False, [])"
      using read_groups_display [of "[]" ?gs 8 0] by (simp add: group_end_def)
    then show ?thesis
      using None False z by (simp add: ipv6_display_def parse_ipv6_def read_ipv6_addr_def Let_def)
  qed
qed

lemma ipv4_display_inj: "ipv4_display a = ipv4_display b \<longleftrightarrow> a = b"
  by (metis option.inject parse_ipv4_display)

lemma ipv6_display_inj: "ipv6_display a = ipv6_display b \<longleftrightarrow> a = b"
  by (metis option.inject parse_ipv6_display)

lemma set_join_with: "set (join_with c ps) \<subseteq> insert c (\<Union> (set ` set ps))"
  by (induction c ps rule: join_with.induct) auto

lemma ipv4_display_no_slash: "CHR ''/'' \<notin> set (ipv4_display a)"
  using set_join_with [of "CHR ''.''" "map (\<lambda>b. dec (unat b)) (ipv4_octets a)"]
  by (auto simp: ipv4_display_def)

lemma fmt_subslice_no_slash: "CHR ''/'' \<notin> set (fmt_subslice gs)"
  using set_join_with [of "CHR '':''" "map (\<lambda>g. hex (unat g)) gs"] hex_no_dot
  by (fastforce simp: fmt_subslice_def)

lemma ipv6_display_no_slash: "CHR ''/'' \<notin> set (ipv6_display a)"
  by (auto simp: ipv6_display_def Let_def ipv4_display_no_slash fmt_subslice_no_slash
      split: option.splits prod.splits if_splits)

end
