(* ===== verification/Cidr.thy ===== *)
theory Cidr
  imports Net_Addr Abi "HOL-Library.Product_Lexorder"
begin

text \<open>
  Canonical prefixes and the fixed bypass set, crates/flux-core/src/cidr.rs. What both address
  families share - the addresses a prefix covers, inclusion of prefixes, uniqueness of the prefix of
  a given length over an address - is proved once in the locale \<open>prefix_family\<close> over the mask
  function and interpreted for the two masks of the code. \<open>expect\<close> is an option value: \<open>None\<close> is
  the panic.
\<close>

section \<open>Data\<close>

datatype cidr_error =
  Malformed string | PrefixTooLong u8 | HostBitsSet string | CapacityExceeded

datatype ipv4_cidr = Ipv4Cidr (v4_addr: ipv4_addr) (v4_prefix_len: u8)

datatype ipv6_cidr = Ipv6Cidr (v6_addr: ipv6_addr) (v6_prefix_len: u8)

text \<open>The derived order of both structures: address first, then length.\<close>

instantiation ipv4_cidr :: linorder
begin

definition less_eq_ipv4_cidr :: "ipv4_cidr \<Rightarrow> ipv4_cidr \<Rightarrow> bool" where
  "c \<le> d \<longleftrightarrow> (v4_addr c, v4_prefix_len c) \<le> (v4_addr d, v4_prefix_len d)"

definition less_ipv4_cidr :: "ipv4_cidr \<Rightarrow> ipv4_cidr \<Rightarrow> bool" where
  "c < d \<longleftrightarrow> (v4_addr c, v4_prefix_len c) < (v4_addr d, v4_prefix_len d)"

instance
  by intro_classes
    (auto simp: less_eq_ipv4_cidr_def less_ipv4_cidr_def intro: ipv4_cidr.expand)

end

instantiation ipv6_cidr :: linorder
begin

definition less_eq_ipv6_cidr :: "ipv6_cidr \<Rightarrow> ipv6_cidr \<Rightarrow> bool" where
  "c \<le> d \<longleftrightarrow> (v6_addr c, v6_prefix_len c) \<le> (v6_addr d, v6_prefix_len d)"

definition less_ipv6_cidr :: "ipv6_cidr \<Rightarrow> ipv6_cidr \<Rightarrow> bool" where
  "c < d \<longleftrightarrow> (v6_addr c, v6_prefix_len c) < (v6_addr d, v6_prefix_len d)"

instance
  by intro_classes
    (auto simp: less_eq_ipv6_cidr_def less_ipv6_cidr_def intro: ipv6_cidr.expand)

end

record 'c bypass_entry =
  be_cidr :: 'c
  be_tag :: bypass_tag

definition bypass_reserved :: "'c \<Rightarrow> 'c bypass_entry" where
  "bypass_reserved c = \<lparr>be_cidr = c, be_tag = Reserved\<rparr>"

definition bypass_policy :: "'c \<Rightarrow> 'c bypass_entry" where
  "bypass_policy c = \<lparr>be_cidr = c, be_tag = Policy\<rparr>"

section \<open>Masks and parsing\<close>

definition mask32 :: "u8 \<Rightarrow> u32" where
  "mask32 n = (if n = 0 then 0 else if n \<ge> 32 then - 1 else push_bit (unat (32 - n)) (- 1))"

definition mask128 :: "u8 \<Rightarrow> u128" where
  "mask128 n = (if n = 0 then 0 else if n \<ge> 128 then - 1 else push_bit (unat (128 - n)) (- 1))"

definition split_prefix :: "string \<Rightarrow> cidr_error + (string \<times> u8)" where
  "split_prefix t =
    (case split_once CHR ''/'' t of
       None \<Rightarrow> Err (Malformed t)
     | Some (addr, len) \<Rightarrow>
         (case parse_uint len of
            None \<Rightarrow> Err (Malformed t)
          | Some prefix_len \<Rightarrow> Ok (addr, prefix_len)))"

definition ipv4_cidr_display :: "ipv4_cidr \<Rightarrow> string" where
  "ipv4_cidr_display c = ipv4_display (v4_addr c) @ ''/'' @ dec (unat (v4_prefix_len c))"

definition ipv6_cidr_display :: "ipv6_cidr \<Rightarrow> string" where
  "ipv6_cidr_display c = ipv6_display (v6_addr c) @ ''/'' @ dec (unat (v6_prefix_len c))"

definition ipv4_cidr_from_octets :: "bytes \<Rightarrow> u8 \<Rightarrow> cidr_error + ipv4_cidr" where
  "ipv4_cidr_from_octets octets prefix_len =
    (if prefix_len > 32 then Err (PrefixTooLong prefix_len)
     else
       let addr = ipv4_from_octets octets
       in if addr AND NOT (mask32 prefix_len) \<noteq> 0
          then Err (HostBitsSet (ipv4_display addr @ ''/'' @ dec (unat prefix_len)))
          else Ok (Ipv4Cidr addr prefix_len))"

definition ipv4_cidr_parse :: "string \<Rightarrow> cidr_error + ipv4_cidr" where
  "ipv4_cidr_parse t =
    and_then (split_prefix t) (\<lambda>(addr_str, prefix_len).
      if prefix_len > 32 then Err (PrefixTooLong prefix_len)
      else case parse_ipv4 addr_str of
             None \<Rightarrow> Err (Malformed t)
           | Some addr \<Rightarrow>
               if t \<noteq> ipv4_display addr @ ''/'' @ dec (unat prefix_len) then Err (Malformed t)
               else if addr AND NOT (mask32 prefix_len) \<noteq> 0 then Err (HostBitsSet t)
               else Ok (Ipv4Cidr addr prefix_len))"

definition ipv6_cidr_from_octets :: "bytes \<Rightarrow> u8 \<Rightarrow> cidr_error + ipv6_cidr" where
  "ipv6_cidr_from_octets octets prefix_len =
    (if prefix_len > 128 then Err (PrefixTooLong prefix_len)
     else
       let addr = ipv6_from_octets octets
       in if addr AND NOT (mask128 prefix_len) \<noteq> 0
          then Err (HostBitsSet (ipv6_display addr @ ''/'' @ dec (unat prefix_len)))
          else Ok (Ipv6Cidr addr prefix_len))"

definition ipv6_cidr_parse :: "string \<Rightarrow> cidr_error + ipv6_cidr" where
  "ipv6_cidr_parse t =
    and_then (split_prefix t) (\<lambda>(addr_str, prefix_len).
      if prefix_len > 128 then Err (PrefixTooLong prefix_len)
      else case parse_ipv6 addr_str of
             None \<Rightarrow> Err (Malformed t)
           | Some addr \<Rightarrow>
               if t \<noteq> ipv6_display addr @ ''/'' @ dec (unat prefix_len) then Err (Malformed t)
               else if addr AND NOT (mask128 prefix_len) \<noteq> 0 then Err (HostBitsSet t)
               else Ok (Ipv6Cidr addr prefix_len))"

definition ipv4_to_lpm_key :: "ipv4_cidr \<Rightarrow> lpm_v4_key" where
  "ipv4_to_lpm_key c =
    \<lparr>k4_prefixlen = ucast (v4_prefix_len c), k4_addr = ipv4_octets (v4_addr c)\<rparr>"

definition ipv6_to_lpm_key :: "ipv6_cidr \<Rightarrow> lpm_v6_key" where
  "ipv6_to_lpm_key c =
    \<lparr>k6_prefixlen = ucast (v6_prefix_len c), k6_addr = ipv6_octets (v6_addr c)\<rparr>"

definition ipv4_contains_prefix :: "ipv4_cidr \<Rightarrow> ipv4_cidr \<Rightarrow> bool" where
  "ipv4_contains_prefix s oth \<longleftrightarrow>
    v4_prefix_len oth \<ge> v4_prefix_len s \<and> v4_addr oth AND mask32 (v4_prefix_len s) = v4_addr s"

definition ipv6_contains_prefix :: "ipv6_cidr \<Rightarrow> ipv6_cidr \<Rightarrow> bool" where
  "ipv6_contains_prefix s oth \<longleftrightarrow>
    v6_prefix_len oth \<ge> v6_prefix_len s \<and> v6_addr oth AND mask128 (v6_prefix_len s) = v6_addr s"

section \<open>The fixed bypass set\<close>

definition FIXED_BYPASS_V4_PREFIXES :: "string list" where
  "FIXED_BYPASS_V4_PREFIXES =
    [''0.0.0.0/8'', ''10.0.0.0/8'', ''127.0.0.0/8'', ''169.254.0.0/16'', ''172.16.0.0/12'',
     ''192.168.0.0/16'', ''224.0.0.0/4'', ''255.255.255.255/32'']"

definition FIXED_BYPASS_V6_PREFIXES :: "string list" where
  "FIXED_BYPASS_V6_PREFIXES = [''::/128'', ''::1/128'', ''fc00::/7'', ''fe80::/10'', ''ff00::/8'']"

definition fixed_bypass_v4 :: "ipv4_cidr bypass_entry list option" where
  "fixed_bypass_v4 =
    (case try_collect ipv4_cidr_parse FIXED_BYPASS_V4_PREFIXES of
       Inl _ \<Rightarrow> None
     | Inr cidrs \<Rightarrow>
         (case parse_ipv4 LISTEN_V4_STR of
            None \<Rightarrow> None
          | Some addr \<Rightarrow> Some (map bypass_reserved cidrs @ [bypass_reserved (Ipv4Cidr addr 32)])))"

definition fixed_bypass_v6 :: "ipv6_cidr bypass_entry list option" where
  "fixed_bypass_v6 =
    (case try_collect ipv6_cidr_parse FIXED_BYPASS_V6_PREFIXES of
       Inl _ \<Rightarrow> None
     | Inr cidrs \<Rightarrow>
         (case parse_ipv6 LISTEN_V6_STR of
            None \<Rightarrow> None
          | Some addr \<Rightarrow> Some (map bypass_reserved cidrs @ [bypass_reserved (Ipv6Cidr addr 128)])))"

definition MAX_BYPASS_V4 :: u32 where "MAX_BYPASS_V4 = LPM_MAX_ENTRIES"
definition MAX_BYPASS_V6 :: u32 where "MAX_BYPASS_V6 = LPM_MAX_ENTRIES"

section \<open>Prefixes of either family\<close>

text \<open>The addresses of a prefix, and the invariant that both constructors establish.\<close>

definition covers :: "(u8 \<Rightarrow> 'w::len word) \<Rightarrow> 'w word \<Rightarrow> u8 \<Rightarrow> 'w word set" where
  "covers msk addr n = {a. a AND msk n = addr}"

definition canonical :: "(u8 \<Rightarrow> 'w::len word) \<Rightarrow> 'w word \<Rightarrow> u8 \<Rightarrow> bool" where
  "canonical msk addr n \<longleftrightarrow> unat n \<le> LENGTH('w) \<and> addr AND NOT (msk n) = 0"

lemma canonical_iff_masked: "(addr :: 'w::len word) AND NOT m = 0 \<longleftrightarrow> addr AND m = addr"
  by (auto simp: bit_eq_iff bit_simps)

locale prefix_family =
  fixes msk :: "u8 \<Rightarrow> 'w::len word"
  assumes bit_mask: "unat n \<le> LENGTH('w) \<Longrightarrow>
    bit (msk n) i \<longleftrightarrow> i < LENGTH('w) \<and> LENGTH('w) - unat n \<le> i"
begin

lemma network_covered: "canonical msk addr n \<Longrightarrow> addr \<in> covers msk addr n"
  by (simp add: canonical_def covers_def canonical_iff_masked)

lemma in_covers_iff:
  assumes "unat n \<le> LENGTH('w)" and "canonical msk addr n"
  shows "a \<in> covers msk addr n \<longleftrightarrow>
    (\<forall>i<LENGTH('w). LENGTH('w) - unat n \<le> i \<longrightarrow> bit a i = bit addr i)"
proof -
  have eq: "addr AND msk n = addr" using assms(2) by (simp add: canonical_def canonical_iff_masked)
  have low: "LENGTH('w) - unat n \<le> i" if "bit addr i" for i
  proof -
    have "bit (addr AND msk n) i" using that by (simp only: eq)
    then show ?thesis using bit_mask [OF assms(1)] by (simp add: bit_and_iff)
  qed
  show ?thesis
  proof
    assume "a \<in> covers msk addr n"
    then have "bit addr i = (bit a i \<and> bit (msk n) i)" for i
      by (auto simp: covers_def bit_and_iff)
    then show "\<forall>i<LENGTH('w). LENGTH('w) - unat n \<le> i \<longrightarrow> bit a i = bit addr i"
      using bit_mask [OF assms(1)] by blast
  next
    assume "\<forall>i<LENGTH('w). LENGTH('w) - unat n \<le> i \<longrightarrow> bit a i = bit addr i"
    then have "a AND msk n = addr"
      using low by (intro bit_word_eqI) (auto simp: bit_and_iff bit_mask [OF assms(1)])
    then show "a \<in> covers msk addr n" by (simp add: covers_def)
  qed
qed

text \<open>The addresses of a prefix are those with its quotient by the size of the prefix.\<close>

lemma in_covers_div:
  assumes "canonical msk addr n"
  shows "a \<in> covers msk addr n \<longleftrightarrow>
    unat a div 2 ^ (LENGTH('w) - unat n) = unat addr div 2 ^ (LENGTH('w) - unat n)"
proof -
  let ?k = "LENGTH('w) - unat n"
  have len: "unat n \<le> LENGTH('w)" using assms by (simp add: canonical_def)
  have "a \<in> covers msk addr n \<longleftrightarrow> (\<forall>i<LENGTH('w). ?k \<le> i \<longrightarrow> bit a i = bit addr i)"
    using in_covers_iff [OF len assms] .
  also have "\<dots> \<longleftrightarrow> drop_bit ?k a = drop_bit ?k addr"
  proof
    assume "\<forall>i<LENGTH('w). ?k \<le> i \<longrightarrow> bit a i = bit addr i"
    then show "drop_bit ?k a = drop_bit ?k addr"
      by (intro bit_word_eqI) (auto simp: bit_simps dest: bit_imp_le_length)
  next
    assume eq: "drop_bit ?k a = drop_bit ?k addr"
    have "bit (drop_bit ?k a) (i - ?k) = bit (drop_bit ?k addr) (i - ?k)" for i by (simp only: eq)
    then show "\<forall>i<LENGTH('w). ?k \<le> i \<longrightarrow> bit a i = bit addr i"
      by (simp add: bit_drop_bit_eq) (metis le_add_diff_inverse)
  qed
  also have "\<dots> \<longleftrightarrow> unat (drop_bit ?k a) = unat (drop_bit ?k addr)" by (simp add: word_unat_eq_iff)
  also have "\<dots> \<longleftrightarrow> unat a div 2 ^ ?k = unat addr div 2 ^ ?k"
    by (simp only: unat_drop_bit_eq) (simp only: drop_bit_eq_div)
  finally show ?thesis .
qed

lemma same_length_unique:
  "a \<in> covers msk addr n \<Longrightarrow> a \<in> covers msk addr' n \<Longrightarrow> addr = addr'"
  by (simp add: covers_def)

lemma covers_mono:
  assumes "canonical msk addr m" and "canonical msk other n" and "m \<le> n" and "other \<in> covers msk addr m"
  shows "covers msk other n \<subseteq> covers msk addr m"
proof
  fix a
  assume "a \<in> covers msk other n"
  have mn: "unat m \<le> unat n" using assms(3) by (simp add: word_le_nat_alt)
  have "unat m \<le> LENGTH('w)" "unat n \<le> LENGTH('w)" using assms by (auto simp: canonical_def)
  then show "a \<in> covers msk addr m"
    using \<open>a \<in> covers msk other n\<close> assms mn by (auto simp: in_covers_iff)
qed

text \<open>A strictly shorter prefix has an address outside every longer one.\<close>

lemma flipped_bit_outside:
  assumes "canonical msk addr m" and "canonical msk other n" and "n < m"
  shows "\<exists>a\<in>covers msk other n. a \<notin> covers msk addr m"
proof -
  have nm: "unat n < unat m" using assms(3) by (simp add: word_less_nat_alt)
  have le: "unat m \<le> LENGTH('w)" "unat n \<le> LENGTH('w)" using assms by (auto simp: canonical_def)
  define k where "k = LENGTH('w) - unat m"
  have k: "k < LENGTH('w)" "\<not> LENGTH('w) - unat n \<le> k" using nm le by (auto simp: k_def)
  have flip: "flip_bit k other \<in> covers msk other n"
    using le assms(2) k by (auto simp: in_covers_iff bit_flip_bit_iff)
  have "bit (flip_bit k other) k \<noteq> bit other k"
    using k by (simp add: bit_flip_bit_iff)
  then have "flip_bit k other \<notin> covers msk addr m \<or> other \<notin> covers msk addr m"
    using le assms(1) k(1) by (auto simp: in_covers_iff k_def)
  then show ?thesis using flip network_covered [OF assms(2)] by blast
qed

lemma contains_iff_subset:
  assumes "canonical msk addr m" and "canonical msk other n"
  shows "(n \<ge> m \<and> other AND msk m = addr) \<longleftrightarrow> covers msk other n \<subseteq> covers msk addr m"
proof
  assume "n \<ge> m \<and> other AND msk m = addr"
  then show "covers msk other n \<subseteq> covers msk addr m"
    using covers_mono [OF assms] by (simp add: covers_def)
next
  assume sub: "covers msk other n \<subseteq> covers msk addr m"
  then have "\<not> n < m" using flipped_bit_outside [OF assms] by blast
  moreover have "other \<in> covers msk addr m" using network_covered [OF assms(2)] sub by blast
  ultimately show "n \<ge> m \<and> other AND msk m = addr" by (simp add: covers_def)
qed

end

lemma bit_mask32: "unat n \<le> 32 \<Longrightarrow> bit (mask32 n) i \<longleftrightarrow> i < 32 \<and> 32 - unat n \<le> i"
  by (auto simp: mask32_def bit_simps word_le_nat_alt unat_sub word_unat_eq_iff)

lemma bit_mask128: "unat n \<le> 128 \<Longrightarrow> bit (mask128 n) i \<longleftrightarrow> i < 128 \<and> 128 - unat n \<le> i"
  by (auto simp: mask128_def bit_simps word_le_nat_alt unat_sub word_unat_eq_iff)

interpretation v4: prefix_family mask32
  by unfold_locales (simp add: bit_mask32)

interpretation v6: prefix_family mask128
  by unfold_locales (simp add: bit_mask128)

section \<open>Correctness of the constructors\<close>

definition v4_canonical :: "ipv4_cidr \<Rightarrow> bool" where
  "v4_canonical c \<longleftrightarrow> canonical mask32 (v4_addr c) (v4_prefix_len c)"

definition v6_canonical :: "ipv6_cidr \<Rightarrow> bool" where
  "v6_canonical c \<longleftrightarrow> canonical mask128 (v6_addr c) (v6_prefix_len c)"

definition v4_addresses :: "ipv4_cidr \<Rightarrow> ipv4_addr set" where
  "v4_addresses c = covers mask32 (v4_addr c) (v4_prefix_len c)"

definition v6_addresses :: "ipv6_cidr \<Rightarrow> ipv6_addr set" where
  "v6_addresses c = covers mask128 (v6_addr c) (v6_prefix_len c)"

lemma canonical_simps:
  "v4_canonical (Ipv4Cidr a n) \<longleftrightarrow> n \<le> 32 \<and> a AND NOT (mask32 n) = 0"
  "v6_canonical (Ipv6Cidr b n) \<longleftrightarrow> n \<le> 128 \<and> b AND NOT (mask128 n) = 0"
  by (simp_all add: v4_canonical_def v6_canonical_def canonical_def word_le_nat_alt)

text \<open>Having no host bits, for evaluation: the address is a multiple of the size of the prefix.\<close>

lemma host_bits_take_bit:
  "n \<le> 32 \<Longrightarrow> a AND NOT (mask32 n) = take_bit (32 - unat n) a"
  "n \<le> 128 \<Longrightarrow> b AND NOT (mask128 n) = take_bit (128 - unat n) b"
  by (rule bit_word_eqI;
      auto simp: bit_simps bit_mask32 bit_mask128 word_le_nat_alt)+

lemma take_bit_zero_iff: "take_bit k (w :: 'a::len word) = 0 \<longleftrightarrow> 2 ^ k dvd unat w"
proof -
  have "take_bit k w = 0 \<longleftrightarrow> unat (take_bit k w) = 0" by (metis unsigned_0 unsigned_word_eqI)
  also have "\<dots> \<longleftrightarrow> take_bit k (unat w) = 0" by (simp add: unsigned_take_bit_eq)
  also have "\<dots> \<longleftrightarrow> 2 ^ k dvd unat w" by (rule take_bit_eq_0_iff)
  finally show ?thesis .
qed

lemma canonical_eval:
  "v4_canonical (Ipv4Cidr a n) \<longleftrightarrow> n \<le> 32 \<and> 2 ^ (32 - unat n) dvd unat a"
  "v6_canonical (Ipv6Cidr b n) \<longleftrightarrow> n \<le> 128 \<and> 2 ^ (128 - unat n) dvd unat b"
  by (auto simp: canonical_simps host_bits_take_bit take_bit_zero_iff)

lemma in_v4_addresses_div:
  "v4_canonical c \<Longrightarrow> a \<in> v4_addresses c \<longleftrightarrow>
   unat a div 2 ^ (32 - unat (v4_prefix_len c)) = unat (v4_addr c) div 2 ^ (32 - unat (v4_prefix_len c))"
  using v4.in_covers_div by (simp add: v4_canonical_def v4_addresses_def)

lemma split_prefix_display:
  "CHR ''/'' \<notin> set a \<Longrightarrow> split_prefix (a @ ''/'' @ dec (unat n)) = Ok (a, n)"
  by (simp add: split_prefix_def)

lemma ipv4_cidr_parse_SomeD:
  "ipv4_cidr_parse t = Ok c \<Longrightarrow> v4_canonical c \<and> ipv4_cidr_display c = t"
  by (auto simp: ipv4_cidr_parse_def and_then_eq_Ok canonical_simps ipv4_cidr_display_def not_less
      split: if_splits option.splits)

lemma ipv6_cidr_parse_SomeD:
  "ipv6_cidr_parse t = Ok c \<Longrightarrow> v6_canonical c \<and> ipv6_cidr_display c = t"
  by (auto simp: ipv6_cidr_parse_def and_then_eq_Ok canonical_simps ipv6_cidr_display_def not_less
      split: if_splits option.splits)

lemma ipv4_cidr_parse_display: "v4_canonical c \<Longrightarrow> ipv4_cidr_parse (ipv4_cidr_display c) = Ok c"
  using split_prefix_display [OF ipv4_display_no_slash]
  by (cases c) (simp add: ipv4_cidr_parse_def ipv4_cidr_display_def canonical_simps not_less)

lemma ipv6_cidr_parse_display: "v6_canonical c \<Longrightarrow> ipv6_cidr_parse (ipv6_cidr_display c) = Ok c"
  using split_prefix_display [OF ipv6_display_no_slash]
  by (cases c) (simp add: ipv6_cidr_parse_def ipv6_cidr_display_def canonical_simps not_less)

text \<open>
  C22: parsing a prefix of either family succeeds exactly on the text that \<open>Display\<close> prints for a
  canonical prefix, and returns that prefix: nothing is silently masked and nothing canonical is
  refused.
\<close>

theorem cidr_parse_accepts_exactly_canonical:
  "(ipv4_cidr_parse t = Ok c4 \<longleftrightarrow> v4_canonical c4 \<and> ipv4_cidr_display c4 = t) \<and>
   (ipv6_cidr_parse t = Ok c6 \<longleftrightarrow> v6_canonical c6 \<and> ipv6_cidr_display c6 = t)"
  using ipv4_cidr_parse_SomeD ipv4_cidr_parse_display ipv6_cidr_parse_SomeD ipv6_cidr_parse_display
  by blast

lemma ipv4_from_octets_Ok:
  "ipv4_cidr_from_octets os n = Ok c \<longleftrightarrow> v4_canonical c \<and> c = Ipv4Cidr (ipv4_from_octets os) n"
  by (auto simp: ipv4_cidr_from_octets_def Let_def canonical_simps not_less)

lemma ipv6_from_octets_Ok:
  "ipv6_cidr_from_octets os n = Ok c \<longleftrightarrow> v6_canonical c \<and> c = Ipv6Cidr (ipv6_from_octets os) n"
  by (auto simp: ipv6_cidr_from_octets_def Let_def canonical_simps not_less)

lemma ipv6_from_octets_octets [simp]: "ipv6_from_octets (ipv6_octets a) = a"
  by (simp add: ipv6_from_octets_def ipv6_octets_def)

lemma ucast_up_down [simp]: "ucast (ucast (b :: u8) :: u32) = b"
  by (rule bit_word_eqI) (simp add: bit_simps)

lemma lpm_v4_key_round_trip:
  "v4_canonical c \<Longrightarrow>
   ipv4_cidr_from_octets (k4_addr (ipv4_to_lpm_key c)) (ucast (k4_prefixlen (ipv4_to_lpm_key c))) = Ok c"
  unfolding ipv4_from_octets_Ok by (cases c) (simp add: ipv4_to_lpm_key_def)

lemma lpm_v6_key_round_trip:
  "v6_canonical d \<Longrightarrow>
   ipv6_cidr_from_octets (k6_addr (ipv6_to_lpm_key d)) (ucast (k6_prefixlen (ipv6_to_lpm_key d))) = Ok d"
  unfolding ipv6_from_octets_Ok by (cases d) (simp add: ipv6_to_lpm_key_def)

text \<open>
  C21: for canonical prefixes, \<open>contains_prefix\<close> is inclusion of the sets of addresses, in both
  families.
\<close>

theorem contains_prefix_iff_subset:
  assumes "v4_canonical p" "v4_canonical q" "v6_canonical r" "v6_canonical s"
  shows "(ipv4_contains_prefix p q \<longleftrightarrow> v4_addresses q \<subseteq> v4_addresses p) \<and>
    (ipv6_contains_prefix r s \<longleftrightarrow> v6_addresses s \<subseteq> v6_addresses r)"
  using v4.contains_iff_subset v6.contains_iff_subset assms
  unfolding v4_canonical_def v6_canonical_def v4_addresses_def v6_addresses_def
    ipv4_contains_prefix_def ipv6_contains_prefix_def
  by blast

theorem contains_prefix_iff_subset_witness:
  "v4_addresses (Ipv4Cidr 0x0A010000 16) \<subseteq> v4_addresses (Ipv4Cidr 0x0A000000 8) \<and>
   \<not> v6_addresses (Ipv6Cidr 0 0) \<subseteq> v6_addresses (Ipv6Cidr 0 8)"
proof -
  have can: "v4_canonical (Ipv4Cidr 0x0A000000 8)" "v4_canonical (Ipv4Cidr 0x0A010000 16)"
    "v6_canonical (Ipv6Cidr 0 8)" "v6_canonical (Ipv6Cidr 0 0)"
    unfolding canonical_eval by simp_all
  have "0x0A010000 \<in> v4_addresses (Ipv4Cidr 0x0A000000 8)"
    using in_v4_addresses_div [OF can(1)] by simp
  then have "ipv4_contains_prefix (Ipv4Cidr 0x0A000000 8) (Ipv4Cidr 0x0A010000 16)"
    by (simp add: ipv4_contains_prefix_def v4_addresses_def covers_def)
  moreover have "\<not> ipv6_contains_prefix (Ipv6Cidr 0 8) (Ipv6Cidr 0 0)"
    by (simp add: ipv6_contains_prefix_def)
  ultimately show ?thesis using contains_prefix_iff_subset [OF can] by blast
qed

section \<open>The fixed set is what the mechanism needs\<close>

definition fixed_v4_cidrs :: "ipv4_cidr list" where
  "fixed_v4_cidrs =
    [Ipv4Cidr 0x00000000 8, Ipv4Cidr 0x0A000000 8, Ipv4Cidr 0x7F000000 8, Ipv4Cidr 0xA9FE0000 16,
     Ipv4Cidr 0xAC100000 12, Ipv4Cidr 0xC0A80000 16, Ipv4Cidr 0xE0000000 4, Ipv4Cidr 0xFFFFFFFF 32]"

definition fixed_v6_cidrs :: "ipv6_cidr list" where
  "fixed_v6_cidrs =
    [Ipv6Cidr 0 128, Ipv6Cidr 1 128, Ipv6Cidr 0xFC000000000000000000000000000000 7,
     Ipv6Cidr 0xFE800000000000000000000000000000 10, Ipv6Cidr 0xFF000000000000000000000000000000 8]"

lemma fixed_cidrs_canonical: "list_all v4_canonical fixed_v4_cidrs" "list_all v6_canonical fixed_v6_cidrs"
  by (simp_all add: fixed_v4_cidrs_def fixed_v6_cidrs_def canonical_eval)

lemma fixed_cidrs_display:
  "map ipv4_cidr_display fixed_v4_cidrs = FIXED_BYPASS_V4_PREFIXES"
  "map ipv6_cidr_display fixed_v6_cidrs = FIXED_BYPASS_V6_PREFIXES"
  by code_simp+

lemma try_collect_map: "list_all (\<lambda>x. f (g x) = Ok x) xs \<Longrightarrow> try_collect f (map g xs) = Ok xs"
  by (induction xs) auto

lemma fixed_bypass_v4_value:
  "fixed_bypass_v4 = Some (map bypass_reserved (fixed_v4_cidrs @ [Ipv4Cidr 0xC6336401 32]))"
proof -
  have "try_collect ipv4_cidr_parse FIXED_BYPASS_V4_PREFIXES = Ok fixed_v4_cidrs"
    unfolding fixed_cidrs_display [symmetric]
    by (rule try_collect_map) (use fixed_cidrs_canonical(1) ipv4_cidr_parse_display in \<open>auto simp: list_all_iff\<close>)
  moreover have "parse_ipv4 LISTEN_V4_STR = Some 0xC6336401" by code_simp
  ultimately show ?thesis by (simp add: fixed_bypass_v4_def)
qed

lemma fixed_bypass_v6_value:
  "fixed_bypass_v6 =
    Some (map bypass_reserved (fixed_v6_cidrs @ [Ipv6Cidr 0x20010db8000000010000000000000002 128]))"
proof -
  have "try_collect ipv6_cidr_parse FIXED_BYPASS_V6_PREFIXES = Ok fixed_v6_cidrs"
    unfolding fixed_cidrs_display [symmetric]
    by (rule try_collect_map) (use fixed_cidrs_canonical(2) ipv6_cidr_parse_display in \<open>auto simp: list_all_iff\<close>)
  moreover have "parse_ipv6 LISTEN_V6_STR = Some 0x20010db8000000010000000000000002" by code_simp
  ultimately show ?thesis by (simp add: fixed_bypass_v6_def)
qed

text \<open>
  Building the fixed bypass set never panics; every entry is canonical and mechanism-owned, the
  listener of each family is one of them as a host route, no two entries of a family are equal, and
  no IPv4 entry covers an address of the fakeip range 198.18.0.0/15.
\<close>

theorem fixed_bypass_complete:
  "\<exists>es4 es6. fixed_bypass_v4 = Some es4 \<and> fixed_bypass_v6 = Some es6 \<and>
     list_all (\<lambda>e. v4_canonical (be_cidr e) \<and> be_tag e = Reserved) es4 \<and>
     list_all (\<lambda>e. v6_canonical (be_cidr e) \<and> be_tag e = Reserved) es6 \<and>
     distinct (map be_cidr es4) \<and> distinct (map be_cidr es6) \<and>
     (\<exists>l4. parse_ipv4 LISTEN_V4_STR = Some l4 \<and> bypass_reserved (Ipv4Cidr l4 32) \<in> set es4) \<and>
     (\<exists>l6. parse_ipv6 LISTEN_V6_STR = Some l6 \<and> bypass_reserved (Ipv6Cidr l6 128) \<in> set es6) \<and>
     list_all (\<lambda>e. v4_addresses (be_cidr e) \<inter> v4_addresses (Ipv4Cidr 0xC6120000 15) = {}) es4"
proof -
  have can: "list_all v4_canonical (fixed_v4_cidrs @ [Ipv4Cidr 0xC6336401 32])"
    "list_all v6_canonical (fixed_v6_cidrs @ [Ipv6Cidr 0x20010db8000000010000000000000002 128])"
    using fixed_cidrs_canonical by (simp_all add: canonical_eval)
  have listen: "parse_ipv4 LISTEN_V4_STR = Some 0xC6336401"
    "parse_ipv6 LISTEN_V6_STR = Some 0x20010db8000000010000000000000002"
    by code_simp+
  have dist: "distinct (fixed_v4_cidrs @ [Ipv4Cidr 0xC6336401 32])"
    "distinct (fixed_v6_cidrs @ [Ipv6Cidr 0x20010db8000000010000000000000002 128])"
    by (simp_all add: fixed_v4_cidrs_def fixed_v6_cidrs_def)
  have fakeip: "v4_canonical (Ipv4Cidr 0xC6120000 15)" by (simp add: canonical_eval)
  have "\<forall>c\<in>set (fixed_v4_cidrs @ [Ipv4Cidr 0xC6336401 32]).
      v4_addresses c \<inter> v4_addresses (Ipv4Cidr 0xC6120000 15) = {}"
  proof (intro ballI equals0I, elim IntE)
    fix c a
    assume c: "c \<in> set (fixed_v4_cidrs @ [Ipv4Cidr 0xC6336401 32])"
      and a: "a \<in> v4_addresses c" "a \<in> v4_addresses (Ipv4Cidr 0xC6120000 15)"
    have "v4_canonical c" using can(1) c by (auto simp: list_all_iff)
    then show False
      using c a in_v4_addresses_div [OF fakeip] in_v4_addresses_div [of c a]
      by (auto simp: fixed_v4_cidrs_def)
  qed
  then show ?thesis
    unfolding fixed_bypass_v4_value fixed_bypass_v6_value
    using can listen dist by (auto simp: list_all_iff bypass_reserved_def comp_def)
qed

end
