(* ===== verification/BTree_Model.thy ===== *)
theory BTree_Model
  imports Flux_Prelude
begin

text \<open>
  The two ordered containers of the standard library that the core uses. A \<open>BTreeSet\<close> is its
  strictly ascending list of elements and a \<open>BTreeMap\<close> its list of entries with strictly ascending
  keys, which is the order their iterators give. The interfaces the components rely on are the
  locales \<open>ordered_set\<close> and \<open>ordered_map\<close>; the loops over a container that the sources share
  (\<open>extend\<close>, insertion of every entry, \<open>retain\<close>) are verified once inside them.
\<close>

section \<open>Sets\<close>

type_synonym 'a btree_set = "'a list"

definition set_inv :: "'a::linorder btree_set \<Rightarrow> bool" where
  "set_inv s \<longleftrightarrow> sorted_wrt (<) s"

fun set_insert :: "'a::linorder \<Rightarrow> 'a btree_set \<Rightarrow> 'a btree_set" where
  "set_insert x [] = [x]"
| "set_insert x (y # ys) =
    (if x < y then x # y # ys else if x = y then y # ys else y # set_insert x ys)"

definition set_remove :: "'a::linorder \<Rightarrow> 'a btree_set \<Rightarrow> 'a btree_set" where
  "set_remove x s = filter (\<lambda>y. y \<noteq> x) s"

definition set_contains :: "'a::linorder btree_set \<Rightarrow> 'a \<Rightarrow> bool" where
  "set_contains s x \<longleftrightarrow> x \<in> set s"

definition set_retain :: "('a::linorder \<Rightarrow> bool) \<Rightarrow> 'a btree_set \<Rightarrow> 'a btree_set" where
  "set_retain P s = filter P s"

definition set_extend :: "'a::linorder btree_set \<Rightarrow> 'a list \<Rightarrow> 'a btree_set" where
  "set_extend s xs = fold set_insert xs s"

definition set_difference :: "'a::linorder btree_set \<Rightarrow> 'a btree_set \<Rightarrow> 'a list" where
  "set_difference s t = filter (\<lambda>x. \<not> set_contains t x) s"

definition set_from_iter :: "'a::linorder list \<Rightarrow> 'a btree_set" where
  "set_from_iter xs = set_extend [] xs"

lemma set_inv_Nil [simp]: "set_inv []"
  by (simp add: set_inv_def)

lemma set_set_insert [simp]: "set (set_insert x s) = insert x (set s)"
  by (induction x s rule: set_insert.induct) auto

lemma set_inv_insert [simp, intro]: "set_inv s \<Longrightarrow> set_inv (set_insert x s)"
  unfolding set_inv_def by (induction x s rule: set_insert.induct) auto

lemma set_inv_filter [simp, intro]: "set_inv s \<Longrightarrow> set_inv (filter P s)"
  by (simp add: set_inv_def sorted_wrt_filter)

lemma set_inv_ext: "set_inv s \<Longrightarrow> set_inv t \<Longrightarrow> set s = set t \<Longrightarrow> s = t"
  unfolding set_inv_def by (rule strict_sorted_equal)

lemma set_inv_distinct: "set_inv s \<Longrightarrow> distinct s"
  by (simp add: set_inv_def strict_sorted_iff)

locale ordered_set =
  fixes inv :: "'s \<Rightarrow> bool"
    and elems :: "'s \<Rightarrow> 'a set"
    and ins :: "'a \<Rightarrow> 's \<Rightarrow> 's"
    and del :: "'a \<Rightarrow> 's \<Rightarrow> 's"
  assumes ins_inv: "inv s \<Longrightarrow> inv (ins x s)"
    and ins_elems: "elems (ins x s) = insert x (elems s)"
    and del_inv: "inv s \<Longrightarrow> inv (del x s)"
    and del_elems: "elems (del x s) = elems s - {x}"
    and ext: "inv s \<Longrightarrow> inv t \<Longrightarrow> elems s = elems t \<Longrightarrow> s = t"
begin

lemma fold_ins_elems: "elems (fold ins xs s) = elems s \<union> set xs"
  by (induction xs arbitrary: s) (auto simp: ins_elems)

lemma fold_ins_inv: "inv s \<Longrightarrow> inv (fold ins xs s)"
  by (induction xs arbitrary: s) (auto simp: ins_inv)

lemma fold_del_elems: "elems (fold del xs s) = elems s - set xs"
  by (induction xs arbitrary: s) (auto simp: del_elems)

lemma fold_del_inv: "inv s \<Longrightarrow> inv (fold del xs s)"
  by (induction xs arbitrary: s) (auto simp: del_inv)

lemma ins_idem: "inv s \<Longrightarrow> x \<in> elems s \<Longrightarrow> ins x s = s"
  by (rule ext) (auto simp: ins_elems ins_inv)

lemma fold_ins_order: "inv s \<Longrightarrow> set xs = set ys \<Longrightarrow> fold ins xs s = fold ins ys s"
  by (rule ext) (simp_all add: fold_ins_elems fold_ins_inv)

end

interpretation bset: ordered_set set_inv set set_insert set_remove
  by unfold_locales (auto simp: set_remove_def intro: set_inv_ext)

lemma set_set_extend [simp]: "set (set_extend s xs) = set s \<union> set xs"
  by (simp add: set_extend_def bset.fold_ins_elems)

lemma set_inv_extend [simp, intro]: "set_inv s \<Longrightarrow> set_inv (set_extend s xs)"
  by (simp add: set_extend_def bset.fold_ins_inv)

lemma set_set_from_iter [simp]: "set (set_from_iter xs) = set xs"
  by (simp add: set_from_iter_def)

lemma set_inv_from_iter [simp]: "set_inv (set_from_iter xs)"
  by (simp add: set_from_iter_def)

lemma set_from_iter_id: "set_inv s \<Longrightarrow> set_from_iter s = s"
  by (rule set_inv_ext) simp_all

section \<open>Maps\<close>

type_synonym ('k, 'v) btree_map = "('k \<times> 'v) list"

definition map_inv :: "('k::linorder, 'v) btree_map \<Rightarrow> bool" where
  "map_inv m \<longleftrightarrow> sorted_wrt (<) (map fst m)"

fun map_insert :: "'k::linorder \<Rightarrow> 'v \<Rightarrow> ('k, 'v) btree_map \<Rightarrow> ('k, 'v) btree_map" where
  "map_insert k v [] = [(k, v)]"
| "map_insert k v ((k', v') # m) =
    (if k < k' then (k, v) # (k', v') # m
     else if k = k' then (k, v) # m
     else (k', v') # map_insert k v m)"

definition map_remove :: "'k::linorder \<Rightarrow> ('k, 'v) btree_map \<Rightarrow> ('k, 'v) btree_map" where
  "map_remove k m = filter (\<lambda>e. fst e \<noteq> k) m"

definition map_get :: "('k::linorder, 'v) btree_map \<Rightarrow> 'k \<Rightarrow> 'v option" where
  "map_get m k = map_of m k"

definition map_contains_key :: "('k::linorder, 'v) btree_map \<Rightarrow> 'k \<Rightarrow> bool" where
  "map_contains_key m k \<longleftrightarrow> map_get m k \<noteq> None"

definition map_retain ::
    "('k::linorder \<Rightarrow> 'v \<Rightarrow> bool) \<Rightarrow> ('k, 'v) btree_map \<Rightarrow> ('k, 'v) btree_map" where
  "map_retain P m = filter (\<lambda>e. P (fst e) (snd e)) m"

definition map_keys :: "('k::linorder, 'v) btree_map \<Rightarrow> 'k list" where
  "map_keys m = map fst m"

lemma map_inv_Nil [simp]: "map_inv []"
  by (simp add: map_inv_def)

lemma map_get_Nil [simp]: "map_get [] k = None"
  by (simp add: map_get_def)

lemma keys_map_insert [simp]: "fst ` set (map_insert k v m) = insert k (fst ` set m)"
  by (induction k v m rule: map_insert.induct) auto

lemma map_inv_insert [simp, intro]: "map_inv m \<Longrightarrow> map_inv (map_insert k v m)"
proof (induction k v m rule: map_insert.induct)
  case (2 k v k' v' m)
  have "\<forall>x\<in>set (map fst (map_insert k v m)). x = k \<or> x \<in> fst ` set m"
    using keys_map_insert [of k v m] by auto
  with 2 show ?case by (force simp: map_inv_def)
qed (simp add: map_inv_def)

lemma map_get_insert [simp]:
  "map_inv m \<Longrightarrow> map_get (map_insert k v m) k' = (if k' = k then Some v else map_get m k')"
  by (induction k v m rule: map_insert.induct)
    (auto simp: map_get_def map_inv_def map_of_eq_None_iff)

lemma map_inv_filter [simp, intro]: "map_inv m \<Longrightarrow> map_inv (filter P m)"
  by (induction m) (auto simp: map_inv_def)

lemma map_inv_distinct: "map_inv m \<Longrightarrow> distinct (map fst m)"
  by (simp add: map_inv_def strict_sorted_iff)

lemma map_get_Some_iff: "map_inv m \<Longrightarrow> map_get m k = Some v \<longleftrightarrow> (k, v) \<in> set m"
  by (simp add: map_get_def map_inv_distinct)

lemma map_get_None_iff: "map_get m k = None \<longleftrightarrow> k \<notin> fst ` set m"
  by (simp add: map_get_def map_of_eq_None_iff)

lemma map_contains_key_iff: "map_contains_key m k \<longleftrightarrow> k \<in> fst ` set m"
  by (auto simp: map_contains_key_def map_get_None_iff)

lemma map_get_filter_key:
  "map_get (filter (\<lambda>e. P (fst e)) m) k = (if P k then map_get m k else None)"
  by (induction m) (auto simp: map_get_def)

lemma map_get_remove [simp]: "map_get (map_remove k m) k' = (if k' = k then None else map_get m k')"
  unfolding map_remove_def by (subst map_get_filter_key [where P = "\<lambda>x. x \<noteq> k"]) simp

lemma map_inv_remove [simp, intro]: "map_inv m \<Longrightarrow> map_inv (map_remove k m)"
  by (simp add: map_remove_def)

lemma entries_from_keys:
  assumes "distinct (map fst m)"
  shows "map (\<lambda>k. (k, the (map_of m k))) (map fst m) = m"
  using assms by (auto simp: comp_def intro!: map_idI)

lemma map_inv_ext:
  assumes "map_inv m" and "map_inv n" and eq: "map_get m = map_get n"
  shows "m = n"
proof -
  have get: "map_of m k = map_of n k" for k using eq by (metis map_get_def)
  then have "fst ` set m = fst ` set n" by (metis dom_map_of_conv_image_fst ext)
  then have keys: "map fst m = map fst n"
    using assms(1,2) unfolding map_inv_def by (intro strict_sorted_equal) auto
  have "m = map (\<lambda>k. (k, the (map_of m k))) (map fst m)"
    using entries_from_keys map_inv_distinct assms(1) by metis
  also have "\<dots> = map (\<lambda>k. (k, the (map_of n k))) (map fst n)" by (simp only: get keys)
  also have "\<dots> = n" using entries_from_keys map_inv_distinct assms(2) by metis
  finally show ?thesis .
qed

locale ordered_map =
  fixes inv :: "'m \<Rightarrow> bool"
    and get :: "'m \<Rightarrow> 'k \<Rightarrow> 'v option"
    and put :: "'k \<Rightarrow> 'v \<Rightarrow> 'm \<Rightarrow> 'm"
    and del :: "'k \<Rightarrow> 'm \<Rightarrow> 'm"
  assumes put_inv: "inv m \<Longrightarrow> inv (put k v m)"
    and get_put: "inv m \<Longrightarrow> get (put k v m) = (get m)(k \<mapsto> v)"
    and del_inv: "inv m \<Longrightarrow> inv (del k m)"
    and get_del: "inv m \<Longrightarrow> get (del k m) = (get m)(k := None)"
    and get_ext: "inv m \<Longrightarrow> inv n \<Longrightarrow> get m = get n \<Longrightarrow> m = n"
begin

lemma fold_put_inv: "inv m \<Longrightarrow> inv (fold (\<lambda>(k, v). put k v) kvs m)"
  by (induction kvs arbitrary: m) (auto simp: put_inv)

lemma get_fold_put:
  "inv m \<Longrightarrow> distinct (map fst kvs) \<Longrightarrow>
   get (fold (\<lambda>(k, v). put k v) kvs m) = get m ++ map_of kvs"
proof (induction kvs arbitrary: m)
  case (Cons e kvs)
  obtain k v where e: "e = (k, v)" by (cases e)
  with Cons.prems have "map_of kvs k = None" by (auto simp: map_of_eq_None_iff)
  then have eq: "get m ++ map_of (e # kvs) = (get m)(k \<mapsto> v) ++ map_of kvs"
    using e by (auto simp: map_add_def fun_eq_iff split: option.splits)
  have "get (fold (\<lambda>(k, v). put k v) (e # kvs) m) = get (put k v m) ++ map_of kvs"
    using Cons e by (simp add: put_inv)
  then show ?case unfolding eq using Cons.prems(1) by (simp add: get_put)
qed simp

lemma put_overwrite: "inv m \<Longrightarrow> put k w (put k v m) = put k w m"
  by (rule get_ext) (simp_all add: put_inv get_put)

lemma put_same: "inv m \<Longrightarrow> get m k = Some v \<Longrightarrow> put k v m = m"
  by (rule get_ext) (auto simp: put_inv get_put)

lemma del_fresh: "inv m \<Longrightarrow> get m k = None \<Longrightarrow> del k m = m"
  by (rule get_ext) (auto simp: del_inv get_del)

end

interpretation bmap: ordered_map map_inv map_get map_insert map_remove
  by unfold_locales (auto intro: map_inv_ext)

definition map_extend :: "('k::linorder, 'v) btree_map \<Rightarrow> ('k \<times> 'v) list \<Rightarrow> ('k, 'v) btree_map" where
  "map_extend m kvs = fold (\<lambda>(k, v). map_insert k v) kvs m"

definition map_from_iter :: "('k::linorder \<times> 'v) list \<Rightarrow> ('k, 'v) btree_map" where
  "map_from_iter kvs = map_extend [] kvs"

lemma map_inv_extend [simp, intro]: "map_inv m \<Longrightarrow> map_inv (map_extend m kvs)"
  by (simp add: map_extend_def bmap.fold_put_inv)

lemma keys_map_extend [simp]: "fst ` set (map_extend m kvs) = fst ` set m \<union> fst ` set kvs"
  unfolding map_extend_def
  by (induction kvs arbitrary: m) (simp_all add: case_prod_beta)

lemma map_get_extend: "map_inv m \<Longrightarrow> map_inv n \<Longrightarrow> map_get (map_extend m n) = map_get m ++ map_get n"
  unfolding map_extend_def
  by (subst bmap.get_fold_put) (simp_all add: map_inv_distinct map_get_def [abs_def])

text \<open>
  Adding every entry of \<open>n\<close> and then retaining the keys of \<open>n\<close> leaves exactly \<open>n\<close>, whatever the
  container held before: the shape of every reconciliation loop of the sources.
\<close>

lemma extend_then_retain:
  assumes "map_inv m" and "map_inv n"
  shows "map_retain (\<lambda>k _. map_contains_key n k) (map_extend m n) = n"
proof (rule map_inv_ext)
  show "map_get (map_retain (\<lambda>k _. map_contains_key n k) (map_extend m n)) = map_get n"
  proof
    fix k
    show "map_get (map_retain (\<lambda>k _. map_contains_key n k) (map_extend m n)) k = map_get n k"
      unfolding map_retain_def
      by (subst map_get_filter_key [where P = "map_contains_key n"])
        (auto simp: map_get_extend [OF assms] map_contains_key_def)
  qed
qed (simp_all add: assms map_retain_def)

lemma set_extend_then_retain:
  "set_inv s \<Longrightarrow> set_inv t \<Longrightarrow> set_retain (\<lambda>x. set_contains t x) (set_extend s t) = t"
  by (rule set_inv_ext) (auto simp: set_retain_def set_contains_def)

end
