(* ===== verification/Policy_Epoch.thy ===== *)
theory Policy_Epoch
  imports Cidr BTree_Model
begin

text \<open>
  Observable policy as one epoch, crates/flux-core/src/policy_epoch.rs: the epoch with its UID,
  prefix and self-address sets, the outcome of a new flow under an epoch, the two commit protocols
  and their visible windows. The loop of \<open>lpm_v4\<close> and \<open>lpm_v6\<close> is shown to compute the longest match
  once, in the locale \<open>longest_match\<close>, and the locale is interpreted for both families.
\<close>

section \<open>Epochs\<close>

record policy_epoch =
  pe_cidr_mode :: cidr_mode
  selected :: "u32 btree_set"
  draining :: "u32 btree_set"
  bypass_v4 :: "(ipv4_cidr, bypass_tag) btree_map"
  bypass_v6 :: "(ipv6_cidr, bypass_tag) btree_map"
  self_v4 :: "ipv4_addr btree_set"
  self_v6 :: "ipv6_addr btree_set"

datatype dest = V4 ipv4_addr | V6 ipv6_addr

definition epoch_new :: "cidr_mode \<Rightarrow> policy_epoch" where
  "epoch_new m =
    \<lparr>pe_cidr_mode = m, selected = [], draining = [], bypass_v4 = [], bypass_v6 = [],
     self_v4 = [], self_v6 = []\<rparr>"

text \<open>
  The masks of this module shift by \<open>32 - prefix_len\<close> and \<open>128 - prefix_len\<close>; a prefix of the types
  \<open>Ipv4Cidr\<close> and \<open>Ipv6Cidr\<close> is never longer than its family, so the difference is that of numbers.
\<close>

definition pe_mask32 :: "u8 \<Rightarrow> u32" where
  "pe_mask32 n = (if n = 0 then 0 else push_bit (32 - unat n) (NOT 0))"

definition pe_mask128 :: "u8 \<Rightarrow> u128" where
  "pe_mask128 n = (if n = 0 then 0 else push_bit (128 - unat n) (NOT 0))"

definition v4_in :: "ipv4_cidr \<Rightarrow> ipv4_addr \<Rightarrow> bool" where
  "v4_in cidr addr \<longleftrightarrow> addr AND pe_mask32 (v4_prefix_len cidr) = v4_addr cidr"

definition v6_in :: "ipv6_cidr \<Rightarrow> ipv6_addr \<Rightarrow> bool" where
  "v6_in cidr addr \<longleftrightarrow> addr AND pe_mask128 (v6_prefix_len cidr) = v6_addr cidr"

definition lpm_v4 :: "(ipv4_cidr, bypass_tag) btree_map \<Rightarrow> ipv4_addr \<Rightarrow> bypass_tag option" where
  "lpm_v4 m addr =
    map_option snd
      (fold (\<lambda>(cidr, tag) best.
          if v4_in cidr addr \<and> (case best of None \<Rightarrow> True | Some (len, _) \<Rightarrow> v4_prefix_len cidr > len)
          then Some (v4_prefix_len cidr, tag) else best) m None)"

definition lpm_v6 :: "(ipv6_cidr, bypass_tag) btree_map \<Rightarrow> ipv6_addr \<Rightarrow> bypass_tag option" where
  "lpm_v6 m addr =
    map_option snd
      (fold (\<lambda>(cidr, tag) best.
          if v6_in cidr addr \<and> (case best of None \<Rightarrow> True | Some (len, _) \<Rightarrow> v6_prefix_len cidr > len)
          then Some (v6_prefix_len cidr, tag) else best) m None)"

fun bypass_direct :: "policy_epoch \<Rightarrow> dest \<Rightarrow> bool" where
  "bypass_direct e (V4 addr) =
    (if set_contains (self_v4 e) addr then True
     else case lpm_v4 (bypass_v4 e) addr of
            Some Reserved \<Rightarrow> True
          | Some Policy \<Rightarrow> pe_cidr_mode e = Cidr_Blacklist
          | None \<Rightarrow> pe_cidr_mode e = Cidr_Whitelist)"
| "bypass_direct e (V6 addr) =
    (if set_contains (self_v6 e) addr then True
     else case lpm_v6 (bypass_v6 e) addr of
            Some Reserved \<Rightarrow> True
          | Some Policy \<Rightarrow> pe_cidr_mode e = Cidr_Blacklist
          | None \<Rightarrow> pe_cidr_mode e = Cidr_Whitelist)"

definition observe_new_flow :: "policy_epoch \<Rightarrow> u32 \<Rightarrow> dest \<Rightarrow> decision_mode" where
  "observe_new_flow e uid d =
    (if \<not> set_contains (selected e) uid then Direct
     else if bypass_direct e d then Direct
     else Captured)"

section \<open>Commit protocols\<close>

definition committed :: "policy_epoch \<Rightarrow> policy_epoch \<Rightarrow> policy_epoch" where
  "committed from desired =
    (let dr = set_extend (draining from) (set_difference (selected from) (selected desired));
         dr = fold set_remove (selected desired) dr
     in \<lparr>pe_cidr_mode = pe_cidr_mode desired, selected = selected desired, draining = dr,
         bypass_v4 = bypass_v4 desired, bypass_v6 = bypass_v6 desired,
         self_v4 = self_v4 desired, self_v6 = self_v6 desired\<rparr>)"

definition epoch_commit_windows :: "policy_epoch \<Rightarrow> policy_epoch \<Rightarrow> policy_epoch list" where
  "epoch_commit_windows from desired = [from, committed from desired]"

text \<open>The loops of \<open>add_then_subtract_windows\<close>, one definition per phase.\<close>

definition add_uid :: "u32 \<Rightarrow> policy_epoch \<Rightarrow> policy_epoch" where
  "add_uid uid live =
    live\<lparr>draining := set_remove uid (draining live), selected := set_insert uid (selected live)\<rparr>"

definition add_prefixes :: "policy_epoch \<Rightarrow> policy_epoch \<Rightarrow> policy_epoch" where
  "add_prefixes desired live =
    live\<lparr>bypass_v4 := map_extend (bypass_v4 live) (bypass_v4 desired),
         bypass_v6 := map_extend (bypass_v6 live) (bypass_v6 desired)\<rparr>"

definition add_self :: "policy_epoch \<Rightarrow> policy_epoch \<Rightarrow> policy_epoch" where
  "add_self desired live =
    live\<lparr>self_v4 := set_extend (self_v4 live) (self_v4 desired),
         self_v6 := set_extend (self_v6 live) (self_v6 desired)\<rparr>"

definition drain_uid :: "u32 \<Rightarrow> policy_epoch \<Rightarrow> policy_epoch" where
  "drain_uid uid live =
    live\<lparr>selected := set_remove uid (selected live), draining := set_insert uid (draining live)\<rparr>"

definition retain_desired :: "policy_epoch \<Rightarrow> policy_epoch \<Rightarrow> policy_epoch" where
  "retain_desired desired live =
    live\<lparr>bypass_v4 := map_retain (\<lambda>cidr _. map_contains_key (bypass_v4 desired) cidr) (bypass_v4 live),
         bypass_v6 := map_retain (\<lambda>cidr _. map_contains_key (bypass_v6 desired) cidr) (bypass_v6 live),
         self_v4 := set_retain (\<lambda>addr. set_contains (self_v4 desired) addr) (self_v4 live),
         self_v6 := set_retain (\<lambda>addr. set_contains (self_v6 desired) addr) (self_v6 live)\<rparr>"

definition add_then_subtract_windows :: "policy_epoch \<Rightarrow> policy_epoch \<Rightarrow> policy_epoch list" where
  "add_then_subtract_windows from desired =
    (let w1 = fold add_uid (selected desired) from;
         w2 = add_prefixes desired w1;
         w3 = add_self desired w2;
         w4 = w3\<lparr>pe_cidr_mode := pe_cidr_mode desired\<rparr>;
         removed = filter (\<lambda>uid. \<not> set_contains (selected desired) uid) (selected w4);
         w5 = fold drain_uid removed w4;
         w6 = retain_desired desired w5
     in [from, w1, w2, w3, w4, w5, w6])"

definition add_then_subtract_peak_lpm :: "nat \<Rightarrow> nat \<Rightarrow> nat \<Rightarrow> nat" where
  "add_then_subtract_peak_lpm old_n new_n shared = old_n + new_n - shared"

definition epoch_peak_live_lpm :: "nat \<Rightarrow> nat \<Rightarrow> nat" where
  "epoch_peak_live_lpm old_n new_n = max old_n new_n"

section \<open>Longest match\<close>

locale longest_match =
  fixes inside :: "'c \<Rightarrow> 'a \<Rightarrow> bool"
    and plen :: "'c \<Rightarrow> u8"
  assumes unique: "inside c a \<Longrightarrow> inside d a \<Longrightarrow> plen c = plen d \<Longrightarrow> c = d"
begin

text \<open>What the loop of the code holds after a prefix of the entries.\<close>

lemma fold_best:
  assumes "fold (\<lambda>(c, t) best.
      if inside c a \<and> (case best of None \<Rightarrow> True | Some (len, _) \<Rightarrow> plen c > len)
      then Some (plen c, t) else best) m None = best"
  shows "(best = None \<longrightarrow> (\<forall>(c, t)\<in>set m. \<not> inside c a)) \<and>
    (\<forall>len t. best = Some (len, t) \<longrightarrow>
       (\<exists>c. (c, t) \<in> set m \<and> inside c a \<and> plen c = len) \<and>
       (\<forall>(d, u)\<in>set m. inside d a \<longrightarrow> plen d \<le> len))"
  using assms
proof (induction m arbitrary: best rule: rev_induct)
  case (snoc e m)
  obtain c t where e: "e = (c, t)" by (cases e)
  let ?f = "\<lambda>(c, t) best.
      if inside c a \<and> (case best of None \<Rightarrow> True | Some (len, _) \<Rightarrow> plen c > len)
      then Some (plen c, t) else best"
  obtain b0 where b0: "fold ?f m None = b0" by blast
  note IH = snoc.IH [OF b0]
  have best: "best = ?f (c, t) b0" using snoc.prems unfolding e fold_append b0 [symmetric] by simp
  show ?case
  proof (cases b0)
    case None
    then show ?thesis using IH best e by (auto split: if_splits)
  next
    case (Some p)
    then obtain len u where p: "b0 = Some (len, u)" by (cases p) auto
    then show ?thesis using IH best e by (fastforce split: if_splits)
  qed
qed simp

lemma fold_Some_iff:
  assumes "distinct (map fst m)"
  shows "map_option snd (fold (\<lambda>(c, t) best.
      if inside c a \<and> (case best of None \<Rightarrow> True | Some (len, _) \<Rightarrow> plen c > len)
      then Some (plen c, t) else best) m None) = Some t \<longleftrightarrow>
    (\<exists>c. (c, t) \<in> set m \<and> inside c a \<and> (\<forall>(d, u)\<in>set m. inside d a \<longrightarrow> plen d \<le> plen c))"
    (is "map_option snd ?b = _ \<longleftrightarrow> ?spec")
proof
  assume "map_option snd ?b = Some t"
  then obtain len where "?b = Some (len, t)" by auto
  then show ?spec using fold_best [of a m ?b] by auto
next
  assume ?spec
  then obtain c where c: "(c, t) \<in> set m" "inside c a" "\<forall>(d, u)\<in>set m. inside d a \<longrightarrow> plen d \<le> plen c"
    by blast
  then obtain len u where b: "?b = Some (len, u)" using fold_best [of a m ?b] by (cases ?b) auto
  then obtain d where d: "(d, u) \<in> set m" "inside d a" "plen d = len" "plen c \<le> len"
    using fold_best [of a m ?b] c by blast
  then have "c = d" using c unique by fastforce
  then show "map_option snd ?b = Some t" using b c(1) d(1) assms by (auto dest: eq_key_imp_eq_value)
qed

lemma fold_None_iff:
  "map_option snd (fold (\<lambda>(c, t) best.
      if inside c a \<and> (case best of None \<Rightarrow> True | Some (len, _) \<Rightarrow> plen c > len)
      then Some (plen c, t) else best) m None) = None \<longleftrightarrow> (\<forall>(c, t)\<in>set m. \<not> inside c a)"
    (is "map_option snd ?b = None \<longleftrightarrow> _")
  using fold_best [of a m ?b] by (cases ?b) fastforce+

end

lemma v4_in_unique: "v4_in c a \<Longrightarrow> v4_in d a \<Longrightarrow> v4_prefix_len c = v4_prefix_len d \<Longrightarrow> c = d"
  by (cases c; cases d) (auto simp: v4_in_def)

lemma v6_in_unique: "v6_in c a \<Longrightarrow> v6_in d a \<Longrightarrow> v6_prefix_len c = v6_prefix_len d \<Longrightarrow> c = d"
  by (cases c; cases d) (auto simp: v6_in_def)

interpretation lpm4: longest_match v4_in v4_prefix_len
  by unfold_locales (rule v4_in_unique)

interpretation lpm6: longest_match v6_in v6_prefix_len
  by unfold_locales (rule v6_in_unique)

lemma lpm_v4_Some:
  "map_inv m \<Longrightarrow> lpm_v4 m a = Some t \<longleftrightarrow>
   (\<exists>c. (c, t) \<in> set m \<and> v4_in c a \<and> (\<forall>(d, u)\<in>set m. v4_in d a \<longrightarrow> v4_prefix_len d \<le> v4_prefix_len c))"
  unfolding lpm_v4_def by (rule lpm4.fold_Some_iff) (rule map_inv_distinct)

lemma lpm_v6_Some:
  "map_inv m \<Longrightarrow> lpm_v6 m a = Some t \<longleftrightarrow>
   (\<exists>c. (c, t) \<in> set m \<and> v6_in c a \<and> (\<forall>(d, u)\<in>set m. v6_in d a \<longrightarrow> v6_prefix_len d \<le> v6_prefix_len c))"
  unfolding lpm_v6_def by (rule lpm6.fold_Some_iff) (rule map_inv_distinct)

lemma lpm_v4_None: "lpm_v4 m a = None \<longleftrightarrow> (\<forall>(c, t)\<in>set m. \<not> v4_in c a)"
  unfolding lpm_v4_def by (rule lpm4.fold_None_iff)

lemma lpm_v6_None: "lpm_v6 m a = None \<longleftrightarrow> (\<forall>(c, t)\<in>set m. \<not> v6_in c a)"
  unfolding lpm_v6_def by (rule lpm6.fold_None_iff)

text \<open>The masks of this module are the masks of the prefix module, so membership is coverage.\<close>

lemma v4_in_iff: "v4_canonical c \<Longrightarrow> v4_in c a \<longleftrightarrow> a \<in> v4_addresses c"
proof -
  assume "v4_canonical c"
  then have "pe_mask32 (v4_prefix_len c) = mask32 (v4_prefix_len c)"
    by (intro bit_word_eqI)
      (auto simp: v4_canonical_def canonical_def bit_mask32 pe_mask32_def bit_simps word_unat_eq_iff)
  then show ?thesis by (simp add: v4_in_def v4_addresses_def covers_def)
qed

lemma v6_in_iff: "v6_canonical c \<Longrightarrow> v6_in c a \<longleftrightarrow> a \<in> v6_addresses c"
proof -
  assume "v6_canonical c"
  then have "pe_mask128 (v6_prefix_len c) = mask128 (v6_prefix_len c)"
    by (intro bit_word_eqI)
      (auto simp: v6_canonical_def canonical_def bit_mask128 pe_mask128_def bit_simps word_unat_eq_iff)
  then show ?thesis by (simp add: v6_in_def v6_addresses_def covers_def)
qed

section \<open>The invariant of an epoch\<close>

definition epoch_inv :: "policy_epoch \<Rightarrow> bool" where
  "epoch_inv e \<longleftrightarrow>
    set_inv (selected e) \<and> set_inv (draining e) \<and> set (selected e) \<inter> set (draining e) = {} \<and>
    map_inv (bypass_v4 e) \<and> map_inv (bypass_v6 e) \<and> set_inv (self_v4 e) \<and> set_inv (self_v6 e)"

lemma epoch_inv_new: "epoch_inv (epoch_new m)"
  by (simp add: epoch_inv_def epoch_new_def)

lemma set_difference_set [simp]: "set (set_difference s t) = set s - set t"
  by (auto simp: set_difference_def set_contains_def)

lemma draining_committed:
  "set (draining (committed from desired)) =
    (set (draining from) \<union> set (selected from)) - set (selected desired)"
  by (auto simp: committed_def Let_def bset.fold_del_elems)

lemma committed_fields [simp]:
  "selected (committed from desired) = selected desired"
  "pe_cidr_mode (committed from desired) = pe_cidr_mode desired"
  "bypass_v4 (committed from desired) = bypass_v4 desired"
  "bypass_v6 (committed from desired) = bypass_v6 desired"
  "self_v4 (committed from desired) = self_v4 desired"
  "self_v6 (committed from desired) = self_v6 desired"
  by (simp_all add: committed_def Let_def)

lemma epoch_inv_committed:
  "epoch_inv from \<Longrightarrow> epoch_inv desired \<Longrightarrow> epoch_inv (committed from desired)"
  using draining_committed [of "from" desired]
  by (auto simp: epoch_inv_def committed_def Let_def bset.fold_del_inv)

text \<open>A UID that has been selected or draining keeps an entry over every sequence of commits.\<close>

lemma commits_keep_entries:
  "set (selected e) \<union> set (draining e)
    \<subseteq> set (selected (foldl committed e ds)) \<union> set (draining (foldl committed e ds))"
proof (induction ds arbitrary: e)
  case (Cons d ds)
  have "set (selected e) \<union> set (draining e)
      \<subseteq> set (selected (committed e d)) \<union> set (draining (committed e d))"
    by (auto simp: draining_committed)
  also note Cons.IH [of "committed e d"]
  finally show ?case by simp
qed simp

lemma epoch_inv_commits:
  "epoch_inv e \<Longrightarrow> list_all epoch_inv ds \<Longrightarrow> epoch_inv (foldl committed e ds)"
  by (induction ds arbitrary: e) (auto intro: epoch_inv_committed)

text \<open>
  C2: over any sequence of epoch commits the invariant of the epoch is kept (ordered sets,
  \<open>SELECTED\<close> and \<open>DRAINING\<close> disjoint), the selected set is exactly the one last desired, and a UID
  that was selected or draining at any point of the sequence still has an entry at the end: it is
  never deleted.
\<close>

theorem commit_sequence_never_forgets:
  assumes "epoch_inv e" and "list_all epoch_inv (ds @ ds')"
  shows "epoch_inv (foldl committed e (ds @ ds')) \<and>
    (ds' \<noteq> [] \<longrightarrow> selected (foldl committed e (ds @ ds')) = selected (last ds')) \<and>
    set (selected (foldl committed e ds)) \<union> set (draining (foldl committed e ds))
      \<subseteq> set (selected (foldl committed e (ds @ ds'))) \<union> set (draining (foldl committed e (ds @ ds')))"
proof (intro conjI)
  show "epoch_inv (foldl committed e (ds @ ds'))" using assms by (rule epoch_inv_commits)
  show "ds' \<noteq> [] \<longrightarrow> selected (foldl committed e (ds @ ds')) = selected (last ds')"
    by (cases ds' rule: rev_cases) simp_all
  show "set (selected (foldl committed e ds)) \<union> set (draining (foldl committed e ds))
      \<subseteq> set (selected (foldl committed e (ds @ ds'))) \<union> set (draining (foldl committed e (ds @ ds')))"
    using commits_keep_entries [of "foldl committed e ds" ds'] by simp
qed

abbreviation demo_epoch :: "u32 list \<Rightarrow> policy_epoch" where
  "demo_epoch uids \<equiv> (epoch_new Cidr_Blacklist)\<lparr>selected := uids\<rparr>"

lemma epoch_inv_demo: "set_inv uids \<Longrightarrow> epoch_inv (demo_epoch uids)"
  by (simp add: epoch_inv_def epoch_new_def)

theorem commit_sequence_never_forgets_witness:
  "10001 \<in> set (draining (foldl committed (demo_epoch [])
      ([demo_epoch [10001, 10002]] @ [demo_epoch [10002], demo_epoch []])))"
proof -
  have inv: "list_all epoch_inv ([demo_epoch [10001, 10002]] @ [demo_epoch [10002], demo_epoch []])"
    "epoch_inv (demo_epoch [])"
    by (simp_all add: epoch_inv_demo set_inv_def)
  have "10001 \<in> set (selected (foldl committed (demo_epoch []) [demo_epoch [10001, 10002]]))"
    by simp
  then show ?thesis
    using commit_sequence_never_forgets [OF inv(2,1)] by (auto simp: epoch_new_def)
qed

section \<open>What a new flow observes\<close>

text \<open>
  The outcome of a new flow is \<open>CAPTURED\<close> exactly when its UID is selected, the destination is
  not one of the device's own addresses, and the longest prefix over it is not mechanism-reserved
  and agrees with the direction of the list: a policy entry under a whitelist, no entry at all under
  a blacklist. Both families.
\<close>

theorem captured_iff:
  "(observe_new_flow e uid (V4 a) = Captured \<longleftrightarrow>
     uid \<in> set (selected e) \<and> a \<notin> set (self_v4 e) \<and>
     (case pe_cidr_mode e of
        Cidr_Blacklist \<Rightarrow> list_all (\<lambda>(c, t). \<not> v4_in c a) (bypass_v4 e)
      | Cidr_Whitelist \<Rightarrow> lpm_v4 (bypass_v4 e) a = Some Policy)) \<and>
   (observe_new_flow e uid (V6 b) = Captured \<longleftrightarrow>
     uid \<in> set (selected e) \<and> b \<notin> set (self_v6 e) \<and>
     (case pe_cidr_mode e of
        Cidr_Blacklist \<Rightarrow> list_all (\<lambda>(c, t). \<not> v6_in c b) (bypass_v6 e)
      | Cidr_Whitelist \<Rightarrow> lpm_v6 (bypass_v6 e) b = Some Policy))"
  unfolding list_all_iff lpm_v4_None [symmetric] lpm_v6_None [symmetric]
  by (auto simp: observe_new_flow_def set_contains_def
      split: cidr_mode.splits option.splits bypass_tag.splits if_splits)

text \<open>
  C19: the loops of \<open>lpm_v4\<close> and \<open>lpm_v6\<close> return the tag of the longest prefix of the table that
  covers the address, and nothing exactly when no prefix covers it; for canonical prefixes the
  membership test is coverage.
\<close>

theorem lpm_is_longest_match:
  assumes "map_inv m4" and "map_inv m6"
    and "\<forall>(c, t)\<in>set m4. v4_canonical c" and "\<forall>(c, t)\<in>set m6. v6_canonical c"
  shows "(lpm_v4 m4 a = Some t \<longleftrightarrow> (\<exists>c. (c, t) \<in> set m4 \<and> a \<in> v4_addresses c \<and>
           (\<forall>(d, u)\<in>set m4. a \<in> v4_addresses d \<longrightarrow> v4_prefix_len d \<le> v4_prefix_len c))) \<and>
    (lpm_v4 m4 a = None \<longleftrightarrow> (\<forall>(c, t)\<in>set m4. a \<notin> v4_addresses c)) \<and>
    (lpm_v6 m6 b = Some t \<longleftrightarrow> (\<exists>c. (c, t) \<in> set m6 \<and> b \<in> v6_addresses c \<and>
           (\<forall>(d, u)\<in>set m6. b \<in> v6_addresses d \<longrightarrow> v6_prefix_len d \<le> v6_prefix_len c))) \<and>
    (lpm_v6 m6 b = None \<longleftrightarrow> (\<forall>(c, t)\<in>set m6. b \<notin> v6_addresses c))"
proof -
  have in4: "v4_in c a \<longleftrightarrow> a \<in> v4_addresses c" if "(c, t) \<in> set m4" for c t
    using assms(3) that v4_in_iff by blast
  have in6: "v6_in c b \<longleftrightarrow> b \<in> v6_addresses c" if "(c, t) \<in> set m6" for c t
    using assms(4) that v6_in_iff by blast
  have max4: "(\<forall>(d, u)\<in>set m4. v4_in d a \<longrightarrow> v4_prefix_len d \<le> n) \<longleftrightarrow>
      (\<forall>(d, u)\<in>set m4. a \<in> v4_addresses d \<longrightarrow> v4_prefix_len d \<le> n)" for n
    using in4 by blast
  have max6: "(\<forall>(d, u)\<in>set m6. v6_in d b \<longrightarrow> v6_prefix_len d \<le> n) \<longleftrightarrow>
      (\<forall>(d, u)\<in>set m6. b \<in> v6_addresses d \<longrightarrow> v6_prefix_len d \<le> n)" for n
    using in6 by blast
  show ?thesis
    unfolding lpm_v4_Some [OF assms(1)] lpm_v6_Some [OF assms(2)] lpm_v4_None lpm_v6_None max4 max6
    using in4 in6 by blast
qed

theorem lpm_is_longest_match_witness:
  "lpm_v4 [(Ipv4Cidr 0x0A000000 8, Policy), (Ipv4Cidr 0x0A010000 16, Reserved)] 0x0A010203 = Some Reserved \<and>
   lpm_v6 [] 0 = None"
proof -
  let ?m = "[(Ipv4Cidr 0x0A000000 8, Policy), (Ipv4Cidr 0x0A010000 16, Reserved)]"
  have can: "v4_canonical (Ipv4Cidr 0x0A000000 8)" "v4_canonical (Ipv4Cidr 0x0A010000 16)"
    by (simp_all add: canonical_eval)
  have hyps: "map_inv ?m" "map_inv ([] :: (ipv6_cidr, bypass_tag) btree_map)"
    "\<forall>(c, t)\<in>set ?m. v4_canonical c" "\<forall>(c, t)\<in>set ([] :: (ipv6_cidr, bypass_tag) btree_map). v6_canonical c"
    using can by (simp_all add: map_inv_def less_ipv4_cidr_def)
  have "0x0A010203 \<in> v4_addresses (Ipv4Cidr 0x0A010000 16)"
    using in_v4_addresses_div [OF can(2)] by simp
  then have "lpm_v4 ?m 0x0A010203 = Some Reserved"
    
    using lpm_is_longest_match [OF hyps, of "0x0A010203" Reserved 0] by auto
  then show ?thesis using lpm_is_longest_match [OF hyps, of _ _ 0] by simp
qed

section \<open>The two commit protocols\<close>

lemma observe_committed: "observe_new_flow (committed from desired) = observe_new_flow desired"
proof (intro ext)
  fix uid d
  show "observe_new_flow (committed from desired) uid d = observe_new_flow desired uid d"
    by (cases d) (simp_all only: observe_new_flow_def bypass_direct.simps committed_fields)
qed

lemma fold_add_uid:
  "fold add_uid uids live =
    live\<lparr>draining := fold set_remove uids (draining live),
         selected := fold set_insert uids (selected live)\<rparr>"
  by (induction uids arbitrary: live) (simp_all add: add_uid_def)

lemma fold_drain_uid:
  "fold drain_uid uids live =
    live\<lparr>selected := fold set_remove uids (selected live),
         draining := fold set_insert uids (draining live)\<rparr>"
  by (induction uids arbitrary: live) (simp_all add: drain_uid_def)

lemma subtract_gives_desired_selected:
  assumes "set_inv s" and "set_inv d"
  shows "fold set_remove (filter (\<lambda>uid. \<not> set_contains d uid) (fold set_insert d s)) (fold set_insert d s) = d"
  using assms
  by (intro set_inv_ext)
    (auto simp: bset.fold_del_inv bset.fold_ins_inv bset.fold_del_elems bset.fold_ins_elems
      set_contains_def)

lemma subtract_gives_committed_draining:
  assumes "set_inv s" and "set_inv d" and "set_inv r"
  shows "fold set_insert (filter (\<lambda>uid. \<not> set_contains d uid) (fold set_insert d s)) (fold set_remove d r) =
    fold set_remove d (set_extend r (set_difference s d))"
  using assms
  by (intro set_inv_ext)
    (auto simp: bset.fold_del_inv bset.fold_ins_inv bset.fold_del_elems bset.fold_ins_elems
      set_contains_def)

text \<open>
  C20: the add-then-subtract order starts from the old epoch, passes through seven visible windows
  and ends in exactly the epoch that an epoch commit publishes, for every pair of well-formed
  epochs: the two protocols differ only in what is visible in between.
\<close>

theorem add_then_subtract_ends_committed:
  assumes "epoch_inv from" and "epoch_inv desired"
  shows "length (add_then_subtract_windows from desired) = 7 \<and>
    hd (add_then_subtract_windows from desired) = from \<and>
    last (add_then_subtract_windows from desired) = last (epoch_commit_windows from desired)"
proof -
  have "last (add_then_subtract_windows from desired) = committed from desired"
    using assms
    by (cases "from")
      (simp add: add_then_subtract_windows_def Let_def fold_add_uid fold_drain_uid committed_def
        epoch_inv_def add_prefixes_def add_self_def retain_desired_def extend_then_retain
        set_extend_then_retain subtract_gives_desired_selected subtract_gives_committed_draining)
  then show ?thesis
    by (simp add: epoch_commit_windows_def add_then_subtract_windows_def Let_def)
qed

theorem add_then_subtract_ends_committed_witness:
  "last (add_then_subtract_windows (demo_epoch [10001]) (demo_epoch [10002])) =
   committed (demo_epoch [10001]) (demo_epoch [10002])"
proof -
  have "epoch_inv (demo_epoch [10001])" "epoch_inv (demo_epoch [10002])"
    by (simp_all add: epoch_inv_demo set_inv_def)
  from add_then_subtract_ends_committed [OF this] show ?thesis by (simp add: epoch_commit_windows_def)
qed

text \<open>
  C12: under an epoch commit every window a new flow can meet decides every flow as the old epoch or
  as the desired epoch does; under the add-then-subtract order this fails: there are well-formed
  epochs, a UID and a destination for which both endpoints decide alike and a window in between
  decides the opposite.
\<close>

theorem epoch_commit_has_no_third_state:
  "(\<forall>from desired. list_all
      (\<lambda>w. observe_new_flow w = observe_new_flow from \<or> observe_new_flow w = observe_new_flow desired)
      (epoch_commit_windows from desired)) \<and>
   (\<exists>from desired uid d. epoch_inv from \<and> epoch_inv desired \<and>
      observe_new_flow from uid d = Direct \<and> observe_new_flow desired uid d = Direct \<and>
      (\<exists>w\<in>set (add_then_subtract_windows from desired). observe_new_flow w uid d = Captured))"
proof
  show "\<forall>from desired. list_all
      (\<lambda>w. observe_new_flow w = observe_new_flow from \<or> observe_new_flow w = observe_new_flow desired)
      (epoch_commit_windows from desired)"
    by (auto simp: epoch_commit_windows_def observe_committed)
  let ?from = "epoch_new Cidr_Blacklist"
  let ?desired = "(epoch_new Cidr_Blacklist)\<lparr>selected := [10001], self_v4 := [0x01020304]\<rparr>"
  have "epoch_inv ?from" "epoch_inv ?desired"
    by (simp_all add: epoch_inv_def epoch_new_def set_inv_def)
  moreover have "observe_new_flow ?from 10001 (V4 0x01020304) = Direct"
    "observe_new_flow ?desired 10001 (V4 0x01020304) = Direct"
    by (simp_all add: observe_new_flow_def epoch_new_def set_contains_def)
  moreover have "observe_new_flow (add_then_subtract_windows ?from ?desired ! 1) 10001 (V4 0x01020304) = Captured"
    by (simp add: add_then_subtract_windows_def Let_def observe_new_flow_def epoch_new_def
        set_contains_def add_uid_def lpm_v4_def set_remove_def)
  moreover have "add_then_subtract_windows ?from ?desired ! 1 \<in> set (add_then_subtract_windows ?from ?desired)"
    by (simp add: add_then_subtract_windows_def Let_def)
  ultimately show "\<exists>from desired uid d. epoch_inv from \<and> epoch_inv desired \<and>
      observe_new_flow from uid d = Direct \<and> observe_new_flow desired uid d = Direct \<and>
      (\<exists>w\<in>set (add_then_subtract_windows from desired). observe_new_flow w uid d = Captured)"
    by blast
qed

section \<open>Occupancy\<close>

lemma length_map_extend:
  assumes "map_inv m" and "map_inv n"
  shows "length (map_extend m n) = length m + length n - card (fst ` set m \<inter> fst ` set n)"
proof -
  have len: "map_inv x \<Longrightarrow> length x = card (fst ` set x)" for x :: "('a, 'b) btree_map"
    using map_inv_distinct [of x] distinct_card [of "map fst x"] by simp
  have "length (map_extend m n) = card (fst ` set m \<union> fst ` set n)"
    using len [of "map_extend m n"] assms by simp
  also have "\<dots> = length m + length n - card (fst ` set m \<inter> fst ` set n)"
    using card_Un_Int [of "fst ` set m" "fst ` set n"] len assms by simp
  finally show ?thesis .
qed

text \<open>
  \<open>add_then_subtract_peak_lpm\<close> is the number of live IPv4 prefixes after the additive phase of
  the add-then-subtract order, with the prefixes both epochs share counted once, and it is never
  below the peak of an epoch commit.
\<close>

lemma peak_lpm_is_exact:
  assumes "epoch_inv from" and "epoch_inv desired"
  defines "shared \<equiv> card (fst ` set (bypass_v4 from) \<inter> fst ` set (bypass_v4 desired))"
  shows "length (bypass_v4 (add_then_subtract_windows from desired ! 2)) =
      add_then_subtract_peak_lpm (length (bypass_v4 from)) (length (bypass_v4 desired)) shared \<and>
    epoch_peak_live_lpm (length (bypass_v4 from)) (length (bypass_v4 desired))
      \<le> add_then_subtract_peak_lpm (length (bypass_v4 from)) (length (bypass_v4 desired)) shared"
proof -
  have inv: "map_inv (bypass_v4 from)" "map_inv (bypass_v4 desired)"
    using assms(1,2) by (simp_all add: epoch_inv_def)
  have "shared \<le> card (fst ` set (bypass_v4 from))" "shared \<le> card (fst ` set (bypass_v4 desired))"
    unfolding shared_def by (simp_all add: card_mono)
  then have "shared \<le> length (bypass_v4 from)" "shared \<le> length (bypass_v4 desired)"
    using inv map_inv_distinct distinct_card by (metis length_map set_map)+
  then show ?thesis
    using length_map_extend [OF inv]
    by (auto simp: add_then_subtract_windows_def Let_def fold_add_uid add_prefixes_def
        add_then_subtract_peak_lpm_def epoch_peak_live_lpm_def shared_def)
qed

end
