(* ===== verification/Parse_Bounds.thy ===== *)
theory Parse_Bounds
  imports Flux_Prelude
begin

text \<open>
  Length arithmetic of the packet parser, crates/flux-core/src/parse_bounds.rs, over 32-bit words,
  with its exact meaning over the integers.
\<close>

definition header_fits :: "u32 \<Rightarrow> u32 \<Rightarrow> u32 \<Rightarrow> u32 \<Rightarrow> bool" where
  "header_fits start len l3_end data_end =
    (case checked_add start len of
       Some e \<Rightarrow> e \<le> l3_end \<and> e \<le> data_end
     | None \<Rightarrow> False)"

definition ipv4_length_ok :: "u32 \<Rightarrow> u32 \<Rightarrow> u32 \<Rightarrow> u32 \<Rightarrow> bool" where
  "ipv4_length_ok nh_off tot_len ihl_bytes skb_len \<longleftrightarrow>
    tot_len \<ge> ihl_bytes \<and> saturating_add nh_off tot_len \<le> skb_len"

definition ipv6_length_ok :: "u32 \<Rightarrow> u32 \<Rightarrow> u32 \<Rightarrow> bool" where
  "ipv6_length_ok nh_off payload_len skb_len \<longleftrightarrow>
    payload_len \<noteq> 0 \<and> saturating_add (saturating_add nh_off 40) payload_len \<le> skb_len"

lemma header_fits_exact:
  "header_fits s l e d \<longleftrightarrow> unat s + unat l \<le> unat e \<and> unat s + unat l \<le> unat d"
proof (cases "unat s + unat l < 2 ^ 32")
  case True
  then show ?thesis
    by (simp add: header_fits_def checked_add_def word_le_nat_alt unat_add_small)
next
  case False
  then show ?thesis
    using unsigned_less [of e, where ?'a = nat] by (simp add: header_fits_def checked_add_def)
qed

lemma ipv4_length_exact:
  "ipv4_length_ok nh tot ihl skb \<longleftrightarrow>
    unat ihl \<le> unat tot \<and> (unat nh + unat tot \<le> unat skb \<or> skb = - 1)"
proof -
  have "unat skb < 2 ^ 32" using unsigned_less [of skb, where ?'a = nat] by simp
  moreover have "skb = - 1 \<longleftrightarrow> unat skb = 2 ^ 32 - 1"
    using unat_minus_one_max [where ?'a = 32] by (simp add: word_unat_eq_iff)
  ultimately show ?thesis
    by (auto simp: ipv4_length_ok_def word_le_nat_alt unat_saturating_add min_def)
qed

lemma ipv6_length_exact:
  "ipv6_length_ok nh payload skb \<longleftrightarrow>
    payload \<noteq> 0 \<and> (unat nh + 40 + unat payload \<le> unat skb \<or> skb = - 1)"
proof -
  have "unat skb < 2 ^ 32" using unsigned_less [of skb, where ?'a = nat] by simp
  moreover have "skb = - 1 \<longleftrightarrow> unat skb = 2 ^ 32 - 1"
    using unat_minus_one_max [where ?'a = 32] by (simp add: word_unat_eq_iff)
  moreover have "payload \<noteq> 0 \<longleftrightarrow> unat payload \<noteq> 0" by (simp add: word_unat_eq_iff)
  ultimately show ?thesis
    by (auto simp: ipv6_length_ok_def word_le_nat_alt unat_saturating_add min_def)
qed

text \<open>
  C27: over the integers, a header fits exactly when its end is inside both bounds, and a packet
  length is accepted exactly when it covers the header and ends inside the buffer; the saturating
  additions differ from this only for a buffer of the largest 32-bit length, where they accept every
  length.
\<close>

theorem length_checks_exact:
  "(header_fits s l e d \<longleftrightarrow> unat s + unat l \<le> min (unat e) (unat d)) \<and>
   (ipv4_length_ok nh tot ihl skb \<longleftrightarrow>
      unat ihl \<le> unat tot \<and> (unat nh + unat tot \<le> unat skb \<or> skb = - 1)) \<and>
   (ipv6_length_ok nh payload skb \<longleftrightarrow>
      payload \<noteq> 0 \<and> (unat nh + 40 + unat payload \<le> unat skb \<or> skb = - 1))"
  using header_fits_exact ipv4_length_exact ipv6_length_exact by simp

end
