(* ===== verification/Selector.thy ===== *)
theory Selector
  imports Abi Std_Text BTree_Model "HOL-Library.List_Lexorder" "HOL-Library.Char_ord"
begin

text \<open>
  Application selectors, crates/flux-core/src/selector.rs: parsing \<open>userId:packageName\<close>, composing
  and splitting Android UIDs, the index of packages.list and the resolution of a selector against
  it. Package names are ordered by their bytes.
\<close>

section \<open>Selectors and UIDs\<close>

datatype selector_error =
    Sel_Malformed string
  | UserIdOutOfRange u32
  | AppIdOutOfRange u32
  | UnknownPackage string

record selection =
  sel_user_id :: u32
  sel_package :: string
  sel_uid :: u32

record app_selector =
  as_user_id :: u32
  as_package :: string

definition app_selector_parse :: "string \<Rightarrow> selector_error + app_selector" where
  "app_selector_parse t =
    (let trimmed = trim t
     in if trimmed = [] then Err (Sel_Malformed t)
        else
          and_then
            (case split_once CHR '':'' trimmed of
               Some (user, package) \<Rightarrow>
                 (case parse_uint user of
                    None \<Rightarrow> Err (Sel_Malformed t)
                  | Some user_id \<Rightarrow> Ok (user_id, package))
             | None \<Rightarrow> Ok (0, trimmed))
            (\<lambda>(user_id, package).
               if package = [] \<or> contains_str package '':'' then Err (Sel_Malformed t)
               else if user_id > USER_ID_MAX then Err (UserIdOutOfRange user_id)
               else Ok \<lparr>as_user_id = user_id, as_package = package\<rparr>))"

definition selector_canonical :: "app_selector \<Rightarrow> string" where
  "selector_canonical s = dec (unat (as_user_id s)) @ '':'' @ as_package s"

definition compose_uid :: "u32 \<Rightarrow> u32 \<Rightarrow> selector_error + u32" where
  "compose_uid user_id app_id =
    (if user_id > USER_ID_MAX then Err (UserIdOutOfRange user_id)
     else if app_id = 0 \<or> app_id \<ge> USER_ID_STRIDE then Err (AppIdOutOfRange app_id)
     else Ok (user_id * USER_ID_STRIDE + app_id))"

definition is_system_app_id :: "u32 \<Rightarrow> bool" where
  "is_system_app_id app_id \<longleftrightarrow> \<not> (APP_ID_MIN \<le> app_id \<and> app_id \<le> APP_ID_MAX)"

definition decompose_uid :: "u32 \<Rightarrow> u32 \<times> u32" where
  "decompose_uid uid = (uid div USER_ID_STRIDE, uid mod USER_ID_STRIDE)"

section \<open>The package index\<close>

record package_index =
  by_package :: "(string, u32) btree_map"
  by_app_id :: "(u32, string list) btree_map"

definition push_package :: "string \<Rightarrow> string list \<Rightarrow> string list" where
  "push_package package bucket =
    (if list_ex (\<lambda>p. p = package) bucket then bucket else bucket @ [package])"

definition index_line :: "string \<Rightarrow> package_index \<Rightarrow> package_index" where
  "index_line line idx =
    (case split_whitespace line of
       package # f # _ \<Rightarrow>
         (case parse_uint f of
            None \<Rightarrow> idx
          | Some (uid :: u32) \<Rightarrow>
              (let app_id = uid mod USER_ID_STRIDE;
                   bucket = (case map_get (by_app_id idx) app_id of None \<Rightarrow> [] | Some b \<Rightarrow> b)
               in \<lparr>by_package = map_insert package app_id (by_package idx),
                   by_app_id = map_insert app_id (push_package package bucket) (by_app_id idx)\<rparr>))
     | _ \<Rightarrow> idx)"

definition index_empty :: package_index where
  "index_empty = \<lparr>by_package = [], by_app_id = []\<rparr>"

definition package_index_parse :: "string \<Rightarrow> package_index" where
  "package_index_parse t =
    (let idx = fold index_line (lines t) index_empty
     in idx\<lparr>by_app_id := map (\<lambda>(k, bucket). (k, sort bucket)) (by_app_id idx)\<rparr>)"

definition index_app_id :: "package_index \<Rightarrow> string \<Rightarrow> u32 option" where
  "index_app_id idx package = map_get (by_package idx) package"

definition shared_with :: "package_index \<Rightarrow> u32 \<Rightarrow> string list" where
  "shared_with idx app_id = (case map_get (by_app_id idx) app_id of None \<Rightarrow> [] | Some v \<Rightarrow> v)"

definition application_ids :: "package_index \<Rightarrow> u32 list" where
  "application_ids idx =
    filter (\<lambda>app_id. APP_ID_MIN \<le> app_id \<and> app_id \<le> APP_ID_MAX) (map_keys (by_app_id idx))"

definition resolve :: "package_index \<Rightarrow> app_selector \<Rightarrow> selector_error + selection" where
  "resolve idx selector =
    and_then (ok_or (UnknownPackage (as_package selector)) (index_app_id idx (as_package selector)))
      (\<lambda>app_id. and_then (compose_uid (as_user_id selector) app_id)
        (\<lambda>uid. Ok \<lparr>sel_user_id = as_user_id selector, sel_package = as_package selector,
                    sel_uid = uid\<rparr>))"

section \<open>UIDs\<close>

lemmas uid_limits = USER_ID_STRIDE_def USER_ID_MAX_def APP_ID_MIN_def APP_ID_MAX_def

lemma compose_uid_Ok:
  assumes "compose_uid user app = Ok uid"
  shows "unat user \<le> 999" and "0 < unat app" and "unat app < 100000"
    and "unat uid = unat user * 100000 + unat app"
proof -
  show u: "unat user \<le> 999" and a: "0 < unat app" "unat app < 100000"
    using assms
    by (auto simp: compose_uid_def uid_limits word_less_nat_alt word_le_nat_alt word_unat_eq_iff
        not_less split: if_splits)
  have "uid = user * 100000 + app"
    using assms by (simp add: compose_uid_def uid_limits split: if_splits)
  moreover have mult: "unat (user * 100000) = unat user * 100000"
    using u by (subst unat_mult_small) simp_all
  ultimately show "unat uid = unat user * 100000 + unat app"
    using u a by (simp add: unat_add_small)
qed

lemma decompose_compose:
  assumes "compose_uid user app = Ok uid"
  shows "decompose_uid uid = (user, app)"
  using compose_uid_Ok [OF assms]
  by (simp add: decompose_uid_def uid_limits word_unat_eq_iff unat_div_distrib unat_mod_distrib)

lemma compose_uid_defined:
  "(\<exists>uid. compose_uid user app = Ok uid) \<longleftrightarrow> user \<le> USER_ID_MAX \<and> app \<noteq> 0 \<and> app < USER_ID_STRIDE"
  by (auto simp: compose_uid_def not_less not_le)

text \<open>
  Composing a UID succeeds exactly for a user id in range and a non-zero app id within one
  user's stride; the result never wraps, is never root, lies below 100 million, and splits back into
  the user and the app id, so no two selections collide.
\<close>

theorem compose_uid_round_trip:
  "(compose_uid user app = Ok uid \<longrightarrow>
      decompose_uid uid = (user, app) \<and> uid \<noteq> 0 \<and> unat uid = unat user * 100000 + unat app \<and>
      uid < 100000000) \<and>
   ((\<exists>uid. compose_uid user app = Ok uid) \<longleftrightarrow>
      user \<le> USER_ID_MAX \<and> app \<noteq> 0 \<and> app < USER_ID_STRIDE)"
proof (intro conjI impI)
  assume c: "compose_uid user app = Ok uid"
  note b = compose_uid_Ok [OF c]
  show "decompose_uid uid = (user, app)" by (rule decompose_compose [OF c])
  show "unat uid = unat user * 100000 + unat app" by (rule b(4))
  show "uid \<noteq> 0" using b by (auto simp: word_unat_eq_iff)
  show "uid < 100000000" using b by (simp add: word_less_nat_alt)
qed (rule compose_uid_defined)

theorem compose_uid_round_trip_witness:
  "decompose_uid 1010123 = (10, 10123) \<and> compose_uid 10 10123 = Ok 1010123"
  using compose_uid_round_trip [of 10 10123 1010123] by (simp add: compose_uid_def uid_limits)

section \<open>The index is consistent\<close>

definition index_inv :: "package_index \<Rightarrow> bool" where
  "index_inv idx \<longleftrightarrow>
    map_inv (by_package idx) \<and> map_inv (by_app_id idx) \<and>
    (\<forall>p a. map_get (by_package idx) p = Some a \<longrightarrow>
       a < USER_ID_STRIDE \<and> (\<exists>b. map_get (by_app_id idx) a = Some b \<and> p \<in> set b)) \<and>
    (\<forall>a b. map_get (by_app_id idx) a = Some b \<longrightarrow> a < USER_ID_STRIDE \<and> b \<noteq> [] \<and> distinct b)"

lemma push_package_set [simp]: "set (push_package p b) = insert p (set b)"
  by (auto simp: push_package_def list_ex_iff)

lemma push_package_distinct [simp]: "distinct b \<Longrightarrow> distinct (push_package p b)"
  by (auto simp: push_package_def list_ex_iff)

lemma mod_stride_less: "(uid :: u32) mod USER_ID_STRIDE < USER_ID_STRIDE"
  by (simp add: USER_ID_STRIDE_def word_less_nat_alt unat_mod_distrib)

lemma index_inv_empty: "index_inv index_empty"
  by (simp add: index_inv_def index_empty_def)

lemma index_inv_line: "index_inv idx \<Longrightarrow> index_inv (index_line line idx)"
proof -
  assume inv: "index_inv idx"
  have "index_inv \<lparr>by_package = map_insert p (uid mod USER_ID_STRIDE) (by_package idx),
      by_app_id = map_insert (uid mod USER_ID_STRIDE)
        (push_package p (case map_get (by_app_id idx) (uid mod USER_ID_STRIDE) of None \<Rightarrow> [] | Some b \<Rightarrow> b))
        (by_app_id idx)\<rparr>" for p and uid :: u32
    using inv mod_stride_less [of uid]
    by (fastforce simp: index_inv_def push_package_def list_ex_iff split: option.splits)
  then show ?thesis
    using inv by (auto simp: index_line_def Let_def split: list.splits option.splits)
qed

lemma index_inv_lines: "index_inv idx \<Longrightarrow> index_inv (fold index_line ls idx)"
  by (induction ls arbitrary: idx) (auto simp: index_inv_line)

lemma map_get_map_snd: "map_get (map (\<lambda>(k, v). (k, f v)) m) k = map_option f (map_get m k)"
  by (induction m) (auto simp: map_get_def)

lemma map_inv_map_snd: "map_inv (map (\<lambda>(k, v). (k, f v)) m) = map_inv m"
proof -
  have "map fst (map (\<lambda>(k, v). (k, f v)) m) = map fst m" by (induction m) auto
  then show ?thesis by (simp only: map_inv_def)
qed

lemma sort_eq_Nil [simp]: "sort (xs :: 'a::linorder list) = [] \<longleftrightarrow> xs = []"
  by (metis length_0_conv length_sort)

lemma index_inv_parse: "index_inv (package_index_parse t)"
  using index_inv_lines [OF index_inv_empty, of "lines t"]
  by (fastforce simp: package_index_parse_def Let_def index_inv_def map_get_map_snd map_inv_map_snd)

lemma index_inv_app_id:
  assumes "index_inv idx" and "index_app_id idx p = Some a"
  shows "a < USER_ID_STRIDE \<and> p \<in> set (shared_with idx a)"
proof -
  obtain b where "a < USER_ID_STRIDE" "map_get (by_app_id idx) a = Some b" "p \<in> set b"
    using assms unfolding index_inv_def index_app_id_def by blast
  then show ?thesis by (simp add: shared_with_def)
qed

lemma shared_with_parse: "sorted (shared_with (package_index_parse t) a) \<and> distinct (shared_with (package_index_parse t) a)"
proof -
  have "distinct (shared_with (package_index_parse t) a)"
    using index_inv_parse [of t] by (auto simp: shared_with_def index_inv_def split: option.splits)
  moreover have "sorted (shared_with (package_index_parse t) a)"
    by (auto simp: shared_with_def package_index_parse_def Let_def map_get_map_snd split: option.splits)
  ultimately show ?thesis by simp
qed

text \<open>
  Every text indexes to a consistent package index: the app id of a package is within one user's
  stride and the package is in the sorted, duplicate-free list of packages sharing that id; what
  blacklist mode expands are ascending, distinct ids inside the application range.
\<close>

theorem package_index_consistent:
  "(\<forall>p a. index_app_id (package_index_parse t) p = Some a \<longrightarrow>
      a < USER_ID_STRIDE \<and> p \<in> set (shared_with (package_index_parse t) a)) \<and>
   sorted (shared_with (package_index_parse t) i) \<and> distinct (shared_with (package_index_parse t) i) \<and>
   sorted_wrt (<) (application_ids (package_index_parse t)) \<and>
   (\<forall>a\<in>set (application_ids (package_index_parse t)).
      APP_ID_MIN \<le> a \<and> a \<le> APP_ID_MAX \<and> shared_with (package_index_parse t) a \<noteq> [])"
proof -
  have inv: "index_inv (package_index_parse t)" by (rule index_inv_parse)
  have "sorted_wrt (<) (application_ids (package_index_parse t))"
    using inv by (simp add: application_ids_def map_keys_def index_inv_def map_inv_def sorted_wrt_filter)
  moreover have "shared_with (package_index_parse t) a \<noteq> []" if "a \<in> set (application_ids (package_index_parse t))" for a
  proof -
    have "map_get (by_app_id (package_index_parse t)) a \<noteq> None"
      using that by (auto simp: application_ids_def map_keys_def map_get_None_iff)
    then show ?thesis using inv by (auto simp: shared_with_def index_inv_def)
  qed
  ultimately show ?thesis
    using index_inv_app_id [OF inv] shared_with_parse [of t i] by (auto simp: application_ids_def)
qed

theorem package_index_consistent_witness:
  "''com.a'' \<in> set (shared_with (package_index_parse ''com.a 10050 0'') 10050)"
proof -
  have "index_app_id (package_index_parse ''com.a 10050 0'') ''com.a'' = Some 10050" by code_simp
  then show ?thesis using package_index_consistent [of "''com.a 10050 0''" 0] by blast
qed

text \<open>
  C23: a resolved selection names the selector's user and package, and its UID splits into that user
  and the app id that packages.list gives the package; it is never root. Resolution fails exactly
  when the package is unknown, the user id is out of range or the app id is zero.
\<close>

theorem resolve_sound_and_complete:
  "(resolve (package_index_parse t) sel = Ok s \<longrightarrow>
      sel_user_id s = as_user_id sel \<and> sel_package s = as_package sel \<and> sel_uid s \<noteq> 0 \<and>
      (\<exists>a. index_app_id (package_index_parse t) (as_package sel) = Some a \<and>
           decompose_uid (sel_uid s) = (as_user_id sel, a))) \<and>
   ((\<exists>s. resolve (package_index_parse t) sel = Ok s) \<longleftrightarrow>
      as_user_id sel \<le> USER_ID_MAX \<and>
      (\<exists>a. index_app_id (package_index_parse t) (as_package sel) = Some a \<and> a \<noteq> 0))"
proof (intro conjI impI)
  let ?idx = "package_index_parse t"
  assume "resolve ?idx sel = Ok s"
  then obtain a where a: "index_app_id ?idx (as_package sel) = Some a"
    and c: "compose_uid (as_user_id sel) a = Ok (sel_uid s)"
    and s: "sel_user_id s = as_user_id sel" "sel_package s = as_package sel"
    by (auto simp: resolve_def result_Ok_iffs)
  show "sel_user_id s = as_user_id sel" "sel_package s = as_package sel" using s by simp_all
  show "sel_uid s \<noteq> 0" using compose_uid_Ok [OF c] by (auto simp: word_unat_eq_iff)
  show "\<exists>a. index_app_id ?idx (as_package sel) = Some a \<and> decompose_uid (sel_uid s) = (as_user_id sel, a)"
    using a decompose_compose [OF c] by blast
next
  let ?idx = "package_index_parse t"
  have "a < USER_ID_STRIDE" if "index_app_id ?idx (as_package sel) = Some a" for a
    using index_inv_app_id [OF index_inv_parse that] by simp
  then show "(\<exists>s. resolve ?idx sel = Ok s) \<longleftrightarrow>
      as_user_id sel \<le> USER_ID_MAX \<and> (\<exists>a. index_app_id ?idx (as_package sel) = Some a \<and> a \<noteq> 0)"
    using compose_uid_defined [of "as_user_id sel"] by (auto simp: resolve_def result_Ok_iffs)
qed

theorem resolve_sound_and_complete_witness:
  "\<exists>s. resolve (package_index_parse ''com.a 10050 0'') \<lparr>as_user_id = 10, as_package = ''com.a''\<rparr> = Ok s"
proof -
  have "index_app_id (package_index_parse ''com.a 10050 0'') ''com.a'' = Some 10050" by code_simp
  then show ?thesis
    using resolve_sound_and_complete [of "''com.a 10050 0''" "\<lparr>as_user_id = 10, as_package = ''com.a''\<rparr>"]
    by (simp add: USER_ID_MAX_def)
qed

end
