(* ===== verification/Version.thy ===== *)
theory Version
  imports Std_Text "HOL-Library.Product_Lexorder"
begin

text \<open>
  Versions and module metadata, crates/flux-core/src/version.rs: the canonical version grammar, the
  monotonic \<open>versionCode\<close>, artifact names, the \<open>module.prop\<close> body and its live description line.
\<close>

section \<open>Definitions\<close>

definition MODULE_ID :: string where "MODULE_ID = ''Flux-rs''"
definition MODULE_NAME :: string where "MODULE_NAME = ''Flux-rs''"
definition MODULE_AUTHOR :: string where "MODULE_AUTHOR = ''Flux-rs contributors''"
definition MODULE_DESCRIPTION :: string where
  "MODULE_DESCRIPTION = ''Seamlessly redirect your network Flux.''"

record version =
  major :: u32
  minor :: u32
  patch :: u32
  release_candidate :: "u32 option"

definition opt_bind :: "'a option \<Rightarrow> ('a \<Rightarrow> 'b option) \<Rightarrow> 'b option" where
  "opt_bind x f = (case x of None \<Rightarrow> None | Some y \<Rightarrow> f y)"

definition version_code :: "version \<Rightarrow> u32 option" where
  "version_code v =
    (if minor v > 99 \<or> patch v > 99 \<or> (case release_candidate v of None \<Rightarrow> False | Some n \<Rightarrow> n > 998)
     then None
     else
       opt_bind (checked_mul (major v) 100) (\<lambda>c.
       opt_bind (checked_add c (minor v)) (\<lambda>c.
       opt_bind (checked_mul c 100) (\<lambda>c.
       opt_bind (checked_add c (patch v)) (\<lambda>c.
       opt_bind (checked_mul c 1000) (\<lambda>c.
       opt_bind (checked_add c (case release_candidate v of None \<Rightarrow> 999 | Some n \<Rightarrow> n)) (\<lambda>code.
         if code \<le> 0x7FFFFFFF then Some code else None)))))))"

definition version_code_triple :: "u32 \<Rightarrow> u32 \<Rightarrow> u32 \<Rightarrow> u32 option" where
  "version_code_triple ma mi pa =
    version_code \<lparr>major = ma, minor = mi, patch = pa, release_candidate = None\<rparr>"

definition canonical_number :: "string \<Rightarrow> u32 option" where
  "canonical_number t =
    (if t = [] \<or> (length t > 1 \<and> starts_with t ''0'') \<or> \<not> list_all is_ascii_digit t then None
     else parse_uint t)"

definition parse_version :: "string \<Rightarrow> version option" where
  "parse_version t =
    opt_bind
      (case split_once_str ''-rc.'' t of
         Some (triple, candidate) \<Rightarrow>
           opt_bind (canonical_number candidate) (\<lambda>n. Some (triple, Some n))
       | None \<Rightarrow> Some (t, None))
      (\<lambda>(triple, rc).
        case split_on CHR ''.'' triple of
          a # b # c # rest \<Rightarrow>
            opt_bind (canonical_number a) (\<lambda>ma.
            opt_bind (canonical_number b) (\<lambda>mi.
            opt_bind (canonical_number c) (\<lambda>pa.
              if rest \<noteq> [] then None
              else
                let v = \<lparr>major = ma, minor = mi, patch = pa, release_candidate = rc\<rparr>
                in opt_bind (version_code v) (\<lambda>_. Some v))))
        | _ \<Rightarrow> None)"

definition parse_triple :: "string \<Rightarrow> (u32 \<times> u32 \<times> u32) option" where
  "parse_triple t =
    opt_bind (parse_version t) (\<lambda>v.
      if release_candidate v = None then Some (major v, minor v, patch v) else None)"

definition version_tag :: "string \<Rightarrow> string" where
  "version_tag v = ''v'' @ v"

definition artifact_name :: "string \<Rightarrow> string" where
  "artifact_name v = MODULE_NAME @ ''-'' @ version_tag v @ ''-arm64.zip''"

definition is_lower_hex :: "char \<Rightarrow> bool" where
  "is_lower_hex c \<longleftrightarrow> is_ascii_digit c \<or> (97 \<le> (of_char c :: nat) \<and> (of_char c :: nat) \<le> 102)"

definition development_artifact_name :: "string \<Rightarrow> string \<Rightarrow> bool \<Rightarrow> string option" where
  "development_artifact_name v revision dirty =
    opt_bind (parse_version v) (\<lambda>_.
      if \<not> (7 \<le> length revision \<and> length revision \<le> 64) \<or> \<not> list_all is_lower_hex revision then None
      else Some (MODULE_NAME @ ''-'' @ version_tag v @ ''-g'' @ revision
                 @ (if dirty then ''-dirty'' else []) @ ''-arm64.zip''))"

definition module_prop :: "string \<Rightarrow> string option" where
  "module_prop v =
    opt_bind (parse_version v) (\<lambda>ver.
    opt_bind (version_code ver) (\<lambda>code.
      Some (''id='' @ MODULE_ID @ [newline] @ ''name='' @ MODULE_NAME @ [newline]
            @ ''version='' @ version_tag v @ [newline] @ ''versionCode='' @ dec (unat code) @ [newline]
            @ ''author='' @ MODULE_AUTHOR @ [newline]
            @ ''description='' @ MODULE_DESCRIPTION @ [newline])))"

definition DESCRIPTION_BREAK :: string where
  "DESCRIPTION_BREAK = [CHR 0x5C, CHR ''n'']"

definition description_base :: "string \<Rightarrow> string option" where
  "description_base prop =
    opt_bind (find_map (\<lambda>line. strip_prefix ''description='' line) (lines prop)) (\<lambda>line.
      Some (trim (case split_once_str DESCRIPTION_BREAK line of
                    Some (before, _) \<Rightarrow> before
                  | None \<Rightarrow> line)))"

fun rewrite_lines :: "string \<Rightarrow> bool \<Rightarrow> string \<Rightarrow> string list \<Rightarrow> string \<times> bool" where
  "rewrite_lines rendered replaced out [] = (out, replaced)"
| "rewrite_lines rendered replaced out (line # ls) =
    (if starts_with line ''description='' \<and> \<not> replaced
     then rewrite_lines rendered True (out @ rendered @ [newline]) ls
     else rewrite_lines rendered replaced (out @ line @ [newline]) ls)"

definition status_base :: "string \<Rightarrow> string" where
  "status_base prop =
    (let base = (case description_base prop of None \<Rightarrow> MODULE_DESCRIPTION | Some b \<Rightarrow> b)
     in if base = [] then MODULE_DESCRIPTION else base)"

definition module_prop_with_status :: "string \<Rightarrow> string \<Rightarrow> string" where
  "module_prop_with_status prop status =
    (let rendered = ''description='' @ status_base prop @ DESCRIPTION_BREAK @ status;
         (out, replaced) = rewrite_lines rendered False [] (lines prop)
     in if \<not> replaced then out @ rendered @ [newline] else out)"

section \<open>Version codes\<close>

definition stage :: "version \<Rightarrow> nat" where
  "stage v = (case release_candidate v of None \<Rightarrow> 999 | Some n \<Rightarrow> unat n)"

definition in_bounds :: "version \<Rightarrow> bool" where
  "in_bounds v \<longleftrightarrow>
    unat (minor v) \<le> 99 \<and> unat (patch v) \<le> 99 \<and>
    (case release_candidate v of None \<Rightarrow> True | Some n \<Rightarrow> unat n \<le> 998)"

definition code_value :: "version \<Rightarrow> nat" where
  "code_value v = ((unat (major v) * 100 + unat (minor v)) * 100 + unat (patch v)) * 1000 + stage v"

lemma opt_bind_Some [simp]: "opt_bind (Some x) f = f x"
  by (simp add: opt_bind_def)

lemma opt_bind_None [simp]: "opt_bind None f = None"
  by (simp add: opt_bind_def)

lemma opt_bind_eq_Some: "opt_bind x f = Some y \<longleftrightarrow> (\<exists>z. x = Some z \<and> f z = Some y)"
  by (cases x) auto

lemma stage_word: "unat (case release_candidate v of None \<Rightarrow> 999 | Some n \<Rightarrow> (n :: u32)) = stage v"
  by (auto simp: stage_def split: option.splits)

lemma version_code_Some:
  "version_code v = Some c \<longleftrightarrow> in_bounds v \<and> code_value v \<le> 0x7FFFFFFF \<and> unat c = code_value v"
proof (cases "in_bounds v")
  case True
  then have guard: "\<not> (minor v > 99 \<or> patch v > 99 \<or>
      (case release_candidate v of None \<Rightarrow> False | Some n \<Rightarrow> n > 998))"
    by (auto simp: in_bounds_def word_less_nat_alt split: option.splits)
  have "code_value v \<le> 0x7FFFFFFF \<and> unat c = code_value v" if "version_code v = Some c"
    using that unfolding version_code_def if_not_P [OF guard]
    by (auto simp: opt_bind_eq_Some checked_add_eq_Some checked_mul_eq_Some word_le_nat_alt
        code_value_def stage_word split: if_splits)
  moreover have "version_code v = Some c" if h: "code_value v \<le> 0x7FFFFFFF" "unat c = code_value v"
  proof -
    note fits = h(1) [unfolded code_value_def]
    obtain c1 where c1: "checked_mul (major v) 100 = Some c1" "unat c1 = unat (major v) * 100"
      using checked_mul_fits [of "major v" 100] fits by auto
    obtain c2 where c2: "checked_add c1 (minor v) = Some c2" "unat c2 = unat c1 + unat (minor v)"
      using checked_add_fits [of c1 "minor v"] c1 fits by auto
    obtain c3 where c3: "checked_mul c2 100 = Some c3" "unat c3 = unat c2 * 100"
      using checked_mul_fits [of c2 100] c1 c2 fits by auto
    obtain c4 where c4: "checked_add c3 (patch v) = Some c4" "unat c4 = unat c3 + unat (patch v)"
      using checked_add_fits [of c3 "patch v"] c1 c2 c3 fits by auto
    obtain c5 where c5: "checked_mul c4 1000 = Some c5" "unat c5 = unat c4 * 1000"
      using checked_mul_fits [of c4 1000] c1 c2 c3 c4 fits by auto
    let ?rc = "case release_candidate v of None \<Rightarrow> 999 | Some n \<Rightarrow> n"
    obtain c6 where c6: "checked_add c5 ?rc = Some c6" "unat c6 = unat c5 + stage v"
      using checked_add_fits [of c5 ?rc] c1 c2 c3 c4 c5 fits by (auto simp: stage_word)
    have "unat c6 = code_value v" using c1 c2 c3 c4 c5 c6 by (simp add: code_value_def)
    then have "c6 = c" "c6 \<le> 0x7FFFFFFF" using h by (simp_all add: word_unat_eq_iff word_le_nat_alt)
    then show ?thesis
      unfolding version_code_def if_not_P [OF guard] using c1 c2 c3 c4 c5 c6 by simp
  qed
  ultimately show ?thesis using True by blast
next
  case False
  then have "version_code v = None"
    by (auto simp: version_code_def in_bounds_def word_less_nat_alt split: option.splits)
  then show ?thesis using False by simp
qed

text \<open>Positional numerals with bounded digits compare lexicographically.\<close>

lemma positional_less_iff:
  fixes a b c d :: nat
  assumes "b < 100" "b' < 100" "c < 100" "c' < 100" "d < 1000" "d' < 1000"
  shows "((a * 100 + b) * 100 + c) * 1000 + d < ((a' * 100 + b') * 100 + c') * 1000 + d' \<longleftrightarrow>
    a < a' \<or> a = a' \<and> (b < b' \<or> b = b' \<and> (c < c' \<or> c = c' \<and> d < d'))"
proof (cases a a' rule: linorder_cases)
  case equal
  show ?thesis
  proof (cases b b' rule: linorder_cases)
    case equal
    with \<open>a = a'\<close> show ?thesis using assms by (cases c c' rule: linorder_cases) auto
  qed (use assms \<open>a = a'\<close> in auto)
qed (use assms in auto)

lemma stage_bound: "in_bounds v \<Longrightarrow> stage v < 1000"
  by (auto simp: in_bounds_def stage_def split: option.splits)

lemma code_value_less_iff:
  assumes "in_bounds v" and "in_bounds w"
  shows "code_value v < code_value w \<longleftrightarrow>
    (unat (major v), unat (minor v), unat (patch v), stage v)
      < (unat (major w), unat (minor w), unat (patch w), stage w)"
proof -
  have b: "unat (minor v) < 100" "unat (minor w) < 100" "unat (patch v) < 100"
    "unat (patch w) < 100" "stage v < 1000" "stage w < 1000"
    using assms stage_bound by (auto simp: in_bounds_def)
  show ?thesis unfolding code_value_def positional_less_iff [OF b] by auto
qed

text \<open>
  A version has a code exactly when its components are in bounds and the encoding fits a signed
  32-bit integer; codes order versions lexicographically by major, minor, patch and stage, with a
  final release after every candidate of the same triple.
\<close>

theorem version_code_monotone:
  assumes "version_code v = Some c" and "version_code w = Some d"
  shows "(c < d \<longleftrightarrow>
      (unat (major v), unat (minor v), unat (patch v), stage v)
        < (unat (major w), unat (minor w), unat (patch w), stage w)) \<and>
    c \<le> 0x7FFFFFFF"
  using assms code_value_less_iff [of v w]
  by (simp add: version_code_Some word_less_nat_alt word_le_nat_alt)

theorem version_code_monotone_witness:
  "(900004 :: u32) < 900999 \<and>
   version_code \<lparr>major = 0, minor = 9, patch = 0, release_candidate = Some 4\<rparr> = Some 900004"
proof -
  let ?rc = "\<lparr>major = 0, minor = 9, patch = 0, release_candidate = Some 4\<rparr>"
  let ?final = "\<lparr>major = 0, minor = 9, patch = 0, release_candidate = None\<rparr>"
  have "version_code ?rc = Some 900004" "version_code ?final = Some 900999"
    by (simp_all add: version_code_Some in_bounds_def code_value_def stage_def)
  then show ?thesis using version_code_monotone [of ?rc 900004 ?final 900999]
    by (simp add: stage_def)
qed

section \<open>The version grammar\<close>

definition version_display :: "version \<Rightarrow> string" where
  "version_display v =
    dec (unat (major v)) @ ''.'' @ dec (unat (minor v)) @ ''.'' @ dec (unat (patch v))
    @ (case release_candidate v of None \<Rightarrow> [] | Some n \<Rightarrow> ''-rc.'' @ dec (unat n))"

lemma canonical_number_dec: "canonical_number (dec (unat n)) = Some n"
proof -
  have "\<not> (length (dec (unat n)) > 1 \<and> starts_with (dec (unat n)) ''0'')"
  proof
    assume a: "length (dec (unat n)) > 1 \<and> starts_with (dec (unat n)) ''0''"
    then obtain cs where cs: "dec (unat n) = CHR ''0'' # cs"
      by (auto simp: starts_with_def strip_prefix_eq_Some)
    then have "cs \<noteq> []" using a by auto
    have v: "parse_digits 0 cs = Some (unat n)"
      using parse_digits_dec [of "unat n"] unfolding cs by (simp add: is_ascii_digit_def)
    show False using cs dec_digits_no_leading_zero [of "unat n"] \<open>cs \<noteq> []\<close> by auto
  qed
  moreover have "list_all is_ascii_digit (dec (unat n))" by (auto simp: list_all_iff dec_digits)
  ultimately show ?thesis by (simp add: canonical_number_def)
qed

lemma canonical_number_SomeD: "canonical_number t = Some n \<Longrightarrow> t = dec (unat n)"
proof -
  assume c: "canonical_number t = Some n"
  then have t: "t \<noteq> []" "\<not> (length t > 1 \<and> starts_with t ''0'')" "list_all is_ascii_digit t"
    and p: "parse_uint t = Some n"
    by (auto simp: canonical_number_def split: if_splits)
  then have "hd t \<noteq> CHR ''+''"
    using digit_not_special by (cases t) auto
  then have sp: "strip_plus t = t" by (cases t) (auto simp: strip_plus_def)
  then obtain v where v: "parse_digits 0 t = Some v" "v < 2 ^ 32" "n = word_of_nat v"
    using p t(1) by (auto simp: parse_uint_def split: option.splits if_splits)
  have "dec v = t"
    using dec_parse_digits [OF v(1) t(1)] t(2) by (cases t) (auto simp: starts_with_def split: if_splits)
  then show ?thesis using v by (simp add: unat_of_nat)
qed

lemma canonical_number_iff: "canonical_number t = Some n \<longleftrightarrow> t = dec (unat n)"
  using canonical_number_dec canonical_number_SomeD by blast

lemma dec_triple_no_dash:
  "CHR ''-'' \<notin> set (dec a @ ''.'' @ dec b @ ''.'' @ dec c)"
  by simp

lemma split_on_triple:
  "split_on CHR ''.'' t = [a, b, c] \<longleftrightarrow>
    t = a @ ''.'' @ b @ ''.'' @ c \<and> CHR ''.'' \<notin> set a \<and> CHR ''.'' \<notin> set b \<and> CHR ''.'' \<notin> set c"
proof
  assume s: "split_on CHR ''.'' t = [a, b, c]"
  then have "t = join_with CHR ''.'' [a, b, c]" by (metis join_split_on)
  moreover have "CHR ''.'' \<notin> set a" "CHR ''.'' \<notin> set b" "CHR ''.'' \<notin> set c"
    using s split_on_pieces [of a "CHR ''.''" t] split_on_pieces [of b "CHR ''.''" t]
      split_on_pieces [of c "CHR ''.''" t]
    by auto
  ultimately show "t = a @ ''.'' @ b @ ''.'' @ c \<and> CHR ''.'' \<notin> set a \<and> CHR ''.'' \<notin> set b \<and> CHR ''.'' \<notin> set c"
    by simp
qed simp

lemma split_triple_dec:
  "split_on CHR ''.'' (dec a @ ''.'' @ dec b @ ''.'' @ dec c) = [dec a, dec b, dec c]"
  by (simp add: split_on_triple)

lemma parse_version_display:
  assumes "version_code v \<noteq> None"
  shows "parse_version (version_display v) = Some v"
proof -
  let ?t = "dec (unat (major v)) @ ''.'' @ dec (unat (minor v)) @ ''.'' @ dec (unat (patch v))"
  obtain code where code: "version_code v = Some code" using assms by blast
  show ?thesis
  proof (cases "release_candidate v")
    case None
    have d: "version_display v = ?t" by (simp add: version_display_def None)
    have "split_once_str ''-rc.'' ?t = None"
      using split_once_str_absent_head [OF dec_triple_no_dash, of "''rc.''"] by simp
    then show ?thesis
      unfolding d parse_version_def
      using code None split_triple_dec canonical_number_dec
      by (cases v) (simp add: Let_def)
  next
    case (Some n)
    have d: "version_display v = ?t @ ''-rc.'' @ dec (unat n)" by (simp add: version_display_def Some)
    have "split_once_str ''-rc.'' (?t @ ''-rc.'' @ dec (unat n)) = Some (?t, dec (unat n))"
      using split_once_str_append_head [OF dec_triple_no_dash, of "''rc.''"] by simp
    then show ?thesis
      unfolding d parse_version_def
      using code Some split_triple_dec canonical_number_dec
      by (cases v) (simp add: Let_def)
  qed
qed

lemma parse_triple_SomeD:
  assumes "(case split_on CHR ''.'' triple of
      a # b # c # rest \<Rightarrow>
        opt_bind (canonical_number a) (\<lambda>ma.
        opt_bind (canonical_number b) (\<lambda>mi.
        opt_bind (canonical_number c) (\<lambda>pa.
          if rest \<noteq> [] then None
          else
            let v = \<lparr>major = ma, minor = mi, patch = pa, release_candidate = rc\<rparr>
            in opt_bind (version_code v) (\<lambda>_. Some v))))
    | _ \<Rightarrow> None) = Some v"
  shows "version_code v \<noteq> None \<and> release_candidate v = rc \<and>
    triple = dec (unat (major v)) @ ''.'' @ dec (unat (minor v)) @ ''.'' @ dec (unat (patch v))"
proof -
  obtain a b c where abc: "split_on CHR ''.'' triple = [a, b, c]"
    and v: "canonical_number a = Some (major v)" "canonical_number b = Some (minor v)"
      "canonical_number c = Some (patch v)" "version_code v \<noteq> None" "release_candidate v = rc"
    using assms
    by (auto simp: opt_bind_eq_Some Let_def split: list.splits if_splits)
  have "triple = a @ ''.'' @ b @ ''.'' @ c" using abc by (simp add: split_on_triple)
  then show ?thesis using v canonical_number_iff by simp
qed

lemma parse_version_SomeD:
  assumes "parse_version t = Some v"
  shows "version_code v \<noteq> None \<and> t = version_display v"
proof (cases "split_once_str ''-rc.'' t")
  case None
  then show ?thesis
    using parse_triple_SomeD [where triple = t and rc = None and v = v] assms
    by (simp add: parse_version_def version_display_def)
next
  case (Some p)
  then obtain triple cand where p: "split_once_str ''-rc.'' t = Some (triple, cand)" by (cases p) auto
  then have t: "t = triple @ ''-rc.'' @ cand" by (rule split_once_str_SomeD)
  obtain n where n: "canonical_number cand = Some n"
    using assms p by (auto simp: parse_version_def opt_bind_eq_Some)
  then have "version_code v \<noteq> None \<and> release_candidate v = Some n \<and>
      triple = dec (unat (major v)) @ ''.'' @ dec (unat (minor v)) @ ''.'' @ dec (unat (patch v))"
    using assms p parse_triple_SomeD [where triple = triple and rc = "Some n" and v = v] by (simp add: parse_version_def)
  then show ?thesis using t n by (simp add: version_display_def canonical_number_iff)
qed

text \<open>
  The version parser accepts exactly the printed form of the versions that have a version code,
  and returns that version: no leading zero, unknown prerelease, build metadata or unrepresentable
  version is accepted.
\<close>

theorem parse_version_accepts_exactly_canonical:
  "parse_version t = Some v \<longleftrightarrow> version_code v \<noteq> None \<and> t = version_display v"
  using parse_version_display parse_version_SomeD by blast

section \<open>The live description line\<close>

fun subst_first :: "string \<Rightarrow> string list \<Rightarrow> string list" where
  "subst_first r [] = [r]"
| "subst_first r (l # ls) = (if starts_with l ''description='' then r # ls else l # subst_first r ls)"

lemma rewrite_lines_True:
  "rewrite_lines r True out ls = (out @ concat (map (\<lambda>l. l @ [newline]) ls), True)"
  by (induction ls arbitrary: out) auto

lemma rewrite_lines_subst_first:
  "(case rewrite_lines r False out ls of (o', replaced) \<Rightarrow> if \<not> replaced then o' @ r @ [newline] else o') =
   out @ concat (map (\<lambda>l. l @ [newline]) (subst_first r ls))"
  by (induction ls arbitrary: out) (auto simp: rewrite_lines_True)

lemma with_status_lines:
  assumes "newline \<notin> set r" and "r = ''description='' @ status_base prop @ DESCRIPTION_BREAK @ status"
  shows "lines (module_prop_with_status prop status) = map strip_cr (subst_first r (lines prop))"
proof -
  have "\<forall>l\<in>set (subst_first r ls). newline \<notin> set l" if "\<forall>l\<in>set ls. newline \<notin> set l" for ls
    using that assms(1) by (induction ls) auto
  then have "\<forall>l\<in>set (subst_first r (lines prop)). newline \<notin> set l" using lines_no_newline by blast
  moreover have "module_prop_with_status prop status =
      concat (map (\<lambda>l. l @ [newline]) (subst_first r (lines prop)))"
    unfolding module_prop_with_status_def Let_def assms(2) [symmetric]
    using rewrite_lines_subst_first [of r "[]" "lines prop"] by simp
  ultimately show ?thesis by (simp add: lines_concat)
qed

lemma find_subst_first:
  "strip_prefix ''description='' (strip_cr r) = Some d \<Longrightarrow>
   find_map (\<lambda>line. strip_prefix ''description='' line) (map strip_cr (subst_first r ls)) = Some d"
proof (induction ls)
  case (Cons l ls)
  have "strip_prefix ''description='' (strip_cr l) = None" if "\<not> starts_with l ''description=''"
    using that strip_prefix_strip_cr unfolding starts_with_def by blast
  then show ?case using Cons by auto
qed simp

lemma status_base_clean:
  "status_base prop \<noteq> [] \<and> newline \<notin> set (status_base prop) \<and> trim (status_base prop) = status_base prop \<and>
   split_once_str DESCRIPTION_BREAK (status_base prop) = None"
proof -
  have default: "MODULE_DESCRIPTION \<noteq> [] \<and> newline \<notin> set MODULE_DESCRIPTION \<and>
      trim MODULE_DESCRIPTION = MODULE_DESCRIPTION \<and> split_once_str DESCRIPTION_BREAK MODULE_DESCRIPTION = None"
    by code_simp
  have "newline \<notin> set b \<and> trim b = b \<and> split_once_str DESCRIPTION_BREAK b = None"
    if d: "description_base prop = Some b" for b
  proof -
    obtain l where l: "find_map (\<lambda>line. strip_prefix ''description='' line) (lines prop) = Some l"
      and eq: "Some (trim (case split_once_str DESCRIPTION_BREAK l of Some (before, _) \<Rightarrow> before | None \<Rightarrow> l)) =
        Some b" (is "Some (trim ?cut) = _")
      using d unfolding description_base_def opt_bind_eq_Some by blast
    then have b: "b = trim ?cut" by simp
    obtain line where "line \<in> set (lines prop)" "strip_prefix ''description='' line = Some l"
      using find_map_SomeD [OF l] by blast
    then have nl: "newline \<notin> set l" using lines_no_newline by (fastforce simp: strip_prefix_eq_Some)
    have cut: "\<exists>y. l = ?cut @ y" "split_once_str DESCRIPTION_BREAK ?cut = None"
      using split_once_str_SomeD [of DESCRIPTION_BREAK l] split_once_str_None_before [of DESCRIPTION_BREAK l]
      by (auto simp: DESCRIPTION_BREAK_def split: option.splits)
    obtain u t where ut: "?cut = u @ b @ t" using trim_infix b by metis
    then have "split_once_str DESCRIPTION_BREAK b = None" using cut(2) split_once_str_None_infix by metis
    moreover have "newline \<notin> set b" using nl cut(1) ut by (metis Un_iff set_append)
    ultimately show ?thesis using b trim_idem by blast
  qed
  then show ?thesis
    using default by (auto simp: status_base_def Let_def split: option.splits)
qed

lemma description_base_with_status:
  assumes "newline \<notin> set status"
  shows "description_base (module_prop_with_status prop status) = Some (status_base prop)"
proof -
  let ?b = "status_base prop"
  define r where "r = ''description='' @ ?b @ DESCRIPTION_BREAK @ status"
  have nl: "newline \<notin> set r"
    using assms status_base_clean [of "prop"] by (auto simp: r_def DESCRIPTION_BREAK_def)
  have "strip_cr (DESCRIPTION_BREAK @ status) = DESCRIPTION_BREAK @ strip_cr status"
  proof (cases "status = []")
    case True
    have "strip_cr DESCRIPTION_BREAK = DESCRIPTION_BREAK" "strip_cr [] = []" by code_simp+
    then show ?thesis using True by simp
  qed (rule strip_cr_append)
  then have "strip_cr r = (''description='' @ ?b) @ DESCRIPTION_BREAK @ strip_cr status"
    unfolding r_def using strip_cr_append [of "DESCRIPTION_BREAK @ status" "''description='' @ ?b"]
    by (simp add: DESCRIPTION_BREAK_def)
  then have "strip_prefix ''description='' (strip_cr r) = Some (?b @ DESCRIPTION_BREAK @ strip_cr status)"
    by (simp only: strip_prefix_eq_Some append_assoc)
  then have "find_map (\<lambda>line. strip_prefix ''description='' line) (lines (module_prop_with_status prop status)) =
      Some (?b @ DESCRIPTION_BREAK @ strip_cr status)"
    unfolding with_status_lines [OF nl r_def] by (rule find_subst_first)
  moreover have "split_once_str DESCRIPTION_BREAK (?b @ DESCRIPTION_BREAK @ strip_cr status) =
      Some (?b, strip_cr status)"
    using split_once_str_two [of "CHR 0x5C" "CHR ''n''" ?b] status_base_clean [of "prop"]
    by (simp add: DESCRIPTION_BREAK_def)
  ultimately show ?thesis using status_base_clean [of "prop"] by (simp add: description_base_def)
qed

text \<open>
  However often the daemon rewrites the description with a one-line status, the base text it
  finds in the result is the one of the original file (or the built-in default when that was missing
  or blank), so the line never accumulates earlier statuses.
\<close>

theorem description_never_grows:
  assumes "ss \<noteq> []" and "list_all (\<lambda>s. newline \<notin> set s) ss"
  shows "description_base (fold (\<lambda>s prop. module_prop_with_status prop s) ss prop) = Some (status_base prop)"
proof -
  have base: "status_base (module_prop_with_status p s) = status_base p" if "newline \<notin> set s" for p s
    using description_base_with_status [OF that] status_base_clean [of p] by (simp add: status_base_def)
  have "status_base (fold (\<lambda>s prop. module_prop_with_status prop s) xs p) = status_base p"
    if "list_all (\<lambda>s. newline \<notin> set s) xs" for xs p
    using that by (induction xs arbitrary: p) (auto simp: base)
  then show ?thesis
    using assms description_base_with_status by (cases ss rule: rev_cases) auto
qed

theorem description_never_grows_witness:
  "description_base (fold (\<lambda>s prop. module_prop_with_status prop s) [''Active'', ''Paused''] ''id=Flux-rs'') =
   Some MODULE_DESCRIPTION"
proof -
  have "status_base ''id=Flux-rs'' = MODULE_DESCRIPTION" by code_simp
  then show ?thesis using description_never_grows [of "[''Active'', ''Paused'']" "''id=Flux-rs''"] by simp
qed

end
