(* ===== verification/Gki_Line.thy ===== *)
theory Gki_Line
  imports Version "HOL-Library.List_Lexorder" "HOL-Library.Char_ord"
begin

text \<open>
  GKI generations and the choice of a kernel module file, crates/flux-core/src/gki_line.rs. The
  selection loop of \<open>pick_module_file\<close> is shown to be the exact file if it is listed and otherwise
  the smallest matching name.
\<close>

record gki_line =
  android :: u32
  kernel_major :: u32
  kernel_minor :: u32

definition gki_name :: "gki_line \<Rightarrow> string" where
  "gki_name l =
    ''android'' @ dec (unat (android l)) @ ''-'' @ dec (unat (kernel_major l)) @ ''.''
    @ dec (unat (kernel_minor l))"

definition module_stem :: "gki_line \<Rightarrow> string" where
  "module_stem l = ''fluxrs-'' @ gki_name l"

definition parse_component :: "string \<Rightarrow> u32 option" where
  "parse_component t = (if t = [] \<or> \<not> list_all is_ascii_digit t then None else parse_uint t)"

definition parse_series :: "string \<Rightarrow> (u32 \<times> u32) option" where
  "parse_series series =
    (case split_on CHR ''.'' series of
       a # b # _ \<Rightarrow>
         opt_bind (parse_component a) (\<lambda>ma. opt_bind (parse_component b) (\<lambda>mi. Some (ma, mi)))
     | _ \<Rightarrow> None)"

definition from_module_filename :: "string \<Rightarrow> gki_line option" where
  "from_module_filename filename =
    opt_bind (strip_prefix ''fluxrs-android'' filename) (\<lambda>rest.
    opt_bind (strip_suffix ''.ko'' rest) (\<lambda>body.
    opt_bind (split_once CHR ''-'' body) (\<lambda>(android_token, series_and_build).
    opt_bind (parse_component android_token) (\<lambda>an.
    opt_bind (parse_series (hd (split_on CHR ''-'' series_and_build))) (\<lambda>(ma, mi).
      Some \<lparr>android = an, kernel_major = ma, kernel_minor = mi\<rparr>)))))"

definition matches_module_file :: "gki_line \<Rightarrow> string \<Rightarrow> bool" where
  "matches_module_file l filename =
    (case strip_prefix (module_stem l) filename of
       None \<Rightarrow> False
     | Some rest \<Rightarrow>
         (case strip_suffix ''.ko'' rest of
            None \<Rightarrow> False
          | Some body \<Rightarrow> body = [] \<or> starts_with body ''-''))"

definition android_from_release :: "string \<Rightarrow> u32 option" where
  "android_from_release release =
    opt_bind (split_once_str ''-android'' release) (\<lambda>(_, after).
      parse_component (hd (split_on CHR ''-'' after)))"

definition android_for_series :: "u32 \<Rightarrow> u32 \<Rightarrow> u32 option" where
  "android_for_series ma mi =
    (if (ma, mi) = (5, 10) then Some 12
     else if (ma, mi) = (5, 15) then Some 13
     else if (ma, mi) = (6, 1) then Some 14
     else if (ma, mi) = (6, 6) then Some 15
     else if (ma, mi) = (6, 12) then Some 16
     else if (ma, mi) = (6, 18) then Some 17
     else None)"

definition from_uname_release :: "string \<Rightarrow> gki_line option" where
  "from_uname_release rel =
    (let release = trim rel
     in if release = [] then None
        else
          opt_bind (parse_series (hd (split_on CHR ''-'' release))) (\<lambda>(ma, mi).
          opt_bind
            (case android_from_release release of
               Some n \<Rightarrow> Some n
             | None \<Rightarrow> android_for_series ma mi)
            (\<lambda>an. Some \<lparr>android = an, kernel_major = ma, kernel_minor = mi\<rparr>)))"

fun pick_loop :: "gki_line \<Rightarrow> string option \<Rightarrow> string list \<Rightarrow> string option" where
  "pick_loop l fallback [] = fallback"
| "pick_loop l fallback (name # names) =
    (if \<not> matches_module_file l name then pick_loop l fallback names
     else if name = module_stem l @ ''.ko'' then Some name
     else case fallback of
            None \<Rightarrow> pick_loop l (Some name) names
          | Some current \<Rightarrow>
              if name < current then pick_loop l (Some name) names
              else pick_loop l (Some current) names)"

definition pick_module_file :: "gki_line \<Rightarrow> string list \<Rightarrow> string option" where
  "pick_module_file l names = pick_loop l None names"

section \<open>File names\<close>

lemma parse_component_dec: "parse_component (dec (unat n)) = Some n"
  by (auto simp: parse_component_def list_all_iff dec_digits)

lemma parse_series_display:
  "parse_series (dec (unat a) @ ''.'' @ dec (unat b)) = Some (a, b)"
  by (simp add: parse_series_def parse_component_dec)

lemma hd_split_on: "c \<notin> set a \<Longrightarrow> b = [] \<or> hd b = c \<Longrightarrow> hd (split_on c (a @ b)) = a"
  by (cases b) auto

lemma from_module_filename_stem:
  assumes "build = [] \<or> hd build = CHR ''-''"
  shows "from_module_filename (module_stem l @ build @ ''.ko'') = Some l"
proof -
  let ?series = "dec (unat (kernel_major l)) @ ''.'' @ dec (unat (kernel_minor l))"
  let ?body = "dec (unat (android l)) @ ''-'' @ ?series @ build"
  have "module_stem l @ build @ ''.ko'' = ''fluxrs-android'' @ ?body @ ''.ko''"
    by (simp add: module_stem_def gki_name_def)
  then have "strip_prefix ''fluxrs-android'' (module_stem l @ build @ ''.ko'') = Some (?body @ ''.ko'')"
    by (simp only: strip_prefix_append)
  moreover have "strip_suffix ''.ko'' (?body @ ''.ko'') = Some ?body"
    by (rule strip_suffix_append)
  moreover have "split_once CHR ''-'' ?body = Some (dec (unat (android l)), ?series @ build)"
    by (simp add: split_once_append)
  moreover have "hd (split_on CHR ''-'' (?series @ build)) = ?series"
    using assms by (intro hd_split_on) simp_all
  ultimately show ?thesis
    by (cases l) (simp only: from_module_filename_def opt_bind_Some prod.case parse_component_dec
        parse_series_display gki_line.select_convs)
qed

lemma matches_iff:
  "matches_module_file l f \<longleftrightarrow> (\<exists>build. (build = [] \<or> hd build = CHR ''-'') \<and> f = module_stem l @ build @ ''.ko'')"
proof
  assume "matches_module_file l f"
  then obtain rest body where "strip_prefix (module_stem l) f = Some rest"
    "strip_suffix ''.ko'' rest = Some body" "body = [] \<or> starts_with body ''-''"
    by (auto simp: matches_module_file_def split: option.splits)
  then show "\<exists>build. (build = [] \<or> hd build = CHR ''-'') \<and> f = module_stem l @ build @ ''.ko''"
    by (auto simp: strip_prefix_eq_Some strip_suffix_eq_Some starts_with_def)
next
  assume "\<exists>build. (build = [] \<or> hd build = CHR ''-'') \<and> f = module_stem l @ build @ ''.ko''"
  then obtain build where b: "build = [] \<or> hd build = CHR ''-''" "f = module_stem l @ build @ ''.ko''"
    by blast
  have "build = [] \<or> starts_with build ''-''"
    using b(1) by (cases build) (auto simp: starts_with_def)
  then show "matches_module_file l f"
    using strip_suffix_append [of "''.ko''" build]
    by (simp add: matches_module_file_def b(2))
qed

text \<open>
  A file matches a generation exactly when it is the generation's stem, optionally followed by
  a dash and a build, with the extension .ko; parsing the file name of a matching file gives the
  generation back, so no file matches two generations.
\<close>

theorem module_file_identifies_line:
  "(matches_module_file l f \<longrightarrow> from_module_filename f = Some l) \<and>
   (matches_module_file l f \<and> matches_module_file l' f \<longrightarrow> l = l') \<and>
   matches_module_file l (module_stem l @ ''.ko'')"
proof (intro conjI impI)
  have parse: "from_module_filename f = Some l" if "matches_module_file l f" for l
    using that from_module_filename_stem by (auto simp: matches_iff)
  show "from_module_filename f = Some l" if "matches_module_file l f" using that by (rule parse)
  show "l = l'" if "matches_module_file l f \<and> matches_module_file l' f"
    using that parse [of l] parse [of l'] by simp
  show "matches_module_file l (module_stem l @ ''.ko'')"
    unfolding matches_iff by (rule exI [of _ "[]"]) simp
qed

theorem module_file_identifies_line_witness:
  "from_module_filename ''fluxrs-android13-5.15-b7.ko'' =
    Some \<lparr>android = 13, kernel_major = 5, kernel_minor = 15\<rparr>"
proof -
  have "matches_module_file \<lparr>android = 13, kernel_major = 5, kernel_minor = 15\<rparr> ''fluxrs-android13-5.15-b7.ko''"
    by code_simp
  then show ?thesis using module_file_identifies_line by blast
qed

section \<open>The choice of a file\<close>

lemma pick_loop_fallback:
  assumes "module_stem l @ ''.ko'' \<notin> set names"
  shows "pick_loop l fb names =
    (case (set (filter (matches_module_file l) names) \<union> set_option fb) of
       S \<Rightarrow> if S = {} then None else Some (Min S))"
  using assms
proof (induction l fb names rule: pick_loop.induct)
  case (1 l fb)
  then show ?case by (cases fb) auto
next
  case (2 l fb name names)
  show ?case
  proof (cases "matches_module_file l name")
    case False
    then show ?thesis using 2 by auto
  next
    case True
    have ne: "name \<noteq> module_stem l @ ''.ko''" using "2.prems" by auto
    show ?thesis
    proof (cases fb)
      case None
      then show ?thesis using 2 True ne by auto
    next
      case (Some cur)
      let ?S = "set (filter (matches_module_file l) names)"
      have "Min (insert name ?S) = Min (insert name (insert cur ?S))" if "name < cur"
        using that by (cases "?S = {}") (auto simp: min_def)
      moreover have "Min (insert cur ?S) = Min (insert name (insert cur ?S))" if "\<not> name < cur"
        using that by (cases "?S = {}") (auto simp: min_def)
      ultimately show ?thesis using 2 True ne Some by (auto simp: insert_commute)
    qed
  qed
qed

lemma pick_loop_exact:
  "module_stem l @ ''.ko'' \<in> set names \<Longrightarrow> matches_module_file l (module_stem l @ ''.ko'') \<Longrightarrow>
   pick_loop l fb names = Some (module_stem l @ ''.ko'')"
  by (induction l fb names rule: pick_loop.induct) (auto split: option.splits)

text \<open>
  The chosen module file is the unsuffixed file of the generation when it is listed, otherwise
  the smallest listed file that matches, and nothing exactly when no listed file matches; the choice
  does not depend on the order of the listing.
\<close>

theorem pick_module_file_spec:
  "pick_module_file l names =
    (if module_stem l @ ''.ko'' \<in> set names then Some (module_stem l @ ''.ko'')
     else if \<exists>n\<in>set names. matches_module_file l n
     then Some (Min {n \<in> set names. matches_module_file l n})
     else None)"
proof (cases "module_stem l @ ''.ko'' \<in> set names")
  case True
  have "matches_module_file l (module_stem l @ ''.ko'')"
    unfolding matches_iff by (rule exI [of _ "[]"]) simp
  then show ?thesis using True pick_loop_exact by (simp add: pick_module_file_def)
next
  case False
  have "set (filter (matches_module_file l) names) = {n \<in> set names. matches_module_file l n}" by auto
  then show ?thesis
    using False pick_loop_fallback [OF False, of None] by (auto simp: pick_module_file_def)
qed

end
