(* ===== verification/Mod_Info.thy ===== *)
theory Mod_Info
  imports Gki_Line
begin

text \<open>
  Vermagic strings in ELF modules, crates/flux-core/src/modinfo.rs: the reader of a named section of a
  little-endian ELF64 file, the search of the \<open>.modinfo\<close> records, the relation to the running kernel,
  and the writer of the minimal relocatable ELF that packaging stubs use. Writes into a buffer at an
  offset are \<open>write_at\<close>.

  Offsets read from the file are 64-bit. The one unchecked addition, the end of a section header,
  wraps in a release build only above \<open>2 ^ 64\<close>, where the range is refused as out of bounds; the
  natural-number sum is beyond the buffer there and gives the same error.
\<close>

section \<open>Reading\<close>

definition elf_u16 :: "bytes \<Rightarrow> nat \<Rightarrow> string + u16" where
  "elf_u16 b off = ok_or ''truncated ELF field'' (map_option from_le_bytes (slice_get off (off + 2) b))"

definition elf_u32 :: "bytes \<Rightarrow> nat \<Rightarrow> string + u32" where
  "elf_u32 b off = ok_or ''truncated ELF field'' (map_option from_le_bytes (slice_get off (off + 4) b))"

definition elf_u64 :: "bytes \<Rightarrow> nat \<Rightarrow> string + u64" where
  "elf_u64 b off = ok_or ''truncated ELF field'' (map_option from_le_bytes (slice_get off (off + 8) b))"

definition section_header :: "bytes \<Rightarrow> u64 \<Rightarrow> u16 \<Rightarrow> nat \<Rightarrow> string + bytes" where
  "section_header elf shoff shentsize index =
    (let off = index * unat shentsize; start = unat shoff + off
     in if off \<ge> 2 ^ 64 \<or> start \<ge> 2 ^ 64 then Err ''section offset overflow''
        else ok_or ''section header is out of bounds'' (slice_get start (start + unat shentsize) elf))"

text \<open>\<open>elf.get(offset..offset.checked_add(size)?)\<close>.\<close>

definition checked_range :: "bytes \<Rightarrow> u64 \<Rightarrow> u64 \<Rightarrow> string \<Rightarrow> string + bytes" where
  "checked_range elf offset sz msg =
    (if unat offset + unat sz \<ge> 2 ^ 64 then Err ''overflow''
     else ok_or msg (slice_get (unat offset) (unat offset + unat sz) elf))"

fun find_section ::
    "bytes \<Rightarrow> string \<Rightarrow> u64 \<Rightarrow> u16 \<Rightarrow> bytes \<Rightarrow> nat list \<Rightarrow> string + bytes" where
  "find_section elf wanted shoff shentsize strings [] = Err ''ELF section is missing''"
| "find_section elf wanted shoff shentsize strings (index # rest) =
    and_then (section_header elf shoff shentsize index) (\<lambda>sh.
    and_then (elf_u32 sh 0) (\<lambda>name_offset.
      if unat name_offset > length strings then Err ''invalid section name''
      else
        (case from_utf8 (takeWhile (\<lambda>byte. byte \<noteq> 0) (drop (unat name_offset) strings)) of
           None \<Rightarrow> Err ''section name is not UTF-8''
         | Some name \<Rightarrow>
             if name = wanted then
               and_then (elf_u64 sh 0x18) (\<lambda>offset.
               and_then (elf_u64 sh 0x20) (\<lambda>sz.
                 checked_range elf offset sz ''section payload is out of bounds''))
             else find_section elf wanted shoff shentsize strings rest)))"

definition elf64_section :: "bytes \<Rightarrow> string \<Rightarrow> string + bytes" where
  "elf64_section elf wanted =
    (if length elf < 64 \<or> slice 0 4 elf \<noteq> [0x7F, 0x45, 0x4C, 0x46] \<or> elf ! 4 \<noteq> 2 \<or> elf ! 5 \<noteq> 1
     then Err ''not a little-endian ELF64 file''
     else
       and_then (elf_u64 elf 0x28) (\<lambda>shoff.
       and_then (elf_u16 elf 0x3A) (\<lambda>shentsize.
       and_then (elf_u16 elf 0x3C) (\<lambda>shnum.
       and_then (elf_u16 elf 0x3E) (\<lambda>shstrndx.
         if shentsize < 64 \<or> shstrndx \<ge> shnum then Err ''invalid ELF section-header table''
         else
           and_then (section_header elf shoff shentsize (unat shstrndx)) (\<lambda>strings_header.
           and_then (elf_u64 strings_header 0x18) (\<lambda>strings_offset.
           and_then (elf_u64 strings_header 0x20) (\<lambda>strings_size.
           and_then (checked_range elf strings_offset strings_size
                       ''section-name string table is out of bounds'') (\<lambda>strings.
             find_section elf wanted shoff shentsize strings [0..<unat shnum])))))))))"

section \<open>Vermagic\<close>

datatype vermagic_relation = Vm_Equal | SameLine | Vm_Different

fun vermagic_records :: "bytes list \<Rightarrow> string option" where
  "vermagic_records [] = None"
| "vermagic_records (record # rest) =
    (case from_utf8 record of
       None \<Rightarrow> None
     | Some r \<Rightarrow>
         (case strip_prefix ''vermagic='' r of
            Some value \<Rightarrow> if value \<noteq> [] then Some value else vermagic_records rest
          | None \<Rightarrow> vermagic_records rest))"

definition vermagic_from_modinfo :: "bytes \<Rightarrow> string option" where
  "vermagic_from_modinfo modinfo = vermagic_records (split_on 0 modinfo)"

definition vermagic_release :: "string \<Rightarrow> string" where
  "vermagic_release vermagic = (case split_whitespace vermagic of t # _ \<Rightarrow> t | [] \<Rightarrow> vermagic)"

definition vermagic_from_elf :: "bytes \<Rightarrow> string + string" where
  "vermagic_from_elf elf =
    and_then (elf64_section elf ''.modinfo'') (\<lambda>modinfo.
      ok_or ''ELF .modinfo has no vermagic='' (vermagic_from_modinfo modinfo))"

definition relate :: "string \<Rightarrow> string \<Rightarrow> vermagic_relation" where
  "relate vermagic kernel_release =
    (let module_release = vermagic_release vermagic
     in if module_release = kernel_release then Vm_Equal
        else case (from_uname_release module_release, from_uname_release kernel_release) of
               (Some left, Some right) \<Rightarrow> if left = right then SameLine else Vm_Different
             | _ \<Rightarrow> Vm_Different)"

section \<open>Writing\<close>

definition write_at :: "nat \<Rightarrow> bytes \<Rightarrow> bytes \<Rightarrow> bytes" where
  "write_at off bs buf = take off buf @ bs @ drop (off + length bs) buf"

definition write_section_header :: "bytes \<Rightarrow> u32 \<Rightarrow> u32 \<Rightarrow> u64 \<Rightarrow> u64 \<Rightarrow> bytes" where
  "write_section_header slot name sh_type offset sz =
    write_at 0x20 (le_bytes 8 sz) (write_at 0x18 (le_bytes 8 offset)
      (write_at 4 (le_bytes 4 sh_type) (write_at 0 (le_bytes 4 name) slot)))"

definition EHSIZE :: nat where "EHSIZE = 64"
definition SHENTSIZE :: nat where "SHENTSIZE = 64"
definition SHNUM :: nat where "SHNUM = 3"

definition shstrtab :: bytes where
  "shstrtab = [0] @ as_bytes ''.modinfo'' @ [0] @ as_bytes ''.shstrtab'' @ [0]"

text \<open>The zeroed buffer with its ELF header.\<close>

definition elf_header :: "nat \<Rightarrow> bytes" where
  "elf_header file_len =
    (let elf = replicate file_len 0;
         elf = write_at 0 [0x7F, 0x45, 0x4C, 0x46] elf;
         elf = elf[4 := 2];
         elf = elf[5 := 1];
         elf = elf[6 := 1];
         elf = write_at 16 (le_bytes 2 (1 :: u16)) elf;
         elf = write_at 18 (le_bytes 2 (183 :: u16)) elf;
         elf = write_at 20 (le_bytes 4 (1 :: u32)) elf;
         elf = write_at 40 (le_bytes 8 (word_of_nat EHSIZE :: u64)) elf;
         elf = write_at 52 (le_bytes 2 (word_of_nat EHSIZE :: u16)) elf;
         elf = write_at 58 (le_bytes 2 (word_of_nat SHENTSIZE :: u16)) elf;
         elf = write_at 60 (le_bytes 2 (word_of_nat SHNUM :: u16)) elf
     in write_at 62 (le_bytes 2 (2 :: u16)) elf)"

definition reloc_elf_with_modinfo :: "bytes \<Rightarrow> bytes" where
  "reloc_elf_with_modinfo modinfo =
    (let headers = EHSIZE + SHNUM * SHENTSIZE;
         shstrtab_off = headers;
         modinfo_off = shstrtab_off + length shstrtab;
         elf = elf_header (modinfo_off + length modinfo);
         elf = write_at (EHSIZE + SHENTSIZE)
                 (write_section_header (slice (EHSIZE + SHENTSIZE) (EHSIZE + 2 * SHENTSIZE) elf) 1 1
                    (word_of_nat modinfo_off) (word_of_nat (length modinfo))) elf;
         elf = write_at (EHSIZE + 2 * SHENTSIZE)
                 (write_section_header (slice (EHSIZE + 2 * SHENTSIZE) (EHSIZE + 3 * SHENTSIZE) elf) 10 3
                    (word_of_nat shstrtab_off) (word_of_nat (length shstrtab))) elf;
         elf = write_at shstrtab_off shstrtab elf
     in write_at modinfo_off modinfo elf)"

definition stub_android13_5_15 :: bytes where
  "stub_android13_5_15 =
    reloc_elf_with_modinfo (as_bytes ''vermagic=5.15.0-android13-stub SMP preempt aarch64'' @ [0])"

section \<open>Reading back what was written\<close>

lemma length_write_at [simp, layout_simps]:
  "off + length bs \<le> length buf \<Longrightarrow> length (write_at off bs buf) = length buf"
  by (simp add: write_at_def)

lemma slice_write_inside [layout_simps]:
  assumes "off \<le> a" and "b \<le> off + length bs" and "off + length bs \<le> length buf"
  shows "slice a b (write_at off bs buf) = slice (a - off) (b - off) bs"
  using assms by (simp add: slice_def write_at_def)

lemma slice_write_before [layout_simps]:
  "b \<le> off \<Longrightarrow> off + length bs \<le> length buf \<Longrightarrow> slice a b (write_at off bs buf) = slice a b buf"
  by (auto simp: slice_def write_at_def take_drop min_def)

lemma slice_write_after [layout_simps]:
  assumes "off + length bs \<le> a" and "off + length bs \<le> length buf"
  shows "slice a b (write_at off bs buf) = slice a b buf"
proof -
  have "drop a (write_at off bs buf) = drop a buf"
    using assms by (simp add: write_at_def)
  then show ?thesis by (simp add: slice_def)
qed

lemma slice_update_outside [layout_simps]:
  assumes "k < a \<or> b \<le> k"
  shows "slice a b (buf[k := x]) = slice a b buf"
proof (cases "k < a")
  case True
  then show ?thesis by (simp add: slice_def)
next
  case False
  then show ?thesis using assms by (cases "a \<le> b") (auto simp: slice_def take_drop)
qed

lemma slice_slice [layout_simps]:
  "b' \<le> b - a \<Longrightarrow> slice a' b' (slice a b xs) = slice (a + a') (a + b') xs"
  by (simp add: slice_def drop_take min_def add.commute)

lemma slice_replicate [layout_simps]: "b \<le> n \<Longrightarrow> slice a b (replicate n x) = replicate (b - a) x"
  by (auto simp: slice_def min_def)

lemma nth_write_after [layout_simps]:
  "off + length bs \<le> length buf \<Longrightarrow> k < off \<or> off + length bs \<le> k \<Longrightarrow> write_at off bs buf ! k = buf ! k"
  by (auto simp: write_at_def nth_append)

lemma length_shstrtab [simp]: "length shstrtab = 20"
  by (simp add: shstrtab_def)

lemma length_write_section_header [simp]:
  "length slot = 64 \<Longrightarrow> length (write_section_header slot n t off sz) = 64"
  by (simp add: write_section_header_def)

lemma section_header_fields [layout_simps]:
  assumes "length slot = 64"
  shows "slice 0 4 (write_section_header slot n t off sz) = le_bytes 4 n"
    and "slice 24 32 (write_section_header slot n t off sz) = le_bytes 8 off"
    and "slice 32 40 (write_section_header slot n t off sz) = le_bytes 8 sz"
  using assms by (simp_all add: write_section_header_def layout_simps) (simp_all add: slice_def)

lemmas elf_sizes = EHSIZE_def SHENTSIZE_def SHNUM_def

lemma length_elf_header [simp, layout_simps]: "64 \<le> n \<Longrightarrow> length (elf_header n) = n"
  by (simp add: elf_header_def Let_def elf_sizes)

lemma elf_header_zero [layout_simps]:
  "64 \<le> a \<Longrightarrow> b \<le> n \<Longrightarrow> 64 \<le> n \<Longrightarrow> slice a b (elf_header n) = replicate (b - a) 0"
  by (simp add: elf_header_def Let_def elf_sizes slice_write_after slice_update_outside slice_replicate)

lemma elf_header_ident:
  "64 \<le> n \<Longrightarrow> slice 0 4 (elf_header n) = [0x7F, 0x45, 0x4C, 0x46]"
  "64 \<le> n \<Longrightarrow> elf_header n ! 4 = 2" "64 \<le> n \<Longrightarrow> elf_header n ! 5 = 1"
  by (simp_all add: elf_header_def Let_def elf_sizes slice_write_before slice_update_outside
      slice_write_inside nth_write_after) (simp add: slice_def)

lemma elf_header_fields:
  assumes "64 \<le> n"
  shows "slice 40 48 (elf_header n) = le_bytes 8 (64 :: u64)"
    and "slice 58 60 (elf_header n) = le_bytes 2 (64 :: u16)"
    and "slice 60 62 (elf_header n) = le_bytes 2 (3 :: u16)"
    and "slice 62 64 (elf_header n) = le_bytes 2 (2 :: u16)"
  using assms
  by (simp_all add: elf_header_def Let_def elf_sizes slice_write_before slice_write_inside
      slice_full [where xs = "le_bytes 8 _", simplified] slice_full [where xs = "le_bytes 2 _", simplified])

lemma reloc_elf_eq:
  "\<exists>s1 s2. length s1 = 64 \<and> length s2 = 64 \<and>
    slice 0 4 s1 = le_bytes 4 (1 :: u32) \<and> slice 24 32 s1 = le_bytes 8 (276 :: u64) \<and>
    slice 32 40 s1 = le_bytes 8 (word_of_nat (length m) :: u64) \<and>
    slice 24 32 s2 = le_bytes 8 (256 :: u64) \<and> slice 32 40 s2 = le_bytes 8 (20 :: u64) \<and>
    reloc_elf_with_modinfo m =
      write_at 276 m (write_at 256 shstrtab (write_at 192 s2 (write_at 128 s1 (elf_header (276 + length m)))))"
proof -
  let ?e0 = "elf_header (276 + length m)"
  let ?s1 = "write_section_header (slice 128 192 ?e0) 1 1 276 (word_of_nat (length m))"
  let ?e1 = "write_at 128 ?s1 ?e0"
  let ?s2 = "write_section_header (slice 192 256 ?e1) 10 3 256 20"
  have "length (slice 128 192 ?e0) = 64" by simp
  moreover from this have "length (slice 192 256 ?e1) = 64" by simp
  moreover have "reloc_elf_with_modinfo m = write_at 276 m (write_at 256 shstrtab (write_at 192 ?s2 ?e1))"
    by (simp add: reloc_elf_with_modinfo_def Let_def elf_sizes)
  ultimately show ?thesis
    by (intro exI [of _ ?s1] exI [of _ ?s2]) (simp add: section_header_fields)
qed

lemma elf_section_modinfo:
  assumes "276 + length m < 2 ^ 64"
  shows "elf64_section (reloc_elf_with_modinfo m) ''.modinfo'' = Ok m"
proof -
  obtain s1 s2 where s: "length s1 = 64" "length s2 = 64" "slice 0 4 s1 = le_bytes 4 (1 :: u32)"
    "slice 24 32 s1 = le_bytes 8 (276 :: u64)" "slice 32 40 s1 = le_bytes 8 (word_of_nat (length m) :: u64)"
    "slice 24 32 s2 = le_bytes 8 (256 :: u64)" "slice 32 40 s2 = le_bytes 8 (20 :: u64)"
    and elf: "reloc_elf_with_modinfo m =
      write_at 276 m (write_at 256 shstrtab (write_at 192 s2 (write_at 128 s1 (elf_header (276 + length m)))))"
      (is "_ = ?E")
    using reloc_elf_eq [of m] by blast
  have len: "length ?E = 276 + length m" using s by simp
  have hdr: "slice 40 48 ?E = le_bytes 8 (64 :: u64)" "slice 58 60 ?E = le_bytes 2 (64 :: u16)"
    "slice 60 62 ?E = le_bytes 2 (3 :: u16)" "slice 62 64 ?E = le_bytes 2 (2 :: u16)"
    using s by (simp_all add: slice_write_before elf_header_fields)
  have id: "slice 0 4 ?E = [0x7F, 0x45, 0x4C, 0x46]" "?E ! 4 = 2" "?E ! 5 = 1"
    using s by (simp_all add: slice_write_before nth_write_after elf_header_ident)
  have sec: "slice 64 128 ?E = replicate 64 0" "slice 128 192 ?E = s1" "slice 192 256 ?E = s2"
    using s slice_full [of s1] slice_full [of s2]
    by (simp_all add: slice_write_before slice_write_inside slice_write_after elf_header_zero)
  have pay: "slice 256 276 ?E = shstrtab" "slice 276 (276 + length m) ?E = m"
    using s slice_full [of shstrtab] by (simp_all add: slice_write_before slice_write_inside)
  have names: "from_utf8 (takeWhile (\<lambda>byte. byte \<noteq> 0) (drop 0 shstrtab)) = Some []"
    "from_utf8 (takeWhile (\<lambda>byte. byte \<noteq> 0) (drop 1 shstrtab)) = Some ''.modinfo''"
    by code_simp+
  have zero: "from_le_bytes (slice 0 4 (replicate 64 (0 :: u8))) = (0 :: u32)" by code_simp
  have n: "unat (word_of_nat (length m) :: u64) = length m" using assms by (simp add: unat_of_nat)
  have heads: "section_header ?E 64 64 0 = Ok (replicate 64 0)" "section_header ?E 64 64 1 = Ok s1"
    "section_header ?E 64 64 2 = Ok s2"
    using len sec by (simp_all add: section_header_def Let_def slice_get_def slice_def)
  have strs: "checked_range ?E 256 20 msg = Ok shstrtab" for msg
    using len pay(1) by (simp add: checked_range_def slice_get_def slice_def)
  have payload: "checked_range ?E 276 (word_of_nat (length m)) msg = Ok m" for msg
    using len pay(2) n assms by (simp add: checked_range_def slice_get_def slice_def)
  have "find_section ?E ''.modinfo'' 64 64 shstrtab [0, 1, 2] = Ok m"
    using heads s zero names payload
    by (simp add: elf_u32_def elf_u64_def slice_get_def slice_def)
  moreover have "elf_u64 ?E 40 = Ok 64" "elf_u16 ?E 58 = Ok 64" "elf_u16 ?E 60 = Ok 3" "elf_u16 ?E 62 = Ok 2"
    using len hdr by (simp_all add: elf_u16_def elf_u64_def slice_get_def slice_def)
  moreover have "elf_u64 s2 24 = Ok 256" "elf_u64 s2 32 = Ok 20"
    using s by (simp_all add: elf_u64_def slice_get_def slice_def)
  moreover have "[0..<unat (3 :: u16)] = [0, 1, 2]" by code_simp
  moreover have "unat (2 :: u16) = 2" by simp
  moreover have "\<not> (length ?E < 64 \<or> slice 0 4 ?E \<noteq> [0x7F, 0x45, 0x4C, 0x46] \<or> ?E ! 4 \<noteq> 2 \<or> ?E ! 5 \<noteq> 1)"
    using len id by simp
  moreover have "\<not> ((64 :: u16) < 64 \<or> (2 :: u16) \<ge> 3)" by simp
  ultimately show ?thesis
    unfolding elf elf64_section_def using heads(3) strs
    by (simp only: if_False and_then_simps)
qed

text \<open>
  The section reader finds in every file that the packaging writer produces exactly the
  \<open>.modinfo\<close> payload that was written, for payloads of any content that fit a 64-bit file.
\<close>

theorem elf_section_round_trip:
  assumes "276 + length m < 2 ^ 64"
  shows "elf64_section (reloc_elf_with_modinfo m) ''.modinfo'' = Ok m"
  using assms by (rule elf_section_modinfo)

theorem elf_section_round_trip_witness:
  "elf64_section stub_android13_5_15 ''.modinfo'' =
    Ok (as_bytes ''vermagic=5.15.0-android13-stub SMP preempt aarch64'' @ [0])"
  unfolding stub_android13_5_15_def by (rule elf_section_round_trip) simp

lemma stub_vermagic: "vermagic_from_elf stub_android13_5_15 = Ok ''5.15.0-android13-stub SMP preempt aarch64''"
proof -
  have "vermagic_from_modinfo (as_bytes ''vermagic=5.15.0-android13-stub SMP preempt aarch64'' @ [0]) =
      Some ''5.15.0-android13-stub SMP preempt aarch64''"
    by code_simp
  moreover have "elf64_section stub_android13_5_15 ''.modinfo'' =
      Ok (as_bytes ''vermagic=5.15.0-android13-stub SMP preempt aarch64'' @ [0])"
    unfolding stub_android13_5_15_def by (rule elf_section_modinfo) simp
  ultimately show ?thesis by (simp add: vermagic_from_elf_def)
qed

end
