(* ===== verification/Sha256.thy ===== *)
theory Sha256
  imports Std_Text Net_Addr
begin

text \<open>
  SHA-256, crates/flux-core/src/sha256.rs: padding, the in-place message schedule, the compression
  loop and the digest, and its lowercase hexadecimal form. Lemmas: the padding is a whole number of
  blocks and determines the message, and the schedule array holds the recurrence of the standard
  whatever the previous block left in it.
\<close>

section \<open>Definitions\<close>

text \<open>The constants in decimal.\<close>

definition SHA_K :: "u32 list" where
  "SHA_K =
    [1116352408, 1899447441, 3049323471, 3921009573, 961987163, 1508970993, 2453635748,
     2870763221, 3624381080, 310598401, 607225278, 1426881987, 1925078388, 2162078206,
     2614888103, 3248222580, 3835390401, 4022224774, 264347078, 604807628, 770255983, 1249150122,
     1555081692, 1996064986, 2554220882, 2821834349, 2952996808, 3210313671, 3336571891,
     3584528711, 113926993, 338241895, 666307205, 773529912, 1294757372, 1396182291, 1695183700,
     1986661051, 2177026350, 2456956037, 2730485921, 2820302411, 3259730800, 3345764771,
     3516065817, 3600352804, 4094571909, 275423344, 430227734, 506948616, 659060556, 883997877,
     958139571, 1322822218, 1537002063, 1747873779, 1955562222, 2024104815, 2227730452,
     2361852424, 2428436474, 2756734187, 3204031479, 3329325298]"

definition SHA_H0 :: "u32 list" where
  "SHA_H0 =
    [1779033703, 3144134277, 1013904242, 2773480762, 1359893119, 2600822924, 528734635, 1541459225]"

function pad_zeros :: "bytes \<Rightarrow> bytes" where
  "pad_zeros padded = (if length padded mod 64 \<noteq> 56 then pad_zeros (padded @ [0]) else padded)"
  by pat_completeness auto
termination
proof (relation "measure (\<lambda>p. (120 - length p mod 64) mod 64)", simp)
  fix p :: bytes
  define r where "r = length p mod 64"
  assume "length p mod 64 \<noteq> 56"
  then have r: "r \<noteq> 56" "r < 64" by (simp_all add: r_def)
  have "Suc (length p) mod 64 = (if r = 63 then 0 else Suc r)" by (simp add: mod_Suc r_def)
  moreover have "(120 - n) mod 64 = (if n \<le> 56 then 56 - n else 120 - n)" if "n < 64" for n :: nat
    using that by (auto simp: mod_if)
  ultimately have "(120 - Suc (length p) mod 64) mod 64 < (120 - length p mod 64) mod 64"
    using r by (auto simp: r_def [symmetric])
  then show "(p @ [0], p) \<in> measure (\<lambda>p. (120 - length p mod 64) mod 64)" by simp
qed

declare pad_zeros.simps [simp del]

definition padded :: "bytes \<Rightarrow> bytes" where
  "padded data = pad_zeros (data @ [0x80]) @ be_bytes 8 (word_of_nat (length data) * 8 :: u64)"

text \<open>\<open>chunks_exact\<close>.\<close>

function chunks_exact :: "nat \<Rightarrow> 'a list \<Rightarrow> 'a list list" where
  "chunks_exact n xs = (if n = 0 \<or> length xs < n then [] else take n xs # chunks_exact n (drop n xs))"
  by pat_completeness auto
termination by (relation "measure (\<lambda>(n, xs). length xs)") auto

declare chunks_exact.simps [simp del]

definition load_block :: "bytes \<Rightarrow> u32 list \<Rightarrow> u32 list" where
  "load_block block w =
    fold (\<lambda>(i, word) w. w[i := from_be_bytes word]) (enumerate 0 (chunks_exact 4 block)) w"

definition schedule_step :: "nat \<Rightarrow> u32 list \<Rightarrow> u32 list" where
  "schedule_step i w =
    (let s0 = word_rotr 7 (w ! (i - 15)) XOR word_rotr 18 (w ! (i - 15)) XOR drop_bit 3 (w ! (i - 15));
         s1 = word_rotr 17 (w ! (i - 2)) XOR word_rotr 19 (w ! (i - 2)) XOR drop_bit 10 (w ! (i - 2))
     in w[i := w ! (i - 16) + s0 + w ! (i - 7) + s1])"

definition schedule :: "bytes \<Rightarrow> u32 list \<Rightarrow> u32 list" where
  "schedule block w = fold schedule_step [16..<64] (load_block block w)"

type_synonym regs = "u32 \<times> u32 \<times> u32 \<times> u32 \<times> u32 \<times> u32 \<times> u32 \<times> u32"

fun round_step :: "u32 list \<Rightarrow> nat \<Rightarrow> regs \<Rightarrow> regs" where
  "round_step w i (a, b, c, d, e, f, g, hh) =
    (let s1 = word_rotr 6 e XOR word_rotr 11 e XOR word_rotr 25 e;
         ch = (e AND f) XOR (NOT e AND g);
         t1 = hh + s1 + ch + SHA_K ! i + w ! i;
         s0 = word_rotr 2 a XOR word_rotr 13 a XOR word_rotr 22 a;
         maj = (a AND b) XOR (a AND c) XOR (b AND c);
         t2 = s0 + maj
     in (t1 + t2, a, b, c, d + t1, e, f, g))"

definition compress :: "u32 list \<Rightarrow> u32 list \<Rightarrow> u32 list" where
  "compress w h =
    (let (a, b, c, d, e, f, g, hh) =
           fold (round_step w) [0..<64] (h ! 0, h ! 1, h ! 2, h ! 3, h ! 4, h ! 5, h ! 6, h ! 7)
     in [h ! 0 + a, h ! 1 + b, h ! 2 + c, h ! 3 + d, h ! 4 + e, h ! 5 + f, h ! 6 + g, h ! 7 + hh])"

definition block_step :: "bytes \<Rightarrow> u32 list \<times> u32 list \<Rightarrow> u32 list \<times> u32 list" where
  "block_step block st =
    (let w = schedule block (fst st) in (w, compress w (snd st)))"

definition digest :: "bytes \<Rightarrow> bytes" where
  "digest data =
    concat (map (be_bytes 4)
      (snd (fold block_step (chunks_exact 64 (padded data)) (replicate 64 0, SHA_H0))))"

definition hex_byte :: "u8 \<Rightarrow> string" where
  "hex_byte b = [hex_digit (unat b div 16), hex_digit (unat b mod 16)]"

definition sha_hex :: "bytes \<Rightarrow> string" where
  "sha_hex d = concat (map hex_byte d)"

section \<open>Padding\<close>

lemma pad_zeros_mod: "length (pad_zeros p) mod 64 = 56"
  by (induction p rule: pad_zeros.induct) (subst pad_zeros.simps, auto)

lemma pad_zeros_append: "\<exists>k<64. pad_zeros p = p @ replicate k 0"
proof -
  have "\<exists>k. pad_zeros p = p @ replicate k 0 \<and> k = (120 - length p mod 64) mod 64"
  proof (induction p rule: pad_zeros.induct)
    case (1 p)
    define r where "r = length p mod 64"
    have r: "r < 64" by (simp add: r_def)
    have next_r: "length (p @ [0 :: u8]) mod 64 = (if r = 63 then 0 else Suc r)"
      by (simp add: mod_Suc r_def)
    have q: "(120 - n) mod 64 = (if n \<le> 56 then 56 - n else 120 - n)" if "n < 64" for n :: nat
      using that by (auto simp: mod_if)
    show ?case
    proof (cases "r = 56")
      case True
      then show ?thesis using q [of 56] by (simp add: pad_zeros.simps [of p] r_def)
    next
      case False
      then obtain k where k: "pad_zeros (p @ [0]) = (p @ [0]) @ replicate k 0"
        "k = (120 - length (p @ [0 :: u8]) mod 64) mod 64"
        using 1 r_def by auto
      have "Suc k = (120 - r) mod 64"
        using k(2) False r unfolding next_r by (auto simp: q)
      moreover have "pad_zeros p = p @ replicate (Suc k) 0"
        using False k(1) by (simp add: pad_zeros.simps [of p] r_def)
      ultimately show ?thesis using r_def by auto
    qed
  qed
  then show ?thesis by auto
qed

lemma length_padded: "length (padded data) mod 64 = 0"
proof -
  have "(length (pad_zeros (data @ [0x80])) + 8) mod 64 = 0"
    using pad_zeros_mod [of "data @ [0x80]"] by (metis mod_add_left_eq mod_self numeral_plus_numeral
        semiring_norm(2,3,4,5,6,8) add_num_simps)
  then show ?thesis by (simp add: padded_def)
qed

lemma padded_inj:
  assumes "padded d = padded d'" and "length d < 2 ^ 61" and "length d' < 2 ^ 61"
  shows "d = d'"
proof -
  have len8: "be_bytes 8 (word_of_nat (length d) * 8 :: u64) = be_bytes 8 (word_of_nat (length d') * 8 :: u64)"
    and body: "pad_zeros (d @ [0x80]) = pad_zeros (d' @ [0x80])"
    using assms(1) by (auto simp: padded_def append_eq_append_conv)
  have eq: "(word_of_nat (length d) * 8 :: u64) = word_of_nat (length d') * 8"
    using arg_cong [OF len8, of "from_be_bytes :: bytes \<Rightarrow> u64"] by simp
  have len: "unat (word_of_nat n * 8 :: u64) = n * 8" if "n < 2 ^ 61" for n
    using that by (simp add: unat_word_ariths unat_of_nat)
  have same: "length d = length d'" using arg_cong [OF eq, of unat] len assms(2,3) by simp
  have pre: "take (length x) (pad_zeros (x @ [0x80])) = x" for x
  proof -
    obtain k where "pad_zeros (x @ [0x80]) = (x @ [0x80]) @ replicate k 0"
      using pad_zeros_append by meson
    then show ?thesis by simp
  qed
  have "d = take (length d) (pad_zeros (d @ [0x80]))" by (simp only: pre)
  also have "\<dots> = take (length d') (pad_zeros (d' @ [0x80]))" by (simp only: body same)
  also have "\<dots> = d'" by (rule pre)
  finally show ?thesis .
qed

section \<open>The message schedule\<close>

lemma fold_update_enumerate:
  "n + length xs \<le> length w \<Longrightarrow>
   fold (\<lambda>(i, x) w. w[i := f x]) (enumerate n xs) w = take n w @ map f xs @ drop (n + length xs) w"
proof (induction xs arbitrary: n w)
  case (Cons x xs)
  have "fold (\<lambda>(i, x) w. w[i := f x]) (enumerate n (x # xs)) w =
      take (Suc n) (w[n := f x]) @ map f xs @ drop (Suc n + length xs) (w[n := f x])"
    using Cons.IH [of "Suc n" "w[n := f x]"] Cons.prems by simp
  also have "take (Suc n) (w[n := f x]) = take n w @ [f x]"
    using Cons.prems by (simp add: take_Suc_conv_app_nth)
  finally show ?case by simp
qed simp

lemma chunks_exact_length: "0 < n \<Longrightarrow> length (chunks_exact n xs) = length xs div n"
proof (induction n xs rule: chunks_exact.induct)
  case (1 n xs)
  show ?case
  proof (cases "length xs < n")
    case True
    then show ?thesis by (simp add: chunks_exact.simps [of n xs])
  next
    case False
    then show ?thesis using 1 by (simp add: chunks_exact.simps [of n xs] div_if [of "length xs" n])
  qed
qed

lemma chunks_exact_nth:
  "0 < n \<Longrightarrow> i < length xs div n \<Longrightarrow> chunks_exact n xs ! i = slice (n * i) (n * i + n) xs"
proof (induction n xs arbitrary: i rule: chunks_exact.induct)
  case (1 n xs)
  have ge: "\<not> length xs < n" using "1.prems" by (metis div_less less_zeroE)
  have "length (drop n xs) div n = length xs div n - 1" using ge "1.prems"(1) by (simp add: div_if [of "length xs" n])
  then show ?case
    using 1 ge
    by (cases i) (auto simp: chunks_exact.simps [of n xs] slice_def add.commute)
qed

text \<open>The schedule of FIPS 180-4, 6.2.2 step 1.\<close>

definition sigma0 :: "u32 \<Rightarrow> u32" where
  "sigma0 x = word_rotr 7 x XOR word_rotr 18 x XOR drop_bit 3 x"

definition sigma1 :: "u32 \<Rightarrow> u32" where
  "sigma1 x = word_rotr 17 x XOR word_rotr 19 x XOR drop_bit 10 x"

fun sha_w :: "bytes \<Rightarrow> nat \<Rightarrow> u32" where
  "sha_w M t =
    (if t < 16 then from_be_bytes (slice (4 * t) (4 * t + 4) M)
     else sha_w M (t - 16) + sigma0 (sha_w M (t - 15)) + sha_w M (t - 7) + sigma1 (sha_w M (t - 2)))"

declare sha_w.simps [simp del]

lemma load_block_nth:
  assumes "length block = 64" and "length w = 64" and "t < 16"
  shows "load_block block w ! t = sha_w block t"
proof -
  have "length (chunks_exact 4 block) = 16" using assms(1) by (simp add: chunks_exact_length)
  then have "load_block block w = map from_be_bytes (chunks_exact 4 block) @ drop 16 w"
    using fold_update_enumerate [of 0 "chunks_exact 4 block" w from_be_bytes] assms(2)
    by (simp add: load_block_def)
  then show ?thesis
    using assms \<open>length (chunks_exact 4 block) = 16\<close>
    by (simp add: nth_append chunks_exact_nth sha_w.simps [of block t])
qed

lemma length_load_block: "length (load_block block w) = length w"
proof -
  have "length (fold (\<lambda>(i, x) w. w[i := f x]) es w) = length w" for es and f :: "bytes \<Rightarrow> u32"
    by (induction es arbitrary: w) auto
  then show ?thesis by (simp add: load_block_def)
qed

lemma schedule_steps:
  assumes "\<forall>t<16. w ! t = sha_w M t" and "length w = 64" and "16 \<le> n" and "n \<le> 64"
  shows "length (fold schedule_step [16..<n] w) = 64 \<and>
    (\<forall>t<n. fold schedule_step [16..<n] w ! t = sha_w M t)"
  using assms(3,4)
proof (induction n rule: dec_induct)
  case base
  then show ?case using assms(1,2) by simp
next
  case (step n)
  let ?w = "fold schedule_step [16..<n] w"
  have IH: "length ?w = 64" "\<forall>t<n. ?w ! t = sha_w M t" using step by auto
  have n: "16 \<le> n" "n < 64" using step by auto
  have s: "fold schedule_step [16..<Suc n] w = schedule_step n ?w" using n by simp
  have "schedule_step n ?w = ?w[n := sha_w M n]"
    using IH n by (simp add: schedule_step_def Let_def sha_w.simps [of M n] sigma0_def sigma1_def)
  then show ?case unfolding s using IH n by (auto simp: nth_list_update less_Suc_eq)
qed

text \<open>
  For every 64-byte block the schedule array that the in-place loop computes is the message
  schedule of the standard, whatever an earlier block left in the array.
\<close>

theorem schedule_is_fips:
  assumes "length block = 64" and "length w = 64"
  shows "schedule block w = map (sha_w block) [0..<64]"
proof -
  have "\<forall>t<16. load_block block w ! t = sha_w block t" using load_block_nth assms by blast
  then have "length (schedule block w) = 64 \<and> (\<forall>t<64. schedule block w ! t = sha_w block t)"
    unfolding schedule_def using assms by (intro schedule_steps) (simp_all add: length_load_block)
  then show ?thesis by (intro nth_equalityI) auto
qed

theorem schedule_is_fips_witness:
  "schedule (padded []) (replicate 64 7) = map (sha_w (padded [])) [0..<64]"
proof -
  have "length (padded []) = 64" by code_simp
  then show ?thesis using schedule_is_fips [of "padded []" "replicate 64 7"] by simp
qed

lemma length_compress: "length (compress w h) = 8"
  by (simp add: compress_def split: prod.splits)

lemma length_block_steps: "length (snd (fold block_step bs (w, h))) = 8" if "length h = 8"
proof (cases bs rule: rev_cases)
  case Nil
  then show ?thesis using that by simp
next
  case (snoc cs c)
  then show ?thesis by (simp add: block_step_def Let_def length_compress)
qed

lemma length_digest: "length (digest data) = 32"
proof -
  let ?h = "snd (fold block_step (chunks_exact 64 (padded data)) (replicate 64 0, SHA_H0))"
  have "length ?h = 8" by (rule length_block_steps) (simp add: SHA_H0_def)
  then show ?thesis by (simp add: digest_def length_concat comp_def sum_list_triv)
qed

section \<open>Hexadecimal form\<close>

lemma hex_digit_inj:
  assumes "a < 16" and "b < 16"
  shows "hex_digit a = hex_digit b \<longleftrightarrow> a = b"
proof
  have d: "to_digit 16 (hex_digit a) = Some a" "to_digit 16 (hex_digit b) = Some b"
    using assms by (simp_all add: to_digit_hex_digit)
  assume "hex_digit a = hex_digit b"
  then have "Some a = Some b" unfolding d [symmetric] by (rule arg_cong)
  then show "a = b" by (rule option.inject [THEN iffD1])
qed simp

lemma hex_byte_inj: "hex_byte a = hex_byte b \<longleftrightarrow> a = b"
proof -
  have bound: "unat x < 256" for x :: u8 using unsigned_less [of x, where ?'a = nat] by simp
  have "unat a div 16 < 16" "unat b div 16 < 16" using bound [of a] bound [of b] by auto
  then have "hex_byte a = hex_byte b \<longleftrightarrow> unat a div 16 = unat b div 16 \<and> unat a mod 16 = unat b mod 16"
    by (simp add: hex_byte_def hex_digit_inj)
  also have "\<dots> \<longleftrightarrow> unat a = unat b" by (metis div_mult_mod_eq)
  finally show ?thesis by (simp add: word_unat_eq_iff)
qed

lemma sha_hex_inj: "sha_hex a = sha_hex b \<longleftrightarrow> a = b"
proof (induction a arbitrary: b)
  case Nil
  then show ?case by (cases b) (auto simp: sha_hex_def hex_byte_def)
next
  case (Cons x a)
  show ?case
  proof (cases b)
    case (Cons y c)
    have "sha_hex (x # a) = sha_hex (y # c) \<longleftrightarrow> hex_byte x = hex_byte y \<and> sha_hex a = sha_hex c"
      by (auto simp: sha_hex_def hex_byte_def)
    then show ?thesis using Cons.IH Cons hex_byte_inj \<open>b = y # c\<close> by simp
  qed (auto simp: sha_hex_def hex_byte_def)
qed

text \<open>
  The padding of every message is a whole number of 64-byte blocks that begins with the message,
  and two messages below the 61-bit length limit with the same padding are equal; the digest always
  has 32 bytes and its hexadecimal form 64 characters, and different digests print differently.
\<close>

theorem digest_shape:
  "length (padded data) mod 64 = 0 \<and> take (length data) (padded data) = data \<and>
   (padded data = padded data' \<and> length data < 2 ^ 61 \<and> length data' < 2 ^ 61 \<longrightarrow> data = data') \<and>
   length (digest data) = 32 \<and> length (sha_hex (digest data)) = 64 \<and>
   (sha_hex x = sha_hex y \<longleftrightarrow> x = y)"
proof -
  obtain k where "pad_zeros (data @ [0x80]) = (data @ [0x80]) @ replicate k 0"
    using pad_zeros_append by meson
  then have "take (length data) (padded data) = data" by (simp add: padded_def)
  moreover have "length (sha_hex bs) = 2 * length bs" for bs
    by (induction bs) (auto simp: sha_hex_def hex_byte_def)
  ultimately show ?thesis
    using length_padded padded_inj length_digest sha_hex_inj by auto
qed

theorem digest_shape_witness: "padded [1] \<noteq> padded [2] \<and> length (digest [1]) = 32"
  using digest_shape [of "[1]" "[2]"] by auto

end
