(* ===== verification/Btf.thy ===== *)
theory Btf
  imports Abi
begin

text \<open>
  The hand-written BTF blob of the \<open>tcp_decision\<close> map, crates/flux-core/src/btf.rs. The string table
  is threaded through its insertions. \<open>parse_types\<close> reads the type section as the kernel does.
\<close>

definition BTF_KIND_INT :: u32 where "BTF_KIND_INT = 1"
definition BTF_KIND_ARRAY :: u32 where "BTF_KIND_ARRAY = 3"
definition BTF_KIND_STRUCT :: u32 where "BTF_KIND_STRUCT = 4"
definition BTF_INT_SIGNED :: u32 where "BTF_INT_SIGNED = 1"
definition BTF_MAGIC :: u16 where "BTF_MAGIC = 0xEB9F"
definition BTF_HEADER_LEN :: u32 where "BTF_HEADER_LEN = 24"
definition KEY_TYPE_ID :: u32 where "KEY_TYPE_ID = 1"
definition VALUE_TYPE_ID :: u32 where "VALUE_TYPE_ID = 6"

definition btf_info :: "u32 \<Rightarrow> u32 \<Rightarrow> u32" where
  "btf_info kind vlen = push_bit 24 kind OR (vlen AND 0xFFFF)"

definition btf_int_data :: "u32 \<Rightarrow> u32 \<Rightarrow> u32" where
  "btf_int_data encoding bits = push_bit 24 encoding OR (bits AND 0xFF)"

definition string_table_new :: bytes where
  "string_table_new = [0]"

definition string_table_add :: "bytes \<Rightarrow> string \<Rightarrow> bytes \<times> u32" where
  "string_table_add tbl s = (tbl @ as_bytes s @ [0], word_of_nat (length tbl))"

definition push_type :: "u32 \<Rightarrow> u32 \<Rightarrow> u32 \<Rightarrow> u32 list \<Rightarrow> bytes" where
  "push_type name_off info size_or_type extra =
    le_bytes 4 name_off @ le_bytes 4 info @ le_bytes 4 size_or_type @ concat (map (le_bytes 4) extra)"

definition btf_strings :: "bytes \<times> u32 list" where
  "btf_strings =
    (let (t, s_int) = string_table_add string_table_new ''int'';
         (t, s_uint) = string_table_add t ''unsigned int'';
         (t, s_ull) = string_table_add t ''unsigned long long'';
         (t, s_uchar) = string_table_add t ''unsigned char'';
         (t, s_struct) = string_table_add t ''flux_decision'';
         (t, s_magic) = string_table_add t ''magic'';
         (t, s_mode) = string_table_add t ''mode'';
         (t, s_reserved) = string_table_add t ''reserved'';
         (t, s_generation) = string_table_add t ''generation''
     in (t, [s_int, s_uint, s_ull, s_uchar, s_struct, s_magic, s_mode, s_reserved, s_generation]))"

definition btf_types :: "u32 list \<Rightarrow> bytes" where
  "btf_types ss =
    push_type (ss ! 0) (btf_info BTF_KIND_INT 0) 4 [btf_int_data BTF_INT_SIGNED 32]
    @ push_type (ss ! 1) (btf_info BTF_KIND_INT 0) 4 [btf_int_data 0 32]
    @ push_type (ss ! 2) (btf_info BTF_KIND_INT 0) 8 [btf_int_data 0 64]
    @ push_type (ss ! 3) (btf_info BTF_KIND_INT 0) 1 [btf_int_data 0 8]
    @ push_type 0 (btf_info BTF_KIND_ARRAY 0) 0 [4, KEY_TYPE_ID, 3]
    @ push_type (ss ! 4) (btf_info BTF_KIND_STRUCT 4) 16
        [ss ! 5, 2, 0, ss ! 6, 4, 32, ss ! 7, 5, 40, ss ! 8, 3, 64]"

definition flux_decision_btf :: bytes where
  "flux_decision_btf =
    (let (strings, ss) = btf_strings;
         types = btf_types ss;
         type_len = (word_of_nat (length types) :: u32);
         str_len = (word_of_nat (length strings) :: u32)
     in le_bytes 2 BTF_MAGIC @ [1] @ [0] @ le_bytes 4 BTF_HEADER_LEN @ le_bytes 4 (0 :: u32)
        @ le_bytes 4 type_len @ le_bytes 4 type_len @ le_bytes 4 str_len @ types @ strings)"

text \<open>The packed words as sums, for evaluation.\<close>

lemma packed_word_sum:
  assumes "n \<le> 24"
  shows "push_bit 24 a OR (b AND mask n) = a * 16777216 + (b :: u32) mod 2 ^ n"
proof -
  have "push_bit 24 a OR take_bit n b = push_bit 24 a + take_bit n b"
    using assms by (intro disjunctive_add_eq_or [symmetric] bit_word_eqI) (auto simp: bit_simps)
  then show ?thesis by (simp add: take_bit_eq_mask push_bit_eq_mult take_bit_eq_mod flip: take_bit_eq_mask)
qed

lemma btf_info_code [code]: "btf_info kind vlen = kind * 16777216 + vlen mod 65536"
  using packed_word_sum [of 16 kind vlen] by (simp add: btf_info_def mask_eq_exp_minus_1)

lemma btf_int_data_code [code]: "btf_int_data encoding bits = encoding * 16777216 + bits mod 256"
  using packed_word_sum [of 8 encoding bits] by (simp add: btf_int_data_def mask_eq_exp_minus_1)

section \<open>Reading the blob back\<close>

datatype btf_type =
    Btf_Int string nat nat bool
  | Btf_Array nat nat nat
  | Btf_Struct string nat "(string \<times> nat \<times> nat) list"

definition btf_u32 :: "bytes \<Rightarrow> nat \<Rightarrow> nat" where
  "btf_u32 b i = unat (from_le_bytes (slice i (i + 4) b) :: u32)"

definition btf_name :: "bytes \<Rightarrow> nat \<Rightarrow> string" where
  "btf_name strs off = map char_of_byte (takeWhile (\<lambda>c. c \<noteq> 0) (drop off strs))"

definition btf_members :: "bytes \<Rightarrow> bytes \<Rightarrow> nat \<Rightarrow> (string \<times> nat \<times> nat) list" where
  "btf_members strs b n =
    map (\<lambda>i. (btf_name strs (btf_u32 b (12 * i)), btf_u32 b (12 * i + 4), btf_u32 b (12 * i + 8))) [0..<n]"

text \<open>One type per step; the fuel is the number of types a section of that length can hold.\<close>

fun parse_types :: "nat \<Rightarrow> bytes \<Rightarrow> bytes \<Rightarrow> btf_type list option" where
  "parse_types fuel strs [] = Some []"
| "parse_types 0 strs b = None"
| "parse_types (Suc fuel) strs b =
    (let name = btf_name strs (btf_u32 b 0); info = btf_u32 b 4; sz = btf_u32 b 8;
         kind = info div 2 ^ 24; vlen = info mod 2 ^ 16
     in if kind = 1 then
          map_option ((#) (Btf_Int name sz (btf_u32 b 12 mod 256) (btf_u32 b 12 div 2 ^ 24 mod 2 = 1)))
            (parse_types fuel strs (drop 16 b))
        else if kind = 3 then
          map_option ((#) (Btf_Array (btf_u32 b 12) (btf_u32 b 16) (btf_u32 b 20)))
            (parse_types fuel strs (drop 24 b))
        else if kind = 4 then
          map_option ((#) (Btf_Struct name sz (btf_members strs (drop 12 b) vlen)))
            (parse_types fuel strs (drop (12 + 12 * vlen) b))
        else None)"

definition parse_btf :: "bytes \<Rightarrow> btf_type list option" where
  "parse_btf blob =
    (let hdr = btf_u32 blob 4; ty = btf_u32 blob 12; so = btf_u32 blob 16; sl = btf_u32 blob 20
     in if slice 0 4 blob \<noteq> [0x9F, 0xEB, 1, 0] \<or> hdr + so + sl \<noteq> length blob then None
        else parse_types (ty div 12) (slice (hdr + so) (hdr + so + sl) blob) (slice hdr (hdr + ty) blob))"

text \<open>
  The blob is well-formed BTF whose six types are the four integers, the three-byte array and
  \<open>struct flux_decision\<close>; the key and value type ids name the signed int and the struct, and the
  struct's size and the bit offsets of its members are those of the ABI structure.
\<close>

theorem btf_matches_abi:
  "\<exists>tys. parse_btf flux_decision_btf = Some tys \<and> length tys = 6 \<and>
    tys ! (unat KEY_TYPE_ID - 1) = Btf_Int ''int'' 4 32 True \<and>
    tys ! 4 = Btf_Array 4 1 3 \<and>
    tys ! (unat VALUE_TYPE_ID - 1) =
      Btf_Struct ''flux_decision'' (size_of decision_layout)
        (zip [''magic'', ''mode'', ''reserved'', ''generation'']
           (zip [2, 4, 5, 3] (map (\<lambda>off. 8 * off) (field_offsets 0 decision_layout))))"
proof -
  have "parse_btf flux_decision_btf =
      Some [Btf_Int ''int'' 4 32 True, Btf_Int ''unsigned int'' 4 32 False,
            Btf_Int ''unsigned long long'' 8 64 False, Btf_Int ''unsigned char'' 1 8 False,
            Btf_Array 4 1 3,
            Btf_Struct ''flux_decision'' 16
              [(''magic'', 2, 0), (''mode'', 4, 32), (''reserved'', 5, 40), (''generation'', 3, 64)]]"
    by code_simp
  moreover have "field_offsets 0 decision_layout = [0, 4, 5, 8]" by code_simp
  ultimately show ?thesis by (simp add: KEY_TYPE_ID_def VALUE_TYPE_ID_def layout_simps)
qed

end
