(* ===== verification/Kmod_Uapi.thy ===== *)
theory Kmod_Uapi
  imports Abi
begin

text \<open>
  The userspace mirror of the kernel module's ioctl interface, crates/flux-core/src/kmod_uapi.rs:
  ioctl numbers, the \<open>repr(C)\<close> structures and the packing of the bypass buffer. The kernel's reading
  of that buffer is specified by \<open>decode_bypass\<close>, which follows the layout of the header.
\<close>

section \<open>Ioctl numbers\<close>

definition IOCTL_MAGIC :: u8 where "IOCTL_MAGIC = 70"
definition UID_SLOT_MAX :: nat where "UID_SLOT_MAX = 1024"
definition LPM_MAX :: nat where "LPM_MAX = 65536"
definition SELF_MAX :: nat where "SELF_MAX = 256"

definition IOC_NRBITS :: nat where "IOC_NRBITS = 8"
definition IOC_TYPEBITS :: nat where "IOC_TYPEBITS = 8"
definition IOC_SIZEBITS :: nat where "IOC_SIZEBITS = 14"
definition IOC_NRSHIFT :: nat where "IOC_NRSHIFT = 0"
definition IOC_TYPESHIFT :: nat where "IOC_TYPESHIFT = IOC_NRSHIFT + IOC_NRBITS"
definition IOC_SIZESHIFT :: nat where "IOC_SIZESHIFT = IOC_TYPESHIFT + IOC_TYPEBITS"
definition IOC_DIRSHIFT :: nat where "IOC_DIRSHIFT = IOC_SIZESHIFT + IOC_SIZEBITS"
definition IOC_WRITE :: u32 where "IOC_WRITE = 1"
definition IOC_READ :: u32 where "IOC_READ = 2"

definition ioc :: "u32 \<Rightarrow> u32 \<Rightarrow> u32 \<Rightarrow> u32" where
  "ioc dir nr sz =
    push_bit IOC_DIRSHIFT dir OR push_bit IOC_TYPESHIFT (ucast IOCTL_MAGIC)
    OR push_bit IOC_NRSHIFT nr OR push_bit IOC_SIZESHIFT sz"

definition iow :: "field list \<Rightarrow> u32 \<Rightarrow> u32" where
  "iow ty nr = ioc IOC_WRITE nr (word_of_nat (size_of ty))"

definition ior :: "field list \<Rightarrow> u32 \<Rightarrow> u32" where
  "ior ty nr = ioc IOC_READ nr (word_of_nat (size_of ty))"

section \<open>Structures\<close>

record listeners =
  lis_v4_addr :: u32
  lis_v4_port :: u16
  lis_pad0 :: u16
  lis_v6_addr :: bytes
  lis_v6_port :: u16
  lis_pad1 :: u16

definition listeners_layout :: "field list" where
  "listeners_layout = [f_u32, f_u16, f_u16, f_bytes 16, f_u16, f_u16]"

record uids =
  uids_count :: u32
  uids_slots :: "u32 list"

definition uids_default :: uids where
  "uids_default = \<lparr>uids_count = 0, uids_slots = replicate UID_SLOT_MAX 0\<rparr>"

definition uids_layout :: "field list" where
  "uids_layout = [f_u32, (4 * UID_SLOT_MAX, 4)]"

record kmod_status =
  ks_live :: u32
  ks_steal_ready :: u32
  ks_selected_seen :: u64
  ks_stolen :: u64
  ks_miss_listener :: u64

definition kmod_status_layout :: "field list" where
  "kmod_status_layout = [f_u32, f_u32, f_u64, f_u64, f_u64]"

record bypass_header =
  bh_cidr_mode :: u32
  bh_v4_count :: u32
  bh_v6_count :: u32
  bh_self4_count :: u32
  bh_self6_count :: u32

definition bypass_header_layout :: "field list" where
  "bypass_header_layout = [f_u32, f_u32, f_u32, f_u32, f_u32]"

record pfx4 =
  p4_addr :: u32
  p4_prefixlen :: u8
  p4_tag :: u8
  p4_pad :: bytes

definition pfx4_layout :: "field list" where
  "pfx4_layout = [f_u32, f_u8, f_u8, f_bytes 2]"

record pfx6 =
  p6_addr :: bytes
  p6_prefixlen :: u8
  p6_tag :: u8
  p6_pad :: bytes

definition pfx6_layout :: "field list" where
  "pfx6_layout = [f_bytes 16, f_u8, f_u8, f_bytes 2]"

definition bypass_payload_len :: "nat \<Rightarrow> nat \<Rightarrow> nat \<Rightarrow> nat \<Rightarrow> nat" where
  "bypass_payload_len v4 v6 self4 self6 =
    size_of bypass_header_layout + v4 * size_of pfx4_layout + v6 * size_of pfx6_layout
    + self4 * 4 + self6 * 16"

definition encode_pfx4 :: "pfx4 \<Rightarrow> bytes" where
  "encode_pfx4 p = le_bytes 4 (p4_addr p) @ [p4_prefixlen p] @ [p4_tag p] @ p4_pad p"

definition encode_pfx6 :: "pfx6 \<Rightarrow> bytes" where
  "encode_pfx6 p = p6_addr p @ [p6_prefixlen p] @ [p6_tag p] @ p6_pad p"

definition encode_bypass ::
    "u32 \<Rightarrow> pfx4 list \<Rightarrow> pfx6 list \<Rightarrow> u32 list \<Rightarrow> bytes list \<Rightarrow> bytes" where
  "encode_bypass cidr_mode v4 v6 self4 self6 =
    le_bytes 4 cidr_mode
    @ le_bytes 4 (word_of_nat (length v4) :: u32)
    @ le_bytes 4 (word_of_nat (length v6) :: u32)
    @ le_bytes 4 (word_of_nat (length self4) :: u32)
    @ le_bytes 4 (word_of_nat (length self6) :: u32)
    @ concat (map encode_pfx4 v4)
    @ concat (map encode_pfx6 v6)
    @ concat (map (le_bytes 4) self4)
    @ concat self6"

definition SET_LISTENERS :: u32 where "SET_LISTENERS = iow listeners_layout 1"
definition SET_UIDS :: u32 where "SET_UIDS = iow uids_layout 2"
definition CLEAR_UIDS :: u32 where "CLEAR_UIDS = ioc 0 3 0"
definition GET_STATUS :: u32 where "GET_STATUS = ior kmod_status_layout 4"
definition SET_BYPASS :: u32 where "SET_BYPASS = iow bypass_header_layout 5"

section \<open>The kernel's reading of the bypass buffer\<close>

text \<open>\<open>n\<close> records of \<open>k\<close> bytes each from the front of a buffer.\<close>

fun read_array :: "nat \<Rightarrow> (bytes \<Rightarrow> 'r) \<Rightarrow> nat \<Rightarrow> bytes \<Rightarrow> ('r list \<times> bytes) option" where
  "read_array k rd 0 buf = Some ([], buf)"
| "read_array k rd (Suc n) buf =
    (if length buf < k then None
     else map_option (\<lambda>(rs, rest). (rd (take k buf) # rs, rest)) (read_array k rd n (drop k buf)))"

definition decode_pfx4 :: "bytes \<Rightarrow> pfx4" where
  "decode_pfx4 b =
    \<lparr>p4_addr = from_le_bytes (take 4 b), p4_prefixlen = b ! 4, p4_tag = b ! 5, p4_pad = drop 6 b\<rparr>"

definition decode_pfx6 :: "bytes \<Rightarrow> pfx6" where
  "decode_pfx6 b =
    \<lparr>p6_addr = take 16 b, p6_prefixlen = b ! 16, p6_tag = b ! 17, p6_pad = drop 18 b\<rparr>"

definition decode_bypass ::
    "bytes \<Rightarrow> (u32 \<times> pfx4 list \<times> pfx6 list \<times> u32 list \<times> bytes list) option" where
  "decode_bypass buf =
    (if length buf < 20 then None
     else
       let at = \<lambda>i. unat (from_le_bytes (slice i (i + 4) buf) :: u32)
       in case read_array 8 decode_pfx4 (at 4) (drop 20 buf) of
            None \<Rightarrow> None
          | Some (v4, r1) \<Rightarrow>
              (case read_array 20 decode_pfx6 (at 8) r1 of
                 None \<Rightarrow> None
               | Some (v6, r2) \<Rightarrow>
                   (case read_array 4 from_le_bytes (at 12) r2 of
                      None \<Rightarrow> None
                    | Some (s4, r3) \<Rightarrow>
                        (case read_array 16 id (at 16) r3 of
                           Some (s6, []) \<Rightarrow> Some (from_le_bytes (slice 0 4 buf), v4, v6, s4, s6)
                         | _ \<Rightarrow> None))))"

lemma uapi_sizes [layout_simps]:
  "size_of listeners_layout = 28" "size_of kmod_status_layout = 32"
  "size_of bypass_header_layout = 20" "size_of pfx4_layout = 8" "size_of pfx6_layout = 20"
  by code_simp+

lemma uids_size [layout_simps]: "size_of uids_layout = 4100"
  by (simp add: size_of_def uids_layout_def UID_SLOT_MAX_def struct_align_def align_up_def)

lemma read_array_concat:
  assumes "\<forall>x\<in>set xs. length (enc x) = k \<and> rd (enc x) = x"
  shows "read_array k rd (length xs) (concat (map enc xs) @ rest) = Some (xs, rest)"
  using assms by (induction xs) auto

lemma length_concat_const:
  "\<forall>x\<in>set xs. length (f x) = k \<Longrightarrow> length (concat (map f xs)) = length xs * k"
  by (induction xs) auto

definition pfx4_ok :: "pfx4 \<Rightarrow> bool" where
  "pfx4_ok p \<longleftrightarrow> length (p4_pad p) = 2"

definition pfx6_ok :: "pfx6 \<Rightarrow> bool" where
  "pfx6_ok p \<longleftrightarrow> length (p6_addr p) = 16 \<and> length (p6_pad p) = 2"

lemma decode_encode_pfx4: "pfx4_ok p \<Longrightarrow> length (encode_pfx4 p) = 8 \<and> decode_pfx4 (encode_pfx4 p) = p"
  by (cases p) (simp add: pfx4_ok_def encode_pfx4_def decode_pfx4_def nth_append)

lemma decode_encode_pfx6: "pfx6_ok p \<Longrightarrow> length (encode_pfx6 p) = 20 \<and> decode_pfx6 (encode_pfx6 p) = p"
  by (cases p) (simp add: pfx6_ok_def encode_pfx6_def decode_pfx6_def nth_append)

text \<open>
  For arrays within the 32-bit counts, the bypass buffer has exactly the advertised payload
  length and the kernel's reading of it returns the mode and all four arrays unchanged.
\<close>

theorem encode_bypass_round_trip:
  assumes "list_all pfx4_ok v4" and "list_all pfx6_ok v6" and "list_all (\<lambda>a. length a = 16) self6"
    and "length v4 < 2 ^ 32" and "length v6 < 2 ^ 32" and "length self4 < 2 ^ 32" and "length self6 < 2 ^ 32"
  shows "decode_bypass (encode_bypass mode v4 v6 self4 self6) = Some (mode, v4, v6, self4, self6) \<and>
    length (encode_bypass mode v4 v6 self4 self6) =
      bypass_payload_len (length v4) (length v6) (length self4) (length self6)"
proof -
  have r4: "\<forall>p\<in>set v4. length (encode_pfx4 p) = 8 \<and> decode_pfx4 (encode_pfx4 p) = p"
    and r6: "\<forall>p\<in>set v6. length (encode_pfx6 p) = 20 \<and> decode_pfx6 (encode_pfx6 p) = p"
    and s6: "\<forall>a\<in>set self6. length a = 16 \<and> id a = a"
    using assms decode_encode_pfx4 decode_encode_pfx6 by (auto simp: list_all_iff)
  have s4: "\<forall>a\<in>set self4. length (le_bytes 4 a) = 4 \<and> from_le_bytes (le_bytes 4 a) = a" by simp
  have a6: "read_array 16 id (length self6) (concat self6) = Some (self6, [])"
    using read_array_concat [of self6 id 16 id "[]"] s6 by simp
  have counts: "unat (word_of_nat n :: u32) = n" if "n < 2 ^ 32" for n
    using that by (simp add: unat_of_nat)
  have "decode_bypass (encode_bypass mode v4 v6 self4 self6) = Some (mode, v4, v6, self4, self6)"
    using assms(4-7) read_array_concat [OF r4] read_array_concat [OF r6] read_array_concat [OF s4] a6
    by (simp add: decode_bypass_def encode_bypass_def Let_def slice_def counts del: unat_of_nat)
  moreover have "length (encode_bypass mode v4 v6 self4 self6) =
      bypass_payload_len (length v4) (length v6) (length self4) (length self6)"
    using length_concat_const [of v4 encode_pfx4 8] length_concat_const [of v6 encode_pfx6 20]
      length_concat_const [of self4 "le_bytes 4" 4] length_concat_const [of self6 id 16] r4 r6 s6
    by (simp add: encode_bypass_def bypass_payload_len_def layout_simps)
  ultimately show ?thesis ..
qed

theorem encode_bypass_round_trip_witness:
  "decode_bypass (encode_bypass 1 [\<lparr>p4_addr = 0x0A, p4_prefixlen = 8, p4_tag = 2, p4_pad = [0, 0]\<rparr>] [] [7] []) =
   Some (1, [\<lparr>p4_addr = 0x0A, p4_prefixlen = 8, p4_tag = 2, p4_pad = [0, 0]\<rparr>], [], [7], [])"
  using encode_bypass_round_trip
    [of "[\<lparr>p4_addr = 0x0A, p4_prefixlen = 8, p4_tag = 2, p4_pad = [0, 0]\<rparr>]" "[]" "[]" "[7]" 1]
  by (simp add: pfx4_ok_def)

text \<open>The five ioctl numbers, as the kernel header computes them.\<close>

lemma ioctl_numbers:
  "SET_LISTENERS = 0x401C4601" "SET_UIDS = 0x50044602" "CLEAR_UIDS = 0x4603"
  "GET_STATUS = 0x80204604" "SET_BYPASS = 0x40144605"
  by (simp_all add: SET_LISTENERS_def SET_UIDS_def CLEAR_UIDS_def GET_STATUS_def SET_BYPASS_def iow_def
      ior_def ioc_def layout_simps IOC_DIRSHIFT_def IOC_SIZESHIFT_def IOC_TYPESHIFT_def IOC_NRSHIFT_def
      IOC_NRBITS_def IOC_TYPEBITS_def IOC_SIZEBITS_def IOC_WRITE_def IOC_READ_def IOCTL_MAGIC_def)

lemma uapi_lockstep:
  "UID_SLOT_MAX = unat UID_SELECTED_MAX" "LPM_MAX = unat LPM_MAX_ENTRIES" "SELF_MAX = unat SELF_ADDR_MAX_ENTRIES"
  by (simp_all add: UID_SLOT_MAX_def UID_SELECTED_MAX_def LPM_MAX_def LPM_MAX_ENTRIES_def SELF_MAX_def
      SELF_ADDR_MAX_ENTRIES_def)

end
