(* ===== verification/Wire.thy ===== *)
theory Wire
  imports Snapshot
begin

text \<open>
  The netlink wire format, crates/fluxd/src/netlink/wire.rs: the message builder with nested
  attributes, the attribute parser, the datagram parser, acknowledgements and the assembly of a dump
  that is trusted only with complete evidence. \<open>expect\<close> and \<open>assert!\<close> of the builder are option
  values. The kernel is a sequence of received datagrams; sockets and polling are not modelled.
\<close>

section \<open>Constants and messages\<close>

definition NLMSG_NOOP :: u16 where "NLMSG_NOOP = 1"
definition NLMSG_ERROR :: u16 where "NLMSG_ERROR = 2"
definition NLMSG_DONE :: u16 where "NLMSG_DONE = 3"
definition NLMSG_OVERRUN :: u16 where "NLMSG_OVERRUN = 4"
definition NLM_F_REQUEST :: u16 where "NLM_F_REQUEST = 0x0001"
definition NLM_F_ACK :: u16 where "NLM_F_ACK = 0x0004"
definition NLM_F_ROOT :: u16 where "NLM_F_ROOT = 0x0100"
definition NLM_F_MATCH :: u16 where "NLM_F_MATCH = 0x0200"
definition NLM_F_DUMP :: u16 where "NLM_F_DUMP = NLM_F_ROOT OR NLM_F_MATCH"
definition NLM_F_DUMP_INTR :: u16 where "NLM_F_DUMP_INTR = 0x0010"
definition NLM_F_EXCL :: u16 where "NLM_F_EXCL = 0x0200"
definition NLM_F_CREATE :: u16 where "NLM_F_CREATE = 0x0400"
definition NLA_F_NESTED :: u16 where "NLA_F_NESTED = push_bit 15 1"
definition NLA_TYPE_MASK :: u16 where "NLA_TYPE_MASK = NOT (NLA_F_NESTED OR push_bit 14 1)"
definition DRAIN_MESSAGE_BUDGET :: nat where "DRAIN_MESSAGE_BUDGET = 64"

datatype io_error =
    InvalidData string
  | Os int
  | Io_Interrupted string
  | UnexpectedEof string
  | WouldBlock
  | InvalidInput string
  | NotFound string
  | AddrInUse string
  | TimedOut string
  | Io_Other string

record nl_msg_hdr =
  nh_len :: u32
  nh_kind :: u16
  nh_flags :: u16
  nh_seq :: u32
  nh_pid :: u32

record raw_message =
  rm_kind :: u16
  rm_flags :: u16
  rm_seq :: u32
  rm_pid :: u32
  rm_payload :: bytes

datatype drain_result = Quiet | Changed | Resync

definition align4 :: "nat \<Rightarrow> nat" where
  "align4 n = (n + 3) div 4 * 4"

definition hdr_bytes :: "nl_msg_hdr \<Rightarrow> bytes" where
  "hdr_bytes h = le_bytes 4 (nh_len h) @ le_bytes 2 (nh_kind h) @ le_bytes 2 (nh_flags h)
    @ le_bytes 4 (nh_seq h) @ le_bytes 4 (nh_pid h)"

definition read_hdr :: "bytes \<Rightarrow> io_error + nl_msg_hdr" where
  "read_hdr b =
    (if length b < 16 then Err (InvalidData ''short netlink payload'')
     else Ok \<lparr>nh_len = from_le_bytes (slice 0 4 b), nh_kind = from_le_bytes (slice 4 6 b),
              nh_flags = from_le_bytes (slice 6 8 b), nh_seq = from_le_bytes (slice 8 12 b),
              nh_pid = from_le_bytes (slice 12 16 b)\<rparr>)"

section \<open>The message builder\<close>

record message_builder =
  mb_bytes :: bytes
  mb_nested :: "nat list"

text \<open>\<open>Vec::resize\<close> to a length that is not smaller.\<close>

definition pad4 :: "bytes \<Rightarrow> bytes" where
  "pad4 b = b @ replicate (align4 (length b) - length b) 0"

definition mb_new :: "u16 \<Rightarrow> u16 \<Rightarrow> u32 \<Rightarrow> bytes \<Rightarrow> message_builder" where
  "mb_new kind flags seq payload =
    \<lparr>mb_bytes = hdr_bytes \<lparr>nh_len = 0, nh_kind = kind, nh_flags = flags, nh_seq = seq, nh_pid = 0\<rparr>
                @ payload,
     mb_nested = []\<rparr>"

definition mb_attr :: "u16 \<Rightarrow> bytes \<Rightarrow> message_builder \<Rightarrow> message_builder" where
  "mb_attr kind payload mb =
    mb\<lparr>mb_bytes := pad4 (mb_bytes mb @ le_bytes 2 (word_of_nat (4 + length payload) :: u16)
                           @ le_bytes 2 kind @ payload)\<rparr>"

definition mb_attr_u32 :: "u16 \<Rightarrow> u32 \<Rightarrow> message_builder \<Rightarrow> message_builder" where
  "mb_attr_u32 kind v mb = mb_attr kind (le_bytes 4 v) mb"

definition mb_attr_cstr :: "u16 \<Rightarrow> string \<Rightarrow> message_builder \<Rightarrow> message_builder" where
  "mb_attr_cstr kind v mb = mb_attr kind (as_bytes v @ [0]) mb"

definition mb_begin_nested :: "u16 \<Rightarrow> message_builder \<Rightarrow> message_builder" where
  "mb_begin_nested kind mb =
    mb\<lparr>mb_bytes := mb_bytes mb @ le_bytes 2 (0 :: u16) @ le_bytes 2 (kind OR NLA_F_NESTED),
       mb_nested := length (mb_bytes mb) # mb_nested mb\<rparr>"

definition mb_nested_payload :: "bytes \<Rightarrow> message_builder \<Rightarrow> message_builder" where
  "mb_nested_payload payload mb = mb\<lparr>mb_bytes := mb_bytes mb @ payload\<rparr>"

definition mb_end_nested :: "message_builder \<Rightarrow> message_builder option" where
  "mb_end_nested mb =
    (case mb_nested mb of
       [] \<Rightarrow> None
     | start # rest \<Rightarrow>
         (let b = mb_bytes mb; n = length b - start
          in Some \<lparr>mb_bytes = pad4 (take start b @ le_bytes 2 (word_of_nat n :: u16) @ drop (start + 2) b),
                   mb_nested = rest\<rparr>))"

definition mb_finish :: "message_builder \<Rightarrow> bytes option" where
  "mb_finish mb =
    (if mb_nested mb \<noteq> [] then None
     else Some (le_bytes 4 (word_of_nat (length (mb_bytes mb)) :: u32) @ drop 4 (mb_bytes mb)))"

section \<open>Attributes\<close>

record attr =
  at_kind :: u16
  at_nested :: bool
  at_payload :: bytes

lemma align4_ge: "n \<le> align4 n"
  unfolding align4_def by presburger

function attrs_loop :: "attr list \<Rightarrow> bytes \<Rightarrow> io_error + attr list" where
  "attrs_loop out bytes =
    (if bytes = [] then Ok out
     else if length bytes < 4 then Err (InvalidData ''truncated netlink attribute header'')
     else
       (let len = unat (from_le_bytes (slice 0 2 bytes) :: u16);
            raw_kind = (from_le_bytes (slice 2 4 bytes) :: u16)
        in if len < 4 \<or> len > length bytes then Err (InvalidData ''invalid netlink attribute length'')
           else
             (let out' = out @ [\<lparr>at_kind = raw_kind AND NLA_TYPE_MASK,
                                 at_nested = raw_kind AND NLA_F_NESTED \<noteq> 0,
                                 at_payload = slice 4 len bytes\<rparr>]
              in if align4 len > length bytes then
                   (if len = length bytes then Ok out'
                    else Err (InvalidData ''truncated netlink attribute padding''))
                 else attrs_loop out' (drop (align4 len) bytes))))"
  by pat_completeness auto
termination
proof (relation "measure (\<lambda>(out, bytes). length bytes)", simp)
  fix bytes :: bytes and len :: nat
  assume "bytes \<noteq> []" "\<not> (len < 4 \<or> len > length bytes)"
  then have "0 < align4 len" "bytes \<noteq> []" using align4_ge [of len] by auto
  then show "((x, drop (align4 len) bytes), y, bytes) \<in> measure (\<lambda>(out, bytes). length bytes)" for x y
    by (cases bytes) auto
qed

declare attrs_loop.simps [simp del]

definition attrs :: "bytes \<Rightarrow> io_error + attr list" where
  "attrs bytes = attrs_loop [] bytes"

definition attr_u32 :: "attr \<Rightarrow> io_error + u32" where
  "attr_u32 a =
    (if length (at_payload a) \<noteq> 4 then Err (InvalidData ''netlink u32 attribute has the wrong size'')
     else Ok (from_le_bytes (at_payload a)))"

definition attr_u16 :: "attr \<Rightarrow> io_error + u16" where
  "attr_u16 a =
    (if length (at_payload a) \<noteq> 2 then Err (InvalidData ''netlink u16 attribute has the wrong size'')
     else Ok (from_le_bytes (at_payload a)))"

definition attr_cstr :: "attr \<Rightarrow> io_error + string" where
  "attr_cstr a =
    (if at_payload a = [] \<or> last (at_payload a) \<noteq> 0
     then Err (InvalidData ''netlink string attribute is not NUL-terminated'')
     else if 0 \<in> set (butlast (at_payload a))
     then Err (InvalidData ''netlink string attribute contains an embedded NUL'')
     else ok_or (InvalidData ''netlink string is not UTF-8'') (from_utf8 (butlast (at_payload a))))"

section \<open>Datagrams\<close>

function parse_datagram_loop :: "bytes \<Rightarrow> raw_message list \<Rightarrow> nat \<Rightarrow> io_error + raw_message list" where
  "parse_datagram_loop bytes out offset =
    (if offset \<ge> length bytes then Ok out
     else if length bytes - offset < 16 then Err (InvalidData ''truncated netlink message header'')
     else
       (case read_hdr (drop offset bytes) of
          Inl e \<Rightarrow> Err e
        | Inr header \<Rightarrow>
            (let len = unat (nh_len header)
             in if len < 16 \<or> offset + len > length bytes
                then Err (InvalidData ''invalid netlink message length'')
                else
                  (let out' = out @ [\<lparr>rm_kind = nh_kind header, rm_flags = nh_flags header,
                                      rm_seq = nh_seq header, rm_pid = nh_pid header,
                                      rm_payload = slice (offset + 16) (offset + len) bytes\<rparr>]
                   in if offset + align4 len > length bytes then
                        (if offset + len = length bytes then Ok out'
                         else Err (InvalidData ''truncated netlink message padding''))
                      else parse_datagram_loop bytes out' (offset + align4 len)))))"
  by pat_completeness auto
termination
proof (relation "measure (\<lambda>(bytes, out, offset). length bytes - offset)", simp)
  fix bytes :: bytes and offset len :: nat
  assume "\<not> offset \<ge> length bytes" "\<not> (len < 16 \<or> offset + len > length bytes)"
  then have "offset < length bytes" "0 < align4 len" using align4_ge [of len] by auto
  then show "((bytes, x, offset + align4 len), bytes, y, offset)
      \<in> measure (\<lambda>(bytes, out, offset). length bytes - offset)" for x y
    by simp
qed

declare parse_datagram_loop.simps [simp del]

definition parse_datagram :: "bytes \<Rightarrow> io_error + raw_message list" where
  "parse_datagram bytes = parse_datagram_loop bytes [] 0"

definition saturating_neg :: "32 word \<Rightarrow> int" where
  "saturating_neg e = (if sint e = - (2 ^ 31) then 2 ^ 31 - 1 else - sint e)"

definition parse_ack :: "bytes \<Rightarrow> io_error + unit" where
  "parse_ack payload =
    (if length payload < 4 then Err (InvalidData ''short NLMSG_ERROR payload'')
     else
       (let e = (from_le_bytes (slice 0 4 payload) :: 32 word)
        in if e = 0 then Ok () else Err (Os (saturating_neg e))))"

definition parse_done_status :: "bytes \<Rightarrow> 32 word" where
  "parse_done_status payload =
    (if length payload < 4 then 0 else from_le_bytes (slice 0 4 payload))"

section \<open>Dumps\<close>

datatype dump_feed = NeedMore "raw_message list" | Complete "raw_message list"

definition overrun_error :: io_error where
  "overrun_error = Io_Other ''netlink dump overrun; a full resynchronization is required''"

definition dump_interrupted :: io_error where
  "dump_interrupted = Io_Interrupted ''netlink dump interrupted (NLM_F_DUMP_INTR)''"

definition dump_truncated :: io_error where
  "dump_truncated = UnexpectedEof ''netlink datagram truncated (MSG_TRUNC)''"

definition finish_dump :: "raw_message list \<Rightarrow> raw_message \<Rightarrow> bool \<Rightarrow> io_error + raw_message list" where
  "finish_dump items done_msg truncated =
    (let interrupted = (rm_flags done_msg AND NLM_F_DUMP_INTR \<noteq> 0 \<or>
                        list_ex (\<lambda>m. rm_flags m AND NLM_F_DUMP_INTR \<noteq> 0) items);
         done_status = parse_done_status (rm_payload done_msg)
     in case try_from_parts items interrupted truncated False done_status of
          Inl e \<Rightarrow> Err (InvalidData (incomplete_dump_display e))
        | Inr s \<Rightarrow> Ok (into_inner s))"

fun feed_messages :: "raw_message list \<Rightarrow> raw_message list \<Rightarrow> io_error + dump_feed" where
  "feed_messages items [] = Ok (NeedMore items)"
| "feed_messages items (m # ms) =
    (if rm_kind m = NLMSG_DONE then
       (case finish_dump items m False of Inl e \<Rightarrow> Err e | Inr d \<Rightarrow> Ok (Complete d))
     else if rm_kind m = NLMSG_ERROR then
       (case parse_ack (rm_payload m) of Inl e \<Rightarrow> Err e | Inr _ \<Rightarrow> feed_messages items ms)
     else if rm_kind m = NLMSG_OVERRUN then Err overrun_error
     else if rm_kind m = NLMSG_NOOP then feed_messages items ms
     else if rm_flags m AND NLM_F_DUMP_INTR \<noteq> 0 then Err dump_interrupted
     else feed_messages (items @ [m]) ms)"

definition feed_dump :: "raw_message list \<Rightarrow> raw_message list \<Rightarrow> bool \<Rightarrow> io_error + dump_feed" where
  "feed_dump items messages truncated =
    (if truncated then Err dump_truncated else feed_messages items messages)"

text \<open>\<open>RequestSocket::dump\<close> over the batches that \<open>recv\<close> returns; \<open>None\<close> while more are needed.\<close>

fun dump_batches ::
    "raw_message list \<Rightarrow> (io_error + raw_message list) list \<Rightarrow> (io_error + raw_message list) option" where
  "dump_batches out [] = None"
| "dump_batches out (Inl e # _) = Some (Err e)"
| "dump_batches out (Inr ms # rest) =
    (case feed_dump out ms False of
       Inl e \<Rightarrow> Some (Err e)
     | Inr (NeedMore next) \<Rightarrow> dump_batches next rest
     | Inr (Complete d) \<Rightarrow> Some (Ok d))"

text \<open>
  \<open>RequestSocket::ack\<close> and \<open>RequestSocket::request\<close> over the same batches. The inner loops return
  \<open>None\<close> when the batch ends without a verdict.
\<close>

fun ack_scan :: "raw_message list \<Rightarrow> (io_error + unit) option" where
  "ack_scan [] = None"
| "ack_scan (m # ms) =
    (if rm_kind m = NLMSG_ERROR then Some (parse_ack (rm_payload m))
     else if rm_kind m = NLMSG_OVERRUN then Some (Err overrun_error)
     else ack_scan ms)"

fun ack_batches :: "(io_error + raw_message list) list \<Rightarrow> (io_error + unit) option" where
  "ack_batches [] = None"
| "ack_batches (Inl e # _) = Some (Err e)"
| "ack_batches (Inr ms # rest) =
    (case ack_scan ms of Some r \<Rightarrow> Some r | None \<Rightarrow> ack_batches rest)"

fun request_scan :: "raw_message list \<Rightarrow> (io_error + raw_message) option" where
  "request_scan [] = None"
| "request_scan (m # ms) =
    (if rm_kind m = NLMSG_ERROR then
       (case parse_ack (rm_payload m) of Inl e \<Rightarrow> Some (Err e) | Inr _ \<Rightarrow> request_scan ms)
     else if rm_kind m = NLMSG_OVERRUN then Some (Err overrun_error)
     else if rm_kind m = NLMSG_NOOP then request_scan ms
     else if rm_kind m = NLMSG_DONE then
       Some (Err (InvalidData ''netlink request completed without a response''))
     else Some (Ok m))"

fun request_batches :: "(io_error + raw_message list) list \<Rightarrow> (io_error + raw_message) option" where
  "request_batches [] = None"
| "request_batches (Inl e # _) = Some (Err e)"
| "request_batches (Inr ms # rest) =
    (case request_scan ms of Some r \<Rightarrow> Some r | None \<Rightarrow> request_batches rest)"

text \<open>\<open>RequestSocket::take_pending\<close> and the sequence numbers of requests.\<close>

definition take_pending :: "u32 \<Rightarrow> raw_message list \<Rightarrow> raw_message list \<times> raw_message list" where
  "take_pending seq pending =
    fold (\<lambda>m (matching, leftover).
        if rm_seq m = seq then (matching @ [m], leftover) else (matching, leftover @ [m]))
      pending ([], [])"

definition next_seq :: "u32 \<Rightarrow> u32" where
  "next_seq s = max (s + 1) 1"

text \<open>\<open>RequestSocket::recv_matching\<close> after the datagram has been received.\<close>

fun match_messages ::
    "u32 \<Rightarrow> u32 \<Rightarrow> bool \<Rightarrow> raw_message list \<Rightarrow> raw_message list \<Rightarrow> raw_message list \<Rightarrow>
     (io_error + raw_message list) \<times> raw_message list" where
  "match_messages seq port_id nonblocking pending matching [] = (Ok matching, pending)"
| "match_messages seq port_id nonblocking pending matching (m # ms) =
    (if rm_seq m \<noteq> seq then
       match_messages seq port_id nonblocking (if nonblocking then pending @ [m] else pending) matching ms
     else if rm_pid m \<noteq> 0 \<and> rm_pid m \<noteq> port_id then
       (Err (InvalidData ''netlink response came from an unexpected port''), pending)
     else match_messages seq port_id nonblocking pending (matching @ [m]) ms)"

text \<open>
  \<open>drain_messages\<close> over the results of \<open>recv_datagram\<close>, each an error or a datagram with its
  truncation bit; \<open>None\<close> when the sequence ends first, which a nonblocking socket answers with
  \<open>WouldBlock\<close>. \<open>ENOBUFS\<close> is error 105.
\<close>

fun drain_datagram :: "raw_message list \<Rightarrow> raw_message list \<Rightarrow> raw_message list option" where
  "drain_datagram messages [] = Some messages"
| "drain_datagram messages (m # ms) =
    (if rm_kind m = NLMSG_OVERRUN then None
     else if length (messages @ [m]) \<ge> DRAIN_MESSAGE_BUDGET then None
     else drain_datagram (messages @ [m]) ms)"

fun drain_loop ::
    "raw_message list \<Rightarrow> (io_error + (bytes \<times> bool)) list \<Rightarrow>
     (io_error + (raw_message list \<times> bool)) option" where
  "drain_loop messages [] = None"
| "drain_loop messages (Inl e # rest) =
    (if e = WouldBlock then Some (Ok (messages, False))
     else if e = Os 105 then Some (Ok ([], True))
     else Some (Err e))"
| "drain_loop messages (Inr (bytes, truncated) # rest) =
    (if truncated then Some (Ok ([], True))
     else case parse_datagram bytes of
            Inl e \<Rightarrow> Some (Err e)
          | Inr ms \<Rightarrow>
              (case drain_datagram messages ms of
                 None \<Rightarrow> Some (Ok ([], True))
               | Some messages' \<Rightarrow> drain_loop messages' rest))"

definition nonblocking_drain ::
    "(io_error + (bytes \<times> bool)) list \<Rightarrow> (io_error + drain_result) option" where
  "nonblocking_drain stream =
    map_option
      (\<lambda>r. case r of
             Inl e \<Rightarrow> Err e
           | Inr (messages, resync) \<Rightarrow>
               Ok (if resync then Resync else if messages = [] then Quiet else Changed))
      (drain_loop [] stream)"

section \<open>Alignment\<close>

lemma align4_dvd [simp]: "4 dvd align4 n"
  by (simp add: align4_def)

lemma align4_add: "4 dvd a \<Longrightarrow> align4 (a + b) = a + align4 b"
  unfolding align4_def by presburger

lemma align4_id: "4 dvd n \<Longrightarrow> align4 n = n"
  using align4_add [of n 0] by (simp add: align4_def)

lemma length_pad4 [simp, layout_simps]: "length (pad4 b) = align4 (length b)"
  using align4_ge [of "length b"] by (simp add: pad4_def)

lemma pad4_append: "4 dvd length a \<Longrightarrow> pad4 (a @ b) = a @ pad4 b"
  by (simp add: pad4_def align4_add)

lemma dvd_length_concat:
  "(\<And>x. x \<in> set xs \<Longrightarrow> k dvd length (f x)) \<Longrightarrow> k dvd length (concat (map f xs))"
  by (induction xs) auto

section \<open>Attribute trees\<close>

text \<open>
  The tree a sequence of builder calls describes, the calls themselves (\<open>emit\<close>) and what a reader of
  one level sees (\<open>view\<close>). \<open>fits\<close>: every length fits the 16-bit field and no type uses a flag bit.
\<close>

datatype nla = Leaf u16 bytes | Nest u16 "nla list"

fun emit :: "nla \<Rightarrow> message_builder \<Rightarrow> message_builder option"
  and emit_all :: "nla list \<Rightarrow> message_builder \<Rightarrow> message_builder option" where
  "emit (Leaf k p) mb = Some (mb_attr k p mb)"
| "emit (Nest k ts) mb =
    (case emit_all ts (mb_begin_nested k mb) of None \<Rightarrow> None | Some mb' \<Rightarrow> mb_end_nested mb')"
| "emit_all [] mb = Some mb"
| "emit_all (t # ts) mb = (case emit t mb of None \<Rightarrow> None | Some mb' \<Rightarrow> emit_all ts mb')"

definition nla_frame :: "u16 \<Rightarrow> bytes \<Rightarrow> bytes" where
  "nla_frame raw_kind p =
    pad4 (le_bytes 2 (word_of_nat (4 + length p) :: u16) @ le_bytes 2 raw_kind @ p)"

fun nla_bytes :: "nla \<Rightarrow> bytes" where
  "nla_bytes (Leaf k p) = nla_frame k p"
| "nla_bytes (Nest k ts) = nla_frame (k OR NLA_F_NESTED) (concat (map nla_bytes ts))"

fun view :: "nla \<Rightarrow> attr" where
  "view (Leaf k p) = \<lparr>at_kind = k, at_nested = False, at_payload = p\<rparr>"
| "view (Nest k ts) = \<lparr>at_kind = k, at_nested = True, at_payload = concat (map nla_bytes ts)\<rparr>"

fun fits :: "nla \<Rightarrow> bool" where
  "fits (Leaf k p) \<longleftrightarrow> k AND NLA_TYPE_MASK = k \<and> 4 + length p < 2 ^ 16"
| "fits (Nest k ts) \<longleftrightarrow> k AND NLA_TYPE_MASK = k
    \<and> 4 + length (concat (map nla_bytes ts)) < 2 ^ 16 \<and> list_all fits ts"

lemma dvd_nla_bytes [simp]: "4 dvd length (nla_bytes t)"
  by (cases t) (simp_all add: nla_frame_def)

lemma nla_frame_append:
  "4 dvd length a \<Longrightarrow>
   pad4 (a @ le_bytes 2 (word_of_nat (4 + length p) :: u16) @ le_bytes 2 k @ p) = a @ nla_frame k p"
  by (simp add: nla_frame_def pad4_append)

lemma end_nested_frame:
  assumes "4 dvd length (mb_bytes mb)"
    and "mb_nested mb' = length (mb_bytes mb) # mb_nested mb"
    and "mb_bytes mb' = mb_bytes mb @ le_bytes 2 (0 :: u16) @ le_bytes 2 k @ p"
  shows "mb_end_nested mb' = Some (mb\<lparr>mb_bytes := mb_bytes mb @ nla_frame k p\<rparr>)"
  using assms by (simp add: mb_end_nested_def nla_frame_append [symmetric])

lemma emit_appends:
  "4 dvd length (mb_bytes mb) \<Longrightarrow>
     emit t mb = Some (mb\<lparr>mb_bytes := mb_bytes mb @ nla_bytes t\<rparr>)"
  "4 dvd length (mb_bytes mb) \<Longrightarrow>
     emit_all ts mb = Some (mb\<lparr>mb_bytes := mb_bytes mb @ concat (map nla_bytes ts)\<rparr>)"
proof (induction t mb and ts mb rule: emit_emit_all.induct)
  case (1 k p mb)
  then show ?case using nla_frame_append [of "mb_bytes mb" p k] by (simp add: mb_attr_def)
next
  case (2 k ts mb)
  then have "emit_all ts (mb_begin_nested k mb) =
      Some (mb_begin_nested k mb \<lparr>mb_bytes := mb_bytes (mb_begin_nested k mb)
              @ concat (map nla_bytes ts)\<rparr>)"
    by (simp add: mb_begin_nested_def)
  then show ?case
    using 2 by (simp add: end_nested_frame [where mb = mb and k = "k OR NLA_F_NESTED"
          and p = "concat (map nla_bytes ts)"] mb_begin_nested_def)
qed simp_all

lemma NLA_F_NESTED_nonzero [simp]: "NLA_F_NESTED \<noteq> 0"
  by (simp add: NLA_F_NESTED_def push_bit_eq_mult)

lemma kind_bits:
  "k AND NLA_TYPE_MASK = k \<Longrightarrow> k AND NLA_F_NESTED = 0 \<and>
     (k OR NLA_F_NESTED) AND NLA_TYPE_MASK = k \<and> (k OR NLA_F_NESTED) AND NLA_F_NESTED \<noteq> 0"
proof (intro conjI)
  assume k: "k AND NLA_TYPE_MASK = k"
  have c: "NLA_TYPE_MASK AND NLA_F_NESTED = 0" "NLA_F_NESTED AND NLA_TYPE_MASK = 0"
    by (simp_all add: NLA_TYPE_MASK_def NLA_F_NESTED_def push_bit_eq_mult)
  show n: "k AND NLA_F_NESTED = 0"
    by (subst k [symmetric]) (simp add: and.assoc c)
  show "(k OR NLA_F_NESTED) AND NLA_TYPE_MASK = k"
    by (simp add: bit.conj_disj_distrib2 k c)
  show "(k OR NLA_F_NESTED) AND NLA_F_NESTED \<noteq> 0"
    by (simp add: bit.conj_disj_distrib2 n NLA_F_NESTED_nonzero)
qed

lemma attrs_loop_frame:
  assumes "4 + length p < 2 ^ 16"
  shows "attrs_loop acc (nla_frame k p @ rest) =
    attrs_loop (acc @ [\<lparr>at_kind = k AND NLA_TYPE_MASK, at_nested = k AND NLA_F_NESTED \<noteq> 0,
                        at_payload = p\<rparr>]) rest"
proof -
  let ?n = "4 + length p"
  let ?h = "le_bytes 2 (word_of_nat ?n :: u16) @ le_bytes 2 k @ p"
  define z :: bytes where "z = replicate (align4 ?n - ?n) 0"
  have h: "length ?h = ?n" by simp
  have z: "nla_frame k p = ?h @ z" "length (?h @ z) = align4 ?n"
    unfolding nla_frame_def pad4_def h z_def using align4_ge [of ?n] h by simp_all
  have n: "unat (word_of_nat ?n :: u16) = ?n"
    by (rule unat_of_nat_small) (use assms in simp)
  define b where "b = ?h @ z @ rest"
  have s: "slice 0 2 b = le_bytes 2 (word_of_nat ?n :: u16)" "slice 2 4 b = le_bytes 2 k"
    "slice 4 ?n b = p" "drop (align4 ?n) b = rest"
    using z(2) by (simp_all add: b_def slice_append slice_def)
  have l: "align4 ?n \<le> length b" using z(2) by (simp add: b_def)
  then have "4 \<le> length b" "?n \<le> length b" "b \<noteq> []" using align4_ge [of ?n] by auto
  with l have "attrs_loop acc b =
    attrs_loop (acc @ [\<lparr>at_kind = k AND NLA_TYPE_MASK, at_nested = k AND NLA_F_NESTED \<noteq> 0,
                        at_payload = p\<rparr>]) rest"
    by (subst attrs_loop.simps) (simp add: Let_def s n del: of_nat_add)
  then show ?thesis by (simp add: z(1) b_def)
qed

lemma attrs_loop_trees:
  "list_all fits ts \<Longrightarrow> attrs_loop acc (concat (map nla_bytes ts)) = Ok (acc @ map view ts)"
proof (induction ts arbitrary: acc)
  case Nil
  then show ?case by (simp add: attrs_loop.simps)
next
  case (Cons t ts)
  then show ?case by (cases t) (simp_all add: attrs_loop_frame kind_bits)
qed

lemma attrs_of_trees: "list_all fits ts \<Longrightarrow> attrs (concat (map nla_bytes ts)) = Ok (map view ts)"
  by (simp add: attrs_def attrs_loop_trees)

section \<open>Datagrams of messages\<close>

definition message_bytes :: "raw_message \<Rightarrow> bytes" where
  "message_bytes m =
    hdr_bytes \<lparr>nh_len = word_of_nat (16 + length (rm_payload m)), nh_kind = rm_kind m,
               nh_flags = rm_flags m, nh_seq = rm_seq m, nh_pid = rm_pid m\<rparr> @ rm_payload m"

definition message_fits :: "raw_message \<Rightarrow> bool" where
  "message_fits m \<longleftrightarrow> 16 + length (rm_payload m) < 2 ^ 32"

lemma length_hdr_bytes [simp, layout_simps]: "length (hdr_bytes h) = 16"
  by (simp add: hdr_bytes_def)

lemma read_hdr_bytes: "read_hdr (hdr_bytes h @ rest) = Ok h"
  by (simp add: read_hdr_def hdr_bytes_def slice_append slice_def)

lemma length_message_bytes [simp, layout_simps]:
  "length (message_bytes m) = 16 + length (rm_payload m)"
  by (simp add: message_bytes_def)

text \<open>One step of the datagram loop at a message followed by padding or by the end.\<close>

lemma parse_step:
  assumes "message_fits m" and "length z = align4 (length (message_bytes m)) - length (message_bytes m)"
  shows "parse_datagram_loop (a @ message_bytes m @ z @ rest) out (length a) =
    parse_datagram_loop (a @ message_bytes m @ z @ rest) (out @ [m])
      (length a + align4 (length (message_bytes m)))"
proof -
  let ?n = "16 + length (rm_payload m)"
  have n: "unat (word_of_nat ?n :: u32) = ?n"
    by (rule unat_of_nat_small) (use assms(1) in \<open>simp add: message_fits_def\<close>)
  have s: "slice (length a + 16) (length a + ?n) (a @ message_bytes m @ z @ rest) = rm_payload m"
    by (simp add: slice_def message_bytes_def)
  have l: "align4 ?n \<le> length (message_bytes m @ z @ rest)"
    using assms(2) align4_ge [of ?n] by simp
  have m: "\<lparr>rm_kind = rm_kind m, rm_flags = rm_flags m, rm_seq = rm_seq m, rm_pid = rm_pid m,
      rm_payload = rm_payload m\<rparr> = m" by simp
  show ?thesis
    using n s l by (subst parse_datagram_loop.simps)
      (simp add: message_bytes_def read_hdr_bytes Let_def m)
qed

lemma parse_padded:
  "list_all message_fits ms \<Longrightarrow>
   parse_datagram_loop (a @ concat (map (\<lambda>m. pad4 (message_bytes m)) ms) @ rest) out (length a) =
   parse_datagram_loop (a @ concat (map (\<lambda>m. pad4 (message_bytes m)) ms) @ rest) (out @ ms)
     (length a + length (concat (map (\<lambda>m. pad4 (message_bytes m)) ms)))"
proof (induction ms arbitrary: a out)
  case (Cons m ms)
  let ?tail = "concat (map (\<lambda>m. pad4 (message_bytes m)) ms) @ rest"
  have "parse_datagram_loop (a @ pad4 (message_bytes m) @ ?tail) out (length a) =
      parse_datagram_loop ((a @ pad4 (message_bytes m)) @ ?tail) (out @ [m]) (length (a @ pad4 (message_bytes m)))"
    using Cons.prems parse_step [of m "replicate (align4 (length (message_bytes m)) - length (message_bytes m)) 0"
        a ?tail out] by (simp add: pad4_def align4_ge)
  then show ?case
    using Cons.IH [of "a @ pad4 (message_bytes m)" "out @ [m]"] Cons.prems by (simp add: add.assoc)
qed simp

lemma parse_end: "length b \<le> n \<Longrightarrow> parse_datagram_loop b out n = Ok out"
  by (simp add: parse_datagram_loop.simps)

lemma parse_last:
  assumes "message_fits m"
  shows "parse_datagram_loop (a @ message_bytes m) out (length a) = Ok (out @ [m])"
proof -
  let ?n = "16 + length (rm_payload m)"
  have n: "unat (word_of_nat ?n :: u32) = ?n"
    by (rule unat_of_nat_small) (use assms in \<open>simp add: message_fits_def\<close>)
  have s: "slice (length a + 16) (length a + ?n) (a @ message_bytes m) = rm_payload m"
    by (simp add: slice_def message_bytes_def)
  have m: "\<lparr>rm_kind = rm_kind m, rm_flags = rm_flags m, rm_seq = rm_seq m, rm_pid = rm_pid m,
      rm_payload = rm_payload m\<rparr> = m" by simp
  show ?thesis
    using n s align4_ge [of ?n] by (subst parse_datagram_loop.simps)
      (simp add: message_bytes_def read_hdr_bytes Let_def m parse_end)
qed

lemma finish_is_message:
  assumes "mb_bytes mb = mb_bytes (mb_new kind flags seq payload) @ body" and "mb_nested mb = []"
  shows "mb_finish mb = Some (message_bytes \<lparr>rm_kind = kind, rm_flags = flags, rm_seq = seq, rm_pid = 0,
    rm_payload = payload @ body\<rparr>)"
  using assms by (simp add: mb_finish_def mb_new_def message_bytes_def hdr_bytes_def add.assoc)

text \<open>
  A request built with balanced attribute calls is one well-formed netlink message: its length
  field is right, the datagram parser returns exactly that message, and the attribute parser returns
  the attributes of every level in order with their types, nesting flags and payloads.
\<close>

theorem build_then_parse:
  assumes "list_all fits ts" and "4 dvd length payload"
    and "16 + length (payload @ concat (map nla_bytes ts)) < 2 ^ 32"
  shows "\<exists>mb bs msg. emit_all ts (mb_new kind flags seq payload) = Some mb \<and> mb_finish mb = Some bs
    \<and> parse_datagram bs = Ok [msg]
    \<and> rm_kind msg = kind \<and> rm_flags msg = flags \<and> rm_seq msg = seq \<and> rm_pid msg = 0
    \<and> take (length payload) (rm_payload msg) = payload
    \<and> attrs (drop (length payload) (rm_payload msg)) = Ok (map view ts)
    \<and> (\<forall>k us. Nest k us \<in> set ts \<longrightarrow> attrs (at_payload (view (Nest k us))) = Ok (map view us))"
proof -
  let ?body = "concat (map nla_bytes ts)"
  let ?mb = "mb_new kind flags seq payload"
  let ?msg = "\<lparr>rm_kind = kind, rm_flags = flags, rm_seq = seq, rm_pid = 0, rm_payload = payload @ ?body\<rparr>"
  have e: "emit_all ts ?mb = Some (?mb\<lparr>mb_bytes := mb_bytes ?mb @ ?body\<rparr>)"
    using assms(2) by (intro emit_appends(2)) (simp add: mb_new_def)
  have f: "mb_finish (?mb\<lparr>mb_bytes := mb_bytes ?mb @ ?body\<rparr>) = Some (message_bytes ?msg)"
    by (rule finish_is_message) (simp_all add: mb_new_def)
  have p: "parse_datagram (message_bytes ?msg) = Ok [?msg]"
    using parse_last [of ?msg "[]" "[]"] assms(3) by (simp add: parse_datagram_def message_fits_def)
  have n: "attrs (at_payload (view (Nest k us))) = Ok (map view us)" if "Nest k us \<in> set ts" for k us
    using assms(1) that attrs_of_trees by (fastforce simp: list_all_iff)
  show ?thesis using e f p n assms(1) by (intro exI conjI) (auto simp: attrs_of_trees)
qed

theorem build_then_parse_witness:
  "\<exists>mb bs msg. emit_all [Leaf 3 [102, 0], Nest 18 [Leaf 1 [118, 101, 116, 104, 0]]]
       (mb_new 16 NLM_F_REQUEST 7 (replicate 16 0)) = Some mb
    \<and> mb_finish mb = Some bs \<and> parse_datagram bs = Ok [msg]
    \<and> attrs (drop 16 (rm_payload msg)) = Ok (map view [Leaf 3 [102, 0], Nest 18 [Leaf 1 [118, 101, 116, 104, 0]]])"
proof -
  let ?ts = "[Leaf 3 [102, 0], Nest 18 [Leaf 1 [118, 101, 116, 104, 0]]]"
  have "list_all fits ?ts" "16 + length (replicate 16 (0 :: u8) @ concat (map nla_bytes ?ts)) < 2 ^ 32"
    by code_simp+
  then show ?thesis
    using build_then_parse [of ?ts "replicate 16 0" 16 NLM_F_REQUEST 7] by auto
qed

text \<open>
  Parsing a datagram of messages that are each padded to four bytes, the last one with or without
  its padding, returns exactly these messages in order.
\<close>

theorem parse_datagram_round_trip:
  assumes "list_all message_fits ms" and "message_fits m"
  shows "parse_datagram (concat (map (\<lambda>m. pad4 (message_bytes m)) ms)) = Ok ms \<and>
    parse_datagram (concat (map (\<lambda>m. pad4 (message_bytes m)) ms) @ message_bytes m) = Ok (ms @ [m])"
  using parse_padded [OF assms(1), of "[]" "[]" "[]"] parse_padded [OF assms(1), of "[]" "message_bytes m" "[]"]
    parse_last [OF assms(2), of "concat (map (\<lambda>m. pad4 (message_bytes m)) ms)" ms]
  by (simp add: parse_datagram_def parse_end)

theorem parse_datagram_round_trip_witness:
  "parse_datagram (concat (map (\<lambda>m. pad4 (message_bytes m))
     [\<lparr>rm_kind = 16, rm_flags = 2, rm_seq = 9, rm_pid = 0, rm_payload = [1, 2, 3]\<rparr>])) =
     Ok [\<lparr>rm_kind = 16, rm_flags = 2, rm_seq = 9, rm_pid = 0, rm_payload = [1, 2, 3]\<rparr>]"
  using parse_datagram_round_trip [of
      "[\<lparr>rm_kind = 16, rm_flags = 2, rm_seq = 9, rm_pid = 0, rm_payload = [1, 2, 3]\<rparr>]"
      "\<lparr>rm_kind = 3, rm_flags = 2, rm_seq = 9, rm_pid = 0, rm_payload = [0, 0, 0, 0]\<rparr>"]
  by (simp add: message_fits_def)

section \<open>Trust in dumps\<close>

text \<open>
  What the assembly promises: the data messages of a stream, and the messages it may pass over or keep
  without losing trust.
\<close>

definition is_data :: "raw_message \<Rightarrow> bool" where
  "is_data m \<longleftrightarrow> rm_kind m \<notin> {NLMSG_NOOP, NLMSG_ERROR, NLMSG_DONE, NLMSG_OVERRUN}"

definition interrupted :: "raw_message \<Rightarrow> bool" where
  "interrupted m \<longleftrightarrow> rm_flags m AND NLM_F_DUMP_INTR \<noteq> 0"

definition harmless :: "raw_message \<Rightarrow> bool" where
  "harmless m \<longleftrightarrow> rm_kind m = NLMSG_NOOP
    \<or> rm_kind m = NLMSG_ERROR \<and> parse_ack (rm_payload m) = Ok ()
    \<or> is_data m \<and> \<not> interrupted m"

definition clean_done :: "raw_message \<Rightarrow> bool" where
  "clean_done m \<longleftrightarrow> rm_kind m = NLMSG_DONE \<and> \<not> interrupted m \<and> parse_done_status (rm_payload m) = 0"

lemma msg_kinds_distinct:
  "NLMSG_ERROR \<noteq> NLMSG_DONE" "NLMSG_OVERRUN \<noteq> NLMSG_DONE" "NLMSG_NOOP \<noteq> NLMSG_DONE"
  "NLMSG_OVERRUN \<noteq> NLMSG_ERROR" "NLMSG_NOOP \<noteq> NLMSG_ERROR" "NLMSG_NOOP \<noteq> NLMSG_OVERRUN"
  by (simp_all add: NLMSG_ERROR_def NLMSG_DONE_def NLMSG_OVERRUN_def NLMSG_NOOP_def)

lemma finish_dump_eq_Ok:
  "finish_dump items m truncated = Ok d \<longleftrightarrow>
     \<not> truncated \<and> \<not> interrupted m \<and> (\<forall>x\<in>set items. \<not> interrupted x)
     \<and> parse_done_status (rm_payload m) = 0 \<and> d = items"
  by (auto simp: finish_dump_def interrupted_def Let_def try_from_parts_eq_Ok list_ex_iff
      try_from_parts_def)

lemma harmless_step:
  "harmless m \<Longrightarrow> feed_messages items (m # ms) = feed_messages (items @ filter is_data [m]) ms"
  by (auto simp: harmless_def is_data_def interrupted_def msg_kinds_distinct)

lemma harmless_run:
  "list_all harmless pre \<Longrightarrow> feed_messages items (pre @ ms) = feed_messages (items @ filter is_data pre) ms"
proof (induction pre arbitrary: items)
  case (Cons m pre)
  then show ?case using harmless_step [of m items "pre @ ms"] by (simp del: feed_messages.simps split: if_splits)
qed simp

text \<open>A message that is not harmless ends the assembly, with an error unless it is a clean end.\<close>

lemma harmful_step:
  "\<not> harmless m \<Longrightarrow> \<forall>x\<in>set items. \<not> interrupted x \<Longrightarrow>
   (clean_done m \<and> feed_messages items (m # ms) = Ok (Complete items)) \<or>
   (\<not> clean_done m \<and> (\<exists>e. feed_messages items (m # ms) = Err e))"
proof (cases "rm_kind m = NLMSG_DONE")
  case True
  moreover assume "\<forall>x\<in>set items. \<not> interrupted x"
  ultimately have "finish_dump items m False = Ok d \<longleftrightarrow> clean_done m \<and> d = items" for d
    by (simp add: finish_dump_eq_Ok clean_done_def)
  with True show ?thesis by (cases "finish_dump items m False") auto
next
  case False
  moreover assume "\<not> harmless m"
  ultimately show ?thesis
    by (cases "parse_ack (rm_payload m)")
      (auto simp: harmless_def is_data_def clean_done_def interrupted_def)
qed

lemma kept_not_interrupted: "list_all harmless pre \<Longrightarrow> x \<in> set (filter is_data pre) \<Longrightarrow> \<not> interrupted x"
  by (auto simp: list_all_iff harmless_def is_data_def)

lemma split_harmless:
  obtains "list_all harmless ms" | pre m post where "ms = pre @ m # post" "list_all harmless pre" "\<not> harmless m"
proof (cases "\<exists>x\<in>set ms. \<not> harmless x")
  case True
  then obtain pre m post where "ms = pre @ m # post" "\<not> harmless m" "\<forall>y\<in>set pre. \<not> \<not> harmless y"
    by (rule split_list_first_propE)
  then show thesis by (intro that(2)) (simp_all add: list_all_iff)
qed (simp add: that(1) list_all_iff)

lemma feed_messages_cases:
  assumes "\<forall>x\<in>set items. \<not> interrupted x"
  shows "(list_all harmless ms \<and> feed_messages items ms = Ok (NeedMore (items @ filter is_data ms))) \<or>
    (\<exists>pre m post. ms = pre @ m # post \<and> list_all harmless pre \<and> \<not> harmless m
       \<and> (clean_done m \<and> feed_messages items ms = Ok (Complete (items @ filter is_data pre))
          \<or> \<not> clean_done m \<and> (\<exists>e. feed_messages items ms = Err e)))"
proof (cases rule: split_harmless [of ms])
  case 1
  then show ?thesis using harmless_run [of ms items "[]"] by simp
next
  case (2 pre m post)
  have "\<forall>x\<in>set (items @ filter is_data pre). \<not> interrupted x"
    using assms kept_not_interrupted [OF 2(2)] by auto
  then show ?thesis
    using 2 harmful_step [of m "items @ filter is_data pre" post] harmless_run [OF 2(2), of items "m # post"]
    by (metis (no_types, lifting))
qed

lemma clean_done_not_harmless: "clean_done m \<Longrightarrow> \<not> harmless m"
  using msg_kinds_distinct by (auto simp: clean_done_def harmless_def is_data_def)

lemma feed_messages_complete_iff:
  assumes "\<forall>x\<in>set items. \<not> interrupted x"
  shows "feed_messages items ms = Ok (Complete d) \<longleftrightarrow>
    (\<exists>pre m post. ms = pre @ m # post \<and> list_all harmless pre \<and> clean_done m
       \<and> d = items @ filter is_data pre)" (is "?l \<longleftrightarrow> ?r")
proof
  assume ?l
  then show ?r using feed_messages_cases [OF assms, of ms] by auto
next
  assume ?r
  then obtain pre m post where r: "ms = pre @ m # post" "list_all harmless pre" "clean_done m"
    "d = items @ filter is_data pre" by blast
  have "\<forall>x\<in>set (items @ filter is_data pre). \<not> interrupted x"
    using assms kept_not_interrupted [OF r(2)] by auto
  with r show ?l
    using harmful_step [of m "items @ filter is_data pre" post] clean_done_not_harmless
    by (auto simp: harmless_run simp del: feed_messages.simps)
qed

text \<open>Feeding is a left-to-right scan, so the boundaries of the datagrams do not matter.\<close>

lemma feed_messages_append:
  "feed_messages items (xs @ ys) =
    (case feed_messages items xs of
       Inl e \<Rightarrow> Err e
     | Inr (Complete d) \<Rightarrow> Ok (Complete d)
     | Inr (NeedMore items') \<Rightarrow> feed_messages items' ys)"
  by (induction items xs rule: feed_messages.induct) (auto split: sum.splits)

lemma dump_batches_eq:
  "dump_batches out (map Inr bs) =
    (case feed_messages out (concat bs) of
       Inl e \<Rightarrow> Some (Err e)
     | Inr (NeedMore _) \<Rightarrow> None
     | Inr (Complete d) \<Rightarrow> Some (Ok d))"
  by (induction bs arbitrary: out)
    (auto simp: feed_dump_def feed_messages_append split: sum.splits dump_feed.splits)

text \<open>
  C3: a dump request returns a result exactly when, over all received batches in order, a clean
  \<open>NLMSG_DONE\<close> (no interruption flag, status zero) comes after messages that are only no-ops,
  successful acknowledgements and uninterrupted data; the result is exactly that data. A stream that
  ends before \<open>NLMSG_DONE\<close> gives no result, however its messages were split over datagrams.
\<close>

theorem dump_trusted_iff_clean:
  "dump_batches [] (map Ok batches) = Some (Ok d) \<longleftrightarrow>
    (\<exists>pre m post. concat batches = pre @ m # post \<and> list_all harmless pre \<and> clean_done m
       \<and> d = filter is_data pre)"
  by (simp add: dump_batches_eq feed_messages_complete_iff [of "[]", simplified, symmetric]
      split: sum.splits dump_feed.splits)

section \<open>Draining a multicast socket\<close>

lemma drain_datagram_eq_Some:
  "length messages < DRAIN_MESSAGE_BUDGET \<Longrightarrow>
   drain_datagram messages ms = Some out \<longleftrightarrow>
     out = messages @ ms \<and> (\<forall>m\<in>set ms. rm_kind m \<noteq> NLMSG_OVERRUN) \<and> length out < DRAIN_MESSAGE_BUDGET"
proof (induction messages ms rule: drain_datagram.induct)
  case (2 messages m ms)
  then show ?case by (cases "length (messages @ [m]) < DRAIN_MESSAGE_BUDGET") (auto simp: not_less)
qed auto

text \<open>
  The messages of a receive sequence in which every datagram before the first \<open>WouldBlock\<close> arrived
  whole and parses.
\<close>

fun whole_stream :: "(io_error + (bytes \<times> bool)) list \<Rightarrow> raw_message list option" where
  "whole_stream [] = None"
| "whole_stream (Inl e # rest) = (if e = WouldBlock then Some [] else None)"
| "whole_stream (Inr (b, truncated) # rest) =
    (if truncated then None
     else case parse_datagram b of
            Inl _ \<Rightarrow> None
          | Inr ms \<Rightarrow> map_option (\<lambda>r. ms @ r) (whole_stream rest))"

definition deliverable :: "raw_message list \<Rightarrow> bool" where
  "deliverable ms \<longleftrightarrow>
    length ms < DRAIN_MESSAGE_BUDGET \<and> list_all (\<lambda>m. rm_kind m \<noteq> NLMSG_OVERRUN) ms"

lemma deliverable_prefix: "deliverable (a @ b) \<Longrightarrow> deliverable a"
  by (auto simp: deliverable_def)

lemma drain_datagram_deliverable:
  "deliverable messages \<Longrightarrow>
   drain_datagram messages ms = (if deliverable (messages @ ms) then Some (messages @ ms) else None)"
proof -
  assume "deliverable messages"
  then have "drain_datagram messages ms = Some out \<longleftrightarrow> out = messages @ ms \<and> deliverable (messages @ ms)" for out
    using drain_datagram_eq_Some [of messages ms out] by (auto simp: deliverable_def list_all_iff)
  then show ?thesis by (metis option.exhaust)
qed

lemma drain_loop_clean_iff:
  "deliverable messages \<Longrightarrow>
   drain_loop messages stream = Some (Ok (out, False)) \<longleftrightarrow>
     (\<exists>ms. whole_stream stream = Some ms \<and> out = messages @ ms \<and> deliverable out)"
proof (induction messages stream rule: drain_loop.induct)
  case (3 messages b truncated rest)
  show ?case
  proof (cases "parse_datagram b")
    case (Inr ms)
    show ?thesis
    proof (cases "\<not> truncated \<and> deliverable (messages @ ms)")
      case True
      then show ?thesis
        using "3.IH" [of ms "messages @ ms"] Inr "3.prems"
        by (auto simp: drain_datagram_deliverable)
    next
      case False
      then show ?thesis
        using Inr "3.prems" deliverable_prefix [of "messages @ ms"]
        by (auto simp: drain_datagram_deliverable)
    qed
  qed auto
qed auto

lemma nonblocking_drain_eq_Ok:
  "nonblocking_drain stream = Some (Ok r) \<longleftrightarrow>
    (\<exists>ms resync. drain_loop [] stream = Some (Ok (ms, resync))
       \<and> r = (if resync then Resync else if ms = [] then Quiet else Changed))"
proof (cases "drain_loop [] stream")
  case (Some x)
  show ?thesis
  proof (cases x)
    case (Inr p)
    with Some show ?thesis by (cases p) (simp add: nonblocking_drain_def eq_commute [of r])
  qed (simp add: Some nonblocking_drain_def)
qed (simp add: nonblocking_drain_def)

text \<open>
  Draining reports "nothing happened" or "something changed" only when every datagram until the
  socket ran dry arrived whole, parsed, carried no overrun marker and stayed below the budget of 64
  messages, and "nothing happened" only when they held no message at all. In every other case in which
  the loop answers without an error the answer is to resynchronize.
\<close>

theorem drain_never_hides_loss:
  "(nonblocking_drain stream = Some (Ok Quiet) \<longleftrightarrow> whole_stream stream = Some []) \<and>
   (nonblocking_drain stream = Some (Ok Changed) \<longleftrightarrow>
      (\<exists>ms. whole_stream stream = Some ms \<and> ms \<noteq> [] \<and> length ms < 64
         \<and> list_all (\<lambda>m. rm_kind m \<noteq> NLMSG_OVERRUN) ms))"
proof -
  have "deliverable []" by (simp add: deliverable_def DRAIN_MESSAGE_BUDGET_def)
  then show ?thesis
    by (auto simp: nonblocking_drain_eq_Ok drain_loop_clean_iff deliverable_def DRAIN_MESSAGE_BUDGET_def)
qed

text \<open>The sequence number of a request is never zero, so a reply to it cannot be a multicast event.\<close>

lemma next_seq_nonzero: "next_seq s \<noteq> 0"
proof -
  have "1 \<le> next_seq s" by (simp add: next_seq_def)
  then show ?thesis by (auto simp: word_le_nat_alt)
qed

lemma take_pending_filter:
  "take_pending seq pending = (filter (\<lambda>m. rm_seq m = seq) pending, filter (\<lambda>m. rm_seq m \<noteq> seq) pending)"
proof -
  have "fold (\<lambda>m (matching, leftover).
        if rm_seq m = seq then (matching @ [m], leftover) else (matching, leftover @ [m])) pending (a, b) =
      (a @ filter (\<lambda>m. rm_seq m = seq) pending, b @ filter (\<lambda>m. rm_seq m \<noteq> seq) pending)" for a b
    by (induction pending arbitrary: a b) auto
  then show ?thesis by (simp add: take_pending_def)
qed

text \<open>No message of another request is lost on a nonblocking socket; only answers are returned.\<close>

lemma match_messages_Ok:
  "match_messages seq port_id nonblocking pending matching ms = (Ok out, pending') \<Longrightarrow>
   out = matching @ filter (\<lambda>m. rm_seq m = seq) ms \<and>
   pending' = pending @ (if nonblocking then filter (\<lambda>m. rm_seq m \<noteq> seq) ms else [])"
  by (induction seq port_id nonblocking pending matching ms rule: match_messages.induct)
    (auto split: if_splits)

end
