(* ===== verification/Json.thy ===== *)
theory Json
  imports Std_Text
begin

text \<open>
  JSON values as the sources handle them: the constructors of \<open>serde_json::Value\<close> and the accessors
  the code calls (\<open>get\<close>, \<open>as_str\<close>, \<open>as_array\<close>, \<open>as_object\<close>, \<open>as_u64\<close>, \<open>Map::insert\<close>). The workspace
  enables \<open>preserve_order\<close>, so an object is its list of entries in insertion order; inserting at a
  present key replaces the value in place. A number that is not a 64-bit integer is kept as the text
  \<open>serde_json\<close> prints for it.
\<close>

datatype json_number = PosInt u64 | NegInt int | Float string

datatype json =
    JNull
  | JBool bool
  | JNumber json_number
  | JString string
  | JArray "json list"
  | JObject "(string \<times> json) list"

type_synonym json_map = "(string \<times> json) list"

fun as_str :: "json \<Rightarrow> string option" where
  "as_str (JString s) = Some s"
| "as_str _ = None"

fun as_array :: "json \<Rightarrow> json list option" where
  "as_array (JArray xs) = Some xs"
| "as_array _ = None"

fun as_object :: "json \<Rightarrow> json_map option" where
  "as_object (JObject m) = Some m"
| "as_object _ = None"

definition obj_get :: "json_map \<Rightarrow> string \<Rightarrow> json option" where
  "obj_get m k = map_of m k"

fun obj_insert :: "string \<Rightarrow> json \<Rightarrow> json_map \<Rightarrow> json_map" where
  "obj_insert k v [] = [(k, v)]"
| "obj_insert k v ((k', v') # m) = (if k = k' then (k', v) # m else (k', v') # obj_insert k v m)"

text \<open>\<open>Map::from_iter\<close> and \<open>Value::get\<close> with a key.\<close>

definition obj_from :: "(string \<times> json) list \<Rightarrow> json_map" where
  "obj_from kvs = fold (\<lambda>(k, v). obj_insert k v) kvs []"

definition json_get :: "json \<Rightarrow> string \<Rightarrow> json option" where
  "json_get v k = (case v of JObject m \<Rightarrow> obj_get m k | _ \<Rightarrow> None)"

fun number_as_u64 :: "json_number \<Rightarrow> u64 option" where
  "number_as_u64 (PosInt n) = Some n"
| "number_as_u64 _ = None"

fun number_to_string :: "json_number \<Rightarrow> string" where
  "number_to_string (PosInt n) = dec (unat n)"
| "number_to_string (NegInt i) = ''-'' @ dec (nat (- i))"
| "number_to_string (Float s) = s"

definition get_str :: "json_map \<Rightarrow> string \<Rightarrow> string option" where
  "get_str m k = Option.bind (obj_get m k) as_str"

definition get_array :: "json_map \<Rightarrow> string \<Rightarrow> json list option" where
  "get_array m k = Option.bind (obj_get m k) as_array"

section \<open>Laws of the insertion-ordered map\<close>

lemma as_str_eq_Some [simp]: "as_str v = Some s \<longleftrightarrow> v = JString s"
  by (cases v) auto

lemma as_array_eq_Some [simp]: "as_array v = Some s \<longleftrightarrow> v = JArray s"
  by (cases v) auto

lemma as_object_eq_Some [simp]: "as_object v = Some s \<longleftrightarrow> v = JObject s"
  by (cases v) auto

lemma obj_get_insert [simp]: "obj_get (obj_insert k v m) j = (if j = k then Some v else obj_get m j)"
  by (induction k v m rule: obj_insert.induct) (auto simp: obj_get_def)

lemma keys_obj_insert:
  "map fst (obj_insert k v m) = map fst m @ (if k \<in> fst ` set m then [] else [k])"
  by (induction k v m rule: obj_insert.induct) auto

lemma distinct_obj_insert [simp, intro]:
  "distinct (map fst m) \<Longrightarrow> distinct (map fst (obj_insert k v m))"
  by (auto simp: keys_obj_insert)

lemma obj_insert_insert [simp]: "obj_insert k w (obj_insert k v m) = obj_insert k w m"
  by (induction k v m rule: obj_insert.induct) auto

lemma obj_insert_present: "obj_get m k = Some v \<Longrightarrow> obj_insert k v m = m"
  by (induction k v m rule: obj_insert.induct) (auto simp: obj_get_def)

lemma obj_get_None_iff: "obj_get m k = None \<longleftrightarrow> k \<notin> fst ` set m"
  by (simp add: obj_get_def map_of_eq_None_iff)

lemma get_str_eq_Some: "get_str m k = Some s \<longleftrightarrow> obj_get m k = Some (JString s)"
  by (auto simp: get_str_def bind_eq_Some_conv)

lemma get_array_eq_Some: "get_array m k = Some s \<longleftrightarrow> obj_get m k = Some (JArray s)"
  by (auto simp: get_array_def bind_eq_Some_conv)

lemma get_str_insert [simp]:
  "get_str (obj_insert k v m) j = (if j = k then as_str v else get_str m j)"
  by (simp add: get_str_def)

lemma get_array_insert [simp]:
  "get_array (obj_insert k v m) j = (if j = k then as_array v else get_array m j)"
  by (simp add: get_array_def)

text \<open>\<open>find_map\<close> in recursive calls over the parts of a value.\<close>

lemma find_map_cong [fundef_cong]:
  "xs = ys \<Longrightarrow> (\<And>x. x \<in> set ys \<Longrightarrow> f x = g x) \<Longrightarrow> find_map f xs = find_map g ys"
  by (induction ys arbitrary: xs) (auto split: option.splits)

end
