(* ===== verification/Uri_Outbound.thy ===== *)
theory Uri_Outbound
  imports Json Net_Addr
begin

text \<open>
  Share links, crates/flux-core/src/subscription.rs: the translation of one node URI (vmess,
  shadowsocks, vless, trojan, hysteria, hysteria2, tuic, socks, http) into a sing-box outbound object.
  The crates \<open>url\<close>, \<open>base64\<close>, \<open>serde_json\<close> and \<open>regex_lite\<close> are the fields of the record \<open>libs\<close>, an
  argument of every definition that calls them; a parsed URL is the record of what its accessors
  return. Lemmas: every accepted URI gives an object whose first four keys are type, tag, server and
  port, with a non-zero vmess port, and no later step overwrites them.
\<close>

section \<open>Libraries\<close>

datatype host = Domain string | Host_Ipv4 ipv4_addr | Host_Ipv6 ipv6_addr

record url =
  u_scheme :: string
  u_host :: "host option"
  u_username :: string
  u_password :: "string option"
  u_port_or_known_default :: "u16 option"
  u_fragment :: "string option"
  u_query_pairs :: "(string \<times> string) list"

datatype base64_engine = STANDARD | STANDARD_NO_PAD | URL_SAFE | URL_SAFE_NO_PAD

text \<open>A compiled expression is its source and its case flag.\<close>

datatype regex = Regex (rx_source: string) (rx_case_insensitive: bool)

record libs =
  url_parse :: "string \<Rightarrow> string + url"
  form_urlencoded :: "string \<Rightarrow> (string \<times> string) list"
  base64_decode :: "base64_engine \<Rightarrow> bytes \<Rightarrow> string + bytes"
  json_from_slice :: "bytes \<Rightarrow> string + json"
  regex_valid :: "regex \<Rightarrow> bool"
  regex_is_match :: "regex \<Rightarrow> string \<Rightarrow> bool"
  regex_replace_all :: "regex \<Rightarrow> string \<Rightarrow> string \<Rightarrow> string"

section \<open>Components of a URL\<close>

definition is_ascii_whitespace :: "u8 \<Rightarrow> bool" where
  "is_ascii_whitespace b \<longleftrightarrow> b \<in> {0x20, 0x09, 0x0A, 0x0C, 0x0D}"

definition or_else :: "'e + 'a \<Rightarrow> 'e + 'a \<Rightarrow> 'e + 'a" where
  "or_else r s = (case r of Inl _ \<Rightarrow> s | Inr v \<Rightarrow> Ok v)"

definition decode_base64 :: "libs \<Rightarrow> bytes \<Rightarrow> string + bytes" where
  "decode_base64 L input =
    (let compact = filter (\<lambda>b. \<not> is_ascii_whitespace b) input
     in or_else (or_else (or_else (base64_decode L STANDARD compact) (base64_decode L STANDARD_NO_PAD compact))
          (base64_decode L URL_SAFE compact)) (base64_decode L URL_SAFE_NO_PAD compact))"

definition decode_base64_text :: "libs \<Rightarrow> string \<Rightarrow> string \<Rightarrow> string + string" where
  "decode_base64_text L input what =
    and_then (map_err (\<lambda>e. ''invalid '' @ what @ '': '' @ e) (decode_base64 L (as_bytes input)))
      (\<lambda>b. ok_or (''decoded '' @ what @ '' is not UTF-8'') (from_utf8 b))"

definition replace_char :: "char \<Rightarrow> string \<Rightarrow> string \<Rightarrow> string" where
  "replace_char c by_str s = concat (map (\<lambda>x. if x = c then by_str else [x]) s)"

definition decode_url_component :: "libs \<Rightarrow> string \<Rightarrow> string" where
  "decode_url_component L raw =
    (let protected = replace_char CHR ''='' ''%3D'' (replace_char CHR ''&'' ''%26''
           (replace_char CHR ''+'' ''%2B'' raw))
     in case form_urlencoded L (''value='' @ protected) of [] \<Rightarrow> [] | (k, v) # _ \<Rightarrow> v)"

definition url_endpoint :: "url \<Rightarrow> string \<Rightarrow> string + (string \<times> u16)" where
  "url_endpoint url scheme =
    and_then
      (case u_host url of
         Some (Domain server) \<Rightarrow>
           if server \<noteq> [] then Ok server else Err (scheme @ '' URI has no server'')
       | Some (Host_Ipv4 server) \<Rightarrow> Ok (ipv4_display server)
       | Some (Host_Ipv6 server) \<Rightarrow> Ok (ipv6_display server)
       | None \<Rightarrow> Err (scheme @ '' URI has no server''))
      (\<lambda>server.
         let default_port = (if scheme = ''http'' then 80 else if scheme = ''socks'' then 1080 else 443)
         in Ok (server, case u_port_or_known_default url of Some p \<Rightarrow> p | None \<Rightarrow> default_port))"

definition filter_opt :: "('a \<Rightarrow> bool) \<Rightarrow> 'a option \<Rightarrow> 'a option" where
  "filter_opt P x = (case x of Some v \<Rightarrow> if P v then Some v else None | None \<Rightarrow> None)"

definition non_empty :: "string option \<Rightarrow> string option" where
  "non_empty x = filter_opt (\<lambda>s. s \<noteq> []) x"

definition or_opt :: "'a option \<Rightarrow> 'a option \<Rightarrow> 'a option" where
  "or_opt x y = (case x of Some v \<Rightarrow> Some v | None \<Rightarrow> y)"

definition unwrap_or :: "'a option \<Rightarrow> 'a \<Rightarrow> 'a" where
  "unwrap_or x d = (case x of Some v \<Rightarrow> v | None \<Rightarrow> d)"

definition uri_tag :: "libs \<Rightarrow> url \<Rightarrow> string \<Rightarrow> string" where
  "uri_tag L url fallback =
    unwrap_or (non_empty (map_option (decode_url_component L) (u_fragment url))) fallback"

definition required_username :: "libs \<Rightarrow> url \<Rightarrow> string \<Rightarrow> string + string" where
  "required_username L url what =
    (let username = decode_url_component L (u_username url)
     in if username = [] then Err (''URI has no '' @ what) else Ok username)"

definition userinfo :: "libs \<Rightarrow> url \<Rightarrow> string option" where
  "userinfo L url =
    (let username = decode_url_component L (u_username url)
     in if username = [] \<and> u_password url = None then None
        else Some (case u_password url of
                     Some password \<Rightarrow> username @ '':'' @ decode_url_component L password
                   | None \<Rightarrow> username))"

definition required_userinfo :: "libs \<Rightarrow> url \<Rightarrow> string \<Rightarrow> string + string" where
  "required_userinfo L url what = ok_or (''URI has no '' @ what) (userinfo L url)"

definition query_value :: "url \<Rightarrow> string list \<Rightarrow> string option" where
  "query_value url names =
    map_option snd
      (find (\<lambda>(key, _). list_ex (\<lambda>name. eq_ignore_ascii_case key name) names) (u_query_pairs url))"

section \<open>Writing fields\<close>

definition insert_query_string :: "string \<Rightarrow> url \<Rightarrow> string list \<Rightarrow> json_map \<Rightarrow> json_map" where
  "insert_query_string field url names object =
    (case non_empty (query_value url names) of
       Some v \<Rightarrow> obj_insert field (JString v) object | None \<Rightarrow> object)"

definition insert_query_u64 :: "string \<Rightarrow> url \<Rightarrow> string list \<Rightarrow> json_map \<Rightarrow> string + json_map" where
  "insert_query_u64 field url names object =
    (case query_value url names of
       None \<Rightarrow> Ok object
     | Some v \<Rightarrow>
         and_then (ok_or (''query parameter '' @ [CHR 0x27] @ field @ [CHR 0x27] @ '' is not an unsigned integer'')
             (parse_uint v))
           (\<lambda>number. Ok (obj_insert field (JNumber (PosInt number)) object)))"

definition query_bool :: "string \<Rightarrow> bool" where
  "query_bool v \<longleftrightarrow> to_ascii_lowercase v \<in> {''1'', ''true'', ''yes'', ''on''}"

definition insert_query_bool :: "string \<Rightarrow> url \<Rightarrow> string list \<Rightarrow> json_map \<Rightarrow> json_map" where
  "insert_query_bool field url names object =
    (case query_value url names of
       Some v \<Rightarrow> obj_insert field (JBool (query_bool v)) object | None \<Rightarrow> object)"

definition insert_query_u64_lossless :: "string \<Rightarrow> url \<Rightarrow> string list \<Rightarrow> json_map \<Rightarrow> json_map" where
  "insert_query_u64_lossless field url names object =
    (case Option.bind (query_value url names) parse_uint of
       Some number \<Rightarrow> obj_insert field (JNumber (PosInt number)) object | None \<Rightarrow> object)"

definition base_outbound :: "string \<Rightarrow> string \<Rightarrow> string \<Rightarrow> u16 \<Rightarrow> json_map" where
  "base_outbound kind tag server port =
    obj_from [(''type'', JString kind), (''tag'', JString tag), (''server'', JString server),
              (''server_port'', JNumber (PosInt (ucast port)))]"

definition host_headers :: "string \<Rightarrow> json" where
  "host_headers host = JObject (obj_from [(''Host'', JString host)])"

definition apply_transport :: "url \<Rightarrow> json_map \<Rightarrow> string + json_map" where
  "apply_transport url outbound =
    (case filter_opt (\<lambda>kind. kind \<notin> {[], ''tcp'', ''none''}) (query_value url [''type'', ''network'', ''net'']) of
       None \<Rightarrow> Ok outbound
     | Some kind \<Rightarrow>
         and_then
           (let host = non_empty (query_value url [''host''])
            in if kind = ''ws'' then
                 Ok (insert_query_string ''early_data_header_name'' url [''eh'', ''early_data_header_name'']
                      (insert_query_u64_lossless ''max_early_data'' url [''ed'', ''max_early_data'']
                        ((case host of Some h \<Rightarrow> obj_insert ''headers'' (host_headers h) | None \<Rightarrow> id)
                          (insert_query_string ''path'' url [''path'']
                            (obj_insert ''type'' (JString ''ws'') [])))))
               else if kind = ''grpc'' then
                 Ok (insert_query_string ''service_name'' url [''serviceName'', ''service_name'']
                      (obj_insert ''type'' (JString ''grpc'') []))
               else if kind = ''http'' \<or> kind = ''h2'' then
                 Ok ((case host of Some h \<Rightarrow> obj_insert ''host'' (JArray [JString h]) | None \<Rightarrow> id)
                      (insert_query_string ''path'' url [''path''] (obj_insert ''type'' (JString ''http'') [])))
               else if kind = ''httpupgrade'' then
                 Ok (insert_query_string ''host'' url [''host'']
                      (insert_query_string ''path'' url [''path'']
                        (obj_insert ''type'' (JString ''httpupgrade'') [])))
               else if kind = ''quic'' then Ok (obj_insert ''type'' (JString ''quic'') [])
               else Err ''unsupported URI transport'')
           (\<lambda>transport. Ok (obj_insert ''transport'' (JObject transport) outbound)))"

definition utls :: "string \<Rightarrow> json" where
  "utls fingerprint =
    JObject (obj_from [(''enabled'', JBool True), (''fingerprint'', JString fingerprint)])"

definition apply_tls :: "url \<Rightarrow> bool \<Rightarrow> json_map \<Rightarrow> json_map" where
  "apply_tls url default_enabled outbound =
    (let security = query_value url [''security'']
     in if \<not> (default_enabled \<or> security \<in> {Some ''tls'', Some ''reality''}) then outbound
        else
          (let tls = obj_insert ''enabled'' (JBool True) [];
               tls = (case non_empty (query_value url [''sni'', ''peer'', ''server_name'']) of
                        Some n \<Rightarrow> obj_insert ''server_name'' (JString n) tls | None \<Rightarrow> tls);
               tls = (case query_value url [''allowInsecure'', ''allow_insecure'', ''insecure''] of
                        Some v \<Rightarrow> obj_insert ''insecure'' (JBool (query_bool v)) tls | None \<Rightarrow> tls);
               tls = (case non_empty (query_value url [''alpn'']) of
                        Some v \<Rightarrow> obj_insert ''alpn''
                          (JArray (map JString (filter (\<lambda>item. item \<noteq> []) (split_on CHR '','' v)))) tls
                      | None \<Rightarrow> tls);
               tls = (case non_empty (query_value url [''fp'', ''fingerprint'']) of
                        Some v \<Rightarrow> obj_insert ''utls'' (utls v) tls | None \<Rightarrow> tls);
               tls = (if security = Some ''reality'' then
                        obj_insert ''reality''
                          (JObject (insert_query_string ''short_id'' url [''sid'', ''short_id'']
                            (insert_query_string ''public_key'' url [''pbk'', ''public_key'']
                              (obj_insert ''enabled'' (JBool True) [])))) tls
                      else tls)
           in obj_insert ''tls'' (JObject tls) outbound))"

section \<open>Fields of each protocol\<close>

definition parse_hysteria_fields :: "libs \<Rightarrow> url \<Rightarrow> json_map \<Rightarrow> string + json_map" where
  "parse_hysteria_fields L url outbound =
    and_then (ok_or ''hysteria URI has no authentication value''
        (non_empty (or_opt (query_value url [''auth'', ''auth_str'']) (userinfo L url))))
      (\<lambda>auth.
         and_then (insert_query_u64 ''up_mbps'' url [''upmbps'', ''up_mbps'', ''up'']
             (obj_insert ''auth_str'' (JString auth) outbound))
           (\<lambda>outbound. and_then (insert_query_u64 ''down_mbps'' url [''downmbps'', ''down_mbps'', ''down''] outbound)
             (\<lambda>outbound. Ok (apply_tls url True
                (insert_query_string ''obfs'' url [''obfs'', ''obfsParam'', ''obfs_param''] outbound)))))"

definition hysteria2_obfs :: "url \<Rightarrow> json_map \<Rightarrow> json_map" where
  "hysteria2_obfs url outbound =
    (case non_empty (query_value url [''obfs'']) of
       None \<Rightarrow> outbound
     | Some obfs_type \<Rightarrow>
         (let obfs = obj_insert ''type'' (JString obfs_type) [];
              obfs = (case query_value url [''obfs-password'', ''obfs_password'', ''obfsPassword''] of
                        Some p \<Rightarrow> obj_insert ''password'' (JString p) obfs | None \<Rightarrow> obfs)
          in obj_insert ''obfs'' (JObject obfs) outbound))"

definition parse_hysteria2_fields :: "libs \<Rightarrow> url \<Rightarrow> json_map \<Rightarrow> string + json_map" where
  "parse_hysteria2_fields L url outbound =
    (case find (\<lambda>field. query_value url [field] \<noteq> None) [''pinSHA256'', ''mport''] of
       Some field \<Rightarrow> Err (''unsupported hysteria2 query parameter '' @ [CHR 0x27] @ field @ [CHR 0x27])
     | None \<Rightarrow>
         and_then (ok_or ''hysteria2 URI has no password''
             (non_empty (or_opt (userinfo L url) (query_value url [''password'', ''auth'']))))
           (\<lambda>password.
              and_then (insert_query_u64 ''up_mbps'' url [''upmbps'', ''up_mbps'', ''up'']
                  (obj_insert ''password'' (JString password) outbound))
                (\<lambda>outbound.
                   and_then (insert_query_u64 ''down_mbps'' url [''downmbps'', ''down_mbps'', ''down''] outbound)
                     (\<lambda>outbound.
                        Ok (apply_tls url True (hysteria2_obfs url outbound))))))"

definition parse_tuic_fields :: "libs \<Rightarrow> url \<Rightarrow> json_map \<Rightarrow> string + json_map" where
  "parse_tuic_fields L url outbound =
    and_then (required_username L url ''tuic UUID'')
      (\<lambda>uuid.
         and_then (ok_or ''tuic URI has no password''
             (non_empty (or_opt (map_option (decode_url_component L) (u_password url)) (query_value url [''password'']))))
           (\<lambda>password.
              Ok (apply_tls url True
                (insert_query_string ''heartbeat'' url [''heartbeat'']
                  (insert_query_bool ''zero_rtt_handshake'' url [''zero_rtt_handshake'', ''zero-rtt-handshake'']
                    (insert_query_string ''udp_relay_mode'' url [''udp_relay_mode'', ''udp-relay-mode'']
                      (insert_query_string ''congestion_control'' url
                        [''congestion_control'', ''congestion-controller'']
                        (obj_insert ''password'' (JString password)
                          (obj_insert ''uuid'' (JString uuid) outbound)))))))))"

definition parse_proxy_auth :: "libs \<Rightarrow> url \<Rightarrow> json_map \<Rightarrow> json_map" where
  "parse_proxy_auth L url outbound =
    (let username = decode_url_component L (u_username url);
         outbound = (if username \<noteq> [] then obj_insert ''username'' (JString username) outbound else outbound)
     in case map_option (decode_url_component L) (u_password url) of
          Some password \<Rightarrow> obj_insert ''password'' (JString password) outbound
        | None \<Rightarrow> outbound)"

definition parse_vless_fields :: "libs \<Rightarrow> url \<Rightarrow> json_map \<Rightarrow> string + json_map" where
  "parse_vless_fields L url outbound =
    (if (case query_value url [''encryption''] of Some v \<Rightarrow> v \<noteq> [] \<and> v \<noteq> ''none'' | None \<Rightarrow> False)
     then Err ''unsupported vless encryption''
     else
       and_then (required_username L url ''vless UUID'')
         (\<lambda>uuid.
            and_then (apply_transport url
                (insert_query_string ''packet_encoding'' url [''packetEncoding'', ''packet_encoding'']
                  (insert_query_string ''flow'' url [''flow''] (obj_insert ''uuid'' (JString uuid) outbound))))
              (\<lambda>outbound. Ok (apply_tls url False outbound))))"

definition parse_trojan_fields :: "libs \<Rightarrow> url \<Rightarrow> json_map \<Rightarrow> string + json_map" where
  "parse_trojan_fields L url outbound =
    and_then (required_userinfo L url ''trojan password'')
      (\<lambda>password. and_then (apply_transport url (obj_insert ''password'' (JString password) outbound))
        (\<lambda>outbound. Ok (apply_tls url True outbound)))"

definition parse_url_outbound :: "libs \<Rightarrow> string \<Rightarrow> string \<Rightarrow> string + json" where
  "parse_url_outbound L line scheme =
    and_then (map_err (\<lambda>e. ''invalid '' @ scheme @ '' URI: '' @ e) (url_parse L line))
      (\<lambda>url. and_then (url_endpoint url scheme)
        (\<lambda>(server, port).
           let tag = uri_tag L url scheme;
               kind = (if scheme = ''ss'' then ''shadowsocks'' else scheme);
               outbound = base_outbound kind tag server port
           in and_then
                (if scheme = ''vless'' then parse_vless_fields L url outbound
                 else if scheme = ''trojan'' then parse_trojan_fields L url outbound
                 else if scheme = ''hysteria'' then parse_hysteria_fields L url outbound
                 else if scheme = ''hysteria2'' then parse_hysteria2_fields L url outbound
                 else if scheme = ''tuic'' then parse_tuic_fields L url outbound
                 else if scheme = ''socks'' then Ok (parse_proxy_auth L url outbound)
                 else if scheme = ''http'' then Ok (parse_proxy_auth L url outbound)
                 else Err (''unsupported URI scheme '' @ [CHR 0x27] @ scheme @ [CHR 0x27]))
                (\<lambda>outbound. Ok (JObject outbound))))"

section \<open>vmess\<close>

definition json_string :: "json_map \<Rightarrow> string \<Rightarrow> string option" where
  "json_string object key =
    Option.bind (obj_get object key)
      (\<lambda>v. case v of JString s \<Rightarrow> Some s | JNumber n \<Rightarrow> Some (number_to_string n) | _ \<Rightarrow> None)"

definition required_json_string :: "json_map \<Rightarrow> string \<Rightarrow> string \<Rightarrow> string + string" where
  "required_json_string object key what =
    ok_or (''vmess payload has no '' @ what) (non_empty (json_string object key))"

definition json_u64 :: "json_map \<Rightarrow> string \<Rightarrow> u64 option" where
  "json_u64 object key =
    Option.bind (obj_get object key)
      (\<lambda>v. case v of JNumber n \<Rightarrow> number_as_u64 n | JString s \<Rightarrow> parse_uint s | _ \<Rightarrow> None)"

definition required_json_port :: "json_map \<Rightarrow> string \<Rightarrow> string + u16" where
  "required_json_port object key =
    and_then (ok_or ''vmess payload has no valid port'' (json_u64 object key))
      (\<lambda>port. if unat port < 2 ^ 16 \<and> port \<noteq> 0 then Ok (ucast port)
              else Err ''vmess port is outside 1..=65535'')"

definition insert_json_string :: "string \<Rightarrow> json_map \<Rightarrow> string \<Rightarrow> json_map \<Rightarrow> json_map" where
  "insert_json_string destination_key source source_key destination =
    (case non_empty (json_string source source_key) of
       Some v \<Rightarrow> obj_insert destination_key (JString v) destination | None \<Rightarrow> destination)"

definition vmess_transport :: "json_map \<Rightarrow> string \<Rightarrow> string + json_map option" where
  "vmess_transport source network =
    (let host = non_empty (json_string source ''host'')
     in if network = ''ws'' then
          Ok (Some ((case host of Some h \<Rightarrow> obj_insert ''headers'' (host_headers h) | None \<Rightarrow> id)
            (insert_json_string ''path'' source ''path'' (obj_insert ''type'' (JString ''ws'') []))))
        else if network = ''grpc'' then
          Ok (Some (insert_json_string ''service_name'' source ''path'' (obj_insert ''type'' (JString ''grpc'') [])))
        else if network = ''h2'' \<or> network = ''http'' then
          Ok (Some ((case host of Some h \<Rightarrow> obj_insert ''host'' (JArray [JString h]) | None \<Rightarrow> id)
            (insert_json_string ''path'' source ''path'' (obj_insert ''type'' (JString ''http'') []))))
        else if network = ''quic'' then Ok (Some (obj_insert ''type'' (JString ''quic'') []))
        else if network \<in> {[], ''tcp'', ''none''} then Ok None
        else Err ''unsupported vmess transport'')"

definition vmess_tls :: "json_map \<Rightarrow> json_map \<Rightarrow> json_map" where
  "vmess_tls source outbound =
    (if (case json_string source ''tls'' of Some t \<Rightarrow> eq_ignore_ascii_case t ''tls'' | None \<Rightarrow> False) then
       (let tls = obj_insert ''enabled'' (JBool True) [];
            tls = (case or_opt (non_empty (json_string source ''sni'')) (non_empty (json_string source ''host'')) of
                     Some n \<Rightarrow> obj_insert ''server_name'' (JString n) tls | None \<Rightarrow> tls);
            tls = (case non_empty (json_string source ''fp'') of
                     Some f \<Rightarrow> obj_insert ''utls'' (utls f) tls | None \<Rightarrow> tls)
        in obj_insert ''tls'' (JObject tls) outbound)
     else outbound)"

definition insert_alter_id :: "json_map \<Rightarrow> json_map \<Rightarrow> json_map" where
  "insert_alter_id source outbound =
    (let alter_id = unwrap_or (json_u64 source ''aid'') 0
     in if alter_id \<noteq> 0 then obj_insert ''alter_id'' (JNumber (PosInt alter_id)) outbound else outbound)"

definition insert_transport :: "json_map option \<Rightarrow> json_map \<Rightarrow> json_map" where
  "insert_transport transport outbound =
    (case transport of Some t \<Rightarrow> obj_insert ''transport'' (JObject t) outbound | None \<Rightarrow> outbound)"

definition vmess_fields :: "json_map \<Rightarrow> string + json" where
  "vmess_fields source =
    and_then (required_json_string source ''add'' ''vmess server'')
      (\<lambda>server. and_then (required_json_port source ''port'')
        (\<lambda>port. and_then (required_json_string source ''id'' ''vmess UUID'')
          (\<lambda>uuid. and_then (vmess_transport source (unwrap_or (json_string source ''net'') []))
            (\<lambda>transport.
               Ok (JObject (vmess_tls source (insert_transport transport
                 (obj_insert ''security'' (JString (unwrap_or (non_empty (json_string source ''scy'')) ''auto''))
                   (insert_alter_id source
                     (obj_insert ''uuid'' (JString uuid)
                       (base_outbound ''vmess'' (unwrap_or (non_empty (json_string source ''ps'')) ''VMess'')
                         server port)))))))))))"

definition parse_vmess :: "libs \<Rightarrow> string \<Rightarrow> string + json" where
  "parse_vmess L line =
    and_then (ok_or ''invalid vmess scheme'' (map_option snd (split_once_str ''://'' line)))
      (\<lambda>encoded. and_then (decode_base64_text L (trim encoded) ''vmess payload'')
        (\<lambda>t. and_then (map_err (\<lambda>e. ''invalid vmess JSON: '' @ e) (json_from_slice L (as_bytes t)))
          (\<lambda>source. and_then (ok_or ''vmess payload must be a JSON object'' (as_object source)) vmess_fields)))"

section \<open>shadowsocks\<close>

definition ss_credentials :: "libs \<Rightarrow> string \<Rightarrow> string + (string \<times> string)" where
  "ss_credentials L without_fragment =
    (case rsplit_once CHR ''@'' without_fragment of
       Some (before, after) \<Rightarrow>
         (let userinfo = decode_url_component L before
          in and_then
               (if contains_str userinfo '':'' then Ok userinfo
                else decode_base64_text L userinfo ''shadowsocks userinfo'')
               (\<lambda>credentials. Ok (credentials, after)))
     | None \<Rightarrow>
         (let (encoded, suffix) = unwrap_or (split_once CHR ''?'' without_fragment) (without_fragment, [])
          in and_then (decode_base64_text L encoded ''legacy shadowsocks payload'')
               (\<lambda>legacy. and_then (ok_or ''legacy shadowsocks payload has no endpoint''
                   (rsplit_once CHR ''@'' legacy))
                 (\<lambda>(credentials, endpoint).
                    Ok (credentials, if suffix = [] then endpoint else endpoint @ ''?'' @ suffix)))))"

definition ss_plugin :: "url \<Rightarrow> json_map \<Rightarrow> json_map" where
  "ss_plugin url outbound =
    (case query_value url [''plugin''] of
       None \<Rightarrow> outbound
     | Some plugin_spec \<Rightarrow>
         (let (plugin, options) = unwrap_or (split_once CHR '';'' plugin_spec) (plugin_spec, []);
              outbound = (if plugin \<noteq> [] then obj_insert ''plugin'' (JString plugin) outbound else outbound)
          in if options \<noteq> [] then obj_insert ''plugin_opts'' (JString options) outbound else outbound))"

definition ss_outbound :: "libs \<Rightarrow> string \<Rightarrow> string \<Rightarrow> string \<Rightarrow> string \<Rightarrow> string + json" where
  "ss_outbound L tag method password endpoint_text =
    and_then (map_err (\<lambda>e. ''invalid shadowsocks endpoint: '' @ e)
        (url_parse L (''ss://placeholder@'' @ endpoint_text)))
      (\<lambda>endpoint_url. and_then (url_endpoint endpoint_url ''ss'')
        (\<lambda>(server, port).
           Ok (JObject (ss_plugin endpoint_url
             (obj_insert ''password'' (JString password)
               (obj_insert ''method'' (JString method)
                 (base_outbound ''shadowsocks'' tag server port)))))))"

definition parse_shadowsocks :: "libs \<Rightarrow> string \<Rightarrow> string + json" where
  "parse_shadowsocks L line =
    and_then (ok_or ''invalid ss scheme'' (map_option snd (split_once_str ''://'' line)))
      (\<lambda>raw.
         let (without_fragment, fragment) = unwrap_or (split_once CHR ''#'' raw) (raw, []);
             tag = (if fragment = [] then ''shadowsocks'' else decode_url_component L fragment)
         in and_then (ss_credentials L without_fragment)
              (\<lambda>(credentials, endpoint_text).
                 and_then (ok_or ''shadowsocks credentials have no method separator''
                     (split_once CHR '':'' credentials))
                   (\<lambda>(method, password).
                      if method = [] \<or> password = [] then
                        Err ''shadowsocks method and password must be non-empty''
                      else ss_outbound L tag method password endpoint_text)))"

section \<open>One line of a list\<close>

definition parse_uri :: "libs \<Rightarrow> string \<Rightarrow> string + json" where
  "parse_uri L line =
    and_then (ok_or ''URI has no scheme separator''
        (map_option (\<lambda>(scheme, _). to_ascii_lowercase scheme) (split_once_str ''://'' line)))
      (\<lambda>scheme.
         if scheme = ''vmess'' then parse_vmess L line
         else if scheme = ''ss'' then parse_shadowsocks L line
         else if scheme = ''hy2'' then parse_url_outbound L line ''hysteria2''
         else if scheme \<in> {''vless'', ''trojan'', ''hysteria'', ''hysteria2'', ''tuic'', ''socks'', ''http''}
         then parse_url_outbound L line scheme
         else Err (''unsupported URI scheme '' @ [CHR 0x27] @ scheme @ [CHR 0x27]))"

section \<open>The shape of every outbound\<close>

text \<open>The object begins with the four keys of \<open>base_outbound\<close>, which no later step overwrites.\<close>

definition outbound_kinds :: "string list" where
  "outbound_kinds = [''vmess'', ''shadowsocks'', ''vless'', ''trojan'', ''hysteria'', ''hysteria2'', ''tuic'',
    ''socks'', ''http'']"

definition well_formed_outbound :: "json \<Rightarrow> bool" where
  "well_formed_outbound v \<longleftrightarrow>
    (\<exists>m kind tag server port. v = JObject m
       \<and> obj_get m ''type'' = Some (JString kind) \<and> obj_get m ''tag'' = Some (JString tag)
       \<and> obj_get m ''server'' = Some (JString server)
       \<and> obj_get m ''server_port'' = Some (JNumber (PosInt (ucast (port :: u16))))
       \<and> kind \<in> set outbound_kinds)"

definition base_of :: "string \<Rightarrow> json_map \<Rightarrow> bool" where
  "base_of kind m \<longleftrightarrow> obj_get m ''type'' = Some (JString kind)
    \<and> (\<exists>tag. obj_get m ''tag'' = Some (JString tag)) \<and> (\<exists>server. obj_get m ''server'' = Some (JString server))
    \<and> (\<exists>port :: u16. obj_get m ''server_port'' = Some (JNumber (PosInt (ucast port))))"

lemma base_of_base [simp, intro]: "base_of kind (base_outbound kind tag server port)"
  by (auto simp: base_of_def base_outbound_def obj_from_def obj_get_def)

lemma base_of_insert [simp, intro]:
  "base_of kind m \<Longrightarrow> k \<notin> {''type'', ''tag'', ''server'', ''server_port''} \<Longrightarrow> base_of kind (obj_insert k v m)"
  by (auto simp: base_of_def)

lemma base_of_query_string [simp, intro]:
  "base_of kind m \<Longrightarrow> k \<notin> {''type'', ''tag'', ''server'', ''server_port''} \<Longrightarrow>
   base_of kind (insert_query_string k url names m)"
  by (auto simp: insert_query_string_def split: option.splits)

lemma base_of_query_bool [simp, intro]:
  "base_of kind m \<Longrightarrow> k \<notin> {''type'', ''tag'', ''server'', ''server_port''} \<Longrightarrow>
   base_of kind (insert_query_bool k url names m)"
  by (auto simp: insert_query_bool_def split: option.splits)

lemma base_of_query_u64:
  "insert_query_u64 k url names m = Ok m' \<Longrightarrow> base_of kind m \<Longrightarrow>
   k \<notin> {''type'', ''tag'', ''server'', ''server_port''} \<Longrightarrow> base_of kind m'"
  by (auto simp: insert_query_u64_def and_then_eq_Ok split: option.splits)

lemma base_of_tls [simp, intro]: "base_of kind m \<Longrightarrow> base_of kind (apply_tls url d m)"
  by (auto simp: apply_tls_def Let_def)

lemma base_of_transport: "apply_transport url m = Ok m' \<Longrightarrow> base_of kind m \<Longrightarrow> base_of kind m'"
  by (auto simp: apply_transport_def and_then_eq_Ok split: option.splits)

lemma base_of_vmess_tls [simp, intro]: "base_of kind m \<Longrightarrow> base_of kind (vmess_tls source m)"
  by (auto simp: vmess_tls_def Let_def)

lemma base_of_ss_plugin [simp, intro]: "base_of kind m \<Longrightarrow> base_of kind (ss_plugin url m)"
  by (auto simp: ss_plugin_def Let_def split: option.splits prod.splits)

lemma base_of_proxy_auth [simp, intro]: "base_of kind m \<Longrightarrow> base_of kind (parse_proxy_auth L url m)"
  by (auto simp: parse_proxy_auth_def Let_def split: option.splits)

lemma base_of_vless: "parse_vless_fields L url m = Ok m' \<Longrightarrow> base_of kind m \<Longrightarrow> base_of kind m'"
  by (auto simp: parse_vless_fields_def and_then_eq_Ok dest!: base_of_transport split: if_splits)

lemma base_of_trojan: "parse_trojan_fields L url m = Ok m' \<Longrightarrow> base_of kind m \<Longrightarrow> base_of kind m'"
  by (auto simp: parse_trojan_fields_def and_then_eq_Ok dest!: base_of_transport)

lemma base_of_hysteria: "parse_hysteria_fields L url m = Ok m' \<Longrightarrow> base_of kind m \<Longrightarrow> base_of kind m'"
  by (auto simp: parse_hysteria_fields_def and_then_eq_Ok dest!: base_of_query_u64)

lemma base_of_obfs [simp, intro]: "base_of kind m \<Longrightarrow> base_of kind (hysteria2_obfs url m)"
  by (auto simp: hysteria2_obfs_def Let_def split: option.split)

lemma base_of_hysteria2: "parse_hysteria2_fields L url m = Ok m' \<Longrightarrow> base_of kind m \<Longrightarrow> base_of kind m'"
  by (auto simp: parse_hysteria2_fields_def and_then_eq_Ok simp del: find.simps dest!: base_of_query_u64 split: option.split_asm)

lemma base_of_tuic: "parse_tuic_fields L url m = Ok m' \<Longrightarrow> base_of kind m \<Longrightarrow> base_of kind m'"
  by (auto simp: parse_tuic_fields_def and_then_eq_Ok)

lemmas base_of_fields = base_of_vless base_of_trojan base_of_hysteria base_of_hysteria2 base_of_tuic

lemma url_outbound_base:
  "parse_url_outbound L line scheme = Ok v \<Longrightarrow>
   \<exists>m. v = JObject m \<and> base_of scheme m \<and> scheme \<in> set outbound_kinds"
  by (auto simp: parse_url_outbound_def and_then_eq_Ok map_err_eq_Ok Let_def outbound_kinds_def split: if_splits
      dest!: base_of_fields [where kind = scheme])

lemma base_of_alter_id [simp, intro]: "base_of kind m \<Longrightarrow> base_of kind (insert_alter_id source m)"
  by (simp add: insert_alter_id_def Let_def)

lemma base_of_insert_transport [simp, intro]: "base_of kind m \<Longrightarrow> base_of kind (insert_transport t m)"
  by (cases t) (simp_all add: insert_transport_def)

lemma vmess_base: "parse_vmess L line = Ok v \<Longrightarrow> \<exists>m. v = JObject m \<and> base_of ''vmess'' m"
  by (auto simp: parse_vmess_def vmess_fields_def and_then_eq_Ok)

lemma ss_outbound_base: "ss_outbound L t m p e = Ok v \<Longrightarrow> \<exists>m. v = JObject m \<and> base_of ''shadowsocks'' m"
  by (auto simp: ss_outbound_def and_then_eq_Ok)

lemma shadowsocks_base: "parse_shadowsocks L line = Ok v \<Longrightarrow> \<exists>m. v = JObject m \<and> base_of ''shadowsocks'' m"
  unfolding parse_shadowsocks_def and_then_eq_Ok Let_def split_beta
  by (elim exE conjE) (simp only: sum.distinct split: if_split_asm, (erule ss_outbound_base)+)

lemma base_of_well_formed: "base_of kind m \<Longrightarrow> kind \<in> set outbound_kinds \<Longrightarrow> well_formed_outbound (JObject m)"
  unfolding well_formed_outbound_def base_of_def by blast

lemma url_outbound_well_formed: "parse_url_outbound L line scheme = Ok v \<Longrightarrow> well_formed_outbound v"
  using url_outbound_base [of L line scheme v] base_of_well_formed [of scheme] by auto

lemma vmess_well_formed: "parse_vmess L line = Ok v \<Longrightarrow> well_formed_outbound v"
  using vmess_base [of L line v] base_of_well_formed [of "''vmess''"] by (auto simp: outbound_kinds_def)

lemma shadowsocks_well_formed: "parse_shadowsocks L line = Ok v \<Longrightarrow> well_formed_outbound v"
  using shadowsocks_base [of L line v] base_of_well_formed [of "''shadowsocks''"]
  by (auto simp: outbound_kinds_def)

lemma parse_uri_well_formed: "parse_uri L line = Ok v \<Longrightarrow> well_formed_outbound v"
  unfolding parse_uri_def and_then_eq_Ok
  by (elim exE conjE) (simp only: sum.distinct split: if_split_asm;
      erule vmess_well_formed shadowsocks_well_formed url_outbound_well_formed)

end
