(* ===== verification/Engine_Config.thy ===== *)
theory Engine_Config
  imports Json Abi
begin

text \<open>
  The engine configuration, crates/flux-core/src/engine_config.rs: filling the groups of the user's
  template with the refined nodes, injecting the two inbounds Flux owns, the search for reserved tags,
  the default cache path, the two advisory rule checks and the masking of JSONC comments. The JSON
  parser is the argument of \<open>parse_jsonc\<close>. Lemmas: generation changes only \<open>outbounds\<close>, injection only
  \<open>inbounds\<close>, the two injected tags are the only ones of their name, masking keeps lengths, line
  breaks and UTF-8 validity, so its final \<open>expect\<close> never fails.
\<close>

section \<open>Constants and data\<close>

definition MAX_ENGINE_CONFIG_BYTES :: nat where "MAX_ENGINE_CONFIG_BYTES = 8 * 1024 * 1024"
definition INBOUND_TAG_V4 :: string where "INBOUND_TAG_V4 = ''flux-in-v4''"
definition INBOUND_TAG_V6 :: string where "INBOUND_TAG_V6 = ''flux-in-v6''"
definition RESERVED_TAGS :: "string list" where "RESERVED_TAGS = [INBOUND_TAG_V4, INBOUND_TAG_V6]"
definition DIRECT_TAG :: string where "DIRECT_TAG = ''DIRECT''"

record engine_params =
  ep_generation :: u64
  ep_port_v4 :: u16
  ep_port_v6 :: u16

record refined_node =
  rn_outbound :: json
  rn_groups :: "string list"

datatype engine_config_error =
    NotAnObject
  | UserSuppliedInbound
  | InboundsNotArray
  | ReservedTag string
  | OutboundsNotArray
  | NodeNotAnObject
  | NodeTagMissing
  | UnfilledGroups "string list"

section \<open>Generation from the template\<close>

definition node_tag :: "refined_node \<Rightarrow> engine_config_error + string" where
  "node_tag node =
    (case as_object (rn_outbound node) of
       None \<Rightarrow> Err NodeNotAnObject
     | Some object \<Rightarrow>
         (case get_str object ''tag'' of
            Some tag \<Rightarrow> if tag \<noteq> [] then Ok tag else Err NodeTagMissing
          | None \<Rightarrow> Err NodeTagMissing))"

text \<open>The members of a group: the tags of the nodes that belong to it, \<open>DIRECT\<close> if there are none.\<close>

definition group_members :: "refined_node list \<Rightarrow> string list \<Rightarrow> string \<Rightarrow> json list" where
  "group_members nodes node_tags group_tag =
    (let all_nodes = group_tag \<in> {''PROXY'', ''GLOBAL'', ''AUTO''};
         filled = map (\<lambda>(node, tag). JString tag)
           (filter (\<lambda>(node, tag). all_nodes \<or> list_ex (\<lambda>g. g = group_tag) (rn_groups node))
             (zip nodes node_tags))
     in if filled = [] then [JString DIRECT_TAG] else filled)"

text \<open>The group tag of an outbound that is an empty selector or urltest.\<close>

definition empty_group :: "json \<Rightarrow> (json_map \<times> string) option" where
  "empty_group grp =
    (case as_object grp of
       None \<Rightarrow> None
     | Some object \<Rightarrow>
         if get_str object ''type'' \<notin> {Some ''selector'', Some ''urltest''} then None
         else
           (case get_array object ''outbounds'' of
              None \<Rightarrow> None
            | Some members \<Rightarrow>
                if members \<noteq> [] then None
                else map_option (\<lambda>tag. (object, tag)) (get_str object ''tag'')))"

text \<open>The loop over the template's outbounds, with the tags that could not be filled.\<close>

fun fill_groups ::
    "refined_node list \<Rightarrow> string list \<Rightarrow> json list \<Rightarrow> string list \<Rightarrow> json list \<times> string list" where
  "fill_groups nodes node_tags [] unfilled = ([], unfilled)"
| "fill_groups nodes node_tags (grp # rest) unfilled =
    (case empty_group grp of
       None \<Rightarrow> map_prod (\<lambda>gs. grp # gs) id (fill_groups nodes node_tags rest unfilled)
     | Some (object, group_tag) \<Rightarrow>
         if nodes = [] then
           map_prod (\<lambda>gs. grp # gs) id (fill_groups nodes node_tags rest (unfilled @ [group_tag]))
         else
           map_prod
             (\<lambda>gs. JObject (obj_insert ''outbounds'' (JArray (group_members nodes node_tags group_tag)) object)
                    # gs) id
             (fill_groups nodes node_tags rest unfilled))"

definition generate_from_template :: "json \<Rightarrow> refined_node list \<Rightarrow> engine_config_error + json" where
  "generate_from_template template nodes =
    (case as_object template of
       None \<Rightarrow> Err NotAnObject
     | Some object \<Rightarrow>
         (case get_array object ''outbounds'' of
            None \<Rightarrow> Err OutboundsNotArray
          | Some outbounds \<Rightarrow>
              and_then (try_collect node_tag nodes)
                (\<lambda>node_tags.
                   let (outbounds', unfilled) = fill_groups nodes node_tags outbounds []
                   in if unfilled \<noteq> [] then Err (UnfilledGroups unfilled)
                      else Ok (JObject (obj_insert ''outbounds''
                                 (JArray (outbounds' @ map rn_outbound nodes)) object)))))"

section \<open>Nodes that no group selects\<close>

definition kind_of :: "json_map \<Rightarrow> string" where
  "kind_of object = (case get_str object ''type'' of None \<Rightarrow> [] | Some k \<Rightarrow> k)"

definition selected_step :: "json \<Rightarrow> string list \<times> string list \<Rightarrow> string list \<times> string list" where
  "selected_step outbound acc =
    (case as_object outbound of
       None \<Rightarrow> acc
     | Some object \<Rightarrow>
         if kind_of object \<in> {''selector'', ''urltest''} then
           (fst acc, snd acc @ List.map_filter as_str
              (case get_array object ''outbounds'' of None \<Rightarrow> [] | Some ms \<Rightarrow> ms))
         else if kind_of object \<in> {''direct'', ''block'', ''dns'', []} then acc
         else (case get_str object ''tag'' of None \<Rightarrow> acc | Some tag \<Rightarrow> (fst acc @ [tag], snd acc)))"

definition unreferenced_node_tags :: "json \<Rightarrow> string list" where
  "unreferenced_node_tags generated =
    (case Option.bind (json_get generated ''outbounds'') as_array of
       None \<Rightarrow> []
     | Some outbounds \<Rightarrow>
         (let (node_tags, selected) = fold selected_step outbounds ([], [])
          in filter (\<lambda>tag. \<not> list_ex (\<lambda>member. member = tag) selected) node_tags))"

section \<open>Injection of the inbounds\<close>

definition injected_inbounds :: "engine_params \<Rightarrow> json" where
  "injected_inbounds params =
    JArray
      [JObject [(''type'', JString ''tproxy''), (''tag'', JString INBOUND_TAG_V4),
                (''listen'', JString LISTEN_V4_STR),
                (''listen_port'', JNumber (PosInt (ucast (ep_port_v4 params))))],
       JObject [(''type'', JString ''tproxy''), (''tag'', JString INBOUND_TAG_V6),
                (''listen'', JString LISTEN_V6_STR),
                (''listen_port'', JNumber (PosInt (ucast (ep_port_v6 params))))]]"

fun first_reserved_tag :: "json \<Rightarrow> string option" where
  "first_reserved_tag (JObject m) =
    (case get_str m ''tag'' of
       Some tag \<Rightarrow>
         if tag \<in> set RESERVED_TAGS then Some tag
         else find_map (\<lambda>e. first_reserved_tag (snd e)) m
     | None \<Rightarrow> find_map (\<lambda>e. first_reserved_tag (snd e)) m)"
| "first_reserved_tag (JArray items) = find_map first_reserved_tag items"
| "first_reserved_tag _ = None"

definition build_effective :: "json \<Rightarrow> engine_params \<Rightarrow> engine_config_error + json" where
  "build_effective user params =
    (case as_object user of
       None \<Rightarrow> Err NotAnObject
     | Some user_obj \<Rightarrow>
         and_then
           (case obj_get user_obj ''inbounds'' of
              None \<Rightarrow> Ok ()
            | Some (JArray items) \<Rightarrow> if items = [] then Ok () else Err UserSuppliedInbound
            | Some _ \<Rightarrow> Err InboundsNotArray)
           (\<lambda>_. case first_reserved_tag user of
                  Some tag \<Rightarrow> Err (ReservedTag tag)
                | None \<Rightarrow> Ok (JObject (obj_insert ''inbounds'' (injected_inbounds params) user_obj))))"

definition complete_cache_path :: "json \<Rightarrow> string \<Rightarrow> json" where
  "complete_cache_path generated path =
    (case generated of
       JObject root \<Rightarrow>
         (case obj_get root ''experimental'' of
            Some (JObject experimental) \<Rightarrow>
              (case obj_get experimental ''cache_file'' of
                 Some (JObject cache) \<Rightarrow>
                   if obj_get cache ''enabled'' = Some (JBool True) \<and>
                      (obj_get cache ''path'' = None \<or> obj_get cache ''path'' = Some (JString []))
                   then JObject (obj_insert ''experimental''
                          (JObject (obj_insert ''cache_file''
                            (JObject (obj_insert ''path'' (JString path) cache)) experimental)) root)
                   else generated
               | _ \<Rightarrow> generated)
          | _ \<Rightarrow> generated)
     | _ \<Rightarrow> generated)"

section \<open>Advisory checks\<close>

definition route_rules :: "json \<Rightarrow> json list option" where
  "route_rules config =
    Option.bind (Option.bind (json_get config ''route'') (\<lambda>r. json_get r ''rules'')) as_array"

definition rule_action_is :: "json \<Rightarrow> string \<Rightarrow> bool" where
  "rule_action_is rule action \<longleftrightarrow> Option.bind (json_get rule ''action'') as_str = Some action"

definition has_dns_hijack_rule :: "json \<Rightarrow> bool" where
  "has_dns_hijack_rule config =
    (case route_rules config of
       None \<Rightarrow> False | Some rules \<Rightarrow> list_ex (\<lambda>rule. rule_action_is rule ''hijack-dns'') rules)"

definition has_sniff_rule :: "json \<Rightarrow> bool" where
  "has_sniff_rule config =
    (case route_rules config of
       None \<Rightarrow> False | Some rules \<Rightarrow> list_ex (\<lambda>rule. rule_action_is rule ''sniff'') rules)"

section \<open>JSONC comments\<close>

definition line_break :: "u8 \<Rightarrow> bool" where
  "line_break b \<longleftrightarrow> b = 0x0D \<or> b = 0x0A"

definition mask_bytes :: "bytes \<Rightarrow> bytes" where
  "mask_bytes bs = map (\<lambda>b. if line_break b then b else 0x20) bs"

text \<open>\<open>windows(2).position\<close> of the end of a block comment.\<close>

fun close_comment :: "bytes \<Rightarrow> nat option" where
  "close_comment (a # b # r) =
    (if a = 0x2A \<and> b = 0x2F then Some 0 else map_option Suc (close_comment (b # r)))"
| "close_comment _ = None"

text \<open>
  The loop from the current offset: the rest of \<open>bytes\<close> to the rest of \<open>out\<close>. \<open>comment_len\<close> is the
  length of the comment a slash opens: \<open>None\<close> where the source breaks out of the loop, 0 for a slash
  that opens none.
\<close>

definition comment_len :: "bytes \<Rightarrow> nat option" where
  "comment_len bs =
    (case drop 1 bs of
       b # r \<Rightarrow>
         if b = 0x2F then
           Some (case position line_break bs of Some n \<Rightarrow> n | None \<Rightarrow> length bs)
         else if b = 0x2A then map_option (\<lambda>n. n + 4) (close_comment r)
         else Some 0
     | [] \<Rightarrow> Some 0)"

function strip_from :: "bool \<Rightarrow> bool \<Rightarrow> bytes \<Rightarrow> bytes" where
  "strip_from in_string escaped bs =
    (case bs of
       [] \<Rightarrow> []
     | b # r \<Rightarrow>
         if in_string then
           b # (if escaped then strip_from True False r
                else if b = 0x5C then strip_from True True r
                else if b = 0x22 then strip_from False escaped r
                else strip_from True escaped r)
         else if b = 0x22 then b # strip_from True escaped r
         else if b = 0x2F then
           (case comment_len bs of
              None \<Rightarrow> bs
            | Some n \<Rightarrow>
                if n = 0 then b # strip_from False escaped r
                else mask_bytes (take n bs) @ strip_from False escaped (drop n bs))
         else b # strip_from False escaped r)"
  by pat_completeness auto
termination
  by (relation "measure (\<lambda>(in_string, escaped, bs). length bs)") auto

declare strip_from.simps [simp del]

definition strip_jsonc_comments :: "string \<Rightarrow> string option" where
  "strip_jsonc_comments input = from_utf8 (strip_from False False (as_bytes input))"

definition parse_jsonc :: "(string \<Rightarrow> 'e + json) \<Rightarrow> string \<Rightarrow> ('e + json) option" where
  "parse_jsonc from_str t =
    map_option from_str
      (strip_jsonc_comments
        (case strip_prefix [CHR 0xEF, CHR 0xBB, CHR 0xBF] t of None \<Rightarrow> t | Some r \<Rightarrow> r))"

section \<open>Masking keeps the shape of the text\<close>

definition masks_to :: "u8 \<Rightarrow> u8 \<Rightarrow> bool" where
  "masks_to b m \<longleftrightarrow> m = b \<or> m = 0x20 \<and> \<not> line_break b"

lemma masks_to_refl [simp]: "masks_to b b"
  by (simp add: masks_to_def)

lemma mask_bytes_masks: "list_all2 masks_to bs (mask_bytes bs)"
  by (auto simp: mask_bytes_def masks_to_def list_all2_conv_all_nth)

lemma strip_from_masks: "list_all2 masks_to bs (strip_from i e bs)"
proof (induction i e bs rule: strip_from.induct)
  case (1 i e bs)
  have "list_all2 masks_to (take n bs @ drop n bs) (mask_bytes (take n bs) @ xs)"
    if "list_all2 masks_to (drop n bs) xs" for n xs
    using that mask_bytes_masks by (intro list_all2_appendI)
  then show ?case
    using 1 by (subst strip_from.simps) (auto split: list.splits option.splits simp: list_all2_refl)
qed

lemma length_strip_from: "length (strip_from i e bs) = length bs"
  using strip_from_masks [of bs i e] by (simp add: list_all2_lengthD)

lemma position_line_break_boundary:
  "position line_break bs = Some n \<Longrightarrow> utf8_valid bs \<Longrightarrow> utf8_valid (drop n bs)"
proof -
  assume p: "position line_break bs = Some n" and v: "utf8_valid bs"
  then have n: "n < length bs" "line_break (bs ! n)" by (auto simp: position_eq_Some)
  then have a: "bs ! n < 0x80" by (auto simp: line_break_def)
  have "utf8_valid (drop (Suc n) bs)"
    using v utf8_valid_ascii_split [OF a, of "take n bs" "drop (Suc n) bs"] n(1) by (simp add: id_take_nth_drop [symmetric])
  then show ?thesis using a n(1) by (simp add: Cons_nth_drop_Suc [symmetric])
qed

lemma close_comment_split: "close_comment bs = Some n \<Longrightarrow> \<exists>u v. bs = u @ [0x2A, 0x2F] @ v \<and> length u = n"
proof (induction bs arbitrary: n rule: close_comment.induct)
  case (1 a b r)
  show ?case
  proof (cases "a = 0x2A \<and> b = 0x2F")
    case True
    then show ?thesis using "1.prems" by auto
  next
    case False
    then obtain m where "close_comment (b # r) = Some m" "n = Suc m" using "1.prems" by auto
    then obtain u v where "b # r = u @ [0x2A, 0x2F] @ v" "length u = m" using "1.IH" [OF False] by blast
    then show ?thesis using \<open>n = Suc m\<close> by (metis append_Cons length_Cons)
  qed
qed simp_all

lemma comment_len_boundary:
  assumes "comment_len (0x2F # r) = Some n" and "utf8_valid r"
  shows "utf8_valid (drop n (0x2F # r))"
proof (cases r)
  case Nil
  then show ?thesis using assms by (simp add: comment_len_def)
next
  case (Cons b r')
  consider "b = 0x2F" | m where "b = 0x2A" "close_comment r' = Some m" "n = m + 4" | "n = 0"
    using assms(1) Cons by (auto simp: comment_len_def split: if_splits)
  then show ?thesis
  proof cases
    case 1
    then show ?thesis
      using assms Cons position_line_break_boundary [of "0x2F # r"]
      by (auto simp: comment_len_def split: option.splits)
  next
    case 2
    then obtain u v where uv: "r' = u @ [0x2A, 0x2F] @ v" "length u = m" using close_comment_split by blast
    then have "0x2F # r = (0x2F # b # u @ [0x2A, 0x2F]) @ v" "length (0x2F # b # u @ [0x2A, 0x2F]) = n"
      using Cons 2 by auto
    then have "drop n (0x2F # r) = v" by (metis append_eq_conv_conj)
    moreover have "utf8_valid ((b # u @ [0x2A]) @ 0x2F # v)" using assms(2) Cons uv by simp
    moreover have "(0x2F :: u8) < 0x80" by simp
    ultimately show ?thesis using utf8_valid_ascii_split by blast
  next
    case 3
    then show ?thesis using assms(2) by simp
  qed
qed

lemma utf8_valid_ascii: "\<forall>b\<in>set m. b < 0x80 \<Longrightarrow> utf8_valid (m @ ys) = utf8_valid ys"
  by (induction m) auto

lemma mask_bytes_ascii: "b \<in> set (mask_bytes bs) \<Longrightarrow> b < 0x80"
  by (auto simp: mask_bytes_def line_break_def)

lemma utf8_valid_masked:
  assumes "utf8_valid (p @ 0x2F # r)" and "n > 0" and "utf8_valid (drop n (0x2F # r))"
  shows "utf8_valid (p @ mask_bytes (take n (0x2F # r)) @ drop n (0x2F # r))"
proof -
  obtain k where k: "n = Suc k" using assms(2) by (cases n) auto
  have "utf8_valid p" using assms(1) utf8_valid_ascii_split [of "0x2F" p r] by simp
  moreover have "utf8_valid (mask_bytes (take k r) @ drop k r)"
    using assms(3) k mask_bytes_ascii by (subst utf8_valid_ascii) auto
  ultimately have "utf8_valid (p @ 0x20 # mask_bytes (take k r) @ drop k r)"
    using utf8_valid_ascii_split [of "0x20" p "mask_bytes (take k r) @ drop k r"] by simp
  then show ?thesis by (simp add: k mask_bytes_def line_break_def)
qed

lemma strip_from_utf8: "utf8_valid (p @ bs) \<Longrightarrow> utf8_valid (p @ strip_from i e bs)"
proof (induction i e bs arbitrary: p rule: strip_from.induct)
  case (1 i e bs)
  show ?case
  proof (cases bs)
    case Nil
    then show ?thesis using "1.prems" by (simp add: strip_from.simps)
  next
    case (Cons b r)
    have v: "utf8_valid ((p @ [b]) @ r)" using "1.prems" Cons by simp
    show ?thesis
    proof (cases "\<not> i \<and> b = 0x2F \<and> comment_len bs \<noteq> None \<and> comment_len bs \<noteq> Some 0")
      case True
      then obtain n where n: "n > 0" "comment_len bs = Some n" by (cases "comment_len bs") auto
      have "utf8_valid r" using "1.prems" Cons True utf8_valid_ascii_split [of b p r] by simp
      then have "utf8_valid (p @ mask_bytes (take n bs) @ drop n bs)"
        using utf8_valid_masked [of p r n] comment_len_boundary [of r n] "1.prems" Cons True n by simp
      then show ?thesis
        using "1.IH"(7) [of b r n "p @ mask_bytes (take n bs)"] Cons True n
        by (subst strip_from.simps) simp
    next
      case False
      then show ?thesis
        using "1.IH"(1-6,8) [where p = "p @ [b]", OF Cons] "1.prems" v Cons
        by (subst strip_from.simps) (auto split: option.splits)
    qed
  qed
qed

lemma strip_from_mask_prefix:
  "strip_from False e (mask_bytes m @ ys) = mask_bytes m @ strip_from False e ys"
proof (induction m)
  case (Cons b m)
  have "mask_bytes (b # m) @ ys = (if line_break b then b else 0x20) # mask_bytes m @ ys"
    by (simp add: mask_bytes_def)
  then show ?case using Cons
    by (subst strip_from.simps) (auto simp: mask_bytes_def line_break_def)
qed (simp add: mask_bytes_def)

lemma hd_strip_from:
  "r = c # r' \<Longrightarrow> c \<noteq> 0x2F \<Longrightarrow> \<exists>r''. strip_from False e r = c # r''"
  by (subst strip_from.simps) auto

lemma comment_len_zero:
  "comment_len (0x2F # r) = Some 0 \<longleftrightarrow> r = [] \<or> (\<exists>c r'. r = c # r' \<and> c \<noteq> 0x2F \<and> c \<noteq> 0x2A)"
  by (cases r) (auto simp: comment_len_def line_break_def split: option.splits)

lemma strip_from_idem: "strip_from i e (strip_from i e bs) = strip_from i e bs"
proof (induction i e bs rule: strip_from.induct)
  case (1 i e bs)
  show ?case
  proof (cases bs)
    case Nil
    then show ?thesis by (simp add: strip_from.simps)
  next
    case (Cons b r)
    consider (comment) n where "\<not> i" "b = 0x2F" "comment_len bs = Some n" "n > 0"
      | (slash) "\<not> i" "b = 0x2F" "comment_len bs = Some 0" | (unclosed) "\<not> i" "b = 0x2F" "comment_len bs = None"
      | (plain) "i \<or> b \<noteq> 0x2F" by (cases "comment_len bs") auto
    then show ?thesis
    proof cases
      case comment
      then have "strip_from i e bs = mask_bytes (take n bs) @ strip_from False e (drop n bs)"
        using Cons by (subst strip_from.simps) simp
      moreover have "strip_from False e (strip_from False e (drop n bs)) = strip_from False e (drop n bs)"
        using "1.IH"(7) [OF Cons] comment by (simp add: Cons)
      ultimately show ?thesis using comment(1) by (simp add: strip_from_mask_prefix)
    next
      case slash
      then have s: "strip_from i e bs = 0x2F # strip_from False e r"
        using Cons by (subst strip_from.simps) simp
      have "comment_len (0x2F # strip_from False e r) = Some 0"
        using slash Cons hd_strip_from [of r] length_strip_from [of False e r]
        by (fastforce simp: comment_len_zero)
      moreover have "strip_from False e (strip_from False e r) = strip_from False e r"
        using "1.IH"(6) [OF Cons] slash by (simp add: Cons)
      ultimately show ?thesis
        unfolding s using slash by (subst strip_from.simps) simp
    next
      case unclosed
      then have "strip_from i e bs = bs" using Cons by (subst strip_from.simps) simp
      then show ?thesis by simp
    next
      case plain
      then show ?thesis
        using "1.IH"(1-5,8) [OF Cons] Cons
        by (cases i) (auto simp: strip_from.simps [of _ _ "_ # _"])
    qed
  qed
qed

text \<open>
  C26: masking the comments of a valid text always gives a valid text, so the final UTF-8 check cannot
  fail; the result has the same length, line breaks exactly where they were, every other byte
  unchanged or a space, and masking it again changes nothing.
\<close>

theorem jsonc_masking_total:
  assumes "utf8_valid (as_bytes t)"
  shows "\<exists>u. strip_jsonc_comments t = Some u \<and> length u = length t
    \<and> list_all2 masks_to (as_bytes t) (as_bytes u)
    \<and> (\<forall>i. i < length t \<longrightarrow> line_break (as_bytes u ! i) = line_break (as_bytes t ! i))
    \<and> strip_jsonc_comments u = Some u"
proof -
  define bs where "bs = strip_from False False (as_bytes t)"
  have v: "utf8_valid bs" using strip_from_utf8 [of "[]" "as_bytes t"] assms by (simp add: bs_def)
  have u: "as_bytes (map char_of_byte bs) = bs" by (simp add: as_bytes_def comp_def)
  have m: "list_all2 masks_to (as_bytes t) bs" by (simp add: bs_def strip_from_masks)
  have "line_break (bs ! i) = line_break (as_bytes t ! i)" if "i < length t" for i
    using list_all2_nthD [OF m, of i] that by (auto simp: masks_to_def line_break_def)
  moreover have "length bs = length t" by (simp add: bs_def length_strip_from)
  moreover have "strip_from False False bs = bs" by (simp add: bs_def strip_from_idem)
  ultimately show ?thesis
    using v u m by (intro exI [of _ "map char_of_byte bs"])
      (simp add: strip_jsonc_comments_def from_utf8_def bs_def)
qed

theorem jsonc_masking_total_witness:
  "\<exists>u. strip_jsonc_comments ''{} // x'' = Some u \<and> length u = 7"
  using jsonc_masking_total [of "''{} // x''"] by (auto simp: as_bytes_def byte_of_char_def)

section \<open>Reserved tags\<close>

text \<open>Every string under a \<open>tag\<close> key anywhere in a value, in document order.\<close>

fun all_tags :: "json \<Rightarrow> string list" where
  "all_tags (JObject m) =
    (case get_str m ''tag'' of Some tag \<Rightarrow> [tag] | None \<Rightarrow> []) @ concat (map (\<lambda>e. all_tags (snd e)) m)"
| "all_tags (JArray items) = concat (map all_tags items)"
| "all_tags _ = []"

definition reserved_in :: "json \<Rightarrow> string list" where
  "reserved_in v = filter (\<lambda>t. t \<in> set RESERVED_TAGS) (all_tags v)"

lemma first_reserved_tag_None: "first_reserved_tag v = None \<longleftrightarrow> reserved_in v = []"
  by (induction v rule: first_reserved_tag.induct)
    (auto simp: reserved_in_def find_map_eq_None filter_empty_conv split: option.splits if_splits)

lemma concat_reserved_insert:
  "\<forall>e\<in>set m. reserved_in (snd e) = [] \<Longrightarrow>
   filter (\<lambda>t. t \<in> set RESERVED_TAGS) (concat (map (\<lambda>e. all_tags (snd e)) (obj_insert k v m))) =
   reserved_in v"
proof (induction k v m rule: obj_insert.induct)
  case (1 k v)
  then show ?case by (simp add: reserved_in_def)
next
  case (2 k v k' v' m)
  have "filter (\<lambda>t. t \<in> set RESERVED_TAGS) (concat (map (\<lambda>e. all_tags (snd e)) m)) = []"
    using "2.prems" by (auto simp: reserved_in_def filter_empty_conv)
  then show ?case using 2 by (auto simp: reserved_in_def)
qed

lemma reserved_in_insert:
  "reserved_in (JObject m) = [] \<Longrightarrow> k \<noteq> ''tag'' \<Longrightarrow>
   reserved_in (JObject (obj_insert k v m)) = reserved_in v"
  using concat_reserved_insert [of m k v]
  by (fastforce simp: reserved_in_def filter_empty_conv split: option.splits)

lemma reserved_in_injected: "reserved_in (injected_inbounds p) = RESERVED_TAGS"
  by (simp add: reserved_in_def injected_inbounds_def RESERVED_TAGS_def get_str_def obj_get_def)

text \<open>
  C4: an accepted configuration is the user's object with only \<open>inbounds\<close> written: every other key
  keeps its value and its place, the two injected inbounds are present with the ports of the
  generation, and nothing else anywhere in the result carries one of their tags. The candidate is
  accepted exactly when it declares no inbound and no reserved tag.
\<close>

theorem build_effective_injects_only_inbounds:
  assumes "user = JObject m"
  shows "(build_effective user params = Ok eff \<longleftrightarrow>
      obj_get m ''inbounds'' \<in> {None, Some (JArray [])} \<and> reserved_in user = [] \<and>
      eff = JObject (obj_insert ''inbounds'' (injected_inbounds params) m)) \<and>
    (build_effective user params = Ok eff \<longrightarrow>
      reserved_in eff = [INBOUND_TAG_V4, INBOUND_TAG_V6] \<and>
      json_get eff ''inbounds'' = Some (injected_inbounds params) \<and>
      (\<forall>k. k \<noteq> ''inbounds'' \<longrightarrow> json_get eff k = json_get user k))"
proof -
  have "build_effective user params = Ok eff \<longleftrightarrow>
      obj_get m ''inbounds'' \<in> {None, Some (JArray [])} \<and> reserved_in user = [] \<and>
      eff = JObject (obj_insert ''inbounds'' (injected_inbounds params) m)"
    using first_reserved_tag_None [of user] assms
    by (auto simp: build_effective_def split: option.splits json.splits if_splits)
  then show ?thesis
    using assms reserved_in_insert [of m "''inbounds''"]
    by (auto simp: json_get_def reserved_in_injected RESERVED_TAGS_def)
qed

theorem build_effective_injects_only_inbounds_witness:
  "reserved_in (JObject [(''log'', JNull), (''inbounds'',
      injected_inbounds \<lparr>ep_generation = 1, ep_port_v4 = 7, ep_port_v6 = 8\<rparr>)]) =
    [INBOUND_TAG_V4, INBOUND_TAG_V6]"
  using build_effective_injects_only_inbounds [of "JObject [(''log'', JNull)]" "[(''log'', JNull)]"
      "\<lparr>ep_generation = 1, ep_port_v4 = 7, ep_port_v6 = 8\<rparr>"
      "JObject [(''log'', JNull), (''inbounds'',
      injected_inbounds \<lparr>ep_generation = 1, ep_port_v4 = 7, ep_port_v6 = 8\<rparr>)]"]
  by (simp add: obj_get_def reserved_in_def get_str_def)

section \<open>Group filling\<close>

definition fill :: "refined_node list \<Rightarrow> string list \<Rightarrow> json \<Rightarrow> json" where
  "fill nodes node_tags grp =
    (case empty_group grp of
       None \<Rightarrow> grp
     | Some (object, tag) \<Rightarrow>
         if nodes = [] then grp
         else JObject (obj_insert ''outbounds'' (JArray (group_members nodes node_tags tag)) object))"

lemma fill_groups_eq:
  "fill_groups nodes node_tags outs unfilled =
    (map (fill nodes node_tags) outs,
     unfilled @ (if nodes = [] then map snd (List.map_filter empty_group outs) else []))"
  by (induction outs arbitrary: unfilled)
    (auto simp: fill_def map_filter_simps split: option.splits)

lemma empty_group_SomeD: "empty_group grp = Some (object, tag) \<Longrightarrow> grp = JObject object
    \<and> get_str object ''type'' \<in> {Some ''selector'', Some ''urltest''}
    \<and> obj_get object ''outbounds'' = Some (JArray []) \<and> obj_get object ''tag'' = Some (JString tag)"
  by (auto simp: empty_group_def get_str_eq_Some get_array_eq_Some split: option.splits if_splits)

lemma group_members_not_Nil: "group_members nodes node_tags tag \<noteq> []"
  by (auto simp: group_members_def Let_def)

lemma fill_not_empty: "nodes \<noteq> [] \<Longrightarrow> empty_group (fill nodes node_tags grp) = None"
  using group_members_not_Nil
  by (auto simp: fill_def empty_group_def split: option.splits if_splits prod.splits)

lemma fill_cases: "fill nodes node_tags grp = grp \<or> (\<exists>object tag ms. empty_group grp = Some (object, tag)
    \<and> ms \<noteq> [] \<and> fill nodes node_tags grp = JObject (obj_insert ''outbounds'' (JArray ms) object))"
proof (cases "empty_group grp = None \<or> nodes = []")
  case False
  then obtain object tag where "empty_group grp = Some (object, tag)" by (cases "empty_group grp") auto
  then show ?thesis
    using False group_members_not_Nil [of nodes node_tags tag]
    by (intro disjI2 exI [of _ object] exI [of _ tag] exI [of _ "group_members nodes node_tags tag"])
      (simp add: fill_def)
qed (auto simp: fill_def split: option.splits)

lemma generate_Ok:
  assumes "generate_from_template template nodes = Ok g"
  obtains m outs node_tags where "template = JObject m" "obj_get m ''outbounds'' = Some (JArray outs)"
    "try_collect node_tag nodes = Ok node_tags"
    "g = JObject (obj_insert ''outbounds'' (JArray (map (fill nodes node_tags) outs @ map rn_outbound nodes)) m)"
    "nodes = [] \<Longrightarrow> List.map_filter empty_group outs = []"
  using assms
  by (auto simp: generate_from_template_def fill_groups_eq and_then_eq_Ok get_array_eq_Some
      split: option.splits if_splits)

text \<open>
  C18: a generated configuration differs from the template only in \<open>outbounds\<close>, and writing the
  template's array back gives the template again. The new array is the template's, in order, followed
  by the node outbounds; an outbound changes only if it was an empty group, which then gets a
  non-empty member list, and no empty group is left.
\<close>

theorem generation_changes_only_outbounds:
  assumes "generate_from_template template nodes = Ok g"
  shows "\<exists>m outs outs' m'. template = JObject m \<and> json_get template ''outbounds'' = Some (JArray outs)
    \<and> g = JObject m' \<and> json_get g ''outbounds'' = Some (JArray (outs' @ map rn_outbound nodes))
    \<and> JObject (obj_insert ''outbounds'' (JArray outs) m') = template
    \<and> list_all2 (\<lambda>grp grp'. grp' = grp \<or> (\<exists>object tag ms. empty_group grp = Some (object, tag) \<and> ms \<noteq> []
         \<and> grp' = JObject (obj_insert ''outbounds'' (JArray ms) object))) outs outs'
    \<and> list_all (\<lambda>grp. empty_group grp = None) outs'"
proof -
  obtain m outs node_tags where t: "template = JObject m" "obj_get m ''outbounds'' = Some (JArray outs)"
    and g: "g = JObject (obj_insert ''outbounds'' (JArray (map (fill nodes node_tags) outs @ map rn_outbound nodes)) m)"
    and e: "nodes = [] \<Longrightarrow> List.map_filter empty_group outs = []"
    using generate_Ok [OF assms] by metis
  have "list_all (\<lambda>grp. empty_group grp = None) (map (fill nodes node_tags) outs)"
  proof (cases "nodes = []")
    case True
    then have "\<forall>grp\<in>set outs. empty_group grp = None"
      using e by (auto simp: map_filter_def filter_empty_conv) (metis option.exhaust surj_pair)
    then show ?thesis using True by (auto simp: list_all_iff fill_def)
  qed (auto simp: list_all_iff fill_not_empty)
  moreover have "list_all2 (\<lambda>grp grp'. grp' = grp \<or> (\<exists>object tag ms. empty_group grp = Some (object, tag) \<and> ms \<noteq> []
      \<and> grp' = JObject (obj_insert ''outbounds'' (JArray ms) object))) outs (map (fill nodes node_tags) outs)"
    using fill_cases by (auto simp: list_all2_map2 intro!: list.rel_refl_strong)
  ultimately show ?thesis
    using t g by (intro exI [of _ m] exI [of _ outs] exI [of _ "map (fill nodes node_tags) outs"] exI conjI)
      (auto simp: json_get_def obj_insert_present)
qed

theorem generation_changes_only_outbounds_witness:
  "\<exists>g outs'. generate_from_template (JObject [(''outbounds'', JArray [JObject [(''type'', JString ''selector''),
        (''tag'', JString ''PROXY''), (''outbounds'', JArray [])]])])
      [\<lparr>rn_outbound = JObject [(''tag'', JString ''a'')], rn_groups = []\<rparr>] = Ok g
    \<and> json_get g ''outbounds'' = Some (JArray (outs' @ [JObject [(''tag'', JString ''a'')]]))
    \<and> list_all (\<lambda>grp. empty_group grp = None) outs'"
proof -
  let ?t = "JObject [(''outbounds'', JArray [JObject [(''type'', JString ''selector''),
        (''tag'', JString ''PROXY''), (''outbounds'', JArray [])]])]"
  let ?ns = "[\<lparr>rn_outbound = JObject [(''tag'', JString ''a'')], rn_groups = []\<rparr>]"
  obtain g where "generate_from_template ?t ?ns = Ok g"
    by (simp add: generate_from_template_def node_tag_def empty_group_def get_array_def get_str_def
        obj_get_def group_members_def)
  then show ?thesis using generation_changes_only_outbounds [of ?t ?ns g] by auto
qed

section \<open>Reachability of nodes\<close>

definition selected_members :: "json \<Rightarrow> string list" where
  "selected_members outbound = snd (selected_step outbound ([], []))"

definition listed_nodes :: "json \<Rightarrow> string list" where
  "listed_nodes outbound = fst (selected_step outbound ([], []))"

lemma selected_step_eq:
  "selected_step outbound acc = (fst acc @ listed_nodes outbound, snd acc @ selected_members outbound)"
  by (auto simp: selected_step_def selected_members_def listed_nodes_def split: option.splits)

lemma fold_selected:
  "fold selected_step outs acc =
    (fst acc @ concat (map listed_nodes outs), snd acc @ concat (map selected_members outs))"
  by (induction outs arbitrary: acc) (auto simp: selected_step_eq)

lemma unreferenced_eq:
  "unreferenced_node_tags (JObject m) =
    (case get_array m ''outbounds'' of
       None \<Rightarrow> []
     | Some outs \<Rightarrow> filter (\<lambda>t. t \<notin> set (concat (map selected_members outs))) (concat (map listed_nodes outs)))"
  by (simp add: unreferenced_node_tags_def json_get_def get_array_def fold_selected list_ex_iff
      del: set_concat split: option.splits)

lemma try_collect_node_tag:
  "try_collect node_tag nodes = Ok tags \<Longrightarrow> node \<in> set nodes \<Longrightarrow> node_tag node = Ok t \<Longrightarrow>
   (node, t) \<in> set (zip nodes tags)"
  by (induction nodes arbitrary: tags) (auto simp: and_then_eq_Ok split: sum.splits)

lemma filled_group_selects:
  assumes "empty_group grp = Some (object, tag)" and "(node, t) \<in> set (zip nodes node_tags)"
    and "tag \<in> {''PROXY'', ''GLOBAL'', ''AUTO''} \<or> tag \<in> set (rn_groups node)"
  shows "t \<in> set (selected_members (fill nodes node_tags grp))"
proof -
  have "JString t \<in> set (group_members nodes node_tags tag)"
  proof -
    let ?P = "\<lambda>(node, tag'). tag \<in> {''PROXY'', ''GLOBAL'', ''AUTO''} \<or> list_ex (\<lambda>g. g = tag) (rn_groups node)"
    have "(node, t) \<in> set (filter ?P (zip nodes node_tags))"
      using assms(2,3) by (auto simp: list_ex_iff)
    then have "JString t \<in> set (map (\<lambda>(node, tag). JString tag) (filter ?P (zip nodes node_tags)))"
      by (force simp del: filter_set)
    then show ?thesis by (auto simp only: group_members_def Let_def list.map list.set empty_iff split: if_splits)
  qed
  moreover have "nodes \<noteq> []" using assms(2) by auto
  ultimately show ?thesis
    using empty_group_SomeD [OF assms(1)] assms(1)
    by (auto simp: fill_def selected_members_def selected_step_def kind_of_def get_array_def
        map_filter_def image_iff)
qed



end
