(* ===== verification/Subscription.thy ===== *)
theory Subscription
  imports Uri_Outbound Engine_Config BTree_Model Sha256 "HOL-Library.List_Lexorder" "HOL-Library.Char_ord"
begin

text \<open>
  Subscriptions, crates/flux-core/src/subscription.rs (the share links themselves are in
  Uri_Outbound): detection of the provider format, the compiled node policy with its region groups,
  the seven refinement steps and the assembly of all sources into one node set. \<open>expect\<close> is the error
  \<open>Panic\<close>. Lemmas: refinement keeps order and every field but the tag, bounds the tag, groups by the
  final tag; assembly gives distinct tags and never panics.
\<close>

section \<open>Data\<close>

record rename_rule =
  rr_match_pattern :: string
  rr_replace :: string

record refinement_config =
  rc_exclude_pattern :: string
  rc_rename :: "rename_rule list"
  rc_strip_emoji :: bool
  rc_max_tag_length :: nat

definition refinement_default :: refinement_config where
  "refinement_default =
    \<lparr>rc_exclude_pattern =
    ''(expire|traffic|'' @ bt [0xE5, 0xAE, 0x98, 0xE7, 0xBD, 0x91] @ ''|''
    @ bt [0xE5, 0x88, 0xB0, 0xE6, 0x9C, 0x9F] @ ''|'' @ bt [0xE6, 0xB5, 0x81, 0xE9, 0x87, 0x8F] @ ''|''
    @ bt [0xE5, 0x89, 0xA9, 0xE4, 0xBD, 0x99] @ ''|'' @ bt [0xE5, 0xA5, 0x97, 0xE9, 0xA4, 0x90] @ ''|''
    @ bt [0xE9, 0x87, 0x8D, 0xE7, 0xBD, 0xAE] @ ''|'' @ bt [0xE8, 0x81, 0x94, 0xE7, 0xB3, 0xBB] @ ''|''
    @ bt [0xE7, 0xBE, 0xA4, 0xE7, 0xBB, 0x84] @ ''|'' @ bt [0xE9, 0x80, 0x9A, 0xE7, 0x9F, 0xA5] @ ''|''
    @ bt [0xE5, 0xB9, 0xB3, 0xE5, 0x8F, 0xB0] @ ''|'' @ bt [0xE7, 0xBD, 0x91, 0xE7, 0xAB, 0x99] @ ''|''
    @ bt [0xE6, 0x97, 0xB6, 0xE9, 0x97, 0xB4] @ ''|'' @ bt [0xE5, 0xBB, 0xBA, 0xE8, 0xAE, 0xAE] @ ''|''
    @ bt [0xE5, 0x8F, 0x8D, 0xE9, 0xA6, 0x88] @ ''|'' @ bt [0xE7, 0x89, 0x88, 0xE6, 0x9C, 0xAC] @ ''|''
    @ bt [0xE6, 0x9B, 0xB4, 0xE6, 0x96, 0xB0] @ '')'',
     rc_rename = [\<lparr>rr_match_pattern =
    bt [0xE3, 0x80, 0x90] @ ''('' @ bt [0xE4, 0xBA, 0x9A, 0xE6, 0xB4, 0xB2] @ ''|''
    @ bt [0xE5, 0x8C, 0x97, 0xE7, 0xBE, 0x8E, 0xE6, 0xB4, 0xB2] @ ''|''
    @ bt [0xE6, 0xAC, 0xA7, 0xE6, 0xB4, 0xB2] @ ''|''
    @ bt [0xE5, 0x8D, 0x97, 0xE7, 0xBE, 0x8E, 0xE6, 0xB4, 0xB2] @ ''|''
    @ bt [0xE9, 0x9D, 0x9E, 0xE6, 0xB4, 0xB2] @ ''|''
    @ bt [0xE5, 0xA4, 0xA7, 0xE6, 0xB4, 0x8B, 0xE6, 0xB4, 0xB2] @ ''|''
    @ bt [0xE5, 0x8D, 0x97, 0xE6, 0x9E, 0x81, 0xE6, 0xB4, 0xB2] @ '')'' @ bt [0xE3, 0x80, 0x91],
       rr_replace = []\<rparr>],
     rc_strip_emoji = True, rc_max_tag_length = 32\<rparr>"

definition INFRASTRUCTURE_TYPES :: "string list" where
  "INFRASTRUCTURE_TYPES = [''selector'', ''urltest'', ''direct'', ''block'', ''dns'']"

definition COUNTRY_PATTERNS :: "(string \<times> string) list" where
  "COUNTRY_PATTERNS =
     [(''HK'', bt [0xE9, 0xA6, 0x99, 0xE6, 0xB8, 0xAF] @ ''|'' @ bt [0xE6, 0xB8, 0xAF]
       @ ''|hk|hongkong|hong kong''),
      (''TW'', bt [0xE5, 0x8F, 0xB0, 0xE6, 0xB9, 0xBE] @ ''|'' @ bt [0xE5, 0x8F, 0xB0] @ ''|tw|taiwan''),
      (''JP'', bt [0xE6, 0x97, 0xA5, 0xE6, 0x9C, 0xAC] @ ''|'' @ bt [0xE6, 0x97, 0xA5] @ ''|jp|japan''),
      (''SG'', bt [0xE6, 0x96, 0xB0, 0xE5, 0x8A, 0xA0, 0xE5, 0x9D, 0xA1] @ ''|'' @ bt [0xE6, 0x96, 0xB0]
       @ ''|sg|singapore''),
      (''US'', bt [0xE7, 0xBE, 0x8E, 0xE5, 0x9B, 0xBD] @ ''|'' @ bt [0xE7, 0xBE, 0x8E]
       @ ''|us|usa|united states|america''),
      (''KR'', bt [0xE9, 0x9F, 0xA9, 0xE5, 0x9B, 0xBD] @ ''|'' @ bt [0xE9, 0x9F, 0xA9]
       @ ''|kr|korea|south korea''),
      (''UK'', bt [0xE8, 0x8B, 0xB1, 0xE5, 0x9B, 0xBD] @ ''|'' @ bt [0xE8, 0x8B, 0xB1]
       @ ''|uk|gb|united kingdom|britain''),
      (''DE'', bt [0xE5, 0xBE, 0xB7, 0xE5, 0x9B, 0xBD] @ ''|'' @ bt [0xE5, 0xBE, 0xB7] @ ''|de|germany''),
      (''FR'', bt [0xE6, 0xB3, 0x95, 0xE5, 0x9B, 0xBD] @ ''|'' @ bt [0xE6, 0xB3, 0x95] @ ''|fr|france''),
      (''CA'', bt [0xE5, 0x8A, 0xA0, 0xE6, 0x8B, 0xBF, 0xE5, 0xA4, 0xA7] @ ''|'' @ bt [0xE5, 0x8A, 0xA0]
       @ ''|ca|canada''),
      (''AU'', bt [0xE6, 0xBE, 0xB3, 0xE5, 0xA4, 0xA7, 0xE5, 0x88, 0xA9, 0xE4, 0xBA, 0x9A] @ ''|''
       @ bt [0xE6, 0xBE, 0xB3, 0xE6, 0xB4, 0xB2] @ ''|'' @ bt [0xE6, 0xBE, 0xB3] @ ''|au|australia''),
      (''RU'', bt [0xE4, 0xBF, 0x84, 0xE7, 0xBD, 0x97, 0xE6, 0x96, 0xAF] @ ''|'' @ bt [0xE4, 0xBF, 0x84]
       @ ''|ru|russia''),
      (''NL'', bt [0xE8, 0x8D, 0xB7, 0xE5, 0x85, 0xB0] @ ''|'' @ bt [0xE8, 0x8D, 0xB7]
       @ ''|nl|netherlands''),
      (''IN'', bt [0xE5, 0x8D, 0xB0, 0xE5, 0xBA, 0xA6] @ ''|'' @ bt [0xE5, 0x8D, 0xB0] @ ''|in|india''),
      (''TR'', bt [0xE5, 0x9C, 0x9F, 0xE8, 0x80, 0xB3, 0xE5, 0x85, 0xB6] @ ''|'' @ bt [0xE5, 0x9C, 0x9F]
       @ ''|tr|turkey|turkiye''),
      (''IT'', bt [0xE6, 0x84, 0x8F, 0xE5, 0xA4, 0xA7, 0xE5, 0x88, 0xA9] @ ''|'' @ bt [0xE6, 0x84, 0x8F]
       @ ''|it|italy''),
      (''CH'', bt [0xE7, 0x91, 0x9E, 0xE5, 0xA3, 0xAB] @ ''|ch|switzerland''),
      (''SE'', bt [0xE7, 0x91, 0x9E, 0xE5, 0x85, 0xB8] @ ''|se|sweden''),
      (''BR'', bt [0xE5, 0xB7, 0xB4, 0xE8, 0xA5, 0xBF] @ ''|br|brazil''),
      (''AR'', bt [0xE9, 0x98, 0xBF, 0xE6, 0xA0, 0xB9, 0xE5, 0xBB, 0xB7] @ ''|ar|argentina''),
      (''VN'', bt [0xE8, 0xB6, 0x8A, 0xE5, 0x8D, 0x97] @ ''|vn|vietnam''),
      (''TH'', bt [0xE6, 0xB3, 0xB0, 0xE5, 0x9B, 0xBD] @ ''|th|thailand''),
      (''PH'', bt [0xE8, 0x8F, 0xB2, 0xE5, 0xBE, 0x8B, 0xE5, 0xAE, 0xBE] @ ''|'' @ bt [0xE8, 0x8F, 0xB2]
       @ ''|ph|philippines''),
      (''MY'', bt [0xE9, 0xA9, 0xAC, 0xE6, 0x9D, 0xA5, 0xE8, 0xA5, 0xBF, 0xE4, 0xBA, 0x9A] @ ''|''
       @ bt [0xE9, 0xA9, 0xAC, 0xE6, 0x9D, 0xA5] @ ''|my|malaysia''),
      (''ID'', bt [0xE5, 0x8D, 0xB0, 0xE5, 0xB0, 0xBC] @ ''|''
       @ bt [0xE5, 0x8D, 0xB0, 0xE5, 0xBA, 0xA6, 0xE5, 0xB0, 0xBC, 0xE8, 0xA5, 0xBF, 0xE4, 0xBA, 0x9A]
       @ ''|id|indonesia''),
      (''ES'', bt [0xE8, 0xA5, 0xBF, 0xE7, 0x8F, 0xAD, 0xE7, 0x89, 0x99] @ ''|'' @ bt [0xE8, 0xA5, 0xBF]
       @ ''|es|spain''),
      (''PL'', bt [0xE6, 0xB3, 0xA2, 0xE5, 0x85, 0xB0] @ ''|pl|poland''),
      (''FI'', bt [0xE8, 0x8A, 0xAC, 0xE5, 0x85, 0xB0] @ ''|fi|finland''),
      (''NO'', bt [0xE6, 0x8C, 0xAA, 0xE5, 0xA8, 0x81] @ ''|no|norway''),
      (''DK'', bt [0xE4, 0xB8, 0xB9, 0xE9, 0xBA, 0xA6] @ ''|dk|denmark'')]"

datatype subscription_error =
    JsonSyntax string
  | JsonNotObject
  | JsonOutboundsMissing
  | JsonOutboundsNotArray
  | InvalidBase64 string
  | DecodedListNotUtf8
  | InvalidUri nat string
  | InvalidExcludePattern string
  | InvalidRenamePattern nat string
  | InvalidOutbound nat string
  | InvalidGroupPattern nat
  | DuplicateTag string string
  | Source_Error string subscription_error
  | ZeroNodes

fun subscription_error_display :: "subscription_error \<Rightarrow> string" where
  "subscription_error_display (JsonSyntax reason) = ''subscription JSON is invalid: '' @ reason"
| "subscription_error_display JsonNotObject = ''subscription JSON must be a top-level object''"
| "subscription_error_display JsonOutboundsMissing = ''subscription JSON has no outbounds member''"
| "subscription_error_display JsonOutboundsNotArray = ''subscription JSON outbounds member is not an array''"
| "subscription_error_display (InvalidBase64 reason) =
    ''subscription response is neither sing-box JSON nor base64: '' @ reason"
| "subscription_error_display DecodedListNotUtf8 = ''decoded subscription list is not UTF-8''"
| "subscription_error_display (InvalidUri line reason) =
    ''invalid subscription URI on line '' @ dec line @ '': '' @ reason"
| "subscription_error_display (InvalidExcludePattern reason) =
    ''invalid subscription exclude_pattern: '' @ reason"
| "subscription_error_display (InvalidRenamePattern index reason) =
    ''invalid subscription rename['' @ dec index @ ''] pattern: '' @ reason"
| "subscription_error_display (InvalidOutbound index reason) =
    ''invalid subscription outbound['' @ dec index @ '']: '' @ reason"
| "subscription_error_display (InvalidGroupPattern index) =
    ''invalid nodes.groups expression at position '' @ dec (index + 1)"
| "subscription_error_display (DuplicateTag first second) =
    ''duplicate node tag: '' @ first @ '' conflicts with '' @ second"
| "subscription_error_display (Source_Error pos e) =
    pos @ '': '' @ subscription_error_display e"
| "subscription_error_display ZeroNodes = ''subscription produced zero proxy nodes''"

text \<open>An error of the code or the failure of an \<open>expect\<close>.\<close>

datatype 'e fault = Panic | Fail 'e

definition lift_err :: "'e + 'a \<Rightarrow> 'e fault + 'a" where
  "lift_err r = map_err Fail r"

record remote_source =
  rs_url :: string
  rs_id :: string

definition remote_source_parse :: "libs \<Rightarrow> string \<Rightarrow> string + remote_source" where
  "remote_source_parse L url =
    and_then (map_err (\<lambda>_. ''invalid subscription URL'') (url_parse L url))
      (\<lambda>parsed.
         if u_scheme parsed \<notin> {''http'', ''https''} \<or> u_host parsed = None
         then Err ''subscription URL must use HTTP(S) and have a host''
         else Ok \<lparr>rs_url = url, rs_id = sha_hex (digest (as_bytes url))\<rparr>)"

datatype node_source = Manual refined_node string | Remote remote_source string

record node_policy =
  np_config :: refinement_config
  np_exclude :: "regex option"
  np_renames :: "(regex \<times> string) list"
  np_groups :: "(string \<times> regex) list"

definition policy_eq :: "node_policy \<Rightarrow> node_policy \<Rightarrow> bool" where
  "policy_eq a b \<longleftrightarrow> np_config a = np_config b \<and>
    map (\<lambda>(tag, rx). (tag, rx_source rx)) (np_groups a) = map (\<lambda>(tag, rx). (tag, rx_source rx)) (np_groups b)"

section \<open>Compiling the policy\<close>

definition regex_new :: "libs \<Rightarrow> string \<Rightarrow> bool \<Rightarrow> regex option" where
  "regex_new L src ci = (if regex_valid L (Regex src ci) then Some (Regex src ci) else None)"

definition group_patterns :: "(string, string) btree_map \<Rightarrow> (string, string) btree_map" where
  "group_patterns overrides = map_extend (map_from_iter COUNTRY_PATTERNS) overrides"

definition policy_compile ::
    "libs \<Rightarrow> refinement_config \<Rightarrow> (string, string) btree_map \<Rightarrow> subscription_error + node_policy" where
  "policy_compile L config overrides =
    and_then
      (if rc_exclude_pattern config = [] then Ok None
       else ok_or (InvalidExcludePattern ''invalid expression'')
              (map_option Some (regex_new L (rc_exclude_pattern config) True)))
      (\<lambda>exclude.
         and_then
           (try_collect
             (\<lambda>(index, rule). ok_or (InvalidRenamePattern index ''invalid expression'')
                (map_option (\<lambda>rx. (rx, rr_replace rule)) (regex_new L (rr_match_pattern rule) False)))
             (enumerate 0 (rc_rename config)))
           (\<lambda>renames.
              and_then
                (try_collect
                  (\<lambda>(index, tag, pattern). ok_or (InvalidGroupPattern index)
                     (map_option (\<lambda>rx. (tag, rx)) (regex_new L pattern True)))
                  (enumerate 0 (group_patterns overrides)))
                (\<lambda>groups. Ok \<lparr>np_config = config, np_exclude = exclude, np_renames = renames,
                               np_groups = groups\<rparr>)))"

definition policy_groups :: "libs \<Rightarrow> node_policy \<Rightarrow> string \<Rightarrow> string list" where
  "policy_groups L policy tag =
    map fst (filter (\<lambda>(_, rx). regex_is_match L rx tag) (np_groups policy))"

definition outbound_tag :: "json \<Rightarrow> string option" where
  "outbound_tag outbound = Option.bind (json_get outbound ''tag'') as_str"

definition policy_manual :: "libs \<Rightarrow> node_policy \<Rightarrow> string \<Rightarrow> string fault + refined_node" where
  "policy_manual L policy uri =
    and_then (lift_err (parse_uri L uri))
      (\<lambda>outbound.
         case outbound_tag outbound of
           None \<Rightarrow> Err Panic
         | Some tag \<Rightarrow> Ok \<lparr>rn_outbound = outbound, rn_groups = policy_groups L policy tag\<rparr>)"

text \<open>\<open>NodePolicy::default\<close> unwraps the compilation of the built-in expressions.\<close>

definition policy_default :: "libs \<Rightarrow> string fault + node_policy" where
  "policy_default L =
    (case policy_compile L refinement_default [] of Ok p \<Rightarrow> Ok p | Err _ \<Rightarrow> Err Panic)"

definition parse_manual_node :: "libs \<Rightarrow> string \<Rightarrow> string fault + refined_node" where
  "parse_manual_node L uri = and_then (policy_default L) (\<lambda>policy. policy_manual L policy uri)"

section \<open>Provider formats\<close>

definition strip_utf8_bom :: "bytes \<Rightarrow> bytes" where
  "strip_utf8_bom b = (case strip_prefix [0xEF, 0xBB, 0xBF] b of Some r \<Rightarrow> r | None \<Rightarrow> b)"

definition looks_like_json :: "bytes \<Rightarrow> bool" where
  "looks_like_json b \<longleftrightarrow> find (\<lambda>x. \<not> is_ascii_whitespace x) b \<in> {Some 0x7B, Some 0x5B}"

definition json_outbounds :: "json \<Rightarrow> subscription_error + json list" where
  "json_outbounds v =
    and_then (ok_or JsonNotObject (as_object v))
      (\<lambda>object. and_then (ok_or JsonOutboundsMissing (obj_get object ''outbounds''))
        (\<lambda>o'. ok_or JsonOutboundsNotArray (as_array o')))"

fun parse_uri_lines :: "libs \<Rightarrow> nat \<Rightarrow> string list \<Rightarrow> subscription_error + json list" where
  "parse_uri_lines L index [] = Ok []"
| "parse_uri_lines L index (raw_line # rest) =
    (let line = trim raw_line
     in if line = [] \<or> starts_with line ''#'' then parse_uri_lines L (index + 1) rest
        else and_then (map_err (InvalidUri (index + 1)) (parse_uri L line))
               (\<lambda>outbound. and_then (parse_uri_lines L (index + 1) rest) (\<lambda>outs. Ok (outbound # outs))))"

definition parse_subscription :: "libs \<Rightarrow> bytes \<Rightarrow> subscription_error + json list" where
  "parse_subscription L response =
    (let response = strip_utf8_bom response
     in case json_from_slice L response of
          Inr v \<Rightarrow> json_outbounds v
        | Inl e \<Rightarrow>
            if looks_like_json response then Err (JsonSyntax e)
            else
              and_then (map_err InvalidBase64 (decode_base64 L response))
                (\<lambda>decoded. and_then (ok_or DecodedListNotUtf8 (from_utf8 (strip_utf8_bom decoded)))
                  (\<lambda>t. parse_uri_lines L 0 (lines t))))"

section \<open>Refinement\<close>

definition is_emoji :: "nat \<Rightarrow> bool" where
  "is_emoji s \<longleftrightarrow>
    0x1F1E6 \<le> s \<and> s \<le> 0x1F1FF \<or> 0x1F300 \<le> s \<and> s \<le> 0x1F5FF \<or> 0x1F600 \<le> s \<and> s \<le> 0x1F64F \<or>
    0x1F680 \<le> s \<and> s \<le> 0x1F6FF \<or> 0x1F700 \<le> s \<and> s \<le> 0x1FAFF \<or> s = 0x20E3 \<or>
    0x2600 \<le> s \<and> s \<le> 0x27BF \<or> 0x2E80 \<le> s \<and> s \<le> 0x2EFF \<or> s = 0xFE0F \<or> s = 0x200D"

definition strip_emoji :: "string \<Rightarrow> string" where
  "strip_emoji tag = concat (filter (\<lambda>c. \<not> is_emoji (char_scalar c)) (chars tag))"

definition currency_regex :: regex where
  "currency_regex = Regex (''[$'' @ bt [0xC2, 0xA5] @ '']([0-9]+('' @ bt [0x5C] @ ''.[0-9]+)?)[ '' @ bt [0x5C] @ ''t]*([xX]|''
    @ bt [0xE5, 0x80, 0x8D, 0xE7, 0x8E, 0x87] @ ''?)?'') False"

definition suffix_regex :: regex where
  "suffix_regex = Regex (''([0-9]+('' @ bt [0x5C] @ ''.[0-9]+)?)[ '' @ bt [0x5C] @ ''t]*(''
    @ bt [0xE5, 0x80, 0x8D, 0xE7, 0x8E, 0x87] @ ''?|[xX])'') False"

definition normalise_tag :: "libs \<Rightarrow> string \<Rightarrow> 'e fault + string" where
  "normalise_tag L tag =
    (if regex_valid L currency_regex \<and> regex_valid L suffix_regex then
       Ok (join_with CHR '' '' (split_whitespace
         (regex_replace_all L suffix_regex (regex_replace_all L currency_regex tag ''${1}x'') ''${1}x'')))
     else Err Panic)"

definition truncate_tag :: "string \<Rightarrow> nat \<Rightarrow> string" where
  "truncate_tag tag max_length =
    (if length (chars tag) \<le> max_length then tag
     else if max_length \<le> 3 then replicate max_length CHR ''.''
     else concat (take (max_length - 3) (chars tag)) @ ''...'')"

definition apply_renames :: "libs \<Rightarrow> (regex \<times> string) list \<Rightarrow> string \<Rightarrow> string" where
  "apply_renames L renames tag =
    fold (\<lambda>(pattern, replacement) tag. regex_replace_all L pattern tag replacement) renames tag"

text \<open>Steps 3 to 6 for a tag that was not excluded.\<close>

definition refined_tag :: "libs \<Rightarrow> node_policy \<Rightarrow> string \<Rightarrow> string \<Rightarrow> 'e fault + string" where
  "refined_tag L policy kind original_tag =
    (let config = np_config policy;
         tag = apply_renames L (np_renames policy) original_tag;
         tag = (if rc_strip_emoji config then strip_emoji tag else tag)
     in and_then (normalise_tag L tag)
          (\<lambda>tag. Ok (truncate_tag (if tag = [] then kind else tag) (rc_max_tag_length config))))"

definition excluded :: "libs \<Rightarrow> node_policy \<Rightarrow> string \<Rightarrow> bool" where
  "excluded L policy tag =
    (case np_exclude policy of Some pattern \<Rightarrow> regex_is_match L pattern tag | None \<Rightarrow> False)"

definition refine_one ::
    "libs \<Rightarrow> node_policy \<Rightarrow> nat \<Rightarrow> json \<Rightarrow> subscription_error fault + refined_node option" where
  "refine_one L policy index outbound =
    and_then (ok_or (Fail (InvalidOutbound index ''entry is not an object'')) (as_object outbound))
      (\<lambda>object.
         and_then (ok_or (Fail (InvalidOutbound index ''type is missing or is not a string''))
             (get_str object ''type''))
           (\<lambda>kind.
              if kind \<in> set INFRASTRUCTURE_TYPES then Ok None
              else
                and_then (ok_or (Fail (InvalidOutbound index ''tag is missing or is not a string''))
                    (get_str object ''tag''))
                  (\<lambda>original_tag.
                     if excluded L policy original_tag then Ok None
                     else
                       and_then (refined_tag L policy kind original_tag)
                         (\<lambda>tag. Ok (Some
                            \<lparr>rn_outbound = JObject (obj_insert ''tag'' (JString tag) object),
                             rn_groups = policy_groups L policy tag\<rparr>)))))"

fun refine_loop ::
    "libs \<Rightarrow> node_policy \<Rightarrow> nat \<Rightarrow> json list \<Rightarrow> subscription_error fault + refined_node list" where
  "refine_loop L policy index [] = Ok []"
| "refine_loop L policy index (outbound # rest) =
    and_then (refine_one L policy index outbound)
      (\<lambda>node. and_then (refine_loop L policy (index + 1) rest)
        (\<lambda>nodes. Ok (case node of None \<Rightarrow> nodes | Some n \<Rightarrow> n # nodes)))"

definition refine ::
    "libs \<Rightarrow> node_policy \<Rightarrow> json list \<Rightarrow> subscription_error fault + refined_node list" where
  "refine L policy outbounds =
    and_then (refine_loop L policy 0 outbounds)
      (\<lambda>refined. if refined = [] then Err (Fail ZeroNodes) else Ok refined)"

definition refine_nodes ::
    "libs \<Rightarrow> json list \<Rightarrow> refinement_config \<Rightarrow> subscription_error fault + refined_node list" where
  "refine_nodes L outbounds config =
    and_then (lift_err (policy_compile L config [])) (\<lambda>policy. refine L policy outbounds)"

definition parse_and_refine ::
    "libs \<Rightarrow> bytes \<Rightarrow> refinement_config \<Rightarrow> subscription_error fault + refined_node list" where
  "parse_and_refine L response config =
    and_then (lift_err (parse_subscription L response)) (\<lambda>outs. refine_nodes L outs config)"

definition policy_remote ::
    "libs \<Rightarrow> node_policy \<Rightarrow> bytes \<Rightarrow> subscription_error fault + refined_node list" where
  "policy_remote L policy b = and_then (lift_err (parse_subscription L b)) (refine L policy)"

section \<open>Assembly of all sources\<close>

fun add_batch ::
    "string \<Rightarrow> nat \<Rightarrow> refined_node list \<Rightarrow> refined_node list \<times> (string, string) btree_map \<Rightarrow>
     subscription_error fault + refined_node list \<times> (string, string) btree_map" where
  "add_batch pos index [] acc = Ok acc"
| "add_batch pos index (node # rest) (nodes, tags) =
    (let location = pos @ '', node '' @ dec (index + 1)
     in case outbound_tag (rn_outbound node) of
          None \<Rightarrow> Err Panic
        | Some tag \<Rightarrow>
            (case map_get tags tag of
               Some first \<Rightarrow> Err (Fail (DuplicateTag first location))
             | None \<Rightarrow> add_batch pos (index + 1) rest (nodes @ [node], map_insert tag location tags)))"

definition wrap_source :: "string \<Rightarrow> subscription_error fault + 'a \<Rightarrow> subscription_error fault + 'a" where
  "wrap_source pos r =
    map_err (\<lambda>e. case e of Panic \<Rightarrow> Panic | Fail x \<Rightarrow> Fail (Source_Error pos x)) r"

fun assemble_loop ::
    "libs \<Rightarrow> node_policy \<Rightarrow> (remote_source \<Rightarrow> bytes option) \<Rightarrow> node_source list \<Rightarrow>
     refined_node list \<times> (string, string) btree_map \<Rightarrow> subscription_error fault + refined_node list" where
  "assemble_loop L policy response [] acc = Ok (fst acc)"
| "assemble_loop L policy response (Manual node pos # rest) acc =
    and_then (add_batch pos 0 [node] acc) (assemble_loop L policy response rest)"
| "assemble_loop L policy response (Remote source pos # rest) acc =
    (case response source of
       None \<Rightarrow> assemble_loop L policy response rest acc
     | Some b \<Rightarrow>
         and_then (wrap_source pos (policy_remote L policy b))
           (\<lambda>batch. and_then (add_batch pos 0 batch acc) (assemble_loop L policy response rest)))"

definition assemble_nodes ::
    "libs \<Rightarrow> node_policy \<Rightarrow> (remote_source \<Rightarrow> bytes option) \<Rightarrow> node_source list \<Rightarrow>
     subscription_error fault + refined_node list" where
  "assemble_nodes L policy response sources = assemble_loop L policy response sources ([], [])"

section \<open>Refinement keeps order and bounds the tag\<close>

lemma chars_replicate_dot: "chars (replicate n CHR ''.'') = replicate n ''.''"
  by (induction n) (simp_all add: utf8_len_def)

lemma length_truncate_tag: "length (chars (truncate_tag tag n)) \<le> n"
proof -
  have "chars ''...'' = [''.'', ''.'', ''.'']" by (simp add: utf8_len_def)
  then have "length (chars (concat (take (n - 3) (chars tag)) @ ''...'')) \<le> n"
    if "\<not> length (chars tag) \<le> n" "\<not> n \<le> 3"
    using that chars_take_append [of "n - 3" tag "''...''"] by simp
  then show ?thesis by (auto simp: truncate_tag_def chars_replicate_dot)
qed

lemma refined_tag_bound: "refined_tag L policy kind t = Ok t' \<Longrightarrow> length (chars t') \<le> rc_max_tag_length (np_config policy)"
  by (auto simp: refined_tag_def Let_def and_then_eq_Ok length_truncate_tag)

definition dropped :: "libs \<Rightarrow> node_policy \<Rightarrow> json \<Rightarrow> bool" where
  "dropped L policy outbound \<longleftrightarrow> (\<exists>m kind. outbound = JObject m \<and> obj_get m ''type'' = Some (JString kind)
     \<and> (kind \<in> set INFRASTRUCTURE_TYPES \<or> (\<exists>t. obj_get m ''tag'' = Some (JString t) \<and> excluded L policy t)))"

definition refines_to :: "libs \<Rightarrow> node_policy \<Rightarrow> json \<Rightarrow> refined_node \<Rightarrow> bool" where
  "refines_to L policy outbound node \<longleftrightarrow>
    (\<exists>m tag. outbound = JObject m \<and> rn_outbound node = JObject (obj_insert ''tag'' (JString tag) m)
       \<and> length (chars tag) \<le> rc_max_tag_length (np_config policy)
       \<and> rn_groups node = policy_groups L policy tag)"

lemma refine_one_Ok:
  assumes "refine_one L policy i outbound = Ok r"
  shows "case r of None \<Rightarrow> dropped L policy outbound
    | Some node \<Rightarrow> \<not> dropped L policy outbound \<and> refines_to L policy outbound node"
proof -
  obtain m kind where m: "outbound = JObject m" "obj_get m ''type'' = Some (JString kind)"
    using assms by (auto simp: refine_one_def and_then_eq_Ok ok_or_eq_Ok get_str_eq_Some)
  show ?thesis
  proof (cases "kind \<in> set INFRASTRUCTURE_TYPES")
    case True
    then show ?thesis using assms m by (auto simp: refine_one_def get_str_def dropped_def)
  next
    case False
    have k: "get_str m ''type'' = Some kind" using m by (simp add: get_str_eq_Some)
    then obtain t where t: "get_str m ''tag'' = Some t"
      using assms m False by (cases "get_str m ''tag''") (auto simp: refine_one_def)
    then have "(if excluded L policy t then Ok None :: subscription_error fault + refined_node option
         else and_then (refined_tag L policy kind t)
           (\<lambda>tag. Ok (Some \<lparr>rn_outbound = JObject (obj_insert ''tag'' (JString tag) m),
              rn_groups = policy_groups L policy tag\<rparr>))) = Ok r"
      using assms m(1) k False by (simp add: refine_one_def split: if_splits)
    then show ?thesis
      using m False t
      by (auto simp: get_str_eq_Some dropped_def refines_to_def and_then_eq_Ok split: if_splits)
        (use refined_tag_bound in blast)
  qed
qed

lemma refine_loop_Ok:
  "refine_loop L policy i outs = Ok nodes \<Longrightarrow>
   list_all2 (refines_to L policy) (filter (\<lambda>x. \<not> dropped L policy x) outs) nodes"
proof (induction outs arbitrary: i nodes)
  case (Cons outbound outs)
  then obtain r rest where r: "refine_one L policy i outbound = Ok r"
    and rest: "refine_loop L policy (i + 1) outs = Ok rest"
    and n: "nodes = (case r of None \<Rightarrow> rest | Some x \<Rightarrow> x # rest)"
    by (auto simp: and_then_eq_Ok)
  then show ?case using refine_one_Ok [OF r] Cons.IH [OF rest] by (auto split: option.splits)
qed simp

text \<open>
  C17: refinement returns at least one node, one for every provider outbound that is neither
  infrastructure nor excluded by its original tag, in the provider's order. Each node is the provider's
  object with only the tag rewritten; the new tag has at most the configured number of characters and
  the node's groups are exactly those whose expression matches the new tag.
\<close>

theorem refinement_keeps_order_and_bounds:
  assumes "refine L policy outbounds = Ok nodes"
  shows "nodes \<noteq> [] \<and>
    list_all2 (refines_to L policy) (filter (\<lambda>x. \<not> dropped L policy x) outbounds) nodes"
  using assms refine_loop_Ok by (auto simp: refine_def and_then_eq_Ok split: if_splits)

text \<open>Libraries that accept every expression, match nothing and know one JSON text.\<close>

definition plain_libs :: libs where
  "plain_libs =
    \<lparr>url_parse = (\<lambda>s. Ok \<lparr>u_scheme = ''socks'', u_host = Some (Domain ''h''), u_username = [], u_password = None,
                           u_port_or_known_default = None, u_fragment = Some ''n'', u_query_pairs = []\<rparr>),
     form_urlencoded = (\<lambda>s. [(''value'', drop 6 s)]),
     base64_decode = (\<lambda>e b. Ok b),
     json_from_slice = (\<lambda>b. Ok (JObject [(''outbounds'', JArray [JObject [(''type'', JString ''vless''), (''tag'', JString ''abcdef'')]])])),
     regex_valid = (\<lambda>r. True), regex_is_match = (\<lambda>r s. False), regex_replace_all = (\<lambda>r s t. s)\<rparr>"

definition plain_policy :: node_policy where
  "plain_policy = \<lparr>np_config = \<lparr>rc_exclude_pattern = [], rc_rename = [], rc_strip_emoji = False, rc_max_tag_length = 32\<rparr>,
     np_exclude = None, np_renames = [], np_groups = []\<rparr>"

theorem refinement_keeps_order_and_bounds_witness:
  "\<exists>nodes. refine plain_libs plain_policy
      [JObject [(''type'', JString ''dns'')], JObject [(''type'', JString ''vless''), (''tag'', JString ''abcdef'')]] = Ok nodes
    \<and> length nodes = 1"
proof -
  let ?outs = "[JObject [(''type'', JString ''dns'')], JObject [(''type'', JString ''vless''), (''tag'', JString ''abcdef'')]]"
  obtain nodes where n: "refine plain_libs plain_policy ?outs = Ok nodes"
    by (simp add: refine_def refine_one_def get_str_def obj_get_def INFRASTRUCTURE_TYPES_def plain_policy_def
        refined_tag_def plain_libs_def normalise_tag_def Let_def excluded_def)
  have "filter (\<lambda>x. \<not> dropped plain_libs plain_policy x) ?outs = [?outs ! 1]"
    by (simp add: dropped_def obj_get_def INFRASTRUCTURE_TYPES_def excluded_def plain_policy_def)
  then show ?thesis
    using refinement_keeps_order_and_bounds [OF n] n list_all2_lengthD by fastforce
qed

section \<open>Assembly\<close>

definition tags_of :: "refined_node list \<Rightarrow> string option list" where
  "tags_of nodes = map (\<lambda>n. outbound_tag (rn_outbound n)) nodes"

text \<open>The map of the loop knows exactly the tags of the nodes collected so far.\<close>

definition tags_inv :: "refined_node list \<times> (string, string) btree_map \<Rightarrow> bool" where
  "tags_inv acc \<longleftrightarrow> map_inv (snd acc) \<and> distinct (tags_of (fst acc)) \<and>
    (\<forall>t. map_get (snd acc) t \<noteq> None \<longleftrightarrow> Some t \<in> set (tags_of (fst acc)))"

lemma tags_inv_empty: "tags_inv ([], [])"
  by (simp add: tags_inv_def tags_of_def)

lemma tags_inv_insert:
  assumes "tags_inv (nodes, tags)" and "outbound_tag (rn_outbound node) = Some tag" and "map_get tags tag = None"
  shows "tags_inv (nodes @ [node], map_insert tag location tags)"
proof -
  have "Some tag \<notin> set (tags_of nodes)" using assms unfolding tags_inv_def by (metis fst_conv snd_conv)
  then show ?thesis using assms(1,2) by (auto simp: tags_inv_def tags_of_def)
qed

lemma add_batch_Ok:
  "add_batch pos i batch acc = Ok acc' \<Longrightarrow> tags_inv acc \<Longrightarrow> fst acc' = fst acc @ batch \<and> tags_inv acc'"
  by (induction pos i batch acc rule: add_batch.induct)
    (auto simp: Let_def tags_inv_insert split: option.splits)

definition batch_of ::
    "libs \<Rightarrow> node_policy \<Rightarrow> (remote_source \<Rightarrow> bytes option) \<Rightarrow> node_source \<Rightarrow> refined_node list" where
  "batch_of L policy response src =
    (case src of
       Manual node _ \<Rightarrow> [node]
     | Remote source _ \<Rightarrow>
         (case response source of
            None \<Rightarrow> []
          | Some b \<Rightarrow> (case policy_remote L policy b of Inr nodes \<Rightarrow> nodes | Inl _ \<Rightarrow> [])))"

lemma assemble_loop_Ok:
  "assemble_loop L policy response sources acc = Ok out \<Longrightarrow> tags_inv acc \<Longrightarrow>
   out = fst acc @ concat (map (batch_of L policy response) sources) \<and> distinct (tags_of out)"
proof (induction sources arbitrary: acc)
  case Nil
  then show ?case by (auto simp: tags_inv_def)
next
  case (Cons src sources)
  show ?case
  proof (cases "\<exists>source pos. src = Remote source pos \<and> response source = None")
    case True
    then have "batch_of L policy response src = []" "assemble_loop L policy response sources acc = Ok out"
      using Cons.prems(1) by (auto simp: batch_of_def)
    then show ?thesis using Cons.IH [of acc] Cons.prems(2) by auto
  next
    case False
    then obtain pos acc' where b: "add_batch pos 0 (batch_of L policy response src) acc = Ok acc'"
      and rec: "assemble_loop L policy response sources acc' = Ok out"
      using Cons.prems(1)
      by (cases src) (auto simp: and_then_eq_Ok wrap_source_def map_err_eq_Ok batch_of_def split: option.splits)
    show ?thesis using Cons.IH [OF rec] add_batch_Ok [OF b Cons.prems(2)] by auto
  qed
qed

text \<open>
  C16: an assembled node set is the concatenation, in configured order, of the manual nodes and of the
  refined nodes of every available subscription, a subscription without a response contributing
  nothing; and no two nodes have the same tag.
\<close>

theorem assembled_tags_are_distinct:
  assumes "assemble_nodes L policy response sources = Ok nodes"
  shows "nodes = concat (map (batch_of L policy response) sources) \<and>
    distinct (tags_of nodes)"
  using assemble_loop_Ok [of L policy response sources "([], [])" nodes] assms tags_inv_empty
  by (auto simp: assemble_nodes_def)

theorem assembled_tags_are_distinct_witness:
  "\<exists>nodes. assemble_nodes plain_libs plain_policy (\<lambda>_. Some [])
       [Remote \<lparr>rs_url = ''u'', rs_id = ''i''\<rparr> ''p'',
        Manual \<lparr>rn_outbound = JObject [(''tag'', JString ''b'')], rn_groups = []\<rparr> ''q''] = Ok nodes
     \<and> distinct (tags_of nodes)"
proof -
  let ?s = "[Remote \<lparr>rs_url = ''u'', rs_id = ''i''\<rparr> ''p'',
        Manual \<lparr>rn_outbound = JObject [(''tag'', JString ''b'')], rn_groups = []\<rparr> ''q'']"
  have "\<not> isl (assemble_nodes plain_libs plain_policy (\<lambda>_. Some []) ?s)"
    by code_simp
  then obtain nodes where n: "assemble_nodes plain_libs plain_policy (\<lambda>_. Some []) ?s = Ok nodes"
    by (cases "assemble_nodes plain_libs plain_policy (\<lambda>_. Some []) ?s") auto
  then show ?thesis using assembled_tags_are_distinct [OF n] by blast
qed

section \<open>No panic\<close>

definition no_panic :: "'e fault + 'a \<Rightarrow> bool" where
  "no_panic r \<longleftrightarrow> r \<noteq> Err Panic"

lemma no_panic_simps [simp]:
  "no_panic (Ok v)" "no_panic (Err (Fail e))" "no_panic (lift_err r)" "no_panic (ok_or (Fail e) x)"
  "no_panic (wrap_source pos s) \<longleftrightarrow> no_panic s"
  by (cases r; cases x; cases s; auto simp: no_panic_def lift_err_def wrap_source_def map_err_def split: fault.splits)+

lemma no_panic_and_then:
  "no_panic r \<Longrightarrow> (\<And>x. r = Ok x \<Longrightarrow> no_panic (f x)) \<Longrightarrow> no_panic (and_then r f)"
  by (cases r) (auto simp: no_panic_def)

lemma outbound_tag_well_formed: "well_formed_outbound v \<Longrightarrow> outbound_tag v \<noteq> None"
  by (auto simp: well_formed_outbound_def outbound_tag_def json_get_def)

lemma policy_manual_no_panic: "no_panic (policy_manual L policy uri)"
proof (cases "parse_uri L uri")
  case (Inr v)
  then have "outbound_tag v \<noteq> None" using outbound_tag_well_formed parse_uri_well_formed by blast
  then show ?thesis using Inr by (auto simp: policy_manual_def lift_err_def map_err_def)
qed (simp add: policy_manual_def lift_err_def map_err_def)

lemma policy_manual_tag: "policy_manual L policy uri = Ok node \<Longrightarrow> outbound_tag (rn_outbound node) \<noteq> None"
  by (auto simp: policy_manual_def and_then_eq_Ok split: option.splits)

lemma refines_to_tag: "refines_to L policy v node \<Longrightarrow> outbound_tag (rn_outbound node) \<noteq> None"
  by (auto simp: refines_to_def outbound_tag_def json_get_def)

lemma policy_remote_tags:
  assumes "policy_remote L policy b = Ok nodes" and "node \<in> set nodes"
  shows "outbound_tag (rn_outbound node) \<noteq> None"
proof -
  obtain outs where "refine_loop L policy 0 outs = Ok nodes"
    using assms(1) by (auto simp: policy_remote_def refine_def and_then_eq_Ok split: if_splits)
  from refine_loop_Ok [OF this] assms(2) show ?thesis
    by (metis in_set_conv_nth list_all2_conv_all_nth refines_to_tag)
qed

definition regexes_compile :: "libs \<Rightarrow> bool" where
  "regexes_compile L \<longleftrightarrow> regex_valid L currency_regex \<and> regex_valid L suffix_regex"

lemma refined_tag_no_panic: "regexes_compile L \<Longrightarrow> no_panic (refined_tag L policy kind t)"
  by (simp add: refined_tag_def normalise_tag_def regexes_compile_def Let_def)

lemma refine_one_no_panic: "regexes_compile L \<Longrightarrow> no_panic (refine_one L policy i v)"
  by (simp add: refine_one_def refined_tag_no_panic no_panic_and_then)

lemma refine_no_panic: "regexes_compile L \<Longrightarrow> no_panic (refine L policy outs)"
proof -
  assume L: "regexes_compile L"
  have "no_panic (refine_loop L policy i outs)" for i
    by (induction outs arbitrary: i) (simp_all add: no_panic_and_then refine_one_no_panic [OF L])
  then show ?thesis by (simp add: refine_def no_panic_and_then)
qed

lemma add_batch_no_panic:
  "\<forall>node\<in>set batch. outbound_tag (rn_outbound node) \<noteq> None \<Longrightarrow> no_panic (add_batch pos i batch acc)"
  by (induction pos i batch acc rule: add_batch.induct) (auto simp: Let_def split: option.splits)

lemma assemble_loop_no_panic:
  assumes "regexes_compile L"
  shows "\<forall>node pos. Manual node pos \<in> set sources \<longrightarrow> outbound_tag (rn_outbound node) \<noteq> None \<Longrightarrow>
    no_panic (assemble_loop L policy response sources acc)"
proof (induction sources arbitrary: acc)
  case (Cons src sources)
  have rest: "no_panic (assemble_loop L policy response sources acc)" for acc
    using Cons.prems by (intro Cons.IH) simp
  show ?case
  proof (cases src)
    case (Manual node pos)
    then show ?thesis using Cons.prems by (simp add: rest no_panic_and_then add_batch_no_panic)
  next
    case (Remote source pos)
    have "no_panic (add_batch pos 0 batch acc)"
      if "wrap_source pos (policy_remote L policy b) = Ok batch" for b batch
      using that policy_remote_tags by (intro add_batch_no_panic) (auto simp: wrap_source_def map_err_eq_Ok)
    moreover have "no_panic (policy_remote L policy b)" for b
      by (simp add: policy_remote_def no_panic_and_then refine_no_panic [OF assms])
    ultimately show ?thesis
      using Remote by (auto simp: rest split: option.splits intro!: no_panic_and_then)
  qed
qed simp

text \<open>
  C24: with expressions that compile, a manual node never panics, and neither does the assembly of
  sources whose manual nodes came from that parser: the tag every \<open>expect\<close> relies on is always there.
\<close>

theorem assembly_never_panics:
  assumes "regexes_compile L"
    and "\<forall>node pos. Manual node pos \<in> set sources \<longrightarrow> (\<exists>uri. policy_manual L policy uri = Ok node)"
  shows "no_panic (policy_manual L policy uri) \<and> no_panic (assemble_nodes L policy response sources)"
  unfolding assemble_nodes_def
  using assms policy_manual_no_panic policy_manual_tag by (intro conjI assemble_loop_no_panic) blast+

theorem assembly_never_panics_witness:
  "\<exists>node. policy_manual plain_libs plain_policy ''socks://h#n'' = Ok node \<and>
     no_panic (assemble_nodes plain_libs plain_policy (\<lambda>_. None) [Manual node ''p''])"
proof -
  obtain node where n: "policy_manual plain_libs plain_policy ''socks://h#n'' = Ok node"
  proof -
    have "\<not> isl (policy_manual plain_libs plain_policy ''socks://h#n'')" by code_simp
    then show ?thesis using that by (cases "policy_manual plain_libs plain_policy ''socks://h#n''") auto
  qed
  have "regexes_compile plain_libs" by (simp add: regexes_compile_def plain_libs_def)
  then show ?thesis
    using assembly_never_panics [of plain_libs "[Manual node ''p'']" plain_policy] n by auto
qed

end
