(* ===== verification/Edit_Distance.thy ===== *)
theory Edit_Distance
  imports Std_Text
begin

text \<open>
  The suggestion for a misspelt configuration key, crates/flux-core/src/config.rs: the two-row table
  of \<open>levenshtein\<close> and \<open>closest_key\<close>. The specification is the number of single-character insertions,
  deletions and replacements; the table computes its minimum and the suggestion is a nearest key.
\<close>

section \<open>The table\<close>

text \<open>The inner loop: \<open>current[right_index + 1]\<close> from its neighbours, left to right.\<close>

fun fill_row :: "'a \<Rightarrow> nat list \<Rightarrow> nat \<Rightarrow> 'a list \<Rightarrow> nat list \<Rightarrow> nat list" where
  "fill_row left_char previous right_index [] current = current"
| "fill_row left_char previous right_index (right_char # rest) current =
    (let cost = (if left_char \<noteq> right_char then 1 else 0)
     in fill_row left_char previous (right_index + 1) rest
          (current[right_index + 1 :=
             min (min (previous ! (right_index + 1) + 1) (current ! right_index + 1))
               (previous ! right_index + cost)]))"

text \<open>The outer loop with the two buffers swapped after each row.\<close>

fun fill_rows :: "nat \<Rightarrow> 'a list \<Rightarrow> 'a list \<Rightarrow> nat list \<Rightarrow> nat list \<Rightarrow> nat list" where
  "fill_rows left_index [] right previous current = previous"
| "fill_rows left_index (left_char # rest) right previous current =
    fill_rows (left_index + 1) rest right
      (fill_row left_char previous 0 right (current[0 := left_index + 1])) previous"

definition levenshtein :: "string \<Rightarrow> string \<Rightarrow> nat" where
  "levenshtein left_text right_text =
    (let l = chars left_text; r = chars right_text
     in fill_rows 0 l r [0..<length r + 1] (replicate (length r + 1) 0) ! length r)"

text \<open>\<open>Iterator::min_by_key\<close> keeps the first of equal minima.\<close>

fun min_by_key :: "('a \<Rightarrow> nat) \<Rightarrow> 'a list \<Rightarrow> 'a option" where
  "min_by_key f [] = None"
| "min_by_key f (x # xs) =
    (case min_by_key f xs of None \<Rightarrow> Some x | Some y \<Rightarrow> Some (if f x \<le> f y then x else y))"

definition closest_key :: "string \<Rightarrow> string list \<Rightarrow> string option" where
  "closest_key key known =
    map_option snd (min_by_key fst (map (\<lambda>candidate. (levenshtein key candidate, candidate)) known))"

section \<open>Single edits\<close>

definition edit1 :: "'a list \<Rightarrow> 'a list \<Rightarrow> bool" where
  "edit1 xs ys \<longleftrightarrow> (\<exists>u v a b. xs = u @ v \<and> ys = u @ a # v \<or> xs = u @ a # v \<and> ys = u @ v \<or>
     xs = u @ a # v \<and> ys = u @ b # v)"

fun lev :: "'a list \<Rightarrow> 'a list \<Rightarrow> nat" where
  "lev [] ys = length ys"
| "lev (x # xs) [] = Suc (length xs)"
| "lev (x # xs) (y # ys) =
    min (min (lev xs (y # ys) + 1) (lev (x # xs) ys + 1)) (lev xs ys + (if x = y then 0 else 1))"

lemma lev_Nil2 [simp]: "lev xs [] = length xs"
  by (cases xs) auto

lemma lev_self [simp]: "lev xs xs = 0"
  by (induction xs) auto

lemma lev_Cons_right: "lev xs (y # ys) \<le> Suc (lev xs ys)"
  by (cases xs) auto

lemma lev_Cons_left: "lev (x # xs) ys \<le> Suc (lev xs ys)"
  by (cases ys) auto

lemma lev_drop_left: "lev v zs \<le> Suc (lev (a # v) zs)"
proof (induction zs)
  case (Cons z zs)
  have "lev v (z # zs) \<le> Suc (lev v zs)" by (rule lev_Cons_right)
  then show ?case using Cons by (auto simp: min_def)
qed simp

lemma lev_replace_left: "lev (a # v) zs \<le> Suc (lev (b # v) zs)"
proof (induction zs)
  case (Cons z zs)
  then show ?case by (simp add: min_def)
qed simp

lemma lev_prefix:
  assumes "\<And>zs. lev v zs \<le> Suc (lev w zs)" and "length v \<le> Suc (length w)"
  shows "lev (u @ v) zs \<le> Suc (lev (u @ w) zs)"
proof (induction u arbitrary: zs)
  case (Cons x u)
  show ?case
  proof (induction zs)
    case Nil
    then show ?case using assms(2) by simp
  next
    case (Cons z zs)
    then show ?case
      using Cons.IH \<open>\<And>zs. lev (u @ v) zs \<le> Suc (lev (u @ w) zs)\<close> [of zs]
        \<open>\<And>zs. lev (u @ v) zs \<le> Suc (lev (u @ w) zs)\<close> [of "z # zs"]
      by (simp add: min_def)
  qed
qed (simp add: assms(1))

lemma lev_edit1: "edit1 xs ys \<Longrightarrow> lev xs zs \<le> Suc (lev ys zs)"
  unfolding edit1_def
  by (elim exE disjE) (auto intro!: lev_prefix lev_drop_left lev_Cons_left lev_replace_left)

lemma lev_lower: "(edit1 ^^ n) xs ys \<Longrightarrow> lev xs ys \<le> n"
proof (induction n arbitrary: xs)
  case (Suc n)
  then obtain ws where "edit1 xs ws" "(edit1 ^^ n) ws ys" by (metis relpowp_Suc_D2)
  then show ?case using Suc.IH [of ws] lev_edit1 [of xs ws ys] by simp
qed simp

lemma edit1_Cons: "edit1 xs ys \<Longrightarrow> edit1 (a # xs) (a # ys)"
  unfolding edit1_def by (metis append_Cons)

lemma edits_Cons: "(edit1 ^^ n) xs ys \<Longrightarrow> (edit1 ^^ n) (a # xs) (a # ys)"
proof (induction n arbitrary: xs)
  case (Suc n)
  then obtain ws where "edit1 xs ws" "(edit1 ^^ n) ws ys" by (metis relpowp_Suc_D2)
  then show ?case using Suc.IH edit1_Cons relpowp_Suc_I2 by metis
qed simp

lemma edit1_drop: "edit1 (a # xs) xs"
  and edit1_add: "edit1 xs (a # xs)"
  and edit1_replace: "edit1 (a # xs) (b # xs)"
  unfolding edit1_def by (metis append_Nil)+

lemma edits_insert_all: "(edit1 ^^ length ys) [] ys"
proof (induction ys)
  case (Cons y ys)
  then show ?case using edit1_add relpowp_Suc_I by (metis length_Cons)
qed simp

lemma edits_delete_all: "(edit1 ^^ length xs) xs []"
proof (induction xs)
  case (Cons x xs)
  then show ?case using edit1_drop relpowp_Suc_I2 by (metis length_Cons)
qed simp

lemma lev_attained: "(edit1 ^^ lev xs ys) xs ys"
proof (induction xs ys rule: lev.induct)
  case (2 x xs)
  then show ?case using edits_delete_all [of "x # xs"] by simp
next
  case (3 x xs y ys)
  have a: "(edit1 ^^ Suc (lev xs (y # ys))) (x # xs) (y # ys)"
    using 3(1) edit1_drop relpowp_Suc_I2 by metis
  have b: "(edit1 ^^ Suc (lev (x # xs) ys)) (x # xs) (y # ys)"
    using 3(2) edit1_add relpowp_Suc_I by metis
  have c: "(edit1 ^^ (lev xs ys + (if x = y then 0 else 1))) (x # xs) (y # ys)"
    using edits_Cons [OF 3(3), of y] relpowp_Suc_I2 [of edit1, OF edit1_replace [of x xs y]] by auto
  show ?case using a b c by (auto simp: min_def)
qed (simp add: edits_insert_all)

lemma edit1_rev: "edit1 (rev xs) (rev ys) \<longleftrightarrow> edit1 xs ys"
proof -
  have "edit1 xs ys \<Longrightarrow> edit1 (rev xs) (rev ys)" for xs ys :: "'a list"
    unfolding edit1_def
    by (elim exE disjE conjE; simp; metis)
  then show ?thesis by (metis rev_rev_ident)
qed

lemma edits_rev: "(edit1 ^^ n) (rev xs) (rev ys) \<longleftrightarrow> (edit1 ^^ n) xs ys"
proof -
  have "(edit1 ^^ n) xs ys \<Longrightarrow> (edit1 ^^ n) (rev xs) (rev ys)" for xs ys :: "'a list"
  proof (induction n arbitrary: xs)
    case (Suc n)
    then obtain ws where "edit1 xs ws" "(edit1 ^^ n) ws ys" by (metis relpowp_Suc_D2)
    then show ?case using Suc.IH edit1_rev relpowp_Suc_I2 by metis
  qed simp
  then show ?thesis by (metis rev_rev_ident)
qed

section \<open>The table computes the distance\<close>

definition row_ok :: "'a list \<Rightarrow> 'a list \<Rightarrow> nat list \<Rightarrow> bool" where
  "row_ok L r row \<longleftrightarrow> length row = Suc (length r) \<and>
    (\<forall>j\<le>length r. row ! j = lev (rev L) (rev (take j r)))"

lemma lev_cell:
  assumes "k < length r"
  shows "lev (c # rev L) (rev (take (Suc k) r)) =
    min (min (lev (rev L) (rev (take (Suc k) r)) + 1) (lev (c # rev L) (rev (take k r)) + 1))
      (lev (rev L) (rev (take k r)) + (if c \<noteq> r ! k then 1 else 0))"
proof -
  have "rev (take (Suc k) r) = r ! k # rev (take k r)" using assms by (simp add: take_Suc_conv_app_nth)
  then show ?thesis by simp
qed

lemma fill_row_ok:
  assumes "row_ok L r previous" and "length current = Suc (length r)" and "k \<le> length r"
    and "\<forall>j\<le>k. current ! j = lev (c # rev L) (rev (take j r))"
  shows "row_ok (L @ [c]) r (fill_row c previous k (drop k r) current)"
  using assms(2-4)
proof (induction "length r - k" arbitrary: k current)
  case 0
  then have "drop k r = []" "k = length r" by auto
  then show ?case using 0 by (simp add: row_ok_def)
next
  case (Suc d)
  then have k: "k < length r" by simp
  let ?v = "min (min (previous ! (k + 1) + 1) (current ! k + 1)) (previous ! k + (if c \<noteq> r ! k then 1 else 0))"
  let ?cur = "current[k + 1 := ?v]"
  have "?v = lev (c # rev L) (rev (take (Suc k) r))"
    using lev_cell [OF k, of c L] Suc.prems(3) assms(1) k by (simp add: row_ok_def)
  then have "\<forall>j\<le>k + 1. ?cur ! j = lev (c # rev L) (rev (take j r))"
    using Suc.prems(1,3) k by (auto simp: nth_list_update le_Suc_eq)
  then have "row_ok (L @ [c]) r (fill_row c previous (k + 1) (drop (k + 1) r) ?cur)"
    using Suc.hyps(2) Suc.prems(1) k by (intro Suc.hyps(1)) auto
  moreover have "drop k r = r ! k # drop (k + 1) r" using k by (simp add: Cons_nth_drop_Suc)
  ultimately show ?case by (simp add: Let_def)
qed

lemma fill_rows_ok:
  "row_ok L r previous \<Longrightarrow> length current = Suc (length r) \<Longrightarrow>
   row_ok (L @ rest) r (fill_rows (length L) rest r previous current)"
proof (induction rest arbitrary: L previous current)
  case (Cons c rest)
  have "row_ok (L @ [c]) r (fill_row c previous 0 (drop 0 r) (current[0 := length L + 1]))"
    using Cons.prems by (intro fill_row_ok) auto
  moreover have "length previous = Suc (length r)" using Cons.prems(1) by (simp add: row_ok_def)
  ultimately show ?case using Cons.IH [of "L @ [c]"] by simp
qed simp

lemma levenshtein_lev: "levenshtein s t = lev (rev (chars s)) (rev (chars t))"
proof -
  let ?r = "chars t"
  have "row_ok [] ?r [0..<length ?r + 1]" by (auto simp: row_ok_def nth_append)
  then have "row_ok (chars s) ?r (fill_rows 0 (chars s) ?r [0..<length ?r + 1] (replicate (length ?r + 1) 0))"
    using fill_rows_ok [of "[]" ?r _ _ "chars s"] by simp
  then show ?thesis by (simp add: levenshtein_def row_ok_def Let_def del: upt_Suc)
qed

text \<open>
  The two-row table returns the edit distance: the two texts can be turned into each other by that
  many insertions, deletions and replacements of single characters, and by no fewer.
\<close>

theorem levenshtein_is_edit_distance:
  "(edit1 ^^ levenshtein s t) (chars s) (chars t) \<and>
   (\<forall>n. (edit1 ^^ n) (chars s) (chars t) \<longrightarrow> levenshtein s t \<le> n)"
  unfolding levenshtein_lev
  using lev_attained [of "rev (chars s)" "rev (chars t)"] lev_lower [of _ "rev (chars s)" "rev (chars t)"]
  by (simp add: edits_rev)

theorem levenshtein_is_edit_distance_witness:
  "levenshtein ''aps'' ''apps'' \<le> 1"
proof -
  have "edit1 (chars ''aps'') (chars ''apps'')"
    unfolding edit1_def by (rule exI [of _ "[''a'']"], rule exI [of _ "[''p'', ''s'']"], rule exI [of _ "''p''"])
      (simp add: utf8_len_def)
  then have "(edit1 ^^ 1) (chars ''aps'') (chars ''apps'')" by (simp only: relpowp_1)
  then show ?thesis using levenshtein_is_edit_distance [of "''aps''" "''apps''"] by blast
qed

lemma min_by_key_Some: "min_by_key f xs = Some x \<Longrightarrow> x \<in> set xs \<and> (\<forall>y\<in>set xs. f x \<le> f y)"
proof (induction xs arbitrary: x)
  case (Cons a xs)
  show ?case
  proof (cases "min_by_key f xs")
    case None
    then have "xs = []" by (cases xs) (auto split: option.splits)
    then show ?thesis using Cons.prems by simp
  next
    case (Some y)
    then show ?thesis using Cons.IH [OF Some] Cons.prems by (auto split: if_splits)
  qed
qed simp

lemma min_by_key_None: "min_by_key f xs = None \<longleftrightarrow> xs = []"
  by (cases xs) (auto split: option.splits)

lemma closest_key_nearest:
  "closest_key key known = Some k \<Longrightarrow> k \<in> set known \<and> (\<forall>k'\<in>set known. levenshtein key k \<le> levenshtein key k')"
  by (auto simp: closest_key_def dest!: min_by_key_Some)

lemma closest_key_None: "closest_key key known = None \<longleftrightarrow> known = []"
  by (simp add: closest_key_def min_by_key_None)

end
