(* ===== verification/Config.thy ===== *)
theory Config
  imports Subscription Selector Cidr List_Mode Edit_Distance
begin

text \<open>
  The configuration files, crates/flux-core/src/config.rs: the two TOML documents, the list dimensions
  with their \<open>@file\<close> references, prefixes, interfaces, node sources and the advanced settings, and the
  resolution of the application dimension to UIDs. The TOML parser, the reader of list files and the
  libraries of the share-link parser are the record \<open>config_env\<close>. A TOML table is a \<open>BTreeMap\<close>. Lemmas:
  an accepted configuration is canonical, duplicate-free and within the ABI's capacities, list files
  are read only by plain child names, and the selected UIDs are exactly the ones the mode describes.
\<close>

section \<open>Data\<close>

datatype toml =
    TString string
  | TInteger int
  | TFloat string
  | TBoolean bool
  | TDatetime string
  | TArray "toml list"
  | TTable "(string \<times> toml) list"

type_synonym toml_table = "(string, toml) btree_map"

fun toml_as_table :: "toml \<Rightarrow> toml_table option" where
  "toml_as_table (TTable t) = Some t"
| "toml_as_table _ = None"

fun toml_as_str :: "toml \<Rightarrow> string option" where
  "toml_as_str (TString s) = Some s"
| "toml_as_str _ = None"

fun toml_as_array :: "toml \<Rightarrow> toml list option" where
  "toml_as_array (TArray xs) = Some xs"
| "toml_as_array _ = None"

text \<open>A parse error of the TOML crate is the start of its span, if it has one.\<close>

record config_env =
  ce_libs :: libs
  ce_toml_from_str :: "string \<Rightarrow> nat option + toml"
  ce_read_file :: "string \<Rightarrow> string + bytes"

definition MAX_CONFIG_BYTES :: nat where "MAX_CONFIG_BYTES = 256 * 1024"
definition TOP_LEVEL_KEYS :: "string list" where
  "TOP_LEVEL_KEYS = [''apps'', ''cidr'', ''interfaces'', ''ssid'', ''nodes'']"
definition DIMENSION_KEYS :: "string list" where "DIMENSION_KEYS = [''mode'', ''list'']"
definition FETCH_KEYS :: "string list" where
  "FETCH_KEYS = [''interval'', ''timeout'', ''retries'', ''user_agent'']"
definition REFINEMENT_KEYS :: "string list" where
  "REFINEMENT_KEYS = [''exclude_pattern'', ''rename'', ''strip_emoji'', ''max_tag_length'']"
definition RENAME_KEYS :: "string list" where "RENAME_KEYS = [''match'', ''replace'']"

datatype config_error =
    TooLarge nat
  | Syntax string
  | UnknownKey string "string option"
  | WrongType string
  | InvalidValue string
  | TooManyApps nat
  | TooManyBypassV4 nat
  | TooManyBypassV6 nat
  | DuplicateApp string
  | DuplicateBypass string
  | DuplicateInterface string
  | DuplicateSsid string
  | Selector_Error selector_error
  | Cidr_Error cidr_error
  | InvalidListPath string
  | ListFileUnreadable string string
  | ListFileTooLarge string nat
  | ListFileNotUtf8 string
  | RecursiveListReference string nat

record fetch_config =
  fc_interval :: u64
  fc_timeout :: u64
  fc_retries :: u32
  fc_user_agent :: string

definition fetch_default :: fetch_config where
  "fetch_default = \<lparr>fc_interval = 86400, fc_timeout = 10, fc_retries = 2, fc_user_agent = []\<rparr>"

record node_config =
  nc_sources :: "node_source list"
  nc_fetch :: fetch_config
  nc_policy :: node_policy

definition remote_sources :: "node_config \<Rightarrow> remote_source list" where
  "remote_sources c =
    List.map_filter (\<lambda>s. case s of Remote source _ \<Rightarrow> Some source | Manual _ _ \<Rightarrow> None) (nc_sources c)"

record log_config =
  lc_max_bytes :: u64
  lc_retain :: u32

definition log_default :: log_config where
  "log_default = \<lparr>lc_max_bytes = 4 * 1024 * 1024, lc_retain = 1\<rparr>"

record flux_config =
  cfg_apps_mode :: list_mode
  cfg_apps :: "app_selector list"
  cfg_cidr_mode :: list_mode
  cfg_bypass_v4 :: "ipv4_cidr list"
  cfg_bypass_v6 :: "ipv6_cidr list"
  cfg_interfaces_mode :: list_mode
  cfg_interfaces :: "string list"
  cfg_ssid_mode :: list_mode
  cfg_ssids :: "string list"
  cfg_nodes :: node_config
  cfg_log :: log_config

abbreviation quote_char :: char where
  "quote_char \<equiv> CHR 0x27"

definition quoted :: "string \<Rightarrow> string" where
  "quoted s = quote_char # s @ [quote_char]"

section \<open>Documents and keys\<close>

definition error_location :: "string \<Rightarrow> nat option \<Rightarrow> string" where
  "error_location t span =
    (case span of
       None \<Rightarrow> []
     | Some start \<Rightarrow>
         (let before = take (min start (length t)) t;
              line = length (filter (\<lambda>c. c = newline) before) + 1;
              column = (case position (\<lambda>c. c = newline) (rev before) of
                          None \<Rightarrow> length before + 1 | Some k \<Rightarrow> k + 1)
          in '' at line '' @ dec line @ '', column '' @ dec column))"

definition parse_document :: "config_env \<Rightarrow> bytes \<Rightarrow> config_error + toml" where
  "parse_document E bytes =
    (if length bytes > MAX_CONFIG_BYTES then Err (TooLarge (length bytes))
     else
       and_then (ok_or (Syntax ''configuration is not valid UTF-8'') (from_utf8 bytes))
         (\<lambda>t. map_err (\<lambda>span. Syntax (''invalid TOML syntax'' @ error_location t span)) (ce_toml_from_str E t)))"

fun reject_unknown_keys :: "toml_table \<Rightarrow> string \<Rightarrow> string list \<Rightarrow> config_error + unit" where
  "reject_unknown_keys [] prefix known = Ok ()"
| "reject_unknown_keys ((key, _) # rest) prefix known =
    (if key \<in> set known then reject_unknown_keys rest prefix known
     else Err (UnknownKey (if prefix = [] then key else prefix @ ''.'' @ key) (closest_key key known)))"

definition optional_table :: "toml_table \<Rightarrow> string \<Rightarrow> string \<Rightarrow> config_error + toml_table option" where
  "optional_table parent name prefix =
    (case map_get parent name of
       None \<Rightarrow> Ok None
     | Some v \<Rightarrow>
         and_then (ok_or (WrongType (prefix @ name @ '' must be a table'')) (toml_as_table v)) (\<lambda>t. Ok (Some t)))"

definition optional_string :: "toml_table \<Rightarrow> string \<Rightarrow> string \<Rightarrow> string \<Rightarrow> config_error + string" where
  "optional_string table key dflt prefix =
    (case map_get table key of
       None \<Rightarrow> Ok dflt
     | Some (TString v) \<Rightarrow> Ok v
     | Some _ \<Rightarrow> Err (WrongType (prefix @ ''.'' @ key @ '' must be a string'')))"

definition required_string :: "toml_table \<Rightarrow> string \<Rightarrow> string \<Rightarrow> config_error + string" where
  "required_string table key prefix =
    (case map_get table key of
       Some (TString v) \<Rightarrow> Ok v
     | Some _ \<Rightarrow> Err (WrongType (prefix @ ''.'' @ key @ '' must be a string''))
     | None \<Rightarrow> Err (InvalidValue (prefix @ ''.'' @ key @ '' is required'')))"

definition optional_u64 :: "toml_table \<Rightarrow> string \<Rightarrow> u64 \<Rightarrow> string \<Rightarrow> config_error + u64" where
  "optional_u64 table key dflt prefix =
    (case map_get table key of
       None \<Rightarrow> Ok dflt
     | Some (TInteger v) \<Rightarrow>
         if 0 \<le> v then Ok (word_of_int v)
         else Err (InvalidValue (prefix @ ''.'' @ key @ '' must be non-negative''))
     | Some _ \<Rightarrow> Err (WrongType (prefix @ ''.'' @ key @ '' must be an integer'')))"

definition optional_bool :: "toml_table \<Rightarrow> string \<Rightarrow> bool \<Rightarrow> string \<Rightarrow> config_error + bool" where
  "optional_bool table key dflt prefix =
    (case map_get table key of
       None \<Rightarrow> Ok dflt
     | Some (TBoolean v) \<Rightarrow> Ok v
     | Some _ \<Rightarrow> Err (WrongType (prefix @ ''.'' @ key @ '' must be a boolean'')))"

definition u32_try_from :: "'e \<Rightarrow> u64 \<Rightarrow> 'e + u32" where
  "u32_try_from e v = (if unat v < 2 ^ 32 then Ok (ucast v) else Err e)"

section \<open>List dimensions\<close>

definition validate_list_path :: "string \<Rightarrow> config_error + unit" where
  "validate_list_path path =
    (if path = [] \<or> path = ''.'' \<or> path = ''..'' \<or> CHR ''/'' \<in> set path \<or> CHR 0x5C \<in> set path
        \<or> CHR 0x00 \<in> set path
     then Err (InvalidListPath path) else Ok ())"

text \<open>The text of a list file: the checks that \<open>expand_list\<close> and \<open>parse_nodes\<close> both make.\<close>

definition list_file_text :: "config_env \<Rightarrow> string \<Rightarrow> config_error + string" where
  "list_file_text E path =
    and_then (validate_list_path path)
      (\<lambda>_. and_then (map_err (ListFileUnreadable path) (ce_read_file E path))
        (\<lambda>bytes. if length bytes > MAX_CONFIG_BYTES then Err (ListFileTooLarge path (length bytes))
                 else ok_or (ListFileNotUtf8 path) (from_utf8 bytes)))"

fun expand_lines :: "string \<Rightarrow> nat \<Rightarrow> string list \<Rightarrow> config_error + string list" where
  "expand_lines path index [] = Ok []"
| "expand_lines path index (raw_line # rest) =
    (let line = trim raw_line
     in if line = [] \<or> starts_with line ''#'' then expand_lines path (index + 1) rest
        else if starts_with line ''@'' then Err (RecursiveListReference path (index + 1))
        else and_then (expand_lines path (index + 1) rest) (\<lambda>ls. Ok (line # ls)))"

fun expand_list :: "config_env \<Rightarrow> string list \<Rightarrow> config_error + string list" where
  "expand_list E [] = Ok []"
| "expand_list E (entry # rest) =
    (case strip_prefix ''@'' entry of
       None \<Rightarrow> and_then (expand_list E rest) (\<lambda>es. Ok (entry # es))
     | Some path \<Rightarrow>
         and_then (list_file_text E path)
           (\<lambda>t. and_then (expand_lines path 0 (lines t))
             (\<lambda>ls. and_then (expand_list E rest) (\<lambda>es. Ok (ls @ es)))))"

definition dimension_mode :: "toml_table \<Rightarrow> string \<Rightarrow> list_mode \<Rightarrow> config_error + list_mode" where
  "dimension_mode table name default_mode =
    (case map_get table ''mode'' of
       None \<Rightarrow> Ok default_mode
     | Some (TString mode) \<Rightarrow>
         if mode = ''whitelist'' then Ok Whitelist
         else if mode = ''blacklist'' then Ok Blacklist
         else Err (InvalidValue (name @ ''.mode '' @ quoted mode @ '' must be '' @ quoted ''whitelist''
                     @ '' or '' @ quoted ''blacklist''))
     | Some _ \<Rightarrow> Err (WrongType (name @ ''.mode must be a string'')))"

definition dimension_list :: "toml_table \<Rightarrow> string \<Rightarrow> config_error + string list" where
  "dimension_list table name =
    (case map_get table ''list'' of
       None \<Rightarrow> Ok []
     | Some (TArray items) \<Rightarrow>
         try_collect (\<lambda>item. ok_or (WrongType (name @ ''.list must be an array of strings'')) (toml_as_str item)) items
     | Some _ \<Rightarrow> Err (WrongType (name @ ''.list must be an array'')))"

definition dimension ::
    "config_env \<Rightarrow> toml_table \<Rightarrow> string \<Rightarrow> list_mode \<Rightarrow> config_error + (list_mode \<times> string list)" where
  "dimension E root name default_mode =
    (case map_get root name of
       None \<Rightarrow> Ok (default_mode, [])
     | Some v \<Rightarrow>
         and_then (ok_or (WrongType (name @ '' must be a table'')) (toml_as_table v))
           (\<lambda>table. and_then (reject_unknown_keys table name DIMENSION_KEYS)
             (\<lambda>_. and_then (dimension_mode table name default_mode)
               (\<lambda>mode. and_then (dimension_list table name)
                 (\<lambda>raw. and_then (expand_list E raw) (\<lambda>es. Ok (mode, es)))))))"

fun parse_apps_loop ::
    "string list \<Rightarrow> string btree_set \<Rightarrow> config_error + app_selector list" where
  "parse_apps_loop [] seen = Ok []"
| "parse_apps_loop (entry # rest) seen =
    and_then (map_err Selector_Error (app_selector_parse entry))
      (\<lambda>selector.
         let canonical = selector_canonical selector
         in if set_contains seen canonical then Err (DuplicateApp canonical)
            else and_then (parse_apps_loop rest (set_insert canonical seen)) (\<lambda>apps. Ok (selector # apps)))"

definition parse_apps :: "string list \<Rightarrow> config_error + app_selector list" where
  "parse_apps entries =
    (if length entries > unat UID_SELECTED_MAX then Err (TooManyApps (length entries))
     else parse_apps_loop entries [])"

fun parse_cidrs_loop ::
    "string list \<Rightarrow> string btree_set \<Rightarrow> config_error + (ipv4_cidr list \<times> ipv6_cidr list)" where
  "parse_cidrs_loop [] seen = Ok ([], [])"
| "parse_cidrs_loop (entry # rest) seen =
    (let address = (case split_once CHR ''/'' entry of None \<Rightarrow> entry | Some (address, _) \<Rightarrow> address)
     in if parse_ipv4 address \<noteq> None then
          and_then (map_err Cidr_Error (ipv4_cidr_parse entry))
            (\<lambda>cidr.
               let canonical = ipv4_cidr_display cidr
               in if set_contains seen canonical then Err (DuplicateBypass canonical)
                  else and_then (parse_cidrs_loop rest (set_insert canonical seen))
                         (\<lambda>(v4, v6). Ok (cidr # v4, v6)))
        else if parse_ipv6 address \<noteq> None then
          and_then (map_err Cidr_Error (ipv6_cidr_parse entry))
            (\<lambda>cidr.
               let canonical = ipv6_cidr_display cidr
               in if set_contains seen canonical then Err (DuplicateBypass canonical)
                  else and_then (parse_cidrs_loop rest (set_insert canonical seen))
                         (\<lambda>(v4, v6). Ok (v4, cidr # v6)))
        else Err (Cidr_Error (Malformed entry)))"

definition parse_cidrs :: "string list \<Rightarrow> config_error fault + (ipv4_cidr list \<times> ipv6_cidr list)" where
  "parse_cidrs entries =
    and_then (lift_err (parse_cidrs_loop entries []))
      (\<lambda>(v4, v6).
         case fixed_bypass_v4 of
           None \<Rightarrow> Err Panic
         | Some fixed4 \<Rightarrow>
             if length v4 + length fixed4 > unat LPM_MAX_ENTRIES then Err (Fail (TooManyBypassV4 (length v4)))
             else
               (case fixed_bypass_v6 of
                  None \<Rightarrow> Err Panic
                | Some fixed6 \<Rightarrow>
                    if length v6 + length fixed6 > unat LPM_MAX_ENTRIES
                    then Err (Fail (TooManyBypassV6 (length v6))) else Ok (v4, v6)))"

fun dedup_loop :: "bool \<Rightarrow> string list \<Rightarrow> string btree_set \<Rightarrow> config_error + unit" where
  "dedup_loop ssid [] seen = Ok ()"
| "dedup_loop ssid (entry # rest) seen =
    (if set_contains seen entry then Err (if ssid then DuplicateSsid entry else DuplicateInterface entry)
     else dedup_loop ssid rest (set_insert entry seen))"

definition deduplicate_strings :: "string list \<Rightarrow> bool \<Rightarrow> config_error + string list" where
  "deduplicate_strings entries ssid = and_then (dedup_loop ssid entries []) (\<lambda>_. Ok entries)"

definition interface_name_ok :: "string \<Rightarrow> bool" where
  "interface_name_ok name \<longleftrightarrow>
    \<not> (name = [] \<or> length name \<ge> 16 \<or> CHR ''/'' \<in> set name \<or> CHR 0x00 \<in> set name)"

definition parse_interfaces :: "string list \<Rightarrow> config_error + string list" where
  "parse_interfaces entries =
    (case find (\<lambda>name. \<not> interface_name_ok name) entries of
       Some name \<Rightarrow> Err (InvalidValue (''interface name '' @ quoted name @ '' is not canonical''))
     | None \<Rightarrow> deduplicate_strings entries False)"

section \<open>Node sources\<close>

definition manual_source ::
    "config_env \<Rightarrow> node_policy \<Rightarrow> string \<Rightarrow> string \<Rightarrow> config_error fault + node_source" where
  "manual_source E policy uri pos =
    and_then
      (map_err (\<lambda>e. case e of Panic \<Rightarrow> Panic | Fail reason \<Rightarrow> Fail (InvalidValue (pos @ '': '' @ reason)))
        (policy_manual (ce_libs E) policy uri))
      (\<lambda>node. Ok (Manual node pos))"

fun node_file_lines ::
    "config_env \<Rightarrow> node_policy \<Rightarrow> string \<Rightarrow> string \<Rightarrow> nat \<Rightarrow> string list \<Rightarrow> config_error fault + node_source list" where
  "node_file_lines E policy path pos line [] = Ok []"
| "node_file_lines E policy path pos line (raw_uri # rest) =
    (let uri = trim raw_uri
     in if uri = [] \<or> starts_with uri ''#'' then node_file_lines E policy path pos (line + 1) rest
        else if starts_with uri ''@'' then Err (Fail (RecursiveListReference path (line + 1)))
        else
          and_then (manual_source E policy uri (pos @ '', line '' @ dec (line + 1)))
            (\<lambda>src. and_then (node_file_lines E policy path pos (line + 1) rest) (\<lambda>srcs. Ok (src # srcs))))"

text \<open>The URI of one entry and whether it is an explicit node table.\<close>

definition source_entry :: "string \<Rightarrow> toml \<Rightarrow> config_error + (string \<times> bool)" where
  "source_entry pos entry =
    (case entry of
       TString uri \<Rightarrow> Ok (uri, False)
     | TTable table \<Rightarrow>
         and_then (reject_unknown_keys table pos [''node''])
           (\<lambda>_. and_then (ok_or (WrongType (pos @ ''.node must be a string''))
               (Option.bind (map_get table ''node'') toml_as_str))
             (\<lambda>uri. Ok (uri, True)))
     | _ \<Rightarrow> Err (WrongType (pos @ '' must be a URI, @file, or node table'')))"

definition is_http_scheme :: "string \<Rightarrow> bool" where
  "is_http_scheme uri =
    (case split_once CHR '':'' uri of
       Some (scheme, _) \<Rightarrow> eq_ignore_ascii_case scheme ''http'' \<or> eq_ignore_ascii_case scheme ''https''
     | None \<Rightarrow> False)"

text \<open>The sources one entry contributes, with the remote sources already seen.\<close>

definition entry_sources ::
    "config_env \<Rightarrow> node_policy \<Rightarrow> remote_source list \<Rightarrow> string \<Rightarrow> toml \<Rightarrow>
     config_error fault + (node_source list \<times> remote_source list)" where
  "entry_sources E policy seen pos entry =
    and_then (lift_err (source_entry pos entry))
      (\<lambda>(uri, explicit).
         let manual = and_then (manual_source E policy uri pos) (\<lambda>src. Ok ([src], seen))
         in if explicit then manual
            else case strip_prefix ''@'' uri of
                   Some path \<Rightarrow>
                     and_then (lift_err (list_file_text E path))
                       (\<lambda>t. and_then (node_file_lines E policy path pos 0 (lines t)) (\<lambda>srcs. Ok (srcs, seen)))
                 | None \<Rightarrow>
                     if is_http_scheme uri then
                       and_then (lift_err (map_err (\<lambda>reason. InvalidValue (pos @ '': '' @ reason))
                           (remote_source_parse (ce_libs E) uri)))
                         (\<lambda>source. if source \<in> set seen then Ok ([], seen)
                                   else Ok ([Remote source pos], source # seen))
                     else manual)"

fun parse_nodes_loop ::
    "config_env \<Rightarrow> node_policy \<Rightarrow> nat \<Rightarrow> toml list \<Rightarrow> remote_source list \<Rightarrow> config_error fault + node_source list" where
  "parse_nodes_loop E policy index [] seen = Ok []"
| "parse_nodes_loop E policy index (entry # rest) seen =
    and_then (entry_sources E policy seen (''nodes.sources entry '' @ dec (index + 1)) entry)
      (\<lambda>(srcs, seen'). and_then (parse_nodes_loop E policy (index + 1) rest seen') (\<lambda>more. Ok (srcs @ more)))"

definition parse_nodes ::
    "config_env \<Rightarrow> toml_table \<Rightarrow> node_policy \<Rightarrow> config_error fault + node_source list" where
  "parse_nodes E root policy =
    and_then (lift_err (optional_table root ''nodes'' []))
      (\<lambda>t. case t of
             None \<Rightarrow> Ok []
           | Some table \<Rightarrow>
               and_then (lift_err (reject_unknown_keys table ''nodes'' [''sources'']))
                 (\<lambda>_. case map_get table ''sources'' of
                        None \<Rightarrow> Ok []
                      | Some v \<Rightarrow>
                          and_then (ok_or (Fail (WrongType ''nodes.sources must be an array'')) (toml_as_array v))
                            (\<lambda>entries. parse_nodes_loop E policy 0 entries [])))"

section \<open>Advanced settings\<close>

definition has_control_char :: "string \<Rightarrow> bool" where
  "has_control_char s \<longleftrightarrow> list_ex (\<lambda>b. b < 0x20 \<or> b = 0x7f) (as_bytes s)"

definition parse_fetch :: "toml_table \<Rightarrow> config_error + fetch_config" where
  "parse_fetch fetch =
    and_then (reject_unknown_keys fetch ''nodes.fetch'' FETCH_KEYS)
      (\<lambda>_. and_then (optional_u64 fetch ''interval'' (fc_interval fetch_default) ''nodes.fetch'')
        (\<lambda>interval. and_then (optional_u64 fetch ''timeout'' (fc_timeout fetch_default) ''nodes.fetch'')
          (\<lambda>timeout.
             if timeout = 0 then Err (InvalidValue ''nodes.fetch.timeout must be positive'')
             else
               and_then (optional_u64 fetch ''retries'' (ucast (fc_retries fetch_default)) ''nodes.fetch'')
                 (\<lambda>r. and_then (u32_try_from (InvalidValue ''nodes.fetch.retries exceeds u32'') r)
                   (\<lambda>retries. and_then (optional_string fetch ''user_agent'' [] ''nodes.fetch'')
                     (\<lambda>user_agent.
                        if has_control_char user_agent
                        then Err (InvalidValue ''nodes.fetch.user_agent contains a control character'')
                        else Ok \<lparr>fc_interval = interval, fc_timeout = timeout, fc_retries = retries,
                                 fc_user_agent = user_agent\<rparr>))))))"

fun parse_groups ::
    "toml_table \<Rightarrow> (string, string) btree_map \<Rightarrow> config_error + (string, string) btree_map" where
  "parse_groups [] groups = Ok groups"
| "parse_groups ((name, v) # rest) groups =
    (if name \<in> {''PROXY'', ''GLOBAL'', ''AUTO''} \<or> name = [] then
       Err (InvalidValue ''nodes.groups cannot redefine an all-node selector or empty tag'')
     else
       and_then (ok_or (WrongType ''nodes.groups values must be strings'') (toml_as_str v))
         (\<lambda>pattern. parse_groups rest (map_insert name pattern groups)))"

definition parse_rename_rule :: "toml \<Rightarrow> nat \<Rightarrow> config_error + rename_rule" where
  "parse_rename_rule v index =
    (let prefix = ''nodes.refine.rename['' @ dec index @ '']''
     in and_then (ok_or (WrongType (prefix @ '' must be a table'')) (toml_as_table v))
          (\<lambda>table. and_then (reject_unknown_keys table prefix RENAME_KEYS)
            (\<lambda>_. and_then (required_string table ''match'' prefix)
              (\<lambda>m. and_then (required_string table ''replace'' prefix)
                (\<lambda>r. Ok \<lparr>rr_match_pattern = m, rr_replace = r\<rparr>)))))"

definition parse_rename :: "toml_table \<Rightarrow> config_error + rename_rule list" where
  "parse_rename table =
    (case map_get table ''rename'' of
       None \<Rightarrow> Ok (rc_rename refinement_default)
     | Some (TArray rules) \<Rightarrow> try_collect (\<lambda>(index, v). parse_rename_rule v index) (enumerate 0 rules)
     | Some _ \<Rightarrow> Err (WrongType ''nodes.refine.rename must be an array of tables''))"

definition parse_refinement :: "toml_table \<Rightarrow> config_error + refinement_config" where
  "parse_refinement subscription =
    (case map_get subscription ''refine'' of
       None \<Rightarrow> Ok refinement_default
     | Some v \<Rightarrow>
         and_then (ok_or (WrongType ''nodes.refine must be a table'') (toml_as_table v))
           (\<lambda>table. and_then (reject_unknown_keys table ''nodes.refine'' REFINEMENT_KEYS)
             (\<lambda>_. and_then (optional_u64 table ''max_tag_length''
                 (word_of_nat (rc_max_tag_length refinement_default)) ''nodes.refine'')
               (\<lambda>max_tag_length.
                  if max_tag_length = 0 then
                    Err (InvalidValue ''nodes.refine.max_tag_length must be greater than zero'')
                  else
                    and_then (parse_rename table)
                      (\<lambda>rename. and_then (optional_string table ''exclude_pattern''
                          (rc_exclude_pattern refinement_default) ''nodes.refine'')
                        (\<lambda>exclude_pattern. and_then (optional_bool table ''strip_emoji''
                            (rc_strip_emoji refinement_default) ''nodes.refine'')
                          (\<lambda>strip_emoji. Ok \<lparr>rc_exclude_pattern = exclude_pattern, rc_rename = rename,
                             rc_strip_emoji = strip_emoji, rc_max_tag_length = unat max_tag_length\<rparr>)))))))"

definition parse_log :: "toml_table \<Rightarrow> config_error + log_config" where
  "parse_log table =
    and_then (reject_unknown_keys table ''log'' [''max_size_mib'', ''retain''])
      (\<lambda>_. and_then (optional_u64 table ''max_size_mib'' 4 ''log'')
        (\<lambda>mib. and_then (ok_or (InvalidValue ''log.max_size_mib must be positive and fit in u64 bytes'')
            (filter_opt (\<lambda>b. b > 0) (checked_mul mib (1024 * 1024))))
          (\<lambda>max_bytes. and_then (optional_u64 table ''retain'' 1 ''log'')
            (\<lambda>r. and_then (u32_try_from (InvalidValue ''log.retain exceeds u32'') r)
              (\<lambda>retain. Ok \<lparr>lc_max_bytes = max_bytes, lc_retain = retain\<rparr>)))))"

text \<open>The derived \<open>Debug\<close> text of the two errors \<open>parse_document\<close> returns.\<close>

fun document_error_debug :: "config_error \<Rightarrow> string" where
  "document_error_debug (TooLarge n) = ''TooLarge('' @ dec n @ '')''"
| "document_error_debug (Syntax m) = ''Syntax('' @ [CHR 0x22] @ m @ [CHR 0x22] @ '')''"
| "document_error_debug _ = []"

definition advanced_nodes ::
    "toml_table \<Rightarrow> config_error + (fetch_config \<times> refinement_config \<times> (string, string) btree_map)" where
  "advanced_nodes root =
    and_then (optional_table root ''nodes'' ''advanced.'')
      (\<lambda>t. case t of
             None \<Rightarrow> Ok (fetch_default, refinement_default, [])
           | Some table \<Rightarrow>
               and_then (reject_unknown_keys table ''nodes'' [''fetch'', ''refine'', ''groups''])
                 (\<lambda>_. and_then (optional_table table ''fetch'' ''nodes.'')
                   (\<lambda>f. and_then (case f of None \<Rightarrow> Ok fetch_default | Some fetch \<Rightarrow> parse_fetch fetch)
                     (\<lambda>fetch. and_then (optional_table table ''groups'' ''nodes.'')
                       (\<lambda>g. and_then (case g of None \<Rightarrow> Ok [] | Some gs \<Rightarrow> parse_groups gs [])
                         (\<lambda>groups. and_then (parse_refinement table)
                           (\<lambda>refinement. Ok (fetch, refinement, groups))))))))"

definition advanced_log :: "toml_table \<Rightarrow> config_error + log_config" where
  "advanced_log root =
    and_then (optional_table root ''log'' ''advanced.'')
      (\<lambda>t. case t of None \<Rightarrow> Ok log_default | Some table \<Rightarrow> parse_log table)"

definition parse_advanced ::
    "config_env \<Rightarrow> bytes option \<Rightarrow> config_error fault + (node_config \<times> log_config)" where
  "parse_advanced E bytes =
    and_then (lift_err (map_err (\<lambda>e. InvalidValue (''advanced.toml: '' @ document_error_debug e))
        (parse_document E (unwrap_or bytes []))))
      (\<lambda>v. and_then (ok_or Panic (toml_as_table v))
        (\<lambda>root. and_then (lift_err (reject_unknown_keys root ''advanced'' [''nodes'', ''log'']))
          (\<lambda>_. and_then (lift_err (advanced_nodes root))
            (\<lambda>(fetch, refinement, groups). and_then (lift_err (advanced_log root))
              (\<lambda>log. and_then (lift_err (map_err
                  (\<lambda>e. InvalidValue (''advanced.toml: '' @ subscription_error_display e))
                  (policy_compile (ce_libs E) refinement groups)))
                (\<lambda>policy. Ok (\<lparr>nc_sources = [], nc_fetch = fetch, nc_policy = policy\<rparr>, log)))))))"

section \<open>The whole configuration\<close>

definition parse_files :: "config_env \<Rightarrow> bytes \<Rightarrow> bytes option \<Rightarrow> config_error fault + flux_config" where
  "parse_files E bytes advanced =
    and_then (lift_err (parse_document E bytes))
      (\<lambda>v. and_then (ok_or Panic (toml_as_table v))
        (\<lambda>table. and_then (lift_err (reject_unknown_keys table [] TOP_LEVEL_KEYS))
          (\<lambda>_. and_then (lift_err (dimension E table ''apps'' Blacklist))
            (\<lambda>(apps_mode, raw_apps). and_then (lift_err (dimension E table ''cidr'' Blacklist))
              (\<lambda>(cidr_mode, raw_cidrs). and_then (lift_err (dimension E table ''interfaces'' Blacklist))
                (\<lambda>(interfaces_mode, raw_interfaces). and_then (lift_err (dimension E table ''ssid'' Blacklist))
                  (\<lambda>(ssid_mode, raw_ssids). and_then (parse_cidrs raw_cidrs)
                    (\<lambda>(bypass_v4, bypass_v6). and_then (parse_advanced E advanced)
                      (\<lambda>(nodes, log). and_then (parse_nodes E table (nc_policy nodes))
                        (\<lambda>sources. and_then (lift_err (parse_apps raw_apps))
                          (\<lambda>apps. and_then (lift_err (parse_interfaces raw_interfaces))
                            (\<lambda>interfaces. and_then (lift_err (deduplicate_strings raw_ssids True))
                              (\<lambda>ssids. Ok
                                \<lparr>cfg_apps_mode = apps_mode, cfg_apps = apps, cfg_cidr_mode = cidr_mode,
                                 cfg_bypass_v4 = bypass_v4, cfg_bypass_v6 = bypass_v6,
                                 cfg_interfaces_mode = interfaces_mode, cfg_interfaces = interfaces,
                                 cfg_ssid_mode = ssid_mode, cfg_ssids = ssids,
                                 cfg_nodes = nodes\<lparr>nc_sources := sources\<rparr>, cfg_log = log\<rparr>)))))))))))))"

text \<open>\<open>FluxConfig::parse\<close>: no reader for list files.\<close>

definition no_reader :: "config_env \<Rightarrow> config_env" where
  "no_reader E = E\<lparr>ce_read_file := \<lambda>path. Err (''no list-file reader was supplied for '' @ quoted path)\<rparr>"

definition parse_with_list_files :: "config_env \<Rightarrow> bytes \<Rightarrow> config_error fault + flux_config" where
  "parse_with_list_files E bytes = parse_files E bytes None"

definition flux_config_parse :: "config_env \<Rightarrow> bytes \<Rightarrow> config_error fault + flux_config" where
  "flux_config_parse E bytes = parse_with_list_files (no_reader E) bytes"

text \<open>The default configuration; building its node policy compiles the built-in expressions.\<close>

definition flux_config_default :: "libs \<Rightarrow> string fault + flux_config" where
  "flux_config_default L =
    and_then (policy_default L)
      (\<lambda>policy. Ok
        \<lparr>cfg_apps_mode = Blacklist, cfg_apps = [], cfg_cidr_mode = Blacklist, cfg_bypass_v4 = [], cfg_bypass_v6 = [],
         cfg_interfaces_mode = Blacklist, cfg_interfaces = [], cfg_ssid_mode = Blacklist, cfg_ssids = [],
         cfg_nodes = \<lparr>nc_sources = [], nc_fetch = fetch_default, nc_policy = policy\<rparr>, cfg_log = log_default\<rparr>)"

section \<open>The application dimension\<close>

definition config_resolve :: "package_index \<Rightarrow> app_selector \<Rightarrow> config_error + u32" where
  "config_resolve packages selector =
    map_err Selector_Error (and_then (resolve packages selector) (\<lambda>s. Ok (sel_uid s)))"

text \<open>The two nested loops of blacklist mode, over all pairs of a user and an app id.\<close>

fun blacklist_loop :: "u32 btree_set \<Rightarrow> (u32 \<times> u32) list \<Rightarrow> u32 btree_set \<Rightarrow> config_error + u32 btree_set" where
  "blacklist_loop listed [] selected = Ok selected"
| "blacklist_loop listed ((user_id, app_id) # rest) selected =
    and_then (map_err Selector_Error (compose_uid user_id app_id))
      (\<lambda>uid. blacklist_loop listed rest (if set_contains listed uid then selected else set_insert uid selected))"

definition resolve_selected_uids :: "flux_config \<Rightarrow> package_index \<Rightarrow> config_error + u32 btree_set" where
  "resolve_selected_uids cfg packages =
    and_then (try_collect (config_resolve packages) (cfg_apps cfg))
      (\<lambda>uids.
         let listed = set_from_iter uids
         in and_then
              (case cfg_apps_mode cfg of
                 Whitelist \<Rightarrow> Ok listed
               | Blacklist \<Rightarrow>
                   (let users = set_insert 0 (set_from_iter (map as_user_id (cfg_apps cfg)))
                    in blacklist_loop listed (List.product users (application_ids packages)) []))
              (\<lambda>selected. if length selected > unat UID_SELECTED_MAX then Err (TooManyApps (length selected))
                          else Ok selected))"

section \<open>What an accepted configuration satisfies\<close>

lemma lift_err_eq_Ok [simp]: "lift_err r = Ok v \<longleftrightarrow> r = Ok v"
  by (simp add: lift_err_def map_err_eq_Ok)

lemma parse_apps_loop_Ok:
  "parse_apps_loop entries seen = Ok apps \<Longrightarrow>
   length apps = length entries \<and> distinct (map selector_canonical apps) \<and>
   set (map selector_canonical apps) \<inter> set seen = {}"
  by (induction entries seen arbitrary: apps rule: parse_apps_loop.induct)
    (fastforce simp: and_then_eq_Ok Let_def set_contains_def split: if_splits)+

lemma parse_cidrs_loop_Ok:
  "parse_cidrs_loop entries seen = Ok (v4, v6) \<Longrightarrow>
   list_all v4_canonical v4 \<and> list_all v6_canonical v6 \<and>
   distinct (map ipv4_cidr_display v4) \<and> distinct (map ipv6_cidr_display v6) \<and>
   set (map ipv4_cidr_display v4) \<inter> set seen = {} \<and> set (map ipv6_cidr_display v6) \<inter> set seen = {}"
proof (induction entries arbitrary: seen v4 v6)
  case (Cons entry rest)
  from Cons.prems consider
    (v4) c v4' where "ipv4_cidr_parse entry = Ok c" "ipv4_cidr_display c \<notin> set seen"
      "parse_cidrs_loop rest (set_insert (ipv4_cidr_display c) seen) = Ok (v4', v6)" "v4 = c # v4'"
    | (v6) c v6' where "ipv6_cidr_parse entry = Ok c" "ipv6_cidr_display c \<notin> set seen"
      "parse_cidrs_loop rest (set_insert (ipv6_cidr_display c) seen) = Ok (v4, v6')" "v6 = c # v6'"
    by (auto simp: Let_def and_then_eq_Ok map_err_eq_Ok set_contains_def split: if_splits)
  then show ?case
  proof cases
    case v4
    then show ?thesis using Cons.IH [OF v4(3)] ipv4_cidr_parse_SomeD [OF v4(1)] by auto
  next
    case v6
    then show ?thesis using Cons.IH [OF v6(3)] ipv6_cidr_parse_SomeD [OF v6(1)] by auto
  qed
qed simp

lemma parse_cidrs_Ok:
  assumes "parse_cidrs entries = Ok (v4, v6)"
  shows "list_all v4_canonical v4 \<and> list_all v6_canonical v6 \<and> distinct v4 \<and> distinct v6"
    and "\<exists>f4 f6. fixed_bypass_v4 = Some f4 \<and> fixed_bypass_v6 = Some f6 \<and>
      length v4 + length f4 \<le> unat LPM_MAX_ENTRIES \<and> length v6 + length f6 \<le> unat LPM_MAX_ENTRIES"
proof -
  obtain f4 f6 where f46: "fixed_bypass_v4 = Some f4" "fixed_bypass_v6 = Some f6"
    using fixed_bypass_v4_value fixed_bypass_v6_value by blast
  have l: "parse_cidrs_loop entries [] = Ok (v4, v6)"
    and f: "length v4 + length f4 \<le> unat LPM_MAX_ENTRIES \<and> length v6 + length f6 \<le> unat LPM_MAX_ENTRIES"
    using assms by (auto simp: parse_cidrs_def and_then_eq_Ok f46 split: if_split_asm)
  show "list_all v4_canonical v4 \<and> list_all v6_canonical v6 \<and> distinct v4 \<and> distinct v6"
    using parse_cidrs_loop_Ok [OF l] by (auto simp: distinct_map)
  show "\<exists>f4 f6. fixed_bypass_v4 = Some f4 \<and> fixed_bypass_v6 = Some f6 \<and>
      length v4 + length f4 \<le> unat LPM_MAX_ENTRIES \<and> length v6 + length f6 \<le> unat LPM_MAX_ENTRIES"
    using f f46 by blast
qed

lemma dedup_loop_Ok: "dedup_loop b entries seen = Ok () \<Longrightarrow> distinct entries \<and> set entries \<inter> set seen = {}"
  by (induction b entries seen rule: dedup_loop.induct) (auto simp: set_contains_def split: if_splits)

lemma deduplicate_strings_Ok: "deduplicate_strings entries b = Ok out \<Longrightarrow> out = entries \<and> distinct entries"
  using dedup_loop_Ok [of b entries "[]"] by (auto simp: deduplicate_strings_def and_then_eq_Ok)

lemma parse_interfaces_Ok: "parse_interfaces entries = Ok out \<Longrightarrow> list_all interface_name_ok out \<and> distinct out"
  using deduplicate_strings_Ok
  by (fastforce simp: parse_interfaces_def find_None_iff list_all_iff split: option.splits)

lemma manual_source_not_remote: "manual_source E policy uri pos = Ok s \<Longrightarrow> \<exists>node. s = Manual node pos"
  by (auto simp: manual_source_def and_then_eq_Ok)

definition remotes_in :: "node_source list \<Rightarrow> remote_source list" where
  "remotes_in srcs = List.map_filter (\<lambda>s. case s of Remote source _ \<Rightarrow> Some source | Manual _ _ \<Rightarrow> None) srcs"

lemma remotes_in_simps [simp]:
  "remotes_in [] = []" "remotes_in (Manual n p # srcs) = remotes_in srcs"
  "remotes_in (Remote s p # srcs) = s # remotes_in srcs" "remotes_in (a @ b) = remotes_in a @ remotes_in b"
  by (simp_all add: remotes_in_def map_filter_def)

lemma node_file_lines_no_remote: "node_file_lines E policy path pos i ls = Ok srcs \<Longrightarrow> remotes_in srcs = []"
  by (induction E policy path pos i ls arbitrary: srcs rule: node_file_lines.induct)
    (auto simp: Let_def and_then_eq_Ok dest!: manual_source_not_remote split: if_splits)

lemma entry_sources_Ok:
  assumes "entry_sources E policy seen pos entry = Ok (srcs, seen')"
  shows "distinct (remotes_in srcs) \<and> set (remotes_in srcs) \<inter> set seen = {} \<and>
    set seen' = set seen \<union> set (remotes_in srcs)"
  using assms
  by (auto simp: entry_sources_def Let_def and_then_eq_Ok split: if_splits option.splits
      dest!: manual_source_not_remote node_file_lines_no_remote)

lemma parse_nodes_loop_Ok:
  "parse_nodes_loop E policy i entries seen = Ok srcs \<Longrightarrow>
   distinct (remotes_in srcs) \<and> set (remotes_in srcs) \<inter> set seen = {}"
proof (induction entries arbitrary: i seen srcs)
  case (Cons entry rest)
  then obtain a seen' b where a: "entry_sources E policy seen (''nodes.sources entry '' @ dec (i + 1)) entry = Ok (a, seen')"
    and b: "parse_nodes_loop E policy (i + 1) rest seen' = Ok b" and s: "srcs = a @ b"
    by (auto simp: and_then_eq_Ok)
  show ?case using entry_sources_Ok [OF a] Cons.IH [OF b] s by auto
qed simp

lemma parse_nodes_Ok: "parse_nodes E root policy = Ok srcs \<Longrightarrow> distinct (remotes_in srcs)"
  by (auto simp: parse_nodes_def and_then_eq_Ok split: option.splits dest!: parse_nodes_loop_Ok)

lemma parse_refinement_Ok: "parse_refinement t = Ok rc \<Longrightarrow> 0 < rc_max_tag_length rc"
  by (auto simp: parse_refinement_def refinement_default_def and_then_eq_Ok unat_gt_0
      split: option.split_asm if_split_asm)

lemma parse_fetch_Ok: "parse_fetch t = Ok fc \<Longrightarrow> fc_timeout fc \<noteq> 0 \<and> \<not> has_control_char (fc_user_agent fc)"
  by (auto simp: parse_fetch_def and_then_eq_Ok split: if_split_asm)

lemma advanced_nodes_Ok:
  "advanced_nodes root = Ok (fetch, rc, groups) \<Longrightarrow>
   fc_timeout fetch \<noteq> 0 \<and> \<not> has_control_char (fc_user_agent fetch) \<and> 0 < rc_max_tag_length rc"
  by (auto simp: advanced_nodes_def and_then_eq_Ok fetch_default_def refinement_default_def has_control_char_def
      split: option.split_asm dest!: parse_refinement_Ok parse_fetch_Ok)

lemma filter_opt_eq_Some: "filter_opt P x = Some v \<longleftrightarrow> x = Some v \<and> P v"
  by (auto simp: filter_opt_def split: option.splits)

lemma advanced_log_Ok: "advanced_log root = Ok lc \<Longrightarrow> 0 < lc_max_bytes lc"
  by (auto simp: advanced_log_def parse_log_def log_default_def and_then_eq_Ok ok_or_eq_Ok filter_opt_eq_Some
      split: option.split_asm)

lemma policy_compile_config: "policy_compile L rc groups = Ok policy \<Longrightarrow> np_config policy = rc"
  by (auto simp: policy_compile_def and_then_eq_Ok)

lemma parse_advanced_Ok:
  assumes "parse_advanced E b = Ok (nodes, log)"
  shows "fc_timeout (nc_fetch nodes) \<noteq> 0 \<and> \<not> has_control_char (fc_user_agent (nc_fetch nodes)) \<and>
    0 < rc_max_tag_length (np_config (nc_policy nodes)) \<and> 0 < lc_max_bytes log"
  using assms unfolding parse_advanced_def and_then_eq_Ok
  by (elim exE conjE) (auto simp: and_then_eq_Ok map_err_eq_Ok dest!: advanced_nodes_Ok advanced_log_Ok policy_compile_config)

definition config_valid :: "flux_config \<Rightarrow> bool" where
  "config_valid cfg \<longleftrightarrow>
    length (cfg_apps cfg) \<le> unat UID_SELECTED_MAX \<and> distinct (map selector_canonical (cfg_apps cfg)) \<and>
    list_all v4_canonical (cfg_bypass_v4 cfg) \<and> distinct (cfg_bypass_v4 cfg) \<and>
    list_all v6_canonical (cfg_bypass_v6 cfg) \<and> distinct (cfg_bypass_v6 cfg) \<and>
    (\<exists>f4 f6. fixed_bypass_v4 = Some f4 \<and> fixed_bypass_v6 = Some f6 \<and>
       length (cfg_bypass_v4 cfg) + length f4 \<le> unat LPM_MAX_ENTRIES \<and>
       length (cfg_bypass_v6 cfg) + length f6 \<le> unat LPM_MAX_ENTRIES) \<and>
    list_all interface_name_ok (cfg_interfaces cfg) \<and> distinct (cfg_interfaces cfg) \<and>
    distinct (cfg_ssids cfg) \<and> distinct (remote_sources (cfg_nodes cfg)) \<and>
    fc_timeout (nc_fetch (cfg_nodes cfg)) \<noteq> 0 \<and>
    \<not> has_control_char (fc_user_agent (nc_fetch (cfg_nodes cfg))) \<and>
    0 < rc_max_tag_length (np_config (nc_policy (cfg_nodes cfg))) \<and> 0 < lc_max_bytes (cfg_log cfg)"

lemma parse_apps_Ok:
  "parse_apps entries = Ok apps \<Longrightarrow>
   length apps \<le> unat UID_SELECTED_MAX \<and> distinct (map selector_canonical apps)"
  by (auto simp: parse_apps_def dest: parse_apps_loop_Ok split: if_split_asm)

lemma parse_files_parts:
  assumes "parse_files E b adv = Ok cfg"
  obtains table raw_cidrs raw_apps raw_interfaces raw_ssids cidrs advanced sources apps interfaces ssids where
    "parse_cidrs raw_cidrs = Ok cidrs" "parse_advanced E adv = Ok advanced"
    "parse_nodes E table (nc_policy (fst advanced)) = Ok sources" "parse_apps raw_apps = Ok apps"
    "parse_interfaces raw_interfaces = Ok interfaces" "deduplicate_strings raw_ssids True = Ok ssids"
    "cfg_apps cfg = apps" "cfg_interfaces cfg = interfaces" "cfg_ssids cfg = ssids"
    "cfg_bypass_v4 cfg = fst cidrs" "cfg_bypass_v6 cfg = snd cidrs"
    "cfg_nodes cfg = (fst advanced)\<lparr>nc_sources := sources\<rparr>" "cfg_log cfg = snd advanced"
  using assms unfolding parse_files_def and_then_eq_Ok lift_err_eq_Ok split_beta
  by (elim exE conjE) (simp only: sum.inject, rule that, assumption, assumption, assumption, assumption, assumption, assumption, auto)

text \<open>
  C13: every configuration that parses is within the ABI's capacities (with the fixed bypass entries
  counted in), canonical and free of duplicates in every dimension, and its advanced settings are
  usable: a positive timeout, log size and tag length and a user agent without control characters.
\<close>

theorem accepted_config_is_valid:
  assumes "parse_files E b adv = Ok cfg"
  shows "config_valid cfg"
proof -
  obtain table raw_cidrs raw_apps raw_interfaces raw_ssids cidrs advanced sources apps interfaces ssids where
    c: "parse_cidrs raw_cidrs = Ok cidrs" and a: "parse_advanced E adv = Ok advanced"
    and n: "parse_nodes E table (nc_policy (fst advanced)) = Ok sources"
    and ap: "parse_apps raw_apps = Ok apps" and i: "parse_interfaces raw_interfaces = Ok interfaces"
    and s: "deduplicate_strings raw_ssids True = Ok ssids"
    and eqs: "cfg_apps cfg = apps" "cfg_interfaces cfg = interfaces" "cfg_ssids cfg = ssids"
      "cfg_bypass_v4 cfg = fst cidrs" "cfg_bypass_v6 cfg = snd cidrs"
      "cfg_nodes cfg = (fst advanced)\<lparr>nc_sources := sources\<rparr>" "cfg_log cfg = snd advanced"
    using assms by (rule parse_files_parts)
  have "distinct (remote_sources (cfg_nodes cfg))"
    using parse_nodes_Ok [OF n] by (simp add: eqs remote_sources_def remotes_in_def)
  then show ?thesis
    using parse_cidrs_Ok [of raw_cidrs "fst cidrs" "snd cidrs"] c
      parse_advanced_Ok [of E adv "fst advanced" "snd advanced"] a parse_apps_Ok [OF ap]
      parse_interfaces_Ok [OF i] deduplicate_strings_Ok [OF s]
    unfolding config_valid_def eqs by simp
qed

text \<open>A TOML parser that knows one document, with a reader that has one list file.\<close>

definition sample_env :: config_env where
  "sample_env =
    \<lparr>ce_libs = plain_libs,
     ce_toml_from_str = (\<lambda>t. Ok (TTable (if t = [] then [] else
        [(''apps'', TTable [(''list'', TArray [TString ''com.a'', TString ''@more''])])]))),
     ce_read_file = (\<lambda>path. if path = ''more'' then Ok (as_bytes ''com.b'') else Err ''missing'')\<rparr>"

lemma try_collect_total: "(\<And>x. x \<in> set xs \<Longrightarrow> \<exists>y. f x = Ok y) \<Longrightarrow> \<exists>ys. try_collect f xs = Ok ys"
proof (induction xs)
  case (Cons x xs)
  then obtain y ys where "f x = Ok y" "try_collect f xs = Ok ys" by (metis list.set_intros)
  then show ?case by simp
qed simp

lemma policy_compile_total:
  assumes "\<And>rx. regex_valid L rx"
  shows "\<exists>p. policy_compile L rc groups = Ok p"
proof -
  have new: "regex_new L src ci = Some (Regex src ci)" for src ci using assms by (simp add: regex_new_def)
  have "\<exists>rs. try_collect (\<lambda>(index, rule). ok_or (InvalidRenamePattern index ''invalid expression'')
      (map_option (\<lambda>rx. (rx, rr_replace rule)) (regex_new L (rr_match_pattern rule) False))) (enumerate 0 (rc_rename rc)) = Ok rs"
    by (rule try_collect_total) (simp add: new split_beta)
  moreover have "\<exists>gs. try_collect (\<lambda>(index, tag, pattern). ok_or (InvalidGroupPattern index)
      (map_option (\<lambda>rx. (tag, rx)) (regex_new L pattern True))) (enumerate 0 (group_patterns groups)) = Ok gs"
    by (rule try_collect_total) (simp add: new split_beta)
  ultimately show ?thesis unfolding policy_compile_def by (elim exE) (simp add: new)
qed

lemma sample_config: "\<exists>cfg. parse_files sample_env [0x78] None = Ok cfg"
proof -
  let ?t = "[(''apps'', TTable [(''list'', TArray [TString ''com.a'', TString ''@more''])])]"
  obtain p where p: "policy_compile plain_libs refinement_default [] = Ok p"
    using policy_compile_total [of plain_libs] by (auto simp: plain_libs_def)
  have d: "parse_document sample_env [0x78] = Ok (TTable ?t)" "parse_document sample_env [] = Ok (TTable [])"
    "dimension sample_env ?t ''apps'' Blacklist = Ok (Blacklist, [''com.a'', ''com.b''])"
    "dimension sample_env ?t ''cidr'' Blacklist = Ok (Blacklist, [])"
    "dimension sample_env ?t ''interfaces'' Blacklist = Ok (Blacklist, [])"
    "dimension sample_env ?t ''ssid'' Blacklist = Ok (Blacklist, [])"
    "reject_unknown_keys ?t [] TOP_LEVEL_KEYS = Ok ()" "\<not> isl (parse_apps [''com.a'', ''com.b''])"
    by code_simp+
  obtain apps where apps: "parse_apps [''com.a'', ''com.b''] = Ok apps"
    using d(8) by (cases "parse_apps [''com.a'', ''com.b'']") auto
  have c: "parse_cidrs [] = Ok ([], [])"
    by (simp add: parse_cidrs_def lift_err_def LPM_MAX_ENTRIES_def fixed_bypass_v4_value fixed_bypass_v6_value
        fixed_v4_cidrs_def fixed_v6_cidrs_def)
  show ?thesis
    by (simp add: parse_files_def lift_err_def d apps c p parse_advanced_def unwrap_or_def advanced_nodes_def
        advanced_log_def optional_table_def parse_nodes_def parse_interfaces_def deduplicate_strings_def
        map_get_def TOP_LEVEL_KEYS_def sample_env_def [THEN arg_cong, of ce_libs])
qed

theorem accepted_config_is_valid_witness:
  "\<exists>cfg. parse_files sample_env [0x78] None = Ok cfg \<and> config_valid cfg"
proof -
  obtain cfg where c: "parse_files sample_env [0x78] None = Ok cfg" using sample_config by blast
  then show ?thesis using accepted_config_is_valid [OF c] by blast
qed

text \<open>Two empty documents give the default configuration.\<close>

lemma empty_documents_are_default:
  assumes d: "parse_document E [] = Ok (TTable [])" and p: "policy_compile (ce_libs E) refinement_default [] = Ok p"
  shows "\<exists>cfg. flux_config_default (ce_libs E) = Ok cfg \<and> flux_config_parse E [] = Ok cfg"
proof -
  have d': "parse_document (no_reader E) [] = Ok (TTable [])"
    using d by (simp add: parse_document_def no_reader_def)
  have c: "parse_cidrs [] = Ok ([], [])"
    by (simp add: parse_cidrs_def lift_err_def LPM_MAX_ENTRIES_def fixed_bypass_v4_value fixed_bypass_v6_value
        fixed_v4_cidrs_def fixed_v6_cidrs_def)
  have l: "ce_libs (no_reader E) = ce_libs E" by (simp add: no_reader_def)
  show ?thesis
    by (simp add: flux_config_default_def policy_default_def flux_config_parse_def parse_with_list_files_def
        parse_files_def lift_err_def d' c p l parse_advanced_def unwrap_or_def advanced_nodes_def advanced_log_def
        dimension_def parse_apps_def optional_table_def parse_nodes_def parse_interfaces_def deduplicate_strings_def
        map_get_def)
qed

section \<open>List files are read by child name only\<close>

definition child_name :: "string \<Rightarrow> bool" where
  "child_name path \<longleftrightarrow> path \<noteq> [] \<and> path \<noteq> ''.'' \<and> path \<noteq> ''..'' \<and> CHR ''/'' \<notin> set path
    \<and> CHR 0x5C \<notin> set path \<and> CHR 0x00 \<notin> set path"

lemma validate_list_path_iff: "validate_list_path path = (if child_name path then Ok () else Err (InvalidListPath path))"
  by (auto simp: validate_list_path_def child_name_def)

lemma list_file_text_confined:
  assumes "\<And>path. child_name path \<Longrightarrow> r path = ce_read_file E path"
  shows "list_file_text (E\<lparr>ce_read_file := r\<rparr>) path = list_file_text E path"
  using assms by (simp add: list_file_text_def validate_list_path_iff)

lemma expand_list_confined:
  assumes "\<And>path. child_name path \<Longrightarrow> r path = ce_read_file E path"
  shows "expand_list (E\<lparr>ce_read_file := r\<rparr>) es = expand_list E es"
  by (induction es) (simp_all add: list_file_text_confined [OF assms] split: option.split)

lemma dimension_confined:
  assumes "\<And>path. child_name path \<Longrightarrow> r path = ce_read_file E path"
  shows "dimension (E\<lparr>ce_read_file := r\<rparr>) root name d = dimension E root name d"
  by (simp add: dimension_def expand_list_confined [OF assms] cong: option.case_cong)

lemma node_file_lines_reader:
  "node_file_lines (E\<lparr>ce_read_file := r\<rparr>) policy path pos i ls = node_file_lines E policy path pos i ls"
  by (induction ls arbitrary: i) (simp_all add: manual_source_def Let_def)

lemma entry_sources_confined:
  assumes "\<And>path. child_name path \<Longrightarrow> r path = ce_read_file E path"
  shows "entry_sources (E\<lparr>ce_read_file := r\<rparr>) policy seen pos entry = entry_sources E policy seen pos entry"
  by (simp add: entry_sources_def list_file_text_confined [OF assms] node_file_lines_reader manual_source_def
      cong: option.case_cong if_cong)

lemma parse_nodes_loop_confined:
  assumes "\<And>path. child_name path \<Longrightarrow> r path = ce_read_file E path"
  shows "parse_nodes_loop (E\<lparr>ce_read_file := r\<rparr>) policy i es seen = parse_nodes_loop E policy i es seen"
  by (induction es arbitrary: i seen) (simp_all add: entry_sources_confined [OF assms])

text \<open>
  C15: the outcome of parsing depends on the file reader only through names that are plain children of
  the configuration directory: not empty, not a dot entry, without slash, backslash or NUL. A reader
  that answers differently for any other path changes nothing.
\<close>

theorem list_files_are_confined:
  assumes "\<And>path. child_name path \<Longrightarrow> r path = ce_read_file E path"
  shows "parse_files (E\<lparr>ce_read_file := r\<rparr>) b adv = parse_files E b adv"
  by (simp add: parse_files_def parse_document_def parse_advanced_def parse_nodes_def
      dimension_confined [OF assms] parse_nodes_loop_confined [OF assms] cong: option.case_cong if_cong)

theorem list_files_are_confined_witness:
  "parse_files (sample_env\<lparr>ce_read_file := \<lambda>path. if CHR ''/'' \<in> set path then Ok [] else ce_read_file sample_env path\<rparr>)
     [0x78] None = parse_files sample_env [0x78] None"
  by (rule list_files_are_confined) (simp add: child_name_def)

section \<open>The selected UIDs\<close>

definition listed_uids :: "flux_config \<Rightarrow> package_index \<Rightarrow> u32 set" where
  "listed_uids cfg packages = {uid. \<exists>s\<in>set (cfg_apps cfg). config_resolve packages s = Ok uid}"

lemma try_collect_set: "try_collect f xs = Ok ys \<Longrightarrow> set ys = {y. \<exists>x\<in>set xs. f x = Ok y}"
  by (induction xs arbitrary: ys) (force simp: and_then_eq_Ok split: sum.splits)+

lemma blacklist_loop_Ok:
  "blacklist_loop listed pairs selected = Ok out \<Longrightarrow> set_inv selected \<Longrightarrow>
   set_inv out \<and> set out = set selected \<union>
     ({uid. \<exists>(u, a)\<in>set pairs. compose_uid u a = Ok uid} - set listed)"
proof (induction listed pairs selected rule: blacklist_loop.induct)
  case (2 listed u a rest selected)
  then obtain uid where uid: "compose_uid u a = Ok uid" by (auto simp: and_then_eq_Ok map_err_eq_Ok)
  let ?sel = "if set_contains listed uid then selected else set_insert uid selected"
  have "set_inv out \<and> set out = set ?sel \<union> ({uid. \<exists>(u, a)\<in>set rest. compose_uid u a = Ok uid} - set listed)"
    using 2 uid by simp
  moreover have "set ?sel = set selected \<union> ({uid} - set listed)" by (auto simp: set_contains_def)
  moreover have "{v. \<exists>(u', a')\<in>set ((u, a) # rest). compose_uid u' a' = Ok v}
      = insert uid {v. \<exists>(u, a)\<in>set rest. compose_uid u a = Ok v}" using uid by auto
  ultimately show ?case by auto
qed simp

text \<open>
  C14: the UID set installed for a configuration is ascending, has at most 1024 entries, and is exactly
  what the mode describes: in whitelist mode the UIDs of the listed applications, in blacklist mode the
  UIDs of every third-party application of user 0 and of every listed user, less the listed ones.
\<close>

theorem selected_uids_exact:
  assumes "resolve_selected_uids cfg packages = Ok selected"
  shows "set_inv selected \<and> length selected \<le> 1024 \<and>
    set selected =
      (case cfg_apps_mode cfg of
         Whitelist \<Rightarrow> listed_uids cfg packages
       | Blacklist \<Rightarrow>
           {uid. \<exists>u\<in>insert 0 (as_user_id ` set (cfg_apps cfg)). \<exists>a\<in>set (application_ids packages).
              compose_uid u a = Ok uid} - listed_uids cfg packages)"
proof -
  obtain uids where u: "try_collect (config_resolve packages) (cfg_apps cfg) = Ok uids"
    using assms by (auto simp: resolve_selected_uids_def and_then_eq_Ok)
  have listed: "set uids = listed_uids cfg packages"
    using try_collect_set [OF u] by (simp add: listed_uids_def)
  have len: "length selected \<le> 1024"
    using assms by (auto simp: resolve_selected_uids_def and_then_eq_Ok Let_def UID_SELECTED_MAX_def split: if_split_asm)
  show ?thesis
  proof (cases "cfg_apps_mode cfg")
    case Whitelist
    then have "selected = set_from_iter uids"
      using assms u by (auto simp: resolve_selected_uids_def Let_def split: if_split_asm)
    then show ?thesis using Whitelist listed len by simp
  next
    case Blacklist
    then have "blacklist_loop (set_from_iter uids)
        (List.product (set_insert 0 (set_from_iter (map as_user_id (cfg_apps cfg)))) (application_ids packages)) [] = Ok selected"
      using assms u by (auto simp: resolve_selected_uids_def Let_def and_then_eq_Ok split: if_split_asm)
    from blacklist_loop_Ok [OF this] show ?thesis using Blacklist listed len by auto
  qed
qed

definition sample_selection :: "list_mode \<Rightarrow> flux_config" where
  "sample_selection mode = \<lparr>cfg_apps_mode = mode,
     cfg_apps = [\<lparr>as_user_id = 10, as_package = ''com.a''\<rparr>],
     cfg_cidr_mode = Blacklist, cfg_bypass_v4 = [], cfg_bypass_v6 = [], cfg_interfaces_mode = Blacklist, cfg_interfaces = [],
     cfg_ssid_mode = Blacklist, cfg_ssids = [],
     cfg_nodes = \<lparr>nc_sources = [], nc_fetch = fetch_default, nc_policy = plain_policy\<rparr>, cfg_log = log_default\<rparr>"

definition sample_packages :: package_index where
  "sample_packages = \<lparr>by_package = [(''com.a'', 10123), (''com.b'', 10124)],
     by_app_id = [(10123, [''com.a'']), (10124, [''com.b''])]\<rparr>"

text \<open>Blacklisting \<^verbatim>\<open>com.a\<close> for user 10 selects both applications of user 0 and the other one of user 10.\<close>

theorem selected_uids_exact_witness:
  "\<exists>selected. resolve_selected_uids (sample_selection Blacklist) sample_packages = Ok selected \<and>
     set selected = {10123, 10124, 1010124} \<and> length selected \<le> 1024"
proof -
  have r: "resolve_selected_uids (sample_selection Blacklist) sample_packages = Ok [10123, 10124, 1010124]"
    by code_simp
  from selected_uids_exact [OF r] show ?thesis using r by simp
qed

end
