(* ===== verification/Ring_Buffer.thy ===== *)
theory Ring_Buffer
  imports Abi Wire
begin

text \<open>
  The consumer of the kernel's fault ring, crates/fluxd/src/bpf/ringbuf.rs. A \<open>ring\<close> is what the
  two mappings show: the two position counters and the data area, which the kernel maps twice so that
  a record that wraps is contiguous in virtual memory; reading at a virtual offset reads the data at
  the offset modulo the capacity. The area does not change while one drain runs. The theory ends with
  the reading of a ring as the log of records the kernel reserved, which draining refines.
\<close>

section \<open>Constants and state\<close>

definition HEADER_BYTES :: nat where "HEADER_BYTES = 8"
definition BUSY_BIT :: u32 where "BUSY_BIT = push_bit 31 1"
definition DISCARD_BIT :: u32 where "DISCARD_BIT = push_bit 30 1"
definition LENGTH_MASK :: u32 where "LENGTH_MASK = NOT (BUSY_BIT OR DISCARD_BIT)"

record ring =
  rb_capacity :: nat
  rb_data :: bytes
  rb_consumer :: u64
  rb_producer :: u64

definition invalid_record :: "string \<Rightarrow> io_error" where
  "invalid_record detail = InvalidData detail"

definition usize_checked_add :: "nat \<Rightarrow> nat \<Rightarrow> nat option" where
  "usize_checked_add a b = (if a + b < 2 ^ 64 then Some (a + b) else None)"

definition align8 :: "nat \<Rightarrow> io_error + nat" where
  "align8 n = ok_or (invalid_record ''aligned record length overflow'')
    (map_option (\<lambda>v. v div 8 * 8) (usize_checked_add n 7))"

fun is_power_of_two :: "nat \<Rightarrow> bool" where
  "is_power_of_two n =
    (if n = 0 then False else if n = 1 then True else if odd n then False else is_power_of_two (n div 2))"

declare is_power_of_two.simps [simp del]

text \<open>
  The checks of \<open>open\<close>; the result is the length of the second mapping. \<open>isize::MAX\<close> is
  \<open>2 ^ 63 - 1\<close>, and the multiplication cannot overflow after the bound on the capacity.
\<close>

datatype open_error = InvalidInput string

definition ring_open :: "nat \<Rightarrow> nat \<Rightarrow> open_error + nat" where
  "ring_open page_size capacity =
    (if capacity = 0 \<or> \<not> is_power_of_two capacity \<or> \<not> page_size dvd capacity
        \<or> capacity > (2 ^ 63 - 1) div 2
     then Err (InvalidInput ''ring-buffer capacity must be a non-zero page-aligned power of two'')
     else ok_or (InvalidInput ''mapping too large'') (usize_checked_add page_size (capacity * 2)))"

section \<open>Draining\<close>

definition ring_read :: "ring \<Rightarrow> nat \<Rightarrow> nat \<Rightarrow> bytes" where
  "ring_read r off n = map (\<lambda>i. rb_data r ! ((off + i) mod rb_capacity r)) [0..<n]"

definition read_fault_event :: "bytes \<Rightarrow> fault_event" where
  "read_fault_event b =
    \<lparr>fe_generation = from_le_bytes (slice 0 8 b), fe_family = b ! 8, fe_protocol = b ! 9,
     fe_reason = from_le_bytes (slice 10 12 b), fe_pad0 = from_le_bytes (slice 12 16 b),
     fe_seq = from_le_bytes (slice 16 24 b), fe_pad1 = from_le_bytes (slice 24 32 b)\<rparr>"

text \<open>
  One iteration: \<open>None\<close> is the \<open>break\<close> at a record that is still being written, otherwise the new
  position and the event of a record that was not discarded. The bound check adds with wrap-around.
\<close>

definition drain_record :: "ring \<Rightarrow> u64 \<Rightarrow> io_error + (u64 \<times> fault_event list) option" where
  "drain_record r consumer =
    (let offset = unat (consumer AND of_nat (rb_capacity r - 1));
         raw_len = (from_le_bytes (ring_read r offset 4) :: u32)
     in if raw_len AND BUSY_BIT \<noteq> 0 then Ok None
        else
          (let payload_len = unat (raw_len AND LENGTH_MASK)
           in and_then (ok_or (invalid_record ''record length overflow'') (usize_checked_add HEADER_BYTES payload_len))
             (\<lambda>t. and_then (align8 t)
               (\<lambda>record_len.
                  if record_len > rb_capacity r \<or> consumer + of_nat record_len > rb_producer r
                  then Err (invalid_record ''record exceeds published ring range'')
                  else
                    and_then
                      (if raw_len AND DISCARD_BIT = 0 then
                         (if payload_len \<noteq> size_of fault_event_layout
                          then Err (invalid_record ''fault event has unexpected size'')
                          else Ok [read_fault_event (ring_read r (offset + HEADER_BYTES) payload_len)])
                       else Ok [])
                      (\<lambda>event. and_then (ok_or (invalid_record ''consumer position overflow'')
                          (checked_add consumer (of_nat record_len)))
                        (\<lambda>consumer'. Ok (Some (consumer', event))))))))"

lemma drain_record_advances:
  assumes "drain_record r consumer = Ok (Some (consumer', event))"
  shows "unat consumer < unat consumer'"
proof -
  obtain n where n: "8 \<le> n" "n < 2 ^ 64" "checked_add consumer (of_nat n) = Some consumer'"
  proof -
    from assms obtain payload_len record_len where
      l: "align8 (HEADER_BYTES + payload_len) = Ok record_len" "checked_add consumer (of_nat record_len) = Some consumer'"
      by (auto simp: drain_record_def Let_def and_then_eq_Ok ok_or_eq_Ok usize_checked_add_def split: if_split_asm)
    then have "8 \<le> record_len" "record_len < 2 ^ 64"
      by (auto simp: align8_def ok_or_eq_Ok usize_checked_add_def HEADER_BYTES_def split: if_split_asm)
    then show thesis using l(2) that by blast
  qed
  then have "unat consumer' = unat consumer + n"
    by (simp add: checked_add_eq_Some unat_of_nat_small)
  then show ?thesis using n(1) by simp
qed

function drain_loop :: "ring \<Rightarrow> u64 \<Rightarrow> fault_event list \<Rightarrow> io_error + u64 \<times> fault_event list" where
  "drain_loop r consumer events =
    (if \<not> consumer < rb_producer r then Ok (consumer, events)
     else case drain_record r consumer of
            Inl e \<Rightarrow> Err e
          | Inr None \<Rightarrow> Ok (consumer, events)
          | Inr (Some (consumer', event)) \<Rightarrow> drain_loop r consumer' (events @ event))"
  by pat_completeness auto
termination
proof (relation "measure (\<lambda>(r, consumer, events). unat (rb_producer r) - unat consumer)", simp)
  fix r consumer consumer' event and events :: "fault_event list" and x y z
  assume "\<not> \<not> consumer < rb_producer r" "drain_record r consumer = Inr x" "x = Some y" "(consumer', event) = y"
  then show "((r, consumer', events @ event), r, consumer, events)
      \<in> measure (\<lambda>(r, consumer, events). unat (rb_producer r) - unat consumer)"
    using drain_record_advances [of r consumer consumer' event]
    by (auto simp: word_less_nat_alt)
qed

declare drain_loop.simps [simp del]

text \<open>The position is stored only when the loop ends without an error.\<close>

definition drain_faults :: "ring \<Rightarrow> ring \<times> (io_error + fault_event list)" where
  "drain_faults r =
    (case drain_loop r (rb_consumer r) [] of
       Inl e \<Rightarrow> (r, Err e)
     | Inr (consumer, events) \<Rightarrow> (r\<lparr>rb_consumer := consumer\<rparr>, Ok events))"

section \<open>The ring as a log of records\<close>

datatype record_state = Busy | Discarded | Published

record ring_record =
  rr_state :: record_state
  rr_payload :: bytes

fun state_flag :: "record_state \<Rightarrow> u32" where
  "state_flag Busy = BUSY_BIT"
| "state_flag Discarded = DISCARD_BIT"
| "state_flag Published = 0"

definition record_header :: "ring_record \<Rightarrow> u32" where
  "record_header x = of_nat (length (rr_payload x)) OR state_flag (rr_state x)"

definition record_size :: "ring_record \<Rightarrow> nat" where
  "record_size x = (length (rr_payload x) + 15) div 8 * 8"

fun laid_out :: "ring \<Rightarrow> nat \<Rightarrow> ring_record list \<Rightarrow> bool" where
  "laid_out r pos [] = True"
| "laid_out r pos (x # xs) \<longleftrightarrow>
    from_le_bytes (ring_read r pos 4) = record_header x
    \<and> ring_read r (pos + 8) (length (rr_payload x)) = rr_payload x
    \<and> laid_out r (pos + record_size x) xs"

definition log_size :: "ring_record list \<Rightarrow> nat" where
  "log_size xs = sum_list (map record_size xs)"

definition ring_holds :: "ring \<Rightarrow> ring_record list \<Rightarrow> bool" where
  "ring_holds r xs \<longleftrightarrow>
    (\<exists>k\<le>62. rb_capacity r = 2 ^ k) \<and> laid_out r (unat (rb_consumer r)) xs
    \<and> unat (rb_producer r) = unat (rb_consumer r) + log_size xs
    \<and> list_all (\<lambda>x. length (rr_payload x) < 2 ^ 30 \<and> record_size x \<le> rb_capacity r) xs"

lemma power_of_two_exp: "is_power_of_two n \<Longrightarrow> \<exists>k. n = 2 ^ k"
proof (induction n rule: is_power_of_two.induct)
  case (1 n)
  show ?case
  proof (cases "n = 1")
    case False
    then have "even n" "is_power_of_two (n div 2)" "n \<noteq> 0"
      using 1(2) by (auto simp: is_power_of_two.simps [of n] split: if_split_asm)
    then obtain k where "n div 2 = 2 ^ k" using 1(1) False by blast
    then have "n = 2 ^ Suc k" using \<open>even n\<close> by (auto elim: evenE)
    then show ?thesis by blast
  qed (auto intro: exI [of _ 0])
qed

text \<open>An opened ring has the capacity the reading below asks for, and its second mapping shows the data twice.\<close>

lemma ring_open_capacity:
  assumes "ring_open page_size capacity = Ok len"
  shows "(\<exists>k\<le>62. capacity = 2 ^ k) \<and> page_size dvd capacity \<and> len = page_size + 2 * capacity"
proof -
  have c: "is_power_of_two capacity" "page_size dvd capacity" "capacity < 2 ^ 62" "len = page_size + 2 * capacity"
    using assms by (auto simp: ring_open_def ok_or_eq_Ok usize_checked_add_def split: if_split_asm)
  obtain k where k: "capacity = 2 ^ k" using power_of_two_exp [OF c(1)] by blast
  then have "k < 62" using c(3) using power_strict_increasing_iff [of "2 :: nat" k 62] by simp
  then show ?thesis using c k by auto
qed

lemma length_mask: "LENGTH_MASK = mask 30"
  by (simp add: LENGTH_MASK_def BUSY_BIT_def DISCARD_BIT_def mask_eq_exp_minus_1)

lemma record_header_bits:
  assumes "length (rr_payload x) < 2 ^ 30"
  shows "unat (record_header x AND LENGTH_MASK) = length (rr_payload x)"
    and "record_header x AND BUSY_BIT = 0 \<longleftrightarrow> rr_state x \<noteq> Busy"
    and "record_header x AND DISCARD_BIT = 0 \<longleftrightarrow> rr_state x \<noteq> Discarded"
proof -
  let ?n = "of_nat (length (rr_payload x)) :: u32"
  have u: "unat ?n = length (rr_payload x)" using assms by (simp add: unat_of_nat_small)
  have n: "?n AND mask 30 = ?n"
    using assms by (simp add: take_bit_eq_mask [symmetric] word_unat_eq_iff unsigned_take_bit_eq u take_bit_nat_eq_self)
  then have low: "?n AND b = 0" if "mask 30 AND b = 0" for b
  proof -
    have "?n AND b = (?n AND mask 30) AND b" by (simp only: n)
    also have "\<dots> = ?n AND (mask 30 AND b)" by (simp only: and.assoc)
    finally show ?thesis using that by simp
  qed
  have z: "?n AND BUSY_BIT = 0" "?n AND DISCARD_BIT = 0"
    by (rule low, simp add: BUSY_BIT_def DISCARD_BIT_def mask_eq_exp_minus_1)+
  have f: "state_flag s AND LENGTH_MASK = 0" "state_flag s AND BUSY_BIT = 0 \<longleftrightarrow> s \<noteq> Busy"
    "state_flag s AND DISCARD_BIT = 0 \<longleftrightarrow> s \<noteq> Discarded" for s
    by (cases s; simp add: LENGTH_MASK_def BUSY_BIT_def DISCARD_BIT_def)+
  show "unat (record_header x AND LENGTH_MASK) = length (rr_payload x)"
    using n u f(1) by (simp add: record_header_def bit.conj_disj_distrib2 length_mask)
  show "record_header x AND BUSY_BIT = 0 \<longleftrightarrow> rr_state x \<noteq> Busy"
    "record_header x AND DISCARD_BIT = 0 \<longleftrightarrow> rr_state x \<noteq> Discarded"
    using z f(2,3) by (simp_all add: record_header_def bit.conj_disj_distrib2)
qed

lemma masked_offset:
  assumes "rb_capacity r = 2 ^ k" and "k \<le> 62"
  shows "unat ((c :: u64) AND of_nat (rb_capacity r - 1)) = unat c mod rb_capacity r"
proof -
  have "(of_nat (2 ^ k - 1) :: u64) = mask k" by (simp add: mask_eq_exp_minus_1 of_nat_diff)
  then have "c AND of_nat (rb_capacity r - 1) = take_bit k c" using assms(1) by (simp add: take_bit_eq_mask)
  then have "unat (c AND of_nat (rb_capacity r - 1)) = take_bit k (unat c)" by (simp add: unsigned_take_bit_eq)
  then show ?thesis using assms(1) by (simp add: take_bit_eq_mod)
qed

lemma advance_position:
  assumes "unat (c :: u64) + n \<le> unat (p :: u64)"
  shows "unat c + n < 2 ^ 64" and "unat (of_nat n :: u64) = n" and "unat (c + of_nat n) = unat c + n"
proof -
  have "unat p < 2 ^ LENGTH(64)" by (rule unsigned_less)
  then show lt: "unat c + n < 2 ^ 64" using assms by simp
  then show n: "unat (of_nat n :: u64) = n" by (simp add: unat_of_nat_small)
  show "unat (c + of_nat n) = unat c + n" using unat_add_small [of c "of_nat n :: u64"] lt n by simp
qed

lemma ring_read_mod: "ring_read r (pos mod rb_capacity r + d) n = ring_read r (pos + d) n"
  by (simp add: ring_read_def mod_simps add.assoc)

lemma ring_read_mod0: "ring_read r (pos mod rb_capacity r) n = ring_read r pos n"
  using ring_read_mod [of r pos 0 n] by simp

definition record_events :: "ring_record \<Rightarrow> fault_event list" where
  "record_events x = (if rr_state x = Published then [read_fault_event (rr_payload x)] else [])"

definition event_sized :: "ring_record \<Rightarrow> bool" where
  "event_sized x \<longleftrightarrow> rr_state x = Published \<longrightarrow> length (rr_payload x) = size_of fault_event_layout"

definition ready :: "ring_record list \<Rightarrow> ring_record list" where
  "ready xs = takeWhile (\<lambda>x. rr_state x \<noteq> Busy) xs"

lemma drain_record_head:
  assumes cap: "rb_capacity r = 2 ^ k" "k \<le> 62" and out: "laid_out r (unat c) (x # xs)"
    and size: "length (rr_payload x) < 2 ^ 30" "record_size x \<le> rb_capacity r"
    and fits: "unat c + record_size x \<le> unat (rb_producer r)"
  shows "drain_record r c =
    (if rr_state x = Busy then Ok None
     else if event_sized x then Ok (Some (c + of_nat (record_size x), record_events x))
     else Err (invalid_record ''fault event has unexpected size''))"
proof -
  have raw: "(from_le_bytes (ring_read r (unat (c AND of_nat (rb_capacity r - 1))) 4) :: u32) = record_header x"
    and pay: "ring_read r (unat (c AND of_nat (rb_capacity r - 1)) + HEADER_BYTES) (length (rr_payload x)) = rr_payload x"
    unfolding masked_offset [OF cap] using out by (simp_all add: ring_read_mod ring_read_mod0 HEADER_BYTES_def)
  have al: "align8 (HEADER_BYTES + length (rr_payload x)) = Ok (record_size x)"
    using size(1) by (simp add: align8_def usize_checked_add_def HEADER_BYTES_def record_size_def add.commute)
  note lt = advance_position(1) [OF fits] and sz = advance_position(2) [OF fits] and sum = advance_position(3) [OF fits]
  have add: "checked_add c (of_nat (record_size x)) = Some (c + of_nat (record_size x))"
    using lt sz by (simp add: checked_add_def)
  have le: "\<not> c + of_nat (record_size x) > rb_producer r" using fits sum by (simp add: word_less_nat_alt)
  show ?thesis
    unfolding drain_record_def raw Let_def
    using size(2) al add le pay
    by (cases "rr_state x") (auto simp: record_header_bits [OF size(1)] usize_checked_add_def event_sized_def record_events_def
        HEADER_BYTES_def order.strict_trans [OF size(1)])
qed

lemma record_size_pos: "8 \<le> record_size x"
  by (simp add: record_size_def)

lemma drain_loop_log:
  assumes cap: "rb_capacity r = 2 ^ k" "k \<le> 62"
  shows "laid_out r (unat c) xs \<Longrightarrow> unat (rb_producer r) = unat c + log_size xs \<Longrightarrow>
    list_all (\<lambda>x. length (rr_payload x) < 2 ^ 30 \<and> record_size x \<le> rb_capacity r) xs \<Longrightarrow>
    drain_loop r c events =
      (if list_all event_sized (ready xs)
       then Ok (c + of_nat (log_size (ready xs)), events @ concat (map record_events (ready xs)))
       else Err (invalid_record ''fault event has unexpected size''))"
proof (induction xs arbitrary: c events)
  case Nil
  then show ?case by (simp add: drain_loop.simps log_size_def ready_def word_less_nat_alt)
next
  case (Cons x xs)
  have lt: "c < rb_producer r" using Cons.prems(2) record_size_pos [of x] by (simp add: word_less_nat_alt log_size_def)
  have fits: "unat c + record_size x \<le> unat (rb_producer r)" using Cons.prems(2) by (simp add: log_size_def)
  have head: "drain_record r c =
    (if rr_state x = Busy then Ok None
     else if event_sized x then Ok (Some (c + of_nat (record_size x), record_events x))
     else Err (invalid_record ''fault event has unexpected size''))"
    using Cons.prems fits by (intro drain_record_head [OF cap]) auto
  let ?c = "c + of_nat (record_size x)"
  have next_pos: "unat ?c = unat c + record_size x" using fits by (rule advance_position)
  have IH: "drain_loop r ?c (events @ record_events x) =
      (if list_all event_sized (ready xs)
       then Ok (?c + of_nat (log_size (ready xs)), (events @ record_events x) @ concat (map record_events (ready xs)))
       else Err (invalid_record ''fault event has unexpected size''))"
    using Cons.prems next_pos by (intro Cons.IH) (auto simp: log_size_def)
  show ?case
    using lt head IH by (simp add: drain_loop.simps [of r c] ready_def log_size_def add.assoc)
qed

text \<open>
  C28: draining a ring that holds a log of records takes exactly the records before the first one still
  being written: it returns the events of the published ones in order, skips the discarded ones and
  stores the position behind them, where the ring holds the rest of the log; nothing is lost and
  nothing is returned twice. If one of them has the wrong size the drain fails and leaves the position
  where it was.
\<close>

theorem drain_takes_ready_records:
  assumes "ring_holds r xs"
  shows "if list_all event_sized (ready xs)
    then \<exists>r'. drain_faults r = (r', Ok (concat (map record_events (ready xs))))
       \<and> rb_data r' = rb_data r \<and> rb_producer r' = rb_producer r
       \<and> unat (rb_consumer r') = unat (rb_consumer r) + log_size (ready xs)
       \<and> ring_holds r' (dropWhile (\<lambda>x. rr_state x \<noteq> Busy) xs)
    else drain_faults r = (r, Err (invalid_record ''fault event has unexpected size''))"
proof -
  obtain k where cap: "rb_capacity r = 2 ^ k" "k \<le> 62" using assms by (auto simp: ring_holds_def)
  have out: "laid_out r (unat (rb_consumer r)) xs"
    and prod: "unat (rb_producer r) = unat (rb_consumer r) + log_size xs"
    and sizes: "list_all (\<lambda>x. length (rr_payload x) < 2 ^ 30 \<and> record_size x \<le> rb_capacity r) xs"
    using assms by (auto simp: ring_holds_def)
  let ?rest = "dropWhile (\<lambda>x. rr_state x \<noteq> Busy) xs"
  let ?r = "r\<lparr>rb_consumer := rb_consumer r + of_nat (log_size (ready xs))\<rparr>"
  have split: "ready xs @ ?rest = xs" by (simp add: ready_def)
  then have log: "log_size xs = log_size (ready xs) + log_size ?rest"
    by (metis log_size_def map_append sum_list_append)
  then have pos: "unat (rb_consumer ?r) = unat (rb_consumer r) + log_size (ready xs)"
    using prod advance_position(3) [of "rb_consumer r" "log_size (ready xs)" "rb_producer r"] by simp
  have suffix: "laid_out r (p + log_size as) bs" if "laid_out r p (as @ bs)" for p as bs
    using that by (induction as arbitrary: p) (auto simp: log_size_def simp flip: add.assoc)
  have same: "laid_out ?r p bs = laid_out r p bs" for p bs
    by (induction bs arbitrary: p) (auto simp: ring_read_def)
  have "laid_out r (unat (rb_consumer r) + log_size (ready xs)) ?rest"
    using out by (intro suffix) (simp only: split)
  moreover have "list_all (\<lambda>x. length (rr_payload x) < 2 ^ 30 \<and> record_size x \<le> rb_capacity r) ?rest"
    using sizes by (auto simp: list_all_iff dest: set_dropWhileD)
  ultimately have "ring_holds ?r ?rest"
    unfolding ring_holds_def pos same using cap prod log by auto
  then show ?thesis
    using drain_loop_log [OF cap out prod sizes, of "[]"] pos by (auto simp: drain_faults_def)
qed

text \<open>A ring of 64 bytes with one published record that wraps.\<close>

definition sample_ring :: ring where
  "sample_ring = \<lparr>rb_capacity = 64,
     rb_data = replicate 16 7 @ replicate 24 0 @ [32, 0, 0, 0, 0, 0, 0, 0] @ replicate 16 7,
     rb_consumer = 40, rb_producer = 80\<rparr>"

theorem drain_takes_ready_records_witness:
  "\<exists>r'. drain_faults sample_ring = (r', Ok [read_fault_event (replicate 32 7)])
     \<and> unat (rb_consumer r') = 80 \<and> ring_holds r' []"
proof -
  let ?x = "\<lparr>rr_state = Published, rr_payload = replicate 32 7\<rparr>"
  have "rb_capacity sample_ring = 2 ^ 6" by (simp add: sample_ring_def)
  moreover have "laid_out sample_ring 40 [?x]" "log_size [?x] = 40" "record_size ?x = 40"
    by code_simp+
  ultimately have holds: "ring_holds sample_ring [?x]"
    unfolding ring_holds_def by (auto simp: sample_ring_def intro!: exI [of _ 6])
  have "event_sized ?x" "record_size ?x = 40" by code_simp+
  then show ?thesis
    using drain_takes_ready_records [OF holds]
    by (simp add: ready_def record_events_def log_size_def) (auto simp: sample_ring_def)
qed

end
