(* ===== verification/Sock_Diag.thy ===== *)
theory Sock_Diag
  imports Wire Net_Addr
begin

text \<open>
  Listener readiness and the reset of sockets, crates/fluxd/src/netlink/sock_diag.rs. The probe is a
  state machine driven by readable events: \<open>on_readable\<close> takes what \<open>try_recv\<close> returned and what
  sending the next request returned. The bounded loops take the sequence of what the clock, \<open>poll\<close>
  and \<open>try_recv\<close> answered; a reset takes the kernel's answer to each request as a function of it.
\<close>

section \<open>Constants and data\<close>

definition SOCK_DIAG_BY_FAMILY :: u16 where "SOCK_DIAG_BY_FAMILY = 20"
definition SOCK_DESTROY :: u16 where "SOCK_DESTROY = 21"
definition INET_DIAG_REQ_V2_LEN :: nat where "INET_DIAG_REQ_V2_LEN = 56"
definition INET_DIAG_MSG_MIN_LEN :: nat where "INET_DIAG_MSG_MIN_LEN = 72"
definition FIND_INODE_DATAGRAMS :: nat where "FIND_INODE_DATAGRAMS = 64"
definition TCP_LISTEN :: u8 where "TCP_LISTEN = 10"
definition TCP_ESTABLISHED :: u8 where "TCP_ESTABLISHED = 1"
definition TCP_SYN_SENT :: u8 where "TCP_SYN_SENT = 2"
definition TCP_SYN_RECV :: u8 where "TCP_SYN_RECV = 3"
definition TCP_FIN_WAIT1 :: u8 where "TCP_FIN_WAIT1 = 4"
definition TCP_FIN_WAIT2 :: u8 where "TCP_FIN_WAIT2 = 5"
definition TCP_CLOSE_WAIT :: u8 where "TCP_CLOSE_WAIT = 8"
definition TCP_LAST_ACK :: u8 where "TCP_LAST_ACK = 9"
definition TCP_CLOSING :: u8 where "TCP_CLOSING = 11"
definition OVERFLOWUID :: u32 where "OVERFLOWUID = 65534"
definition SOCK_DESTROY_MAX :: nat where "SOCK_DESTROY_MAX = 4096"

text \<open>The constants of \<open>libc\<close> on Linux.\<close>

definition AF_INET :: u8 where "AF_INET = 2"
definition AF_INET6 :: u8 where "AF_INET6 = 10"
definition IPPROTO_TCP :: u8 where "IPPROTO_TCP = 6"
definition ENOENT :: int where "ENOENT = 2"
definition ESRCH :: int where "ESRCH = 3"
definition ENODEV :: int where "ENODEV = 19"

datatype ip_addr = Ip_V4 ipv4_addr | Ip_V6 ipv6_addr

record socket_expectation =
  se_protocol :: u8
  se_addr :: ip_addr
  se_port :: u16

definition se_family :: "socket_expectation \<Rightarrow> u8" where
  "se_family e = (case se_addr e of Ip_V4 _ \<Rightarrow> AF_INET | Ip_V6 _ \<Rightarrow> AF_INET6)"

text \<open>\<open>io::Error::raw_os_error\<close> and the kinds the module asks for; \<open>EAGAIN\<close> is 11.\<close>

fun raw_os_error :: "io_error \<Rightarrow> int option" where
  "raw_os_error (Os n) = Some n"
| "raw_os_error WouldBlock = Some 11"
| "raw_os_error _ = None"

definition would_block :: "io_error \<Rightarrow> bool" where
  "would_block e \<longleftrightarrow> raw_os_error e = Some 11"

fun dump_retryable :: "io_error \<Rightarrow> bool" where
  "dump_retryable (InvalidData _) = True"
| "dump_retryable (Io_Interrupted _) = True"
| "dump_retryable (UnexpectedEof _) = True"
| "dump_retryable (Os n) = (n = 4 \<or> n = 110)"
| "dump_retryable _ = False"

section \<open>Requests\<close>

text \<open>\<open>req[a..b].copy_from_slice(src)\<close> where \<open>src\<close> has the length of the range.\<close>

definition put_bytes :: "nat \<Rightarrow> bytes \<Rightarrow> bytes \<Rightarrow> bytes" where
  "put_bytes a src req = take a req @ src @ drop (a + length src) req"

definition dump_request_body :: "u8 \<Rightarrow> u8 \<Rightarrow> bytes" where
  "dump_request_body family protocol =
    put_bytes 4 (le_bytes 4 (- 1 :: u32)) ((replicate INET_DIAG_REQ_V2_LEN 0)[0 := family, 1 := protocol])"

definition dump_request :: "socket_expectation \<Rightarrow> u32 \<Rightarrow> bytes option" where
  "dump_request e seq =
    mb_finish (mb_new SOCK_DIAG_BY_FAMILY (NLM_F_REQUEST OR NLM_F_DUMP) seq
      (dump_request_body (se_family e) (se_protocol e)))"

definition dump_tcp_request :: "u8 \<Rightarrow> u32 \<Rightarrow> bytes option" where
  "dump_tcp_request family seq =
    mb_finish (mb_new SOCK_DIAG_BY_FAMILY (NLM_F_REQUEST OR NLM_F_DUMP) seq
      (dump_request_body family IPPROTO_TCP))"

definition destroy_body :: "u8 \<Rightarrow> bytes \<Rightarrow> bytes" where
  "destroy_body family sockid =
    put_bytes 8 sockid ((replicate INET_DIAG_REQ_V2_LEN 0)[0 := family, 1 := IPPROTO_TCP])"

definition destroy_request :: "u8 \<Rightarrow> bytes \<Rightarrow> u32 \<Rightarrow> bytes option" where
  "destroy_request family sockid seq =
    mb_finish (mb_new SOCK_DESTROY (NLM_F_REQUEST OR NLM_F_ACK) seq (destroy_body family sockid))"

section \<open>Responses\<close>

record diag_tcp =
  dt_family :: u8
  dt_state :: u8
  dt_sockid :: bytes
  dt_uid :: u32

definition parse_diag_tcp :: "bytes \<Rightarrow> diag_tcp option" where
  "parse_diag_tcp payload =
    (if length payload < INET_DIAG_MSG_MIN_LEN then None
     else Some \<lparr>dt_family = payload ! 0, dt_state = payload ! 1, dt_sockid = slice 4 52 payload,
                dt_uid = from_le_bytes (slice 64 68 payload)\<rparr>)"

definition tcp_is_live_client :: "u8 \<Rightarrow> bool" where
  "tcp_is_live_client state \<longleftrightarrow>
    state \<in> {TCP_ESTABLISHED, TCP_SYN_SENT, TCP_SYN_RECV, TCP_FIN_WAIT1, TCP_FIN_WAIT2,
             TCP_CLOSE_WAIT, TCP_LAST_ACK, TCP_CLOSING}"

definition match_diag_msg :: "bytes \<Rightarrow> socket_expectation \<Rightarrow> u32 option" where
  "match_diag_msg payload e =
    (if length payload < INET_DIAG_MSG_MIN_LEN then None
     else
       (let family = payload ! 0;
            state = payload ! 1;
            sport = (from_be_bytes (slice 4 6 payload) :: u16);
            src = slice 8 24 payload;
            inode = (from_le_bytes (slice 68 72 payload) :: u32)
        in if family \<noteq> se_family e \<or> sport \<noteq> se_port e then None
           else if se_protocol e = IPPROTO_TCP \<and> state \<noteq> TCP_LISTEN then None
           else if (case se_addr e of
                      Ip_V4 a \<Rightarrow> slice 0 4 src = ipv4_octets a
                    | Ip_V6 a \<Rightarrow> slice 0 16 src = ipv6_octets a)
           then Some inode else None))"

definition incomplete_diag :: io_error where
  "incomplete_diag = InvalidData ''incomplete sock_diag dump (no NLMSG_DONE)''"

section \<open>The readiness probe\<close>

record probe_ready =
  pr_socket_seq :: u32
  pr_expectations :: "socket_expectation list"
  pr_index :: nat
  pr_seq :: u32
  pr_collected :: "raw_message list"
  pr_inodes :: "u32 option list"

datatype probe_step =
    Wait
  | Pending nat "u32 option list"
  | Ready "u32 list"

datatype 'a outcome = Done 'a | Failed io_error | Panicked

text \<open>\<open>send\<close> is what the system call answers to a request.\<close>

definition send_current :: "(bytes \<Rightarrow> io_error + unit) \<Rightarrow> probe_ready \<Rightarrow> probe_ready \<times> unit outcome" where
  "send_current send p =
    (let seq = next_seq (pr_socket_seq p);
         p' = p\<lparr>pr_socket_seq := seq, pr_seq := seq, pr_collected := []\<rparr>
     in if pr_index p \<ge> length (pr_expectations p) then (p', Panicked)
        else case dump_request (pr_expectations p ! pr_index p) seq of
               None \<Rightarrow> (p', Panicked)
             | Some request \<Rightarrow> (p', case send request of Inl e \<Rightarrow> Failed e | Inr _ \<Rightarrow> Done ()))"

definition probe_start :: "(bytes \<Rightarrow> io_error + unit) \<Rightarrow> socket_expectation list \<Rightarrow> probe_ready \<times> unit outcome" where
  "probe_start send expectations =
    send_current send \<lparr>pr_socket_seq = 0, pr_expectations = expectations, pr_index = 0, pr_seq = 0,
      pr_collected = [], pr_inodes = replicate 4 None\<rparr>"

definition finish_round :: "u32 option list \<Rightarrow> probe_step" where
  "finish_round inodes =
    (if None \<notin> set inodes then Ready (map the inodes)
     else Pending (length (filter (\<lambda>i. i \<noteq> None) inodes)) inodes)"

definition inode_of :: "socket_expectation \<Rightarrow> raw_message list \<Rightarrow> u32 option" where
  "inode_of e items = find_map (\<lambda>m. match_diag_msg (rm_payload m) e) items"

definition on_readable ::
    "io_error + raw_message list \<Rightarrow> (bytes \<Rightarrow> io_error + unit) \<Rightarrow> probe_ready \<Rightarrow>
     probe_ready \<times> probe_step outcome" where
  "on_readable received send p =
    (case received of
       Inl e \<Rightarrow> (p, if would_block e then Done Wait else Failed e)
     | Inr messages \<Rightarrow>
         (case feed_dump (pr_collected p) messages False of
            Inl e \<Rightarrow> (p\<lparr>pr_collected := []\<rparr>, Failed e)
          | Inr (NeedMore items) \<Rightarrow> (p\<lparr>pr_collected := items\<rparr>, Done Wait)
          | Inr (Complete items) \<Rightarrow>
              (let i = pr_index p
               in if i \<ge> length (pr_expectations p) then (p\<lparr>pr_collected := []\<rparr>, Panicked)
                  else
                    (let p' = p\<lparr>pr_collected := [], pr_index := i + 1,
                         pr_inodes := (pr_inodes p)[i := inode_of (pr_expectations p ! i) items]\<rparr>
                     in if i + 1 < length (pr_expectations p) then
                          (case send_current send p' of
                             (p'', Failed e) \<Rightarrow> (p'', Failed e)
                           | (p'', Panicked) \<Rightarrow> (p'', Panicked)
                           | (p'', Done _) \<Rightarrow> (p'', Done Wait))
                        else (p', Done (finish_round (pr_inodes p')))))))"

text \<open>The reactor calls \<open>on_readable\<close> for every readable event until the answer is not \<open>Wait\<close>.\<close>

fun probe_run ::
    "probe_ready \<Rightarrow> ((io_error + raw_message list) \<times> (bytes \<Rightarrow> io_error + unit)) list \<Rightarrow> probe_step outcome option" where
  "probe_run p [] = None"
| "probe_run p ((received, send) # evs) =
    (case on_readable received send p of
       (p', Done Wait) \<Rightarrow> probe_run p' evs
     | (p', out) \<Rightarrow> Some out)"

section \<open>Bounded dumps\<close>

record poll_event =
  ev_expired :: bool
  ev_poll :: "io_error + bool"
  ev_recv :: "io_error + raw_message list"

fun dump_loop :: "nat \<Rightarrow> raw_message list \<Rightarrow> poll_event list \<Rightarrow> (io_error + raw_message list) option" where
  "dump_loop datagrams collected [] = None"
| "dump_loop datagrams collected (ev # evs) =
    (if datagrams \<ge> FIND_INODE_DATAGRAMS \<or> ev_expired ev then Some (Err incomplete_diag)
     else
       (case ev_poll ev of
          Inl e \<Rightarrow> Some (Err e)
        | Inr readable \<Rightarrow>
            if \<not> readable then Some (Err incomplete_diag)
            else
              (case ev_recv ev of
                 Inl e \<Rightarrow> if would_block e then dump_loop (datagrams + 1) collected evs else Some (Err e)
               | Inr messages \<Rightarrow>
                   (case feed_dump collected messages False of
                      Inl e \<Rightarrow> Some (Err e)
                    | Inr (NeedMore items) \<Rightarrow> dump_loop (datagrams + 1) items evs
                    | Inr (Complete items) \<Rightarrow> Some (Ok items)))))"

text \<open>Opening the socket and sending the request precede the loop; \<open>opened\<close> is their result.\<close>

definition dump_tcp_family :: "io_error + unit \<Rightarrow> poll_event list \<Rightarrow> (io_error + raw_message list) option" where
  "dump_tcp_family opened evs = (case opened of Inl e \<Rightarrow> Some (Err e) | Inr _ \<Rightarrow> dump_loop 0 [] evs)"

definition find_inode ::
    "socket_expectation \<Rightarrow> io_error + unit \<Rightarrow> poll_event list \<Rightarrow> (io_error + u32 option) option" where
  "find_inode e opened evs =
    (case opened of
       Inl err \<Rightarrow> Some (Err err)
     | Inr _ \<Rightarrow> map_option (\<lambda>r. and_then r (\<lambda>items. Ok (inode_of e items))) (dump_loop 0 [] evs))"

section \<open>Resetting sockets\<close>

record destroy_report =
  destroyed :: u32
  already_gone :: u32

definition report_default :: destroy_report where
  "report_default = \<lparr>destroyed = 0, already_gone = 0\<rparr>"

definition wanted_uids :: "u32 list \<Rightarrow> u32 list" where
  "wanted_uids uids = filter (\<lambda>uid. uid \<noteq> 0 \<and> uid \<noteq> OVERFLOWUID) uids"

definition family_targets :: "u32 list \<Rightarrow> raw_message list \<Rightarrow> diag_tcp list" where
  "family_targets wanted items =
    filter (\<lambda>d. dt_uid d \<in> set wanted \<and> tcp_is_live_client (dt_state d))
      (List.map_filter (\<lambda>m. parse_diag_tcp (rm_payload m)) items)"

fun collect_targets :: "u32 list \<Rightarrow> (u8 \<Rightarrow> io_error + raw_message list) \<Rightarrow> u8 list \<Rightarrow> io_error + diag_tcp list" where
  "collect_targets wanted dump [] = Ok []"
| "collect_targets wanted dump (family # families) =
    (case dump family of
       Inl e \<Rightarrow> if raw_os_error e = Some ENOENT then collect_targets wanted dump families else Err e
     | Inr items \<Rightarrow>
         and_then (collect_targets wanted dump families) (\<lambda>more. Ok (family_targets wanted items @ more)))"

definition target_gone :: "io_error \<Rightarrow> bool" where
  "target_gone e \<longleftrightarrow> raw_os_error e \<in> {Some ESRCH, Some ENOENT, Some ENODEV}"

text \<open>The loop over the targets; the first component is the requests that were sent.\<close>

fun destroy_loop ::
    "(bytes \<Rightarrow> io_error + unit) \<Rightarrow> u32 \<Rightarrow> diag_tcp list \<Rightarrow> destroy_report \<Rightarrow> bytes list \<times> destroy_report outcome" where
  "destroy_loop ack seq [] report = ([], Done report)"
| "destroy_loop ack seq (d # ds) report =
    (let seq = next_seq seq
     in case destroy_request (dt_family d) (dt_sockid d) seq of
          None \<Rightarrow> ([], Panicked)
        | Some request \<Rightarrow>
            (case ack request of
               Inr _ \<Rightarrow>
                 (let (sent, out) = destroy_loop ack seq ds (report\<lparr>destroyed := destroyed report + 1\<rparr>)
                  in (request # sent, out))
             | Inl e \<Rightarrow>
                 if target_gone e then
                   (let (sent, out) = destroy_loop ack seq ds (report\<lparr>already_gone := already_gone report + 1\<rparr>)
                    in (request # sent, out))
                 else ([request], Failed e)))"

definition destroy_tcp_for_uids ::
    "(u8 \<Rightarrow> io_error + raw_message list) \<Rightarrow> io_error + unit \<Rightarrow> (bytes \<Rightarrow> io_error + unit) \<Rightarrow> u32 list \<Rightarrow>
     bytes list \<times> destroy_report outcome" where
  "destroy_tcp_for_uids dump opened ack uids =
    (let wanted = wanted_uids uids
     in if wanted = [] then ([], Done report_default)
        else case collect_targets wanted dump [AF_INET, AF_INET6] of
               Inl e \<Rightarrow> ([], Failed e)
             | Inr targets \<Rightarrow>
                 (case opened of
                    Inl e \<Rightarrow> ([], Failed e)
                  | Inr _ \<Rightarrow> destroy_loop ack 0 (take SOCK_DESTROY_MAX targets) report_default))"

text \<open>\<open>pid_owns_inode\<close> over what reading the directory and its links returned.\<close>

fun pid_owns_inode :: "(io_error + string option) list \<Rightarrow> u32 \<Rightarrow> io_error + bool" where
  "pid_owns_inode [] inode = Ok False"
| "pid_owns_inode (Inl e # _) inode = Err e"
| "pid_owns_inode (Inr link # rest) inode =
    (if link = Some (''socket:['' @ dec (unat inode) @ '']'') then Ok True else pid_owns_inode rest inode)"

section \<open>Requests are single messages\<close>

definition diag_message :: "u16 \<Rightarrow> u16 \<Rightarrow> u32 \<Rightarrow> bytes \<Rightarrow> raw_message" where
  "diag_message kind flags seq body = \<lparr>rm_kind = kind, rm_flags = flags, rm_seq = seq, rm_pid = 0, rm_payload = body\<rparr>"

lemma finish_new: "mb_finish (mb_new kind flags seq body) = Some (message_bytes (diag_message kind flags seq body))"
  using finish_is_message [of "mb_new kind flags seq body" kind flags seq body "[]"]
  by (simp add: diag_message_def) (simp add: mb_new_def)

lemma dump_request_Some: "\<exists>request. dump_request e seq = Some request"
  by (simp add: dump_request_def finish_new)

definition destroy_message :: "u32 \<Rightarrow> diag_tcp \<Rightarrow> raw_message" where
  "destroy_message seq d = diag_message SOCK_DESTROY (NLM_F_REQUEST OR NLM_F_ACK) seq (destroy_body (dt_family d) (dt_sockid d))"

lemma destroy_request_eq:
  "destroy_request (dt_family d) (dt_sockid d) seq = Some (message_bytes (destroy_message seq d))"
  by (simp add: destroy_request_def finish_new destroy_message_def)

lemma parse_diag_tcp_sockid: "parse_diag_tcp payload = Some d \<Longrightarrow> length (dt_sockid d) = 48"
  by (auto simp: parse_diag_tcp_def INET_DIAG_MSG_MIN_LEN_def split: if_split_asm)

lemma parse_destroy_message:
  assumes "parse_diag_tcp payload = Some d"
  shows "parse_datagram (message_bytes (destroy_message seq d)) = Ok [destroy_message seq d]"
proof -
  have "message_fits (destroy_message seq d)"
    using parse_diag_tcp_sockid [OF assms]
    by (simp add: message_fits_def destroy_message_def diag_message_def destroy_body_def put_bytes_def
        INET_DIAG_REQ_V2_LEN_def)
  from parse_last [OF this, of "[]" "[]"] show ?thesis by (simp add: parse_datagram_def)
qed

section \<open>The probe answers from complete dumps\<close>

definition batches :: "((io_error + raw_message list) \<times> (bytes \<Rightarrow> io_error + unit)) list \<Rightarrow> raw_message list list" where
  "batches evs = List.map_filter (\<lambda>(received, _). case received of Inl _ \<Rightarrow> None | Inr ms \<Rightarrow> Some ms) evs"

lemma batches_simps [simp]:
  "batches [] = []" "batches ((Inl e, f) # evs) = batches evs" "batches ((Inr ms, f) # evs) = ms # batches evs"
  by (simp_all add: batches_def List.map_filter_simps)

text \<open>
  \<open>answers items es bs inodes\<close>: continuing from the data \<open>items\<close> of the dump in progress, the batches
  \<open>bs\<close> are one complete dump after the other, one for each expectation, and the inodes are what the
  dumps say.
\<close>

inductive answers :: "raw_message list \<Rightarrow> socket_expectation list \<Rightarrow> raw_message list list \<Rightarrow> u32 option list \<Rightarrow> bool" where
  answers_end: "answers items [] [] []"
| answers_dump: "dump_batches items (map Inr seg) = Some (Ok d) \<Longrightarrow> answers [] es bs inodes \<Longrightarrow>
    answers items (e # es) (seg @ bs) (inode_of e d # inodes)"

inductive_cases answers_ConsE: "answers items (e # es) bs inodes"

lemma answers_more:
  assumes "feed_dump items ms False = Ok (NeedMore items')" and "answers items' (e # es) bs inodes"
  shows "answers items (e # es) (ms # bs) inodes"
  using assms(2)
proof (rule answers_ConsE)
  fix seg d bs' inodes'
  assume "bs = seg @ bs'" "inodes = inode_of e d # inodes'" "dump_batches items' (map Inr seg) = Some (Ok d)"
    "answers [] es bs' inodes'"
  then show ?thesis using answers_dump [of items "ms # seg" d es bs' inodes' e] assms(1) by simp
qed

definition probe_inv :: "probe_ready \<Rightarrow> bool" where
  "probe_inv p \<longleftrightarrow> length (pr_inodes p) = length (pr_expectations p) \<and> pr_index p < length (pr_expectations p)"

definition explains :: "probe_ready \<Rightarrow> raw_message list list \<Rightarrow> probe_step \<Rightarrow> bool" where
  "explains p bs s \<longleftrightarrow>
    (\<exists>inodes. answers (pr_collected p) (drop (pr_index p) (pr_expectations p)) bs inodes
       \<and> s = finish_round (take (pr_index p) (pr_inodes p) @ inodes))"

definition answered :: "raw_message list \<Rightarrow> probe_ready \<Rightarrow> probe_ready" where
  "answered d p = p\<lparr>pr_collected := [], pr_index := pr_index p + 1,
     pr_inodes := (pr_inodes p)[pr_index p := inode_of (pr_expectations p ! pr_index p) d]\<rparr>"

lemma drop_index: "probe_inv p \<Longrightarrow>
  drop (pr_index p) (pr_expectations p) = pr_expectations p ! pr_index p # drop (pr_index p + 1) (pr_expectations p)"
  by (simp add: probe_inv_def Cons_nth_drop_Suc)

lemma explains_more:
  assumes "probe_inv p" and "feed_dump (pr_collected p) ms False = Ok (NeedMore items)"
    and "explains (p\<lparr>pr_collected := items\<rparr>) bs s"
  shows "explains p (ms # bs) s"
proof -
  obtain inodes where a: "answers items (drop (pr_index p) (pr_expectations p)) bs inodes"
    and s: "s = finish_round (take (pr_index p) (pr_inodes p) @ inodes)"
    using assms(3) by (auto simp: explains_def)
  have "answers (pr_collected p) (drop (pr_index p) (pr_expectations p)) (ms # bs) inodes"
    using a unfolding drop_index [OF assms(1)] by (rule answers_more [OF assms(2)])
  then show ?thesis using s by (auto simp: explains_def)
qed

lemma explains_complete:
  assumes inv: "probe_inv p" and feed: "feed_dump (pr_collected p) ms False = Ok (Complete d)"
    and rest: "explains (answered d p) bs s"
  shows "explains p (ms # bs) s"
proof -
  let ?x = "inode_of (pr_expectations p ! pr_index p) d"
  obtain inodes where a: "answers [] (drop (pr_index p + 1) (pr_expectations p)) bs inodes"
    and s: "s = finish_round (take (pr_index p + 1) ((pr_inodes p)[pr_index p := ?x]) @ inodes)"
    using rest by (auto simp: explains_def answered_def)
  have "dump_batches (pr_collected p) (map Inr [ms]) = Some (Ok d)" using feed by simp
  from answers_dump [OF this a, of "pr_expectations p ! pr_index p"]
  have "answers (pr_collected p) (drop (pr_index p) (pr_expectations p)) (ms # bs) (?x # inodes)"
    by (simp add: drop_index [OF inv])
  moreover have "take (pr_index p + 1) ((pr_inodes p)[pr_index p := ?x]) = take (pr_index p) (pr_inodes p) @ [?x]"
    using inv by (simp add: probe_inv_def take_Suc_conv_app_nth)
  ultimately show ?thesis using s by (auto simp: explains_def)
qed

lemma explains_round:
  "pr_index p = length (pr_expectations p) \<Longrightarrow> pr_collected p = [] \<Longrightarrow> length (pr_inodes p) = length (pr_expectations p) \<Longrightarrow>
   explains p [] (finish_round (pr_inodes p))"
  by (auto simp: explains_def intro!: exI [of _ "[]"] answers_end)

text \<open>One readable event that does not end the probe, and one that does.\<close>

lemma on_readable_Wait:
  assumes "probe_inv p" and "on_readable received send p = (q, Done Wait)"
  shows "probe_inv q" and "explains q bs s \<Longrightarrow> explains p (batches [(received, send)] @ bs) s"
proof -
  consider "q = p" "batches [(received, send)] = []"
    | ms items where "received = Inr ms" "feed_dump (pr_collected p) ms False = Ok (NeedMore items)"
        "q = p\<lparr>pr_collected := items\<rparr>"
    | ms d where "received = Inr ms" "feed_dump (pr_collected p) ms False = Ok (Complete d)"
        "pr_index p + 1 < length (pr_expectations p)" "q = fst (send_current send (answered d p))"
    using assms
    by (auto simp: on_readable_def answered_def finish_round_def Let_def split: sum.split_asm dump_feed.split_asm
        prod.split_asm outcome.split_asm if_split_asm)
  then have "probe_inv q \<and> (explains q bs s \<longrightarrow> explains p (batches [(received, send)] @ bs) s)"
  proof cases
    case 1
    then show ?thesis using assms(1) by simp
  next
    case 2
    then show ?thesis using assms(1) explains_more [OF assms(1) 2(2)] by (simp add: probe_inv_def)
  next
    case 3
    have "probe_inv q" "explains q bs s = explains (answered d p) bs s"
      using 3 assms(1)
      by (simp_all add: send_current_def Let_def probe_inv_def explains_def answered_def split: option.split)
    then show ?thesis using 3 explains_complete [OF assms(1) 3(2)] by simp
  qed
  then show "probe_inv q" "explains q bs s \<Longrightarrow> explains p (batches [(received, send)] @ bs) s" by blast+
qed

lemma on_readable_end:
  assumes "probe_inv p" and "on_readable received send p = (q, Done s)" and "s \<noteq> Wait"
  shows "explains p (batches [(received, send)]) s"
proof -
  obtain ms d where d: "received = Inr ms" "feed_dump (pr_collected p) ms False = Ok (Complete d)"
    "pr_index p + 1 = length (pr_expectations p)" "s = finish_round (pr_inodes (answered d p))"
    using assms
    by (auto simp: on_readable_def answered_def probe_inv_def Let_def split: sum.split_asm dump_feed.split_asm
        prod.split_asm outcome.split_asm if_split_asm)
  have "explains (answered d p) [] s"
    using explains_round [of "answered d p"] d assms(1) by (simp add: answered_def probe_inv_def)
  then show ?thesis using explains_complete [OF assms(1) d(2)] d(1) by simp
qed

lemma probe_run_explained:
  "probe_run p evs = Some (Done s) \<Longrightarrow> probe_inv p \<Longrightarrow> \<exists>k. explains p (batches (take k evs)) s"
proof (induction evs arbitrary: p)
  case (Cons ev evs)
  obtain received send q out where e: "ev = (received, send)" "on_readable received send p = (q, out)"
    by (metis surj_pair)
  have b: "batches [ev] @ bs = batches (ev # bs')" if "bs = batches bs'" for bs bs'
    using that by (cases received) (simp_all add: e)
  show ?case
  proof (cases "out = Done Wait")
    case True
    then obtain k where "explains q (batches (take k evs)) s"
      using Cons e on_readable_Wait(1) [of p received send q] by auto
    then have "explains p (batches (take (Suc k) (ev # evs))) s"
      using on_readable_Wait(2) [of p received send q "batches (take k evs)" s] Cons.prems(2) e True
        b [of "batches (take k evs)" "take k evs"] by simp
    then show ?thesis by blast
  next
    case False
    then have "out = Done s" using Cons.prems(1) e by (auto split: outcome.split_asm probe_step.split_asm)
    then have "explains p (batches (take 1 (ev # evs))) s"
      using on_readable_end [of p received send q s] Cons.prems(2) e False by simp
    then show ?thesis by blast
  qed
qed simp

text \<open>
  C29: the probe reports a verdict only after four complete dumps. The batches it consumed are four
  dumps one after the other, each trusted by the rules of a dump request and each for its expectation
  in order; the reported inodes are those of the matching sockets in them, so a listener is reported
  absent only by a dump that ended, and \<open>Ready\<close> only when every dump had a matching socket.
\<close>

theorem probe_reports_complete_dumps:
  assumes "length es = 4" and "probe_start send es = (p, Done ())" and "probe_run p evs = Some (Done s)"
  shows "\<exists>k inodes. answers [] es (batches (take k evs)) inodes \<and> length inodes = 4 \<and>
    s = (if None \<in> set inodes then Pending (length (filter (\<lambda>i. i \<noteq> None) inodes)) inodes
         else Ready (map the inodes))"
proof -
  have "probe_inv p" "pr_index p = 0" "pr_collected p = []" "pr_expectations p = es"
    using assms(1,2) by (auto simp: probe_start_def send_current_def probe_inv_def Let_def split: option.split_asm)
  then obtain k inodes where a: "answers [] es (batches (take k evs)) inodes" and s: "s = finish_round inodes"
    using probe_run_explained [OF assms(3)] by (auto simp: explains_def)
  have "answers i e b n \<Longrightarrow> length n = length e" for i e b n by (induction rule: answers.induct) auto
  then have "length inodes = 4" using a assms(1) by simp
  then show ?thesis using a s by (auto simp: finish_round_def)
qed

definition sample_expectation :: socket_expectation where
  "sample_expectation = \<lparr>se_protocol = IPPROTO_TCP, se_addr = Ip_V4 0x7F000001, se_port = 80\<rparr>"

definition sample_listener :: bytes where
  "sample_listener = [2, 10, 0, 0, 0, 80, 0, 0, 127, 0, 0, 1] @ replicate 56 0 @ [7, 0, 0, 0]"

definition sample_dump :: "raw_message list" where
  "sample_dump = [diag_message 20 0 1 sample_listener, diag_message NLMSG_DONE 0 1 [0, 0, 0, 0]]"

theorem probe_reports_complete_dumps_witness:
  "\<exists>p. probe_start (\<lambda>_. Ok ()) (replicate 4 sample_expectation) = (p, Done ())
     \<and> probe_run p (replicate 4 (Ok sample_dump, \<lambda>_. Ok ())) = Some (Done (Ready [7, 7, 7, 7]))
     \<and> (\<exists>k inodes. answers [] (replicate 4 sample_expectation)
          (batches (take k (replicate 4 (Ok sample_dump, \<lambda>_. Ok ())))) inodes \<and> length inodes = 4)"
proof -
  define p where "p = fst (probe_start (\<lambda>_. Ok ()) (replicate 4 sample_expectation))"
  have 1: "probe_start (\<lambda>_. Ok ()) (replicate 4 sample_expectation) = (p, Done ())"
    using dump_request_Some [of sample_expectation 1]
    by (auto simp: p_def probe_start_def send_current_def Let_def next_seq_def)
  have 2: "probe_run p (replicate 4 (Ok sample_dump, \<lambda>_. Ok ())) = Some (Done (Ready [7, 7, 7, 7]))"
    unfolding p_def by code_simp
  from probe_reports_complete_dumps [OF _ 1 2] show ?thesis using 1 2 by auto
qed

section \<open>Resets hit live sockets of the given users only\<close>

fun destroy_messages :: "u32 \<Rightarrow> diag_tcp list \<Rightarrow> raw_message list" where
  "destroy_messages seq [] = []"
| "destroy_messages seq (d # ds) = destroy_message (next_seq seq) d # destroy_messages (next_seq seq) ds"

lemma length_destroy_messages [simp]: "length (destroy_messages seq ds) = length ds"
  by (induction ds arbitrary: seq) auto

lemma nth_destroy_messages: "m \<in> set (destroy_messages seq ds) \<Longrightarrow> \<exists>d\<in>set ds. \<exists>n. m = destroy_message n d"
  by (induction ds arbitrary: seq) auto

definition report_total :: "destroy_report \<Rightarrow> nat" where
  "report_total r = unat (destroyed r) + unat (already_gone r)"

lemma report_total_counted:
  "report_total r < 2 ^ 31 \<Longrightarrow> report_total (r\<lparr>destroyed := destroyed r + 1\<rparr>) = report_total r + 1"
  "report_total r < 2 ^ 31 \<Longrightarrow> report_total (r\<lparr>already_gone := already_gone r + 1\<rparr>) = report_total r + 1"
  by (simp_all add: report_total_def unat_add_small)

lemma destroy_loop_result:
  "destroy_loop ack seq ds report = (sent, out) \<Longrightarrow> report_total report + length ds \<le> 2 ^ 31 \<Longrightarrow>
   out \<noteq> Panicked \<and> (\<exists>n\<le>length ds. sent = map message_bytes (take n (destroy_messages seq ds))) \<and>
   (\<forall>r. out = Done r \<longrightarrow> sent = map message_bytes (destroy_messages seq ds)
      \<and> report_total r = report_total report + length ds)"
proof (induction ds arbitrary: seq report sent out)
  case (Cons d ds)
  let ?seq = "next_seq seq" and ?m = "destroy_message (next_seq seq) d"
  have step: "destroy_loop ack seq (d # ds) report =
    (case ack (message_bytes ?m) of
       Inr _ \<Rightarrow> (let (sent, out) = destroy_loop ack ?seq ds (report\<lparr>destroyed := destroyed report + 1\<rparr>)
                in (message_bytes ?m # sent, out))
     | Inl e \<Rightarrow> if target_gone e then
                 (let (sent, out) = destroy_loop ack ?seq ds (report\<lparr>already_gone := already_gone report + 1\<rparr>)
                  in (message_bytes ?m # sent, out))
               else ([message_bytes ?m], Failed e))"
    by (simp add: destroy_request_eq Let_def)
  have next_total: "report_total report < 2 ^ 31" using Cons.prems(2) by simp
  consider e where "sent = [message_bytes ?m]" "out = Failed e"
    | report' sent' where "destroy_loop ack ?seq ds report' = (sent', out)" "sent = message_bytes ?m # sent'"
        "report_total report' = report_total report + 1"
    using Cons.prems(1) report_total_counted [OF next_total] unfolding step
    by (auto split: sum.split_asm if_split_asm prod.split_asm)
  then show ?case
  proof cases
    case 1
    then show ?thesis by (auto intro!: exI [of _ 1])
  next
    case 2
    from Cons.IH [OF 2(1)] Cons.prems(2) 2(3) obtain n where
      "out \<noteq> Panicked" "n \<le> length ds" "sent' = map message_bytes (take n (destroy_messages ?seq ds))"
      "\<forall>r. out = Done r \<longrightarrow> sent' = map message_bytes (destroy_messages ?seq ds)
        \<and> report_total r = report_total report' + length ds"
      by auto
    then show ?thesis using 2(2,3) by (auto intro!: exI [of _ "Suc n"])
  qed
qed auto

lemma collect_targets_Ok:
  "collect_targets wanted dump families = Ok ds \<Longrightarrow>
   ds = concat (map (\<lambda>f. case dump f of Inr items \<Rightarrow> family_targets wanted items | Inl _ \<Rightarrow> []) families)
   \<and> (\<forall>f\<in>set families. \<forall>e. dump f = Inl e \<longrightarrow> raw_os_error e = Some ENOENT)"
  by (induction families arbitrary: ds) (auto simp: and_then_eq_Ok split: sum.split_asm if_split_asm)

definition all_targets :: "u32 list \<Rightarrow> (u8 \<Rightarrow> io_error + raw_message list) \<Rightarrow> diag_tcp list" where
  "all_targets uids dump =
    concat (map (\<lambda>f. case dump f of Inr items \<Rightarrow> family_targets (wanted_uids uids) items | Inl _ \<Rightarrow> []) [AF_INET, AF_INET6])"

definition live_target :: "u32 list \<Rightarrow> (u8 \<Rightarrow> io_error + raw_message list) \<Rightarrow> diag_tcp \<Rightarrow> bool" where
  "live_target uids dump d \<longleftrightarrow>
    (\<exists>f\<in>{AF_INET, AF_INET6}. \<exists>items m. dump f = Ok items \<and> m \<in> set items \<and> parse_diag_tcp (rm_payload m) = Some d)
    \<and> dt_uid d \<in> set uids \<and> dt_uid d \<noteq> 0 \<and> dt_uid d \<noteq> 65534 \<and> tcp_is_live_client (dt_state d)"

definition dumps_usable :: "(u8 \<Rightarrow> io_error + raw_message list) \<Rightarrow> bool" where
  "dumps_usable dump \<longleftrightarrow>
    list_all (\<lambda>f. case dump f of Inl e \<Rightarrow> raw_os_error e = Some ENOENT | Inr _ \<Rightarrow> True) [AF_INET, AF_INET6]"

lemma set_family_targets:
  "d \<in> set (family_targets wanted items) \<longleftrightarrow>
    (\<exists>m\<in>set items. parse_diag_tcp (rm_payload m) = Some d) \<and> dt_uid d \<in> set wanted \<and> tcp_is_live_client (dt_state d)"
  by (force simp: family_targets_def List.map_filter_def)

lemma all_targets_live: "d \<in> set (all_targets uids dump) \<longleftrightarrow> live_target uids dump d"
  by (cases "dump AF_INET"; cases "dump AF_INET6")
    (auto simp: all_targets_def live_target_def set_family_targets wanted_uids_def OVERFLOWUID_def)

lemma no_wanted_no_targets: "wanted_uids uids = [] \<Longrightarrow> all_targets uids dump = []"
  by (auto simp: all_targets_def family_targets_def split: sum.split)

lemma destroy_cases:
  assumes "destroy_tcp_for_uids dump opened ack uids = (sent, out)"
  obtains (unsent) "sent = []" "\<forall>r. out = Done r \<longrightarrow> r = report_default \<and> all_targets uids dump = []" "out \<noteq> Panicked"
    | (sent) "dumps_usable dump"
        "destroy_loop ack 0 (take 4096 (all_targets uids dump)) report_default = (sent, out)"
proof (cases "wanted_uids uids = []")
  case True
  then show thesis using assms unsent no_wanted_no_targets [OF True] by (auto simp: destroy_tcp_for_uids_def)
next
  case wanted: False
  show thesis
  proof (cases "collect_targets (wanted_uids uids) dump [AF_INET, AF_INET6]")
    case (Inl e)
    then show thesis using assms unsent wanted by (auto simp: destroy_tcp_for_uids_def simp del: collect_targets.simps)
  next
    case (Inr ds)
    from collect_targets_Ok [OF this] have "ds = all_targets uids dump" "dumps_usable dump"
      by (simp_all add: all_targets_def dumps_usable_def split: sum.split)
    then show thesis
      using assms wanted Inr unsent sent
      by (cases opened) (auto simp: destroy_tcp_for_uids_def SOCK_DESTROY_MAX_def simp del: collect_targets.simps)
  qed
qed

text \<open>
  C30: a reset never touches anything but live client sockets, listed by a dump that was trusted, of
  the given users, and never of root or of the overflow user; every request is one well-formed
  \<open>SOCK_DESTROY\<close> message for such a socket, and there are at most 4096. Nothing is sent unless both
  dumps are usable. On success every such socket (up to the limit) was requested exactly once per dump
  entry and the report counts them all.
\<close>

theorem resets_only_live_sockets:
  assumes "destroy_tcp_for_uids dump opened ack uids = (sent, out)"
  shows "out \<noteq> Panicked \<and> length sent \<le> 4096 \<and> (sent \<noteq> [] \<longrightarrow> dumps_usable dump) \<and>
    list_all (\<lambda>request. \<exists>d seq. live_target uids dump d \<and> parse_datagram request = Ok [destroy_message seq d]) sent \<and>
    (\<forall>r. out = Done r \<longrightarrow> report_total r = length sent
       \<and> sent = map message_bytes (destroy_messages 0 (take 4096 (all_targets uids dump))))"
  using assms
proof (cases rule: destroy_cases)
  case unsent
  then show ?thesis by (auto simp: report_total_def report_default_def)
next
  case sent
  let ?ds = "take 4096 (all_targets uids dump)"
  have total0: "report_total report_default = 0" by (simp add: report_total_def report_default_def)
  have "report_total report_default + length ?ds \<le> 2 ^ 31" by (simp add: total0)
  from destroy_loop_result [OF sent(2) this] obtain n where
    r: "out \<noteq> Panicked" "sent = map message_bytes (take n (destroy_messages 0 ?ds))"
      "\<forall>r. out = Done r \<longrightarrow> sent = map message_bytes (destroy_messages 0 ?ds) \<and> report_total r = length ?ds"
    by (auto simp: total0)
  have "\<exists>d seq. live_target uids dump d \<and> parse_datagram request = Ok [destroy_message seq d]"
    if request: "request \<in> set sent" for request
  proof -
    obtain m where "m \<in> set (destroy_messages 0 ?ds)" "request = message_bytes m"
      using request r(2) by (auto dest: in_set_takeD)
    then obtain d seq where d: "d \<in> set ?ds" "request = message_bytes (destroy_message seq d)"
      using nth_destroy_messages by blast
    then have live: "live_target uids dump d" using all_targets_live by (auto dest: in_set_takeD)
    then obtain payload where "parse_diag_tcp payload = Some d" by (auto simp: live_target_def)
    then show ?thesis using live d(2) parse_destroy_message by blast
  qed
  then show ?thesis using r sent(1) by (auto simp: list_all_iff)
qed

definition sample_sockets :: "u8 \<Rightarrow> io_error + raw_message list" where
  "sample_sockets family =
    (if family = AF_INET then
       Ok [diag_message 20 0 1 ([2, 1] @ replicate 62 0 @ [0x8B, 0x27, 0, 0] @ replicate 4 0),
           diag_message 20 0 1 ([2, 10] @ replicate 62 0 @ [0x8B, 0x27, 0, 0] @ replicate 4 0)]
     else Err (Os 2))"

text \<open>Two sockets of user 10123, one of them a listener: the listener stays.\<close>

theorem resets_only_live_sockets_witness:
  "\<exists>sent. destroy_tcp_for_uids sample_sockets (Ok ()) (\<lambda>_. Ok ()) [10123] =
       (sent, Done \<lparr>destroyed = 1, already_gone = 0\<rparr>) \<and> length sent = 1 \<and> dumps_usable sample_sockets"
proof -
  let ?run = "destroy_tcp_for_uids sample_sockets (Ok ()) (\<lambda>_. Ok ()) [10123]"
  have out: "snd ?run = Done \<lparr>destroyed = 1, already_gone = 0\<rparr>" "fst ?run \<noteq> []" by code_simp+
  then have "?run = (fst ?run, Done \<lparr>destroyed = 1, already_gone = 0\<rparr>)" by (metis prod.collapse)
  from resets_only_live_sockets [OF this] show ?thesis
    using \<open>?run = _\<close> out(2) by (auto simp: report_total_def)
qed

section \<open>Dumps are bounded\<close>

text \<open>The loop answers within 65 rounds, and what it returns is a complete dump.\<close>

lemma dump_loop_bounded: "evs \<noteq> [] \<Longrightarrow> 64 < n + length evs \<Longrightarrow> dump_loop n items evs \<noteq> None"
proof (induction evs arbitrary: n items)
  case (Cons ev evs)
  then have "dump_loop (n + 1) items' evs \<noteq> None" if "n < 64" for items'
    using that by (intro Cons.IH) auto
  then show ?case by (auto simp: FIND_INODE_DATAGRAMS_def split: sum.split dump_feed.split)
qed simp

lemma dump_loop_complete:
  "dump_loop n items evs = Some (Ok d) \<Longrightarrow> \<exists>bs. dump_batches items (map Inr bs) = Some (Ok d)"
proof (induction evs arbitrary: n items)
  case (Cons ev evs)
  consider "dump_loop (n + 1) items evs = Some (Ok d)"
    | ms items' where "feed_dump items ms False = Ok (NeedMore items')" "dump_loop (n + 1) items' evs = Some (Ok d)"
    | ms where "feed_dump items ms False = Ok (Complete d)"
    using Cons.prems by (auto split: sum.split_asm dump_feed.split_asm if_split_asm)
  then show ?case
  proof cases
    case 1
    then show ?thesis by (rule Cons.IH)
  next
    case (2 ms items')
    then obtain bs where "dump_batches items' (map Inr bs) = Some (Ok d)" using Cons.IH by blast
    then show ?thesis using 2(1) by (auto intro!: exI [of _ "ms # bs"])
  next
    case (3 ms)
    then show ?thesis by (auto intro!: exI [of _ "[ms]"])
  qed
qed simp

end
