(* ===== verification/Supervisor.thy ===== *)
theory Supervisor
  imports Sock_Diag
begin

text \<open>
  The process supervisor, crates/fluxd/src/supervisor.rs. Every function that makes system calls takes
  the trace of calls still to come, each with its arguments and the kernel's answer, and returns its
  result with the rest of the trace; \<open>None\<close> means that the trace does not start with the calls this
  program makes. Signal masks and dispositions are one \<open>Setup\<close> call each, log lines are left out.
  Durations are nanoseconds.
\<close>

section \<open>Deciding what a reactor exit means\<close>

definition from_secs :: "nat \<Rightarrow> nat" where
  "from_secs s = s * 1000000000"

definition LOCK_HELD_EXIT_CODE :: u8 where "LOCK_HELD_EXIT_CODE = 3"
definition BACKOFF_STEPS :: "nat list" where "BACKOFF_STEPS = [1, 2, 4, 8, 30]"
definition BACKOFF_RESET_AFTER :: nat where "BACKOFF_RESET_AFTER = from_secs 60"
definition STOP_GRACE :: nat where "STOP_GRACE = from_secs 10"

datatype reactor_outcome = Exited u8 | Signaled int

fun conservative_exit_code :: "reactor_outcome \<Rightarrow> u8" where
  "conservative_exit_code (Exited code) = code"
| "conservative_exit_code (Signaled _) = 1"

datatype decision = Exit u8 | DoNotRestart u8 | Restart nat nat

definition decide_reactor_outcome :: "reactor_outcome \<Rightarrow> bool \<Rightarrow> nat \<Rightarrow> nat \<Rightarrow> decision" where
  "decide_reactor_outcome outcome stopping ran_for crash_count =
    (if stopping then DoNotRestart (conservative_exit_code outcome)
     else if outcome = Exited 0 then Exit 0
     else if outcome = Exited LOCK_HELD_EXIT_CODE then DoNotRestart LOCK_HELD_EXIT_CODE
     else
       (let crash_count = (if ran_for \<ge> BACKOFF_RESET_AFTER then 0 else crash_count);
            step = BACKOFF_STEPS ! min crash_count (length BACKOFF_STEPS - 1)
        in Restart (from_secs step) (min (crash_count + 1) (2 ^ 64 - 1))))"

definition decode_wait_status :: "u32 \<Rightarrow> io_error + reactor_outcome" where
  "decode_wait_status status =
    (if status AND 0x7F = 0 then Ok (Exited (ucast (drop_bit 8 status AND 0xFF)))
     else if status AND 0x7F \<noteq> 0x7F then Ok (Signaled (uint (status AND 0x7F)))
     else Err (Io_Other (''reactor produced unsupported wait status 0x'' @ hex (unat status))))"

section \<open>System calls\<close>

definition SIGHUP :: int where "SIGHUP = 1"
definition SIGINT :: int where "SIGINT = 2"
definition SIGKILL :: int where "SIGKILL = 9"
definition SIGTERM :: int where "SIGTERM = 15"
definition SIGCHLD :: int where "SIGCHLD = 17"
definition EINTR :: int where "EINTR = 4"
definition EAGAIN :: int where "EAGAIN = 11"

datatype call =
    Setup "io_error + unit"
  | Spawn "io_error + int"
  | Sigtimedwait bool "io_error + int"
  | Past bool
  | Deadline nat bool
  | Waitpid int bool "io_error + int \<times> u32"
  | Kill int int "io_error + unit"
  | Elapsed nat

type_synonym 'a traced = "call list \<Rightarrow> ('a \<times> call list) option"

fun wait_signal :: "(io_error + int) traced" where
  "wait_signal (Sigtimedwait False (Inr signal) # cs) = Some (Ok signal, cs)"
| "wait_signal (Sigtimedwait False (Inl e) # cs) =
    (if raw_os_error e = Some EINTR then wait_signal cs else Some (Err e, cs))"
| "wait_signal _ = None"

text \<open>\<open>Past\<close> is the test whether the deadline has passed.\<close>

fun wait_signal_until :: "(io_error + int option) traced" where
  "wait_signal_until (Past True # cs) = Some (Ok None, cs)"
| "wait_signal_until (Past False # Sigtimedwait True (Inr signal) # cs) = Some (Ok (Some signal), cs)"
| "wait_signal_until (Past False # Sigtimedwait True (Inl e) # cs) =
    (if raw_os_error e = Some EAGAIN then Some (Ok None, cs)
     else if raw_os_error e = Some EINTR then wait_signal_until cs
     else Some (Err e, cs))"
| "wait_signal_until _ = None"

definition unexpected_pid :: "int \<Rightarrow> int \<Rightarrow> io_error" where
  "unexpected_pid result pid =
    Io_Other (''waitpid returned unexpected pid '' @ dec (nat result) @ '' for reactor '' @ dec (nat pid))"

fun try_reap :: "int \<Rightarrow> (io_error + u32 option) traced" where
  "try_reap pid (Waitpid p True (Inr (result, status)) # cs) =
    (if p \<noteq> pid then None
     else if result = pid then Some (Ok (Some status), cs)
     else if result = 0 then Some (Ok None, cs)
     else Some (Err (unexpected_pid result pid), cs))"
| "try_reap pid (Waitpid p True (Inl e) # cs) =
    (if p \<noteq> pid then None
     else if raw_os_error e = Some EINTR then try_reap pid cs
     else Some (Err e, cs))"
| "try_reap pid _ = None"

fun reap_blocking :: "int \<Rightarrow> (io_error + u32) traced" where
  "reap_blocking pid (Waitpid p False (Inr (result, status)) # cs) =
    (if p \<noteq> pid then None
     else if result = pid then Some (Ok status, cs)
     else Some (Err (unexpected_pid result pid), cs))"
| "reap_blocking pid (Waitpid p False (Inl e) # cs) =
    (if p \<noteq> pid then None
     else if raw_os_error e = Some EINTR then reap_blocking pid cs
     else Some (Err e, cs))"
| "reap_blocking pid _ = None"

fun send_signal :: "int \<Rightarrow> int \<Rightarrow> (io_error + unit) traced" where
  "send_signal pid signal (Kill p s r # cs) = (if p = pid \<and> s = signal then Some (r, cs) else None)"
| "send_signal pid signal _ = None"

section \<open>Waiting for the reactor\<close>

definition kill_and_reap :: "int \<Rightarrow> (io_error + reactor_outcome) traced" where
  "kill_and_reap pid cs =
    (case send_signal pid SIGKILL cs of
       None \<Rightarrow> None
     | Some (r, cs) \<Rightarrow>
         (case r of
            Inl e \<Rightarrow> if raw_os_error e = Some ESRCH
              then map_option (\<lambda>(s, cs). (and_then s decode_wait_status, cs)) (reap_blocking pid cs)
              else Some (Err e, cs)
          | Inr _ \<Rightarrow> map_option (\<lambda>(s, cs). (and_then s decode_wait_status, cs)) (reap_blocking pid cs)))"

definition force_stop :: "int \<Rightarrow> (io_error + reactor_outcome) traced" where
  "force_stop pid cs =
    (case try_reap pid cs of
       None \<Rightarrow> None
     | Some (Inl e, cs) \<Rightarrow> Some (Err e, cs)
     | Some (Inr (Some status), cs) \<Rightarrow> Some (decode_wait_status status, cs)
     | Some (Inr None, cs) \<Rightarrow> kill_and_reap pid cs)"

definition stopped :: "(io_error + reactor_outcome) \<times> call list \<Rightarrow> (io_error + reactor_outcome \<times> bool) \<times> call list" where
  "stopped r = (and_then (fst r) (\<lambda>outcome. Ok (outcome, True)), snd r)"

text \<open>The signal of one iteration; with an armed stop deadline the wait may end without one.\<close>

definition next_signal :: "bool \<Rightarrow> (io_error + int option) traced" where
  "next_signal armed cs =
    (if armed then wait_signal_until cs
     else map_option (\<lambda>(r, cs). (and_then r (\<lambda>s. Ok (Some s)), cs)) (wait_signal cs))"

text \<open>
  What a function consumes of its trace: calls that start nothing, and, where its result says that no
  stop was requested, no stop signal among them.
\<close>

fun is_spawn :: "call \<Rightarrow> bool" where
  "is_spawn (Spawn _) = True"
| "is_spawn _ = False"

fun is_stop :: "call \<Rightarrow> bool" where
  "is_stop (Sigtimedwait _ (Inr signal)) = (signal = SIGTERM \<or> signal = SIGINT)"
| "is_stop _ = False"

definition consumes :: "(call \<Rightarrow> bool) \<Rightarrow> call list \<Rightarrow> call list \<Rightarrow> bool" where
  "consumes P cs cs' \<longleftrightarrow> (\<exists>used. cs = used @ cs' \<and> used \<noteq> [] \<and> list_all P used)"

abbreviation quiet :: "call \<Rightarrow> bool" where
  "quiet c \<equiv> \<not> is_spawn c"

abbreviation calm :: "call \<Rightarrow> bool" where
  "calm c \<equiv> \<not> is_spawn c \<and> \<not> is_stop c"

named_theorems consumption \<open>what the traced functions consume\<close>

lemma consumes_Cons [simp]: "consumes P (c # cs) cs' \<longleftrightarrow> P c \<and> (cs = cs' \<or> consumes P cs cs')"
proof
  assume "consumes P (c # cs) cs'"
  then obtain used where u: "c # cs = used @ cs'" "used \<noteq> []" "list_all P used" by (auto simp: consumes_def)
  then obtain rest where "used = c # rest" "cs = rest @ cs'" by (cases used) auto
  then show "P c \<and> (cs = cs' \<or> consumes P cs cs')" using u(3) by (auto simp: consumes_def)
qed (auto simp: consumes_def intro: exI [of _ "c # _"] exI [of _ "[c]"])

lemma consumes_trans: "consumes P cs cs' \<Longrightarrow> consumes P cs' cs'' \<Longrightarrow> consumes P cs cs''"
  unfolding consumes_def by (metis append.assoc append_is_Nil_conv list_all_append)

lemma consumes_calm: "consumes calm cs cs' \<Longrightarrow> consumes quiet cs cs'"
  unfolding consumes_def by (auto simp: list_all_iff)

lemma consumes_shorter: "consumes P cs cs' \<Longrightarrow> length cs' < length cs"
  by (auto simp: consumes_def)

lemma wait_signal_consumes [consumption]:
  "wait_signal cs = Some (r, cs') \<Longrightarrow>
   consumes quiet cs cs' \<and> (r \<noteq> Ok SIGTERM \<longrightarrow> r \<noteq> Ok SIGINT \<longrightarrow> consumes calm cs cs')"
  by (induction cs rule: wait_signal.induct) (auto split: if_split_asm)

lemma wait_signal_until_consumes [consumption]:
  "wait_signal_until cs = Some (r, cs') \<Longrightarrow>
   consumes quiet cs cs' \<and> (r \<noteq> Ok (Some SIGTERM) \<longrightarrow> r \<noteq> Ok (Some SIGINT) \<longrightarrow> consumes calm cs cs')"
  by (induction cs rule: wait_signal_until.induct) (auto split: if_split_asm)

lemma next_signal_consumes [consumption]:
  "next_signal armed cs = Some (r, cs') \<Longrightarrow>
   consumes quiet cs cs' \<and> (r \<noteq> Ok (Some SIGTERM) \<longrightarrow> r \<noteq> Ok (Some SIGINT) \<longrightarrow> consumes calm cs cs')"
proof (cases armed)
  case False
  assume "next_signal armed cs = Some (r, cs')"
  then obtain w where "wait_signal cs = Some (w, cs')" "r = and_then w (\<lambda>s. Ok (Some s))"
    using False by (auto simp: next_signal_def)
  then show ?thesis using wait_signal_consumes [of cs w cs'] by (cases w) auto
qed (use wait_signal_until_consumes in \<open>simp add: next_signal_def\<close>)

lemma try_reap_consumes [consumption]: "try_reap pid cs = Some (r, cs') \<Longrightarrow> consumes calm cs cs'"
  by (induction pid cs rule: try_reap.induct) (auto split: if_split_asm)

lemma reap_blocking_consumes [consumption]: "reap_blocking pid cs = Some (r, cs') \<Longrightarrow> consumes calm cs cs'"
  by (induction pid cs rule: reap_blocking.induct) (auto split: if_split_asm)

lemma send_signal_consumes [consumption]: "send_signal pid signal cs = Some (r, cs') \<Longrightarrow> consumes calm cs cs'"
  by (induction pid signal cs rule: send_signal.induct) (auto split: if_split_asm)

lemma kill_and_reap_consumes [consumption]: "kill_and_reap pid cs = Some (r, cs') \<Longrightarrow> consumes calm cs cs'"
  by (auto simp: kill_and_reap_def dest!: consumption split: option.split_asm sum.split_asm if_split_asm
      intro: consumes_trans)

lemma force_stop_consumes [consumption]: "force_stop pid cs = Some (r, cs') \<Longrightarrow> consumes calm cs cs'"
  by (auto simp: force_stop_def dest!: consumption split: option.split_asm sum.split_asm
      intro: consumes_trans)

function wait_for_reactor :: "int \<Rightarrow> bool \<Rightarrow> bool \<Rightarrow> (io_error + reactor_outcome \<times> bool) traced" where
  "wait_for_reactor pid stopping armed cs =
    (case next_signal armed cs of
       None \<Rightarrow> None
     | Some (Inl e, cs') \<Rightarrow> Some (Err e, cs')
     | Some (Inr None, cs') \<Rightarrow> map_option stopped (force_stop pid cs')
     | Some (Inr (Some signal), cs') \<Rightarrow>
         if signal = SIGCHLD then
           (case try_reap pid cs' of
              None \<Rightarrow> None
            | Some (Inl e, cs'') \<Rightarrow> Some (Err e, cs'')
            | Some (Inr (Some status), cs'') \<Rightarrow>
                Some (and_then (decode_wait_status status) (\<lambda>outcome. Ok (outcome, stopping)), cs'')
            | Some (Inr None, cs'') \<Rightarrow> wait_for_reactor pid stopping armed cs'')
         else if signal = SIGTERM \<or> signal = SIGINT then
           (case send_signal pid signal cs' of
              None \<Rightarrow> None
            | Some (_, cs'') \<Rightarrow>
                if stopping then wait_for_reactor pid stopping armed cs''
                else
                  (case cs'' of
                     Deadline d ok # cs3 \<Rightarrow>
                       if d \<noteq> STOP_GRACE then None
                       else if ok then wait_for_reactor pid True True cs3
                       else map_option stopped (force_stop pid cs3)
                   | _ \<Rightarrow> None))
         else if signal = SIGHUP then
           (case send_signal pid SIGHUP cs' of
              None \<Rightarrow> None
            | Some (_, cs'') \<Rightarrow> wait_for_reactor pid stopping armed cs'')
         else wait_for_reactor pid stopping armed cs')"
  by pat_completeness auto
termination
  by (relation "measure (\<lambda>(pid, stopping, armed, cs). length cs)")
    (auto dest!: next_signal_consumes try_reap_consumes send_signal_consumes consumes_shorter)

declare wait_for_reactor.simps [simp del]

section \<open>Backoff\<close>

datatype backoff_action = Back_Restart | Back_Stop

function backoff_loop :: "(io_error + backoff_action) traced" where
  "backoff_loop cs =
    (case wait_signal_until cs of
       None \<Rightarrow> None
     | Some (Inl e, cs') \<Rightarrow> Some (Err e, cs')
     | Some (Inr None, cs') \<Rightarrow> Some (Ok Back_Restart, cs')
     | Some (Inr (Some signal), cs') \<Rightarrow>
         if signal = SIGTERM \<or> signal = SIGINT then Some (Ok Back_Stop, cs') else backoff_loop cs')"
  by pat_completeness auto
termination
  by (relation "measure length") (auto dest!: wait_signal_until_consumes consumes_shorter)

declare backoff_loop.simps [simp del]

fun wait_backoff :: "nat \<Rightarrow> (io_error + backoff_action) traced" where
  "wait_backoff delay (Deadline d ok # cs) =
    (if d \<noteq> delay then None
     else if ok then backoff_loop cs
     else Some (Err (Io_Other ''cannot represent reactor backoff deadline''), cs))"
| "wait_backoff delay _ = None"

lemma backoff_loop_consumes [consumption]:
  "backoff_loop cs = Some (r, cs') \<Longrightarrow> consumes quiet cs cs' \<and> (r = Ok Back_Restart \<longrightarrow> consumes calm cs cs')"
proof (induction cs rule: backoff_loop.induct)
  case (1 cs)
  obtain w cs1 where w: "wait_signal_until cs = Some (w, cs1)"
    using 1(2) by (auto simp: backoff_loop.simps [of cs] split: option.split_asm)
  note c = wait_signal_until_consumes [OF w]
  show ?case
  proof (cases "\<exists>signal. w = Ok (Some signal) \<and> signal \<noteq> SIGTERM \<and> signal \<noteq> SIGINT")
    case True
    then obtain signal where sig: "w = Ok (Some signal)" "signal \<noteq> SIGTERM" "signal \<noteq> SIGINT" by blast
    then have "backoff_loop cs1 = Some (r, cs')" using 1(2) w by (simp add: backoff_loop.simps [of cs])
    then show ?thesis using 1(1) w sig c by (auto intro: consumes_trans)
  next
    case False
    then have "cs' = cs1" "r = Ok Back_Restart \<longrightarrow> w = Ok None"
      using 1(2) w by (auto simp: backoff_loop.simps [of cs] split: sum.split_asm option.split_asm)
    then show ?thesis using c by auto
  qed
qed

lemma wait_backoff_consumes [consumption]:
  "wait_backoff delay cs = Some (r, cs') \<Longrightarrow> consumes quiet cs cs' \<and> (r = Ok Back_Restart \<longrightarrow> consumes calm cs cs')"
  by (induction delay cs rule: wait_backoff.induct)
    (auto dest!: backoff_loop_consumes split: if_split_asm)

lemma stopped_force:
  assumes "map_option stopped (force_stop pid cs) = Some (r, cs')"
  shows "consumes calm cs cs'" and "r \<noteq> Ok (outcome, False)"
proof -
  obtain q where q: "force_stop pid cs = Some (q, cs')" "r = and_then q (\<lambda>outcome. Ok (outcome, True))"
    using assms by (auto simp: stopped_def)
  show "consumes calm cs cs'" by (rule force_stop_consumes) (rule q(1))
  show "r \<noteq> Ok (outcome, False)" using q(2) by (auto simp: and_then_eq_Ok)
qed

text \<open>How one iteration of the wait ends: in the next iteration or with a result.\<close>

lemma wait_iteration:
  assumes "wait_for_reactor pid stopping armed cs = Some (r, cs')"
  obtains (continues) stopping' armed' cs1 where "wait_for_reactor pid stopping' armed' cs1 = Some (r, cs')"
      "length cs1 < length cs" "consumes quiet cs cs1" "stopping \<longrightarrow> stopping'" "stopping' \<or> consumes calm cs cs1"
    | (ends) "consumes quiet cs cs'" "\<forall>outcome. r = Ok (outcome, False) \<longrightarrow> \<not> stopping \<and> consumes calm cs cs'"
proof -
  obtain w cs1 where w: "next_signal armed cs = Some (w, cs1)"
    using assms by (auto simp: wait_for_reactor.simps [of pid stopping armed cs] split: option.split_asm)
  note c = next_signal_consumes [OF w]
  consider (none) "w = Ok None" "map_option stopped (force_stop pid cs1) = Some (r, cs')"
    | (err) e where "w = Err e" "r = Err e" "cs' = cs1"
    | (child) q cs2 where "w = Ok (Some SIGCHLD)" "try_reap pid cs1 = Some (q, cs2)"
        "q = Ok None \<and> wait_for_reactor pid stopping armed cs2 = Some (r, cs')
         \<or> cs' = cs2 \<and> (\<forall>outcome. r = Ok (outcome, False) \<longrightarrow> \<not> stopping)"
    | (stop) signal q cs2 where "w = Ok (Some signal)" "send_signal pid signal cs1 = Some (q, cs2)"
        "stopping \<and> wait_for_reactor pid True armed cs2 = Some (r, cs')
         \<or> (\<exists>ok cs3. cs2 = Deadline STOP_GRACE ok # cs3 \<and>
              (wait_for_reactor pid True True cs3 = Some (r, cs')
               \<or> map_option stopped (force_stop pid cs3) = Some (r, cs')))"
    | (hup) q cs2 where "w = Ok (Some SIGHUP)" "send_signal pid SIGHUP cs1 = Some (q, cs2)"
        "wait_for_reactor pid stopping armed cs2 = Some (r, cs')"
    | (other) signal where "w = Ok (Some signal)" "signal \<noteq> SIGTERM" "signal \<noteq> SIGINT"
        "wait_for_reactor pid stopping armed cs1 = Some (r, cs')"
    using assms w
    by (auto simp: wait_for_reactor.simps [of pid stopping armed cs] and_then_def
        split: option.split_asm sum.split_asm if_split_asm list.split_asm call.split_asm)
  then show thesis
  proof cases
    case none
    then show thesis using c stopped_force [OF none(2)] by (intro ends) (auto intro: consumes_trans consumes_calm)
  next
    case err
    then show thesis using c by (intro ends) auto
  next
    case child
    have "consumes calm cs cs1" using c child(1) by (simp add: SIGCHLD_def SIGTERM_def SIGINT_def)
    then have cs2: "consumes calm cs cs2" using try_reap_consumes [OF child(2)] by (rule consumes_trans)
    from child(3) show thesis
    proof
      assume "q = Ok None \<and> wait_for_reactor pid stopping armed cs2 = Some (r, cs')"
      then show thesis using cs2 consumes_calm [OF cs2] consumes_shorter [OF cs2] by (intro continues) auto
    next
      assume "cs' = cs2 \<and> (\<forall>outcome. r = Ok (outcome, False) \<longrightarrow> \<not> stopping)"
      then show thesis using cs2 consumes_calm [OF cs2] by (intro ends) auto
    qed
  next
    case stop
    have cs2: "consumes quiet cs cs2"
      using c consumes_calm [OF send_signal_consumes [OF stop(2)]] by (blast intro: consumes_trans)
    from stop(3) show thesis
    proof (elim disjE exE conjE)
      assume "stopping" "wait_for_reactor pid True armed cs2 = Some (r, cs')"
      then show thesis using cs2 consumes_shorter [OF cs2] by (intro continues) auto
    next
      fix ok cs3
      assume d: "cs2 = Deadline STOP_GRACE ok # cs3"
      then have cs3: "consumes quiet cs cs3" using consumes_trans [OF cs2, of cs3] by simp
      { assume "wait_for_reactor pid True True cs3 = Some (r, cs')"
        then show thesis using cs3 consumes_shorter [OF cs3] by (intro continues) auto }
      { assume "map_option stopped (force_stop pid cs3) = Some (r, cs')"
        from stopped_force [OF this] show thesis
          using consumes_trans [OF cs3 consumes_calm] by (intro ends) auto }
    qed
  next
    case hup
    have "consumes calm cs cs1" using c hup(1) by (simp add: SIGHUP_def SIGTERM_def SIGINT_def)
    then have cs2: "consumes calm cs cs2" using send_signal_consumes [OF hup(2)] by (rule consumes_trans)
    then show thesis using hup(3) consumes_calm [OF cs2] consumes_shorter [OF cs2] by (intro continues) auto
  next
    case other
    then have "consumes calm cs cs1" using c by simp
    then show thesis using other(4) c consumes_shorter by (intro continues) auto
  qed
qed

lemma wait_for_reactor_consumes [consumption]:
  "wait_for_reactor pid stopping armed cs = Some (r, cs') \<Longrightarrow>
   consumes quiet cs cs' \<and> (\<forall>outcome. r = Ok (outcome, False) \<longrightarrow> \<not> stopping \<and> consumes calm cs cs')"
proof (induction "length cs" arbitrary: cs stopping armed rule: less_induct)
  case less
  from less.prems show ?case
  proof (cases rule: wait_iteration)
    case (continues stopping' armed' cs1)
    note IH = less.hyps [OF continues(2,1)]
    show ?thesis using continues IH by (blast intro: consumes_trans)
  qed blast
qed

section \<open>The supervision loop\<close>

function supervise :: "nat \<Rightarrow> u8 traced" where
  "supervise crash_count cs =
    (case cs of
       Spawn (Inl e) # cs1 \<Rightarrow>
         (case decide_reactor_outcome (Exited 1) False 0 crash_count of
            Restart after next_crash_count \<Rightarrow>
              (case wait_backoff after cs1 of
                 None \<Rightarrow> None
               | Some (Inr Back_Restart, cs2) \<Rightarrow> supervise next_crash_count cs2
               | Some (Inr Back_Stop, cs2) \<Rightarrow> Some (0, cs2)
               | Some (Inl e, cs2) \<Rightarrow> Some (1, cs2))
          | _ \<Rightarrow> Some (1, cs1))
     | Spawn (Inr pid) # cs1 \<Rightarrow>
         (case wait_for_reactor pid False False cs1 of
            None \<Rightarrow> None
          | Some (Inl e, cs2) \<Rightarrow> Some (1, cs2)
          | Some (Inr (outcome, stopping), cs2) \<Rightarrow>
              (case cs2 of
                 Elapsed ran_for # cs3 \<Rightarrow>
                   (case decide_reactor_outcome outcome stopping ran_for crash_count of
                      Exit code \<Rightarrow> Some (code, cs3)
                    | DoNotRestart code \<Rightarrow> Some (code, cs3)
                    | Restart after next_crash_count \<Rightarrow>
                        (case wait_backoff after cs3 of
                           None \<Rightarrow> None
                         | Some (Inr Back_Restart, cs4) \<Rightarrow> supervise next_crash_count cs4
                         | Some (Inr Back_Stop, cs4) \<Rightarrow> Some (0, cs4)
                         | Some (Inl e, cs4) \<Rightarrow> Some (1, cs4)))
               | _ \<Rightarrow> None))
     | _ \<Rightarrow> None)"
  by pat_completeness auto
termination
  by (relation "measure (\<lambda>(crash_count, cs). length cs)")
    (auto dest!: wait_backoff_consumes wait_for_reactor_consumes consumes_shorter)

declare supervise.simps [simp del]

text \<open>\<open>run\<close> blocks the signals and resets their dispositions first.\<close>

fun supervisor_run :: "u8 traced" where
  "supervisor_run (Setup (Inl e) # cs) = Some (1, cs)"
| "supervisor_run (Setup (Inr _) # Setup (Inl e) # cs) = Some (1, cs)"
| "supervisor_run (Setup (Inr _) # Setup (Inr _) # cs) = supervise 0 cs"
| "supervisor_run _ = None"

section \<open>No restart after a stop, no restart without a delay\<close>

fun silent_after_stop :: "call list \<Rightarrow> bool" where
  "silent_after_stop [] = True"
| "silent_after_stop (c # cs) = (if is_stop c then list_all quiet cs else silent_after_stop cs)"

text \<open>\<open>waited\<close>: a deadline of a second or more has been armed since the last start.\<close>

fun paced :: "bool \<Rightarrow> call list \<Rightarrow> bool" where
  "paced waited [] = True"
| "paced waited (Spawn r # cs) = (waited \<and> paced False cs)"
| "paced waited (Deadline d ok # cs) = paced (waited \<or> ok \<and> from_secs 1 \<le> d) cs"
| "paced waited (c # cs) = paced waited cs"

lemma silent_calm: "list_all calm u \<Longrightarrow> silent_after_stop (u @ v) = silent_after_stop v"
  by (induction u) auto

lemma silent_quiet: "list_all quiet u \<Longrightarrow> silent_after_stop u"
  by (induction u) auto

lemma paced_mono: "paced w cs \<Longrightarrow> paced True cs"
proof (induction w cs rule: paced.induct)
  case (3 waited d ok cs)
  then show ?case by (cases "waited \<or> ok \<and> from_secs 1 \<le> d") auto
qed auto

lemma paced_or: "paced w cs \<Longrightarrow> paced (w \<or> w') cs"
  using paced_mono [of w cs] by (cases w') auto

lemma paced_quiet: "list_all quiet u \<Longrightarrow> paced w v \<Longrightarrow> paced w (u @ v)"
proof (induction u arbitrary: w)
  case (Cons c u)
  then show ?case by (cases c) (auto intro: paced_or)
qed simp

definition spends :: "bool \<Rightarrow> call list \<Rightarrow> call list \<Rightarrow> bool" where
  "spends waited cs cs' \<longleftrightarrow> (\<exists>used. cs = used @ cs' \<and> silent_after_stop used \<and> paced waited used)"

lemma spends_quiet: "consumes quiet cs cs' \<Longrightarrow> spends w cs cs'"
  unfolding consumes_def spends_def by (metis append.right_neutral paced.simps(1) paced_quiet silent_quiet)

lemma spends_calm: "consumes calm cs cs' \<Longrightarrow> spends w cs' cs'' \<Longrightarrow> spends w cs cs''"
proof -
  assume "consumes calm cs cs'" "spends w cs' cs''"
  then obtain u v where "cs = u @ cs'" "list_all calm u" "cs' = v @ cs''" "silent_after_stop v" "paced w v"
    by (auto simp: consumes_def spends_def)
  then have "cs = (u @ v) @ cs''" "silent_after_stop (u @ v)" "paced w (u @ v)"
    using paced_quiet [of u w v] by (auto simp: silent_calm list_all_iff)
  then show ?thesis unfolding spends_def by blast
qed

lemma spends_Spawn: "spends False cs cs' \<Longrightarrow> spends True (Spawn r # cs) cs'"
  unfolding spends_def by (elim exE) (rule exI [of _ "Spawn r # _"], auto)

lemma restart_delay:
  assumes "decide_reactor_outcome outcome stopping ran_for n = Restart after m"
  shows "\<not> stopping \<and> from_secs 1 \<le> after"
proof -
  let ?i = "min (if BACKOFF_RESET_AFTER \<le> ran_for then 0 else n) (length BACKOFF_STEPS - 1)"
  have "after = from_secs (BACKOFF_STEPS ! ?i)" and s: "\<not> stopping"
    using assms by (auto simp: decide_reactor_outcome_def Let_def split: if_split_asm)
  moreover have "?i < 5" by (simp add: BACKOFF_STEPS_def)
  ultimately obtain i where i: "after = from_secs (BACKOFF_STEPS ! i)" "i < 5" by blast
  then have "1 \<le> BACKOFF_STEPS ! i" by (auto simp: BACKOFF_STEPS_def less_Suc_eq numeral_eq_Suc)
  then show ?thesis using i s by (simp add: from_secs_def)
qed

lemma spends_backoff:
  assumes "wait_backoff after cs = Some (Ok Back_Restart, cs')" and "from_secs 1 \<le> after" and "spends True cs' cs''"
  shows "spends False cs cs''"
proof -
  obtain cs1 where d: "cs = Deadline after True # cs1" "backoff_loop cs1 = Some (Ok Back_Restart, cs')"
    using assms(1) by (cases "(after, cs)" rule: wait_backoff.cases) (auto split: if_split_asm)
  have "spends True cs1 cs''" using backoff_loop_consumes [OF d(2)] assms(3) spends_calm by blast
  then show ?thesis using assms(2) unfolding spends_def d(1) by (elim exE) (rule exI [of _ "Deadline after True # _"], auto)
qed

text \<open>The part of the loop that follows a decision to restart.\<close>

lemma spends_restart:
  assumes "wait_backoff after cs = Some (q, cs')" and "from_secs 1 \<le> after"
    and "q = Ok Back_Restart \<and> spends True cs' rest \<or> rest = cs'"
  shows "spends False cs rest"
  using assms spends_backoff spends_quiet wait_backoff_consumes by blast

lemma supervise_spends: "supervise n cs = Some (code, rest) \<Longrightarrow> spends True cs rest"
proof (induction "length cs" arbitrary: n cs rule: less_induct)
  case less
  have IH: "spends True cs' rest" if "supervise m cs' = Some (code, rest)" "length cs' < length cs" for m cs'
    using less.hyps [OF that(2) that(1)] .
  obtain r cs1 where cs: "cs = Spawn r # cs1"
    using less.prems by (auto simp: supervise.simps [of n cs] split: list.split_asm call.split_asm)
  show ?case
  proof (cases r)
    case (Inl e)
    obtain after m where d: "decide_reactor_outcome (Exited 1) False 0 n = Restart after m"
      by (simp add: decide_reactor_outcome_def LOCK_HELD_EXIT_CODE_def Let_def)
    obtain q cs2 where q: "wait_backoff after cs1 = Some (q, cs2)"
      "q = Ok Back_Restart \<and> supervise m cs2 = Some (code, rest) \<or> rest = cs2"
      using less.prems Inl d
      by (auto simp: cs supervise.simps [of n "Spawn (Inl e) # cs1"]
          split: option.split_asm sum.split_asm backoff_action.split_asm)
    have "length cs2 < length cs" using wait_backoff_consumes [OF q(1)] consumes_shorter cs by fastforce
    then have "spends False cs1 rest" using spends_restart [OF q(1)] restart_delay [OF d] q(2) IH by blast
    then show ?thesis unfolding cs by (rule spends_Spawn)
  next
    case (Inr pid)
    obtain w cs2 where w: "wait_for_reactor pid False False cs1 = Some (w, cs2)"
      using less.prems Inr by (auto simp: cs supervise.simps [of n "Spawn (Inr pid) # cs1"] split: option.split_asm)
    note c = wait_for_reactor_consumes [OF w]
    consider "rest = cs2"
      | outcome stopping ran_for cs3 where "w = Ok (outcome, stopping)" "cs2 = Elapsed ran_for # cs3"
          "rest = cs3 \<or> (\<exists>after m q cs4. decide_reactor_outcome outcome stopping ran_for n = Restart after m
             \<and> wait_backoff after cs3 = Some (q, cs4)
             \<and> (q = Ok Back_Restart \<and> supervise m cs4 = Some (code, rest) \<or> rest = cs4))"
      using less.prems Inr w
      by (auto simp: cs supervise.simps [of n "Spawn (Inr pid) # cs1"]
          split: option.split_asm sum.split_asm list.split_asm call.split_asm decision.split_asm backoff_action.split_asm)
    then have "spends False cs1 rest"
    proof cases
      case 1
      then show ?thesis using c spends_quiet by blast
    next
      case 2
      have cs3: "consumes quiet cs1 cs3" using c 2(2) consumes_trans [of quiet cs1 cs2 cs3] by simp
      from 2(3) show ?thesis
      proof (elim disjE exE conjE)
        assume "rest = cs3"
        then show ?thesis using cs3 spends_quiet by blast
      next
        fix after m q cs4
        assume d: "decide_reactor_outcome outcome stopping ran_for n = Restart after m"
          and q: "wait_backoff after cs3 = Some (q, cs4)"
        have calm3: "consumes calm cs1 cs3"
          using c 2(1,2) restart_delay [OF d] consumes_trans [of calm cs1 cs2 cs3] by simp
        have len: "length cs4 < length cs"
          using wait_backoff_consumes [OF q] consumes_shorter [of quiet cs3 cs4] consumes_shorter [OF cs3] cs by simp
        { assume "q = Ok Back_Restart" "supervise m cs4 = Some (code, rest)"
          then have "spends False cs3 rest" using spends_restart [OF q] restart_delay [OF d] IH len by blast
          then show ?thesis using calm3 spends_calm by blast }
        { assume "rest = cs4"
          then have "spends False cs3 rest" using spends_restart [OF q] restart_delay [OF d] by blast
          then show ?thesis using calm3 spends_calm by blast }
      qed
    qed
    then show ?thesis unfolding cs by (rule spends_Spawn)
  qed
qed

text \<open>
  C31: in every run of the supervisor, once a termination or interrupt signal has been received no
  reactor is started any more, and between two starts a backoff deadline of at least one second has
  been armed and has passed.
\<close>

theorem no_restart_after_stop:
  assumes "supervisor_run cs = Some (code, rest)"
  shows "\<exists>used. cs = used @ rest \<and> silent_after_stop used \<and> paced True used"
proof -
  consider "spends True cs rest" | a b cs' where "cs = Setup a # Setup b # cs'" "supervise 0 cs' = Some (code, rest)"
    using assms
    by (cases cs rule: supervisor_run.cases) (auto simp: spends_def intro: exI [of _ "[_]"] exI [of _ "[_, _]"])
  then show ?thesis
  proof cases
    case 2
    then obtain used where "cs' = used @ rest" "silent_after_stop used" "paced True used"
      using supervise_spends [of 0 cs'] by (auto simp: spends_def)
    then show ?thesis using 2(1) by (auto intro!: exI [of _ "Setup a # Setup b # used"])
  qed (simp add: spends_def)
qed

theorem no_restart_after_stop_witness:
  "\<exists>used. [Setup (Ok ()), Setup (Ok ()), Spawn (Ok 7), Sigtimedwait False (Ok 15), Kill 7 15 (Ok ()),
      Deadline STOP_GRACE True, Past False, Sigtimedwait True (Ok 17), Waitpid 7 True (Ok (7, 0)), Elapsed 5] = used @ []
     \<and> silent_after_stop used \<and> paced True used"
proof -
  have "supervisor_run [Setup (Ok ()), Setup (Ok ()), Spawn (Ok 7), Sigtimedwait False (Ok 15), Kill 7 15 (Ok ()),
      Deadline STOP_GRACE True, Past False, Sigtimedwait True (Ok 17), Waitpid 7 True (Ok (7, 0)), Elapsed 5] = Some (0, [])"
    by code_simp
  from no_restart_after_stop [OF this] show ?thesis .
qed

end
