(* ===== verification/Bpf_Object.thy ===== *)
theory Bpf_Object
  imports Std_Text BTree_Model
begin

text \<open>
  The strict ELF reader for the embedded BPF object, crates/fluxd/src/bpf/object.rs: the section and
  symbol tables, the ABI section, and the extraction of one program with its map relocations patched
  to file descriptors. Offsets and sizes are natural numbers; \<open>usize\<close> has 64 bits, so every
  \<open>u64\<close> fits. The map lookup is a function; a file descriptor is a signed 32-bit word.
\<close>

section \<open>Constants and data\<close>

definition ELF_HEADER_SIZE :: nat where "ELF_HEADER_SIZE = 64"
definition SECTION_HEADER_SIZE :: nat where "SECTION_HEADER_SIZE = 64"
definition SYMBOL_SIZE :: nat where "SYMBOL_SIZE = 24"
definition REL_SIZE :: nat where "REL_SIZE = 16"
definition BPF_INSN_SIZE :: nat where "BPF_INSN_SIZE = 8"
definition MAX_OBJECT_BYTES :: nat where "MAX_OBJECT_BYTES = 4 * 1024 * 1024"
definition MAX_SECTIONS :: nat where "MAX_SECTIONS = 256"
definition MAX_SYMBOLS :: nat where "MAX_SYMBOLS = 4096"
definition ET_REL :: u16 where "ET_REL = 1"
definition EM_BPF :: u16 where "EM_BPF = 247"
definition SHT_PROGBITS :: u32 where "SHT_PROGBITS = 1"
definition SHT_SYMTAB :: u32 where "SHT_SYMTAB = 2"
definition SHT_STRTAB :: u32 where "SHT_STRTAB = 3"
definition SHT_NOBITS :: u32 where "SHT_NOBITS = 8"
definition SHT_REL :: u32 where "SHT_REL = 9"
definition SHF_EXECINSTR :: u64 where "SHF_EXECINSTR = 4"
definition STB_GLOBAL :: u8 where "STB_GLOBAL = 1"
definition STT_OBJECT :: u8 where "STT_OBJECT = 1"
definition STT_FUNC :: u8 where "STT_FUNC = 2"
definition R_BPF_64_64 :: u32 where "R_BPF_64_64 = 1"
definition BPF_LD_IMM64 :: u8 where "BPF_LD_IMM64 = 0x18"
definition BPF_PSEUDO_MAP_FD :: u8 where "BPF_PSEUDO_MAP_FD = 1"
definition ABI_SECTION :: string where "ABI_SECTION = ''flux_abi''"

record elf_section =
  sec_name :: string
  sec_type :: u32
  sec_flags :: u64
  sec_offset :: nat
  sec_size :: nat
  sec_link :: nat
  sec_info :: nat
  sec_entsize :: nat

record elf_symbol =
  sym_name :: string
  sym_info :: u8
  sym_shndx :: nat
  sym_value :: nat
  sym_size :: nat

definition sym_binding :: "elf_symbol \<Rightarrow> u8" where
  "sym_binding s = drop_bit 4 (sym_info s)"

definition sym_type :: "elf_symbol \<Rightarrow> u8" where
  "sym_type s = sym_info s AND 0x0F"

record bpf_object =
  obj_bytes :: bytes
  obj_sections :: "elf_section list"
  obj_symbols :: "elf_symbol list"
  obj_symtab_index :: nat
  obj_abi_magic :: u32

record program_image =
  pi_instructions :: bytes
  pi_insn_count :: u32

section \<open>Bounded reads\<close>

definition range_check :: "nat \<Rightarrow> nat \<Rightarrow> nat \<Rightarrow> string \<Rightarrow> string + unit" where
  "range_check offset n len label =
    (if offset \<le> len \<and> n \<le> len - offset then Ok () else Err (label @ '' is out of bounds''))"

definition obj_slice :: "bytes \<Rightarrow> nat \<Rightarrow> nat \<Rightarrow> string \<Rightarrow> string + bytes" where
  "obj_slice bytes offset n label =
    and_then (range_check offset n (length bytes) label) (\<lambda>_. Ok (slice offset (offset + n) bytes))"

definition to_usize :: "u64 \<Rightarrow> string \<Rightarrow> string + nat" where
  "to_usize v label = (if unat v < 2 ^ 64 then Ok (unat v) else Err (label @ '' does not fit usize''))"

definition read_u16 :: "bytes \<Rightarrow> nat \<Rightarrow> string + u16" where
  "read_u16 bytes offset = and_then (obj_slice bytes offset 2 ''u16'') (\<lambda>b. Ok (from_le_bytes b))"

definition read_u32 :: "bytes \<Rightarrow> nat \<Rightarrow> string + u32" where
  "read_u32 bytes offset = and_then (obj_slice bytes offset 4 ''u32'') (\<lambda>b. Ok (from_le_bytes b))"

definition read_u64 :: "bytes \<Rightarrow> nat \<Rightarrow> string + u64" where
  "read_u64 bytes offset = and_then (obj_slice bytes offset 8 ''u64'') (\<lambda>b. Ok (from_le_bytes b))"

definition read_usize :: "bytes \<Rightarrow> nat \<Rightarrow> string \<Rightarrow> string + nat" where
  "read_usize bytes offset label = and_then (read_u64 bytes offset) (\<lambda>v. to_usize v label)"

definition elf_string :: "bytes \<Rightarrow> nat \<Rightarrow> string \<Rightarrow> string + string" where
  "elf_string bytes offset label =
    (if offset > length bytes then Err (label @ '' offset is out of bounds'')
     else
       (let tail = drop offset bytes
        in case position (\<lambda>b. b = 0) tail of
             None \<Rightarrow> Err (label @ '' is not NUL terminated'')
           | Some n \<Rightarrow> ok_or (label @ '' is not UTF-8'') (from_utf8 (take n tail))))"

definition section_payload :: "bytes \<Rightarrow> bytes \<Rightarrow> string \<Rightarrow> string + bytes" where
  "section_payload bytes header label =
    and_then (read_usize header 24 ''section payload offset'')
      (\<lambda>offset. and_then (read_usize header 32 ''section payload size'')
        (\<lambda>size. obj_slice bytes offset size label))"

definition unique_section :: "elf_section list \<Rightarrow> string \<Rightarrow> string + elf_section" where
  "unique_section sections name =
    (case filter (\<lambda>s. sec_name s = name) sections of
       [s] \<Rightarrow> Ok s
     | found \<Rightarrow> Err (''expected one `'' @ name @ ''` section, found '' @ dec (length found)))"

section \<open>The header and the tables\<close>

record elf_table =
  tab_shoff :: nat
  tab_shnum :: nat
  tab_shstrndx :: nat

definition parse_ident :: "bytes \<Rightarrow> string + unit" where
  "parse_ident bytes =
    (if bytes = [] then Err ''embedded BPF object is empty; rebuild with FLUX_BUILD_BPF=1''
     else if length bytes > MAX_OBJECT_BYTES then
       Err (''embedded BPF object exceeds '' @ dec MAX_OBJECT_BYTES @ '' bytes'')
     else if length bytes < ELF_HEADER_SIZE \<or> take 4 bytes \<noteq> [0x7F, 0x45, 0x4C, 0x46] then
       Err ''bad ELF magic or truncated ELF header''
     else if bytes ! 4 \<noteq> 2 then Err ''BPF object is not ELFCLASS64''
     else if bytes ! 5 \<noteq> 1 then Err ''BPF object is not ELFDATA2LSB''
     else if bytes ! 6 \<noteq> 1 then Err ''BPF object has an unsupported ELF version''
     else Ok ())"

definition parse_header :: "bytes \<Rightarrow> string + elf_table" where
  "parse_header bytes =
    and_then (read_u16 bytes 0x10)
      (\<lambda>ty. if ty \<noteq> ET_REL then Err ''BPF object is not ET_REL'' else
       and_then (read_u16 bytes 0x12)
      (\<lambda>machine. if machine \<noteq> EM_BPF then Err ''ELF e_machine is not EM_BPF'' else
       and_then (read_u32 bytes 0x14)
      (\<lambda>version. if version \<noteq> 1 then Err ''BPF object has an unsupported ELF header version'' else
       and_then (read_u16 bytes 0x34)
      (\<lambda>ehsize. if unat ehsize \<noteq> ELF_HEADER_SIZE then Err ''ELF header size is not 64'' else
       and_then (read_usize bytes 0x28 ''section table offset'')
      (\<lambda>shoff. and_then (read_u16 bytes 0x3A)
      (\<lambda>shentsize. and_then (read_u16 bytes 0x3C)
      (\<lambda>shnum. and_then (read_u16 bytes 0x3E)
      (\<lambda>shstrndx.
         if unat shentsize \<noteq> SECTION_HEADER_SIZE \<or> shnum = 0 \<or> unat shnum > MAX_SECTIONS then
           Err ''invalid ELF section table shape''
         else if shstrndx \<ge> shnum then Err ''section-name table index is out of range''
         else Ok \<lparr>tab_shoff = shoff, tab_shnum = unat shnum, tab_shstrndx = unat shstrndx\<rparr>))))))))"

text \<open>The closure \<open>raw_section\<close>; an index below 256 cannot overflow the multiplication.\<close>

definition raw_section :: "bytes \<Rightarrow> elf_table \<Rightarrow> nat \<Rightarrow> string + bytes" where
  "raw_section bytes tab index =
    (if tab_shoff tab + index * SECTION_HEADER_SIZE \<ge> 2 ^ 64 then Err ''section offset overflow''
     else obj_slice bytes (tab_shoff tab + index * SECTION_HEADER_SIZE) SECTION_HEADER_SIZE ''section header'')"

definition parse_section :: "bytes \<Rightarrow> elf_table \<Rightarrow> bytes \<Rightarrow> nat \<Rightarrow> string + elf_section" where
  "parse_section bytes tab names index =
    and_then (raw_section bytes tab index)
      (\<lambda>raw. and_then (read_u32 raw 0)
      (\<lambda>name_offset. and_then (elf_string names (unat name_offset) ''section name'')
      (\<lambda>name. and_then (read_u32 raw 4)
      (\<lambda>section_type. and_then (read_usize raw 24 ''section offset'')
      (\<lambda>offset. and_then (read_usize raw 32 ''section size'')
      (\<lambda>size. and_then
         (if section_type \<noteq> SHT_NOBITS
          then range_check offset size (length bytes) (''section `'' @ name @ ''`'') else Ok ())
      (\<lambda>_. and_then (read_u64 raw 8)
      (\<lambda>flags. and_then (read_u32 raw 40)
      (\<lambda>link. and_then (read_u32 raw 44)
      (\<lambda>info. and_then (read_usize raw 56 ''section entsize'')
      (\<lambda>entsize. Ok \<lparr>sec_name = name, sec_type = section_type, sec_flags = flags, sec_offset = offset,
         sec_size = size, sec_link = unat link, sec_info = unat info, sec_entsize = entsize\<rparr>)))))))))))"

definition parse_sections :: "bytes \<Rightarrow> elf_table \<Rightarrow> string + elf_section list" where
  "parse_sections bytes tab =
    and_then (range_check (tab_shoff tab) (tab_shnum tab * SECTION_HEADER_SIZE) (length bytes) ''section table'')
      (\<lambda>_. and_then (raw_section bytes tab (tab_shstrndx tab))
      (\<lambda>names_header. and_then (read_u32 names_header 4)
      (\<lambda>ty. if ty \<noteq> SHT_STRTAB then Err ''section-name table is not SHT_STRTAB'' else
       and_then (section_payload bytes names_header ''section-name table'')
      (\<lambda>names. try_collect (parse_section bytes tab names) [0..<tab_shnum tab]))))"

definition parse_symbol :: "bytes \<Rightarrow> bytes \<Rightarrow> nat \<Rightarrow> string + elf_symbol" where
  "parse_symbol strings symbol_bytes index =
    and_then (obj_slice symbol_bytes (index * SYMBOL_SIZE) SYMBOL_SIZE ''symbol entry'')
      (\<lambda>raw. and_then (read_u32 raw 0)
      (\<lambda>name_offset. and_then (elf_string strings (unat name_offset) ''symbol name'')
      (\<lambda>name. and_then (read_u16 raw 6)
      (\<lambda>shndx. and_then (read_usize raw 8 ''symbol value'')
      (\<lambda>v. and_then (read_usize raw 16 ''symbol size'')
      (\<lambda>size. Ok \<lparr>sym_name = name, sym_info = raw ! 4, sym_shndx = unat shndx, sym_value = v, sym_size = size\<rparr>))))))"

definition find_symtab :: "elf_section list \<Rightarrow> string + nat \<times> elf_section" where
  "find_symtab sections =
    (case filter (\<lambda>(_, s). sec_type s = SHT_SYMTAB) (enumerate 0 sections) of
       [(index, symtab)] \<Rightarrow> Ok (index, symtab)
     | symtabs \<Rightarrow> Err (''expected one SHT_SYMTAB, found '' @ dec (length symtabs)))"

definition parse_symbols :: "bytes \<Rightarrow> elf_section list \<Rightarrow> elf_section \<Rightarrow> string + elf_symbol list" where
  "parse_symbols bytes sections symtab =
    (if sec_entsize symtab \<noteq> SYMBOL_SIZE \<or> \<not> SYMBOL_SIZE dvd sec_size symtab then
       Err ''symbol table has an invalid entry size''
     else
       (let symbol_count = sec_size symtab div SYMBOL_SIZE
        in if symbol_count = 0 \<or> symbol_count > MAX_SYMBOLS \<or> sec_link symtab \<ge> length sections then
             Err ''symbol table shape or string-table link is invalid''
           else
             (let strings_section = sections ! sec_link symtab
              in if sec_type strings_section \<noteq> SHT_STRTAB then Err ''symbol names are not in SHT_STRTAB''
                 else
                   and_then (obj_slice bytes (sec_offset strings_section) (sec_size strings_section) ''symbol strings'')
                     (\<lambda>strings. and_then (obj_slice bytes (sec_offset symtab) (sec_size symtab) ''symbol table'')
                       (\<lambda>symbol_bytes. try_collect (parse_symbol strings symbol_bytes) [0..<symbol_count])))))"

definition parse_abi :: "bytes \<Rightarrow> elf_section list \<Rightarrow> string + u32" where
  "parse_abi bytes sections =
    and_then (unique_section sections ABI_SECTION)
      (\<lambda>abi. if sec_type abi \<noteq> SHT_PROGBITS \<or> sec_size abi \<noteq> 4 then
               Err ''flux_abi section must contain exactly one u32''
             else and_then (obj_slice bytes (sec_offset abi) (sec_size abi) ABI_SECTION) (\<lambda>b. read_u32 b 0))"

definition object_parse :: "bytes \<Rightarrow> string + bpf_object" where
  "object_parse bytes =
    and_then (parse_ident bytes)
      (\<lambda>_. and_then (parse_header bytes)
      (\<lambda>tab. and_then (parse_sections bytes tab)
      (\<lambda>sections. and_then (find_symtab sections)
      (\<lambda>(symtab_index, symtab). and_then (parse_symbols bytes sections symtab)
      (\<lambda>symbols. and_then (parse_abi bytes sections)
      (\<lambda>abi_magic. Ok \<lparr>obj_bytes = bytes, obj_sections = sections, obj_symbols = symbols,
         obj_symtab_index = symtab_index, obj_abi_magic = abi_magic\<rparr>))))))"

section \<open>Programs and relocations\<close>

text \<open>\<open>patch offset fd\<close>: the three stores into the relocated instruction pair.\<close>

definition patch :: "nat \<Rightarrow> 32 word \<Rightarrow> bytes \<Rightarrow> bytes" where
  "patch offset fd instructions =
    (let i1 = instructions[offset + 1 := (instructions ! (offset + 1) AND 0x0F) OR push_bit 4 BPF_PSEUDO_MAP_FD];
         i2 = take (offset + 4) i1 @ le_bytes 4 fd @ drop (offset + 8) i1
     in take (offset + 12) i2 @ replicate 4 0 @ drop (offset + 16) i2)"

definition apply_relocation ::
    "bpf_object \<Rightarrow> (string \<Rightarrow> 32 word option) \<Rightarrow> bytes \<Rightarrow> bytes \<times> nat btree_set \<Rightarrow> string + bytes \<times> nat btree_set" where
  "apply_relocation obj resolve_map relocation = (\<lambda>(instructions, patched).
    and_then (read_usize relocation 0 ''relocation offset'')
      (\<lambda>offset. and_then (read_u64 relocation 8)
      (\<lambda>info.
         let symbol_index = unat (drop_bit 32 info); relocation_type = (ucast info :: u32)
         in if relocation_type \<noteq> R_BPF_64_64 then
              Err (''unsupported BPF relocation type '' @ dec (unat relocation_type))
            else if symbol_index \<ge> length (obj_symbols obj) \<or> \<not> BPF_INSN_SIZE dvd offset \<or> set_contains patched offset
            then Err ''relocation symbol/offset is invalid or duplicated''
            else
              and_then (range_check offset (2 * BPF_INSN_SIZE) (length instructions) ''LD_IMM64 relocation'')
                (\<lambda>_. let symbol = obj_symbols obj ! symbol_index
                     in if sym_binding symbol \<noteq> STB_GLOBAL \<or> sym_type symbol \<noteq> STT_OBJECT
                           \<or> sym_shndx symbol \<ge> length (obj_sections obj)
                           \<or> sec_name (obj_sections obj ! sym_shndx symbol) \<noteq> ''.maps''
                        then Err (''relocation `'' @ sym_name symbol @ ''` is not a map symbol'')
                        else
                          and_then (ok_or (''map relocation `'' @ sym_name symbol @ ''` has no FD binding'')
                              (resolve_map (sym_name symbol)))
                            (\<lambda>fd. if sint fd < 0 then
                                     Err (''map relocation `'' @ sym_name symbol @ ''` has a negative FD'')
                                   else if instructions ! offset \<noteq> BPF_LD_IMM64
                                     \<or> slice (offset + BPF_INSN_SIZE) (offset + 2 * BPF_INSN_SIZE) instructions \<noteq> replicate 8 0
                                   then Err (''relocation `'' @ sym_name symbol @ ''` does not target LD_IMM64'')
                                   else Ok (patch offset fd instructions, set_insert offset patched))))))"

fun relocate ::
    "bpf_object \<Rightarrow> (string \<Rightarrow> 32 word option) \<Rightarrow> bytes \<Rightarrow> nat list \<Rightarrow> bytes \<times> nat btree_set \<Rightarrow> string + bytes" where
  "relocate obj resolve_map entries [] state = Ok (fst state)"
| "relocate obj resolve_map entries (index # rest) state =
    and_then (obj_slice entries (index * REL_SIZE) REL_SIZE ''relocation'')
      (\<lambda>relocation. and_then (apply_relocation obj resolve_map relocation state)
        (\<lambda>state'. relocate obj resolve_map entries rest state'))"

definition find_program_section :: "elf_section list \<Rightarrow> string \<Rightarrow> string + nat \<times> elf_section" where
  "find_program_section sections expected =
    and_then (ok_or (''program section `'' @ expected @ ''` is missing'')
        (find (\<lambda>(_, s). sec_name s = expected) (enumerate 0 sections)))
      (\<lambda>(index, s).
         if length (filter (\<lambda>s. sec_name s = expected) sections) \<noteq> 1 then
           Err (''program section `'' @ expected @ ''` is duplicated'')
         else if sec_type s \<noteq> SHT_PROGBITS \<or> sec_flags s AND SHF_EXECINSTR = 0 \<or> sec_size s = 0
           \<or> \<not> BPF_INSN_SIZE dvd sec_size s
         then Err (''program section `'' @ expected @ ''` has invalid flags/size'')
         else Ok (index, s))"

definition whole_section_function :: "bpf_object \<Rightarrow> string \<Rightarrow> nat \<Rightarrow> elf_section \<Rightarrow> string + unit" where
  "whole_section_function obj expected_name section_index s =
    (let functions = filter (\<lambda>x. sym_name x = expected_name \<and> sym_shndx x = section_index
           \<and> sym_binding x = STB_GLOBAL \<and> sym_type x = STT_FUNC) (obj_symbols obj)
     in if length functions \<noteq> 1 \<or> sym_value (functions ! 0) \<noteq> 0 \<or> sym_size (functions ! 0) \<noteq> sec_size s
        then Err (''program `'' @ expected_name @ ''` is not the single whole-section function'') else Ok ())"

definition find_relocations :: "bpf_object \<Rightarrow> string \<Rightarrow> nat \<Rightarrow> string + elf_section" where
  "find_relocations obj expected_name section_index =
    (let found = filter (\<lambda>s. sec_type s = SHT_REL \<and> sec_info s = section_index) (obj_sections obj)
     in if length found \<noteq> 1 then
          Err (''program `'' @ expected_name @ ''` needs exactly one SHT_REL section, found '' @ dec (length found))
        else if sec_link (found ! 0) \<noteq> obj_symtab_index obj \<or> sec_entsize (found ! 0) \<noteq> REL_SIZE
          \<or> \<not> REL_SIZE dvd sec_size (found ! 0)
        then Err (''relocations for `'' @ expected_name @ ''` have invalid metadata'')
        else Ok (found ! 0))"

definition object_program ::
    "bpf_object \<Rightarrow> string \<Rightarrow> string \<Rightarrow> (string \<Rightarrow> 32 word option) \<Rightarrow> string + program_image" where
  "object_program obj expected_name expected_section resolve_map =
    and_then (find_program_section (obj_sections obj) expected_section)
      (\<lambda>(section_index, s). and_then (whole_section_function obj expected_name section_index s)
      (\<lambda>_. and_then (obj_slice (obj_bytes obj) (sec_offset s) (sec_size s) expected_section)
      (\<lambda>instructions. and_then (find_relocations obj expected_name section_index)
      (\<lambda>relocations. and_then (obj_slice (obj_bytes obj) (sec_offset relocations) (sec_size relocations) ''program relocations'')
      (\<lambda>entries. and_then (relocate obj resolve_map entries [0..<length entries div REL_SIZE] (instructions, []))
      (\<lambda>instructions. if length instructions div BPF_INSN_SIZE \<ge> 2 ^ 32 then Err ''program instruction count exceeds u32''
         else Ok \<lparr>pi_instructions = instructions, pi_insn_count = of_nat (length instructions div BPF_INSN_SIZE)\<rparr>))))))"

section \<open>Everything read is in bounds\<close>

lemma range_check_Ok: "range_check offset n len label = Ok u \<longleftrightarrow> offset + n \<le> len"
  by (auto simp: range_check_def)

lemma obj_slice_Ok: "obj_slice b offset n label = Ok r \<longleftrightarrow> offset + n \<le> length b \<and> r = slice offset (offset + n) b"
  by (auto simp: obj_slice_def and_then_eq_Ok range_check_Ok)

lemma read_usize_Ok: "read_usize b offset label = Ok n \<longleftrightarrow>
  offset + 8 \<le> length b \<and> n = unat (from_le_bytes (slice offset (offset + 8) b) :: u64)"
  using unsigned_less [of "from_le_bytes (slice offset (offset + 8) b) :: u64"]
  by (auto simp: read_usize_def read_u64_def to_usize_def and_then_eq_Ok obj_slice_Ok)

lemma try_collect_list: "try_collect f xs = Ok ys \<Longrightarrow> length ys = length xs \<and> (\<forall>y\<in>set ys. \<exists>x\<in>set xs. f x = Ok y)"
  by (induction xs arbitrary: ys) (fastforce simp: and_then_eq_Ok)+

definition section_in_bounds :: "bytes \<Rightarrow> elf_section \<Rightarrow> bool" where
  "section_in_bounds b s \<longleftrightarrow> sec_type s = SHT_NOBITS \<or> sec_offset s + sec_size s \<le> length b"

definition object_wf :: "bpf_object \<Rightarrow> bool" where
  "object_wf obj \<longleftrightarrow>
    64 \<le> length (obj_bytes obj) \<and> length (obj_bytes obj) \<le> 4194304 \<and>
    obj_sections obj \<noteq> [] \<and> length (obj_sections obj) \<le> 256 \<and>
    list_all (section_in_bounds (obj_bytes obj)) (obj_sections obj) \<and>
    obj_symbols obj \<noteq> [] \<and> length (obj_symbols obj) \<le> 4096 \<and>
    obj_symtab_index obj < length (obj_sections obj) \<and>
    filter (\<lambda>i. sec_type (obj_sections obj ! i) = SHT_SYMTAB) [0..<length (obj_sections obj)] = [obj_symtab_index obj] \<and>
    (\<exists>abi. filter (\<lambda>s. sec_name s = ABI_SECTION) (obj_sections obj) = [abi] \<and> sec_size abi = 4 \<and>
       obj_abi_magic obj = from_le_bytes (slice (sec_offset abi) (sec_offset abi + 4) (obj_bytes obj)))"

lemma parse_sections_Ok:
  assumes "parse_header b = Ok tab" and "parse_sections b tab = Ok sections"
  shows "sections \<noteq> [] \<and> length sections \<le> 256 \<and> list_all (section_in_bounds b) sections"
proof -
  have n: "0 < tab_shnum tab" "tab_shnum tab \<le> 256"
    using assms(1) by (auto simp: parse_header_def and_then_eq_Ok MAX_SECTIONS_def unat_gt_0 split: if_split_asm)
  obtain names where c: "try_collect (parse_section b tab names) [0..<tab_shnum tab] = Ok sections"
    using assms(2) by (auto simp: parse_sections_def and_then_eq_Ok split: if_split_asm)
  have "section_in_bounds b s" if "parse_section b tab names i = Ok s" for i s
    using that by (auto simp: parse_section_def and_then_eq_Ok section_in_bounds_def range_check_Ok split: if_split_asm)
  then show ?thesis using try_collect_list [OF c] n by (auto simp: list_all_iff)
qed

lemma enumerate_nth: "enumerate 0 xs = map (\<lambda>i. (i, xs ! i)) [0..<length xs]"
  by (rule nth_equalityI) (simp_all add: nth_enumerate_eq)

lemma find_symtab_Ok:
  assumes "find_symtab sections = Ok (index, symtab)"
  shows "index < length sections \<and> symtab = sections ! index \<and> sec_type symtab = SHT_SYMTAB \<and>
    filter (\<lambda>i. sec_type (sections ! i) = SHT_SYMTAB) [0..<length sections] = [index]"
proof -
  have "filter (\<lambda>(_, s). sec_type s = SHT_SYMTAB) (enumerate 0 sections) = [(index, symtab)]"
    using assms by (auto simp: find_symtab_def split: list.split_asm prod.split_asm)
  then have m: "map (\<lambda>i. (i, sections ! i)) (filter (\<lambda>i. sec_type (sections ! i) = SHT_SYMTAB) [0..<length sections]) = [(index, symtab)]"
    by (simp add: enumerate_nth filter_map comp_def)
  then have f: "filter (\<lambda>i. sec_type (sections ! i) = SHT_SYMTAB) [0..<length sections] = [index]" "symtab = sections ! index"
    by auto
  have "index < length sections" "sec_type (sections ! index) = SHT_SYMTAB" using arg_cong [OF f(1), of set] by auto
  then show ?thesis using f by simp
qed

lemma parse_symbols_Ok:
  assumes "parse_symbols b sections symtab = Ok symbols"
  shows "symbols \<noteq> [] \<and> length symbols \<le> 4096"
proof -
  obtain strings symbol_bytes n where "try_collect (parse_symbol strings symbol_bytes) [0..<n] = Ok symbols" "n \<noteq> 0" "n \<le> 4096"
    using assms by (auto simp: parse_symbols_def Let_def and_then_eq_Ok MAX_SYMBOLS_def split: if_split_asm)
  then show ?thesis using try_collect_list by fastforce
qed

lemma parse_abi_Ok:
  assumes "parse_abi b sections = Ok magic"
  shows "\<exists>abi. filter (\<lambda>s. sec_name s = ABI_SECTION) sections = [abi] \<and> sec_size abi = 4 \<and>
    magic = from_le_bytes (slice (sec_offset abi) (sec_offset abi + 4) b)"
proof -
  obtain abi where a: "unique_section sections ABI_SECTION = Ok abi" "sec_size abi = 4"
    "magic = from_le_bytes (slice 0 4 (slice (sec_offset abi) (sec_offset abi + 4) b))"
    using assms by (auto simp: parse_abi_def and_then_eq_Ok read_u32_def obj_slice_Ok split: if_split_asm)
  moreover have "slice 0 4 (slice (sec_offset abi) (sec_offset abi + 4) b) = slice (sec_offset abi) (sec_offset abi + 4) b"
    by (simp add: slice_def)
  ultimately show ?thesis by (auto simp: unique_section_def split: list.split_asm)
qed

text \<open>
  C32: an accepted object is well formed: its size is within the limits, it has between one and 256
  sections, every section that occupies the file lies inside it, there is exactly one symbol table with
  between one and 4096 symbols, and exactly one ABI section, whose four bytes are the reported magic
  number.
\<close>

theorem parsed_object_is_in_bounds:
  assumes "object_parse b = Ok obj"
  shows "obj_bytes obj = b \<and> object_wf obj"
proof -
  obtain tab symtab where i: "parse_ident b = Ok ()" "parse_header b = Ok tab" "parse_sections b tab = Ok (obj_sections obj)"
    "find_symtab (obj_sections obj) = Ok (obj_symtab_index obj, symtab)"
    "parse_symbols b (obj_sections obj) symtab = Ok (obj_symbols obj)"
    "parse_abi b (obj_sections obj) = Ok (obj_abi_magic obj)" "obj_bytes obj = b"
    using assms by (auto simp: object_parse_def and_then_eq_Ok)
  have "64 \<le> length b" "length b \<le> 4194304"
    using i(1) by (auto simp: parse_ident_def MAX_OBJECT_BYTES_def ELF_HEADER_SIZE_def split: if_split_asm)
  then show ?thesis
    using i(7) parse_sections_Ok [OF i(2,3)] find_symtab_Ok [OF i(4)] parse_symbols_Ok [OF i(5)] parse_abi_Ok [OF i(6)]
    by (simp add: object_wf_def)
qed

section \<open>Relocation touches map references only\<close>

definition patch_bytes :: "bytes \<Rightarrow> nat \<Rightarrow> 32 word \<Rightarrow> bytes" where
  "patch_bytes t offset fd =
    [BPF_LD_IMM64, (t ! (offset + 1) AND 0x0F) OR 0x10, t ! (offset + 2), t ! (offset + 3)] @ le_bytes 4 fd @ replicate 8 0"

lemma length_patch_bytes [simp]: "length (patch_bytes t offset fd) = 16"
  by (simp add: patch_bytes_def)

lemma patch_explicit:
  assumes "length (b :: bytes) = 4"
  shows "patch (length a) fd (a @ [x0, x1, x2, x3] @ b @ replicate 8 0 @ c) =
    a @ [x0, (x1 AND 0x0F) OR 0x10, x2, x3] @ le_bytes 4 fd @ replicate 8 0 @ c"
proof -
  have r: "replicate 8 (0 :: u8) = replicate 4 0 @ replicate 4 0" by (simp add: replicate_add [symmetric])
  have v: "push_bit 4 BPF_PSEUDO_MAP_FD = 0x10" by (simp add: BPF_PSEUDO_MAP_FD_def)
  show ?thesis
    unfolding patch_def v r using assms
    by (simp add: Let_def nth_append list_update_append)
qed

lemma patch_eq:
  assumes len: "offset + 16 \<le> length t" and op: "t ! offset = BPF_LD_IMM64"
    and zero: "slice (offset + 8) (offset + 16) t = replicate 8 0"
  shows "patch offset fd t = take offset t @ patch_bytes t offset fd @ drop (offset + 16) t"
proof -
  define a b c where "a = take offset t" and "b = slice (offset + 4) (offset + 8) t" and "c = drop (offset + 16) t"
  have d: "drop i t = slice i j t @ drop j t" if "i \<le> j" for i j
    using that append_take_drop_id [of "j - i" "drop i t", symmetric] by (simp add: slice_def)
  have "slice offset (offset + 4) t = map (\<lambda>i. t ! (offset + i)) [0..<4]"
    using len by (intro nth_equalityI) (auto simp: slice_def)
  also have "\<dots> = [t ! offset, t ! (offset + 1), t ! (offset + 2), t ! (offset + 3)]" by (simp add: upt_rec numeral_3_eq_3)
  finally have first: "slice offset (offset + 4) t = [t ! offset, t ! (offset + 1), t ! (offset + 2), t ! (offset + 3)]" .
  have "t = a @ drop offset t" by (simp add: a_def)
  also have "drop offset t = slice offset (offset + 4) t @ drop (offset + 4) t" by (rule d) simp
  also have "drop (offset + 4) t = b @ drop (offset + 8) t" unfolding b_def by (rule d) simp
  also have "drop (offset + 8) t = slice (offset + 8) (offset + 16) t @ c" unfolding c_def by (rule d) simp
  finally have t: "t = a @ [t ! offset, t ! (offset + 1), t ! (offset + 2), t ! (offset + 3)] @ b @ replicate 8 0 @ c"
    unfolding first zero by simp
  have o: "length a = offset" and b: "length b = 4" using len by (simp_all add: a_def b_def)
  have "patch offset fd t = a @ [t ! offset, (t ! (offset + 1) AND 0x0F) OR 0x10, t ! (offset + 2), t ! (offset + 3)]
      @ le_bytes 4 fd @ replicate 8 0 @ c"
    using patch_explicit [OF b, of a fd "t ! offset" "t ! (offset + 1)" "t ! (offset + 2)" "t ! (offset + 3)" c]
    by (simp only: o t [symmetric])
  then show ?thesis by (simp add: patch_bytes_def op a_def c_def)
qed

lemma nth_overlay:
  assumes "offset + length xs \<le> length t" and "i < length t"
  shows "(take offset t @ xs @ drop (offset + length xs) t) ! i =
    (if offset \<le> i \<and> i < offset + length xs then xs ! (i - offset) else t ! i)"
  using assms by (auto simp: nth_append min_def)

text \<open>
  \<open>patched_from t ins ps\<close>: the instructions \<open>ins\<close> are \<open>t\<close> with the pairs of \<open>ps\<close> patched; the first
  component of a pair is the offset and the second the file descriptor.
\<close>

definition patched_from :: "bytes \<Rightarrow> bytes \<Rightarrow> (nat \<times> 32 word) list \<Rightarrow> bool" where
  "patched_from t ins ps \<longleftrightarrow>
    length ins = length t \<and> distinct (map fst ps) \<and>
    (\<forall>(offset, fd)\<in>set ps. 8 dvd offset \<and> offset + 16 \<le> length t \<and> t ! offset = BPF_LD_IMM64
       \<and> (\<forall>j<16. ins ! (offset + j) = patch_bytes t offset fd ! j)) \<and>
    (\<forall>i<length t. (\<forall>(offset, fd)\<in>set ps. i < offset \<or> offset + 16 \<le> i) \<longrightarrow> ins ! i = t ! i)"

lemma patched_from_Nil [simp]: "patched_from t t []"
  by (simp add: patched_from_def)

lemma patches_disjoint:
  assumes inv: "patched_from t ins ps" and new: "offset \<notin> fst ` set ps" "8 dvd offset"
    and op: "ins ! offset = BPF_LD_IMM64" and zero: "ins ! (offset + 8) = 0" and old: "(o', fd') \<in> set ps"
  shows "o' + 16 \<le> offset \<or> offset + 16 \<le> o'"
proof (rule ccontr)
  assume "\<not> ?thesis"
  moreover have "8 dvd o'" using inv old by (auto simp: patched_from_def)
  moreover have "offset \<noteq> o'" using new(1) old by (metis fst_conv imageI)
  ultimately have "offset = o' + 8 \<or> o' = offset + 8" using new(2) by presburger
  moreover have bytes: "j < 16 \<Longrightarrow> ins ! (o' + j) = patch_bytes t o' fd' ! j" for j
    using inv old by (auto simp: patched_from_def)
  have "ins ! (o' + 8) = 0" "ins ! o' = BPF_LD_IMM64"
    using bytes [of 8] bytes [of 0] by (simp_all add: patch_bytes_def nth_append)
  ultimately show False using op zero by (auto simp: BPF_LD_IMM64_def)
qed

lemma patched_from_patch:
  assumes inv: "patched_from t ins ps" and new: "offset \<notin> fst ` set ps" "8 dvd offset" and len: "offset + 16 \<le> length ins"
    and op: "ins ! offset = BPF_LD_IMM64" and zero: "slice (offset + 8) (offset + 16) ins = replicate 8 0"
  shows "patched_from t (patch offset fd ins) ((offset, fd) # ps)"
proof -
  have "ins ! (offset + 8) = slice (offset + 8) (offset + 16) ins ! 0" using len by (simp add: slice_def)
  then have z: "ins ! (offset + 8) = 0" using zero by simp
  have apart: "o' + 16 \<le> offset \<or> offset + 16 \<le> o'" if "(o', fd') \<in> set ps" for o' fd'
    using patches_disjoint [OF inv new op z that] .
  have l: "length ins = length t" using inv by (simp add: patched_from_def)
  have same: "ins ! (offset + j) = t ! (offset + j)" if "j < 16" for j
  proof -
    have "\<forall>(o', fd')\<in>set ps. offset + j < o' \<or> o' + 16 \<le> offset + j" using apart that by fastforce
    then show ?thesis using inv len l that unfolding patched_from_def by auto
  qed
  have pb: "patch_bytes ins offset fd = patch_bytes t offset fd"
    using same [of 1] same [of 2] same [of 3] by (simp add: patch_bytes_def)
  have byte: "i < length t \<Longrightarrow> patch offset fd ins ! i =
      (if offset \<le> i \<and> i < offset + 16 then patch_bytes t offset fd ! (i - offset) else ins ! i)" for i
    using nth_overlay [of offset "patch_bytes t offset fd" ins i] len l patch_eq [OF len op zero] by (simp add: pb)
  show ?thesis
    unfolding patched_from_def
  proof (intro conjI)
    show "length (patch offset fd ins) = length t" using patch_eq [OF len op zero] len l by simp
    show "distinct (map fst ((offset, fd) # ps))" using inv new(1) by (simp add: patched_from_def)
    show "\<forall>(offset', fd')\<in>set ((offset, fd) # ps). 8 dvd offset' \<and> offset' + 16 \<le> length t \<and> t ! offset' = BPF_LD_IMM64
       \<and> (\<forall>j<16. patch offset fd ins ! (offset' + j) = patch_bytes t offset' fd' ! j)"
      using inv new(2) len l op same [of 0] byte apart unfolding patched_from_def by fastforce
    show "\<forall>i<length t. (\<forall>(offset', fd')\<in>set ((offset, fd) # ps). i < offset' \<or> offset' + 16 \<le> i) \<longrightarrow>
        patch offset fd ins ! i = t ! i"
      using inv byte unfolding patched_from_def by auto
  qed
qed

definition map_fd :: "bpf_object \<Rightarrow> (string \<Rightarrow> 32 word option) \<Rightarrow> 32 word \<Rightarrow> bool" where
  "map_fd obj resolve_map fd \<longleftrightarrow>
    (\<exists>x\<in>set (obj_symbols obj). sym_binding x = STB_GLOBAL \<and> sym_type x = STT_OBJECT
       \<and> sym_shndx x < length (obj_sections obj) \<and> sec_name (obj_sections obj ! sym_shndx x) = ''.maps''
       \<and> resolve_map (sym_name x) = Some fd \<and> 0 \<le> sint fd)"

definition reloc_offset :: "bytes \<Rightarrow> nat \<Rightarrow> nat" where
  "reloc_offset entries i = unat (from_le_bytes (slice (i * 16) (i * 16 + 8) entries) :: u64)"

lemma apply_relocation_Ok:
  assumes "apply_relocation obj resolve_map r (ins, patched) = Ok (ins', patched')"
    and inv: "patched_from t ins ps" and p: "set patched = fst ` set ps"
  shows "\<exists>fd. map_fd obj resolve_map fd \<and> patched_from t ins' ((unat (from_le_bytes (slice 0 8 r) :: u64), fd) # ps)
    \<and> set patched' = insert (unat (from_le_bytes (slice 0 8 r) :: u64)) (fst ` set ps)"
proof -
  let ?o = "unat (from_le_bytes (slice 0 8 r) :: u64)"
  obtain i fd where i: "i < length (obj_symbols obj)"
    and new: "\<not> set_contains patched ?o" "8 dvd ?o" and len: "?o + 16 \<le> length ins"
    and sym: "sym_binding (obj_symbols obj ! i) = STB_GLOBAL" "sym_type (obj_symbols obj ! i) = STT_OBJECT"
      "sym_shndx (obj_symbols obj ! i) < length (obj_sections obj)"
      "sec_name (obj_sections obj ! sym_shndx (obj_symbols obj ! i)) = ''.maps''"
      "resolve_map (sym_name (obj_symbols obj ! i)) = Some fd" "0 \<le> sint fd"
    and op: "ins ! ?o = BPF_LD_IMM64" "slice (?o + 8) (?o + 16) ins = replicate 8 0"
    and out: "ins' = patch ?o fd ins" "patched' = set_insert ?o patched"
    using assms(1)
    by (auto simp: apply_relocation_def and_then_eq_Ok read_usize_Ok ok_or_eq_Ok range_check_Ok Let_def BPF_INSN_SIZE_def
        not_le not_less split: if_split_asm)
  have "patched_from t ins' ((?o, fd) # ps)"
    unfolding out(1) using inv new p len op by (intro patched_from_patch) (auto simp: set_contains_def)
  moreover have "map_fd obj resolve_map fd" unfolding map_fd_def using sym i by (intro bexI [of _ "obj_symbols obj ! i"]) auto
  ultimately show ?thesis using out(2) p by auto
qed

lemma relocate_Ok:
  "relocate obj resolve_map entries is (ins, patched) = Ok ins' \<Longrightarrow> patched_from t ins ps \<Longrightarrow> set patched = fst ` set ps \<Longrightarrow>
   list_all (map_fd obj resolve_map) (map snd ps) \<Longrightarrow>
   \<exists>ps'. patched_from t ins' ps' \<and> map fst ps' = rev (map (reloc_offset entries) is) @ map fst ps
     \<and> list_all (map_fd obj resolve_map) (map snd ps')"
proof (induction "is" arbitrary: ins patched ps)
  case (Cons i "is")
  obtain r ins1 patched1 where r: "obj_slice entries (i * REL_SIZE) REL_SIZE ''relocation'' = Ok r"
    "apply_relocation obj resolve_map r (ins, patched) = Ok (ins1, patched1)"
    "relocate obj resolve_map entries is (ins1, patched1) = Ok ins'"
    using Cons.prems(1) by (auto simp: and_then_eq_Ok)
  have o: "unat (from_le_bytes (slice 0 8 r) :: u64) = reloc_offset entries i"
    using r(1) by (auto simp: obj_slice_Ok reloc_offset_def REL_SIZE_def slice_def)
  from apply_relocation_Ok [OF r(2) Cons.prems(2,3)] obtain fd where fd: "map_fd obj resolve_map fd"
    "patched_from t ins1 ((reloc_offset entries i, fd) # ps)" "set patched1 = insert (reloc_offset entries i) (fst ` set ps)"
    unfolding o by blast
  then show ?case using Cons.IH [OF r(3) fd(2)] Cons.prems(4) by simp
qed auto


section \<open>A small object\<close>

definition section_bytes :: "u32 \<Rightarrow> u32 \<Rightarrow> u64 \<Rightarrow> u64 \<Rightarrow> u64 \<Rightarrow> u32 \<Rightarrow> u32 \<Rightarrow> u64 \<Rightarrow> bytes" where
  "section_bytes name ty flags offset len link info entsize =
    le_bytes 4 name @ le_bytes 4 ty @ le_bytes 8 flags @ replicate 8 0 @ le_bytes 8 offset @ le_bytes 8 len
    @ le_bytes 4 link @ le_bytes 4 info @ replicate 8 0 @ le_bytes 8 entsize"

definition symbol_bytes :: "u32 \<Rightarrow> u8 \<Rightarrow> u16 \<Rightarrow> u64 \<Rightarrow> bytes" where
  "symbol_bytes name info shndx len = le_bytes 4 name @ [info, 0] @ le_bytes 2 shndx @ replicate 8 0 @ le_bytes 8 len"

text \<open>Three sections: the strings, the symbols and the ABI section.\<close>

definition sample_object :: bytes where
  "sample_object =
    [0x7F, 0x45, 0x4C, 0x46, 2, 1, 1, 0] @ replicate 8 0 @ le_bytes 2 ET_REL @ le_bytes 2 EM_BPF @ le_bytes 4 (1 :: u32)
    @ replicate 16 0 @ le_bytes 8 (64 :: u64) @ replicate 4 0 @ le_bytes 2 (64 :: u16) @ replicate 4 0
    @ le_bytes 2 (64 :: u16) @ le_bytes 2 (3 :: u16) @ le_bytes 2 (0 :: u16)
    @ section_bytes 0 SHT_STRTAB 0 256 10 0 0 0
    @ section_bytes 0 SHT_SYMTAB 0 266 24 0 0 24
    @ section_bytes 1 SHT_PROGBITS 0 290 4 0 0 0
    @ [0] @ as_bytes ''flux_abi'' @ [0] @ symbol_bytes 0 0 0 0 @ [1, 2, 3, 4]"

lemma sample_header: "parse_ident sample_object = Ok ()"
  "parse_header sample_object = Ok \<lparr>tab_shoff = 64, tab_shnum = 3, tab_shstrndx = 0\<rparr>"
  by code_simp+

definition sample_section_list :: "elf_section list" where
  "sample_section_list =
    [\<lparr>sec_name = [], sec_type = SHT_STRTAB, sec_flags = 0, sec_offset = 256, sec_size = 10, sec_link = 0, sec_info = 0, sec_entsize = 0\<rparr>,
     \<lparr>sec_name = [], sec_type = SHT_SYMTAB, sec_flags = 0, sec_offset = 266, sec_size = 24, sec_link = 0, sec_info = 0, sec_entsize = 24\<rparr>,
     \<lparr>sec_name = ''flux_abi'', sec_type = SHT_PROGBITS, sec_flags = 0, sec_offset = 290, sec_size = 4, sec_link = 0, sec_info = 0, sec_entsize = 0\<rparr>]"

lemma sample_sections:
  "parse_sections sample_object \<lparr>tab_shoff = 64, tab_shnum = 3, tab_shstrndx = 0\<rparr> = Ok sample_section_list"
  by code_simp

lemma sample_symtab: "find_symtab sample_section_list = Ok (1, sample_section_list ! 1)"
  by code_simp

lemma sample_symbols: "parse_symbols sample_object sample_section_list (sample_section_list ! 1) =
   Ok [\<lparr>sym_name = [], sym_info = 0, sym_shndx = 0, sym_value = 0, sym_size = 0\<rparr>]"
  by code_simp

lemma sample_abi: "parse_abi sample_object sample_section_list = Ok 0x04030201"
  by code_simp

theorem parsed_object_is_in_bounds_witness:
  "object_wf \<lparr>obj_bytes = sample_object, obj_sections = sample_section_list,
     obj_symbols = [\<lparr>sym_name = [], sym_info = 0, sym_shndx = 0, sym_value = 0, sym_size = 0\<rparr>],
     obj_symtab_index = 1, obj_abi_magic = 0x04030201\<rparr>"
  by (rule parsed_object_is_in_bounds [THEN conjunct2, of sample_object])
    (simp add: object_parse_def sample_header sample_sections sample_symtab sample_symbols [unfolded One_nat_def] sample_abi)

text \<open>A program of one instruction pair that loads the address of the map \<open>m\<close>.\<close>

definition sample_program :: bpf_object where
  "sample_program = \<lparr>
     obj_bytes = [BPF_LD_IMM64, 1] @ replicate 14 0 @ replicate 8 0 @ le_bytes 8 (0x100000001 :: u64),
     obj_sections =
       [\<lparr>sec_name = ''p'', sec_type = SHT_PROGBITS, sec_flags = 4, sec_offset = 0, sec_size = 16, sec_link = 0, sec_info = 0, sec_entsize = 0\<rparr>,
        \<lparr>sec_name = ''.relp'', sec_type = SHT_REL, sec_flags = 0, sec_offset = 16, sec_size = 16, sec_link = 2, sec_info = 0, sec_entsize = 16\<rparr>,
        \<lparr>sec_name = ''.symtab'', sec_type = SHT_SYMTAB, sec_flags = 0, sec_offset = 0, sec_size = 0, sec_link = 0, sec_info = 0, sec_entsize = 24\<rparr>,
        \<lparr>sec_name = ''.maps'', sec_type = SHT_PROGBITS, sec_flags = 0, sec_offset = 0, sec_size = 0, sec_link = 0, sec_info = 0, sec_entsize = 0\<rparr>],
     obj_symbols =
       [\<lparr>sym_name = ''run'', sym_info = 0x12, sym_shndx = 0, sym_value = 0, sym_size = 16\<rparr>,
        \<lparr>sym_name = ''m'', sym_info = 0x11, sym_shndx = 3, sym_value = 0, sym_size = 0\<rparr>],
     obj_symtab_index = 2, obj_abi_magic = 0\<rparr>"

lemma sample_program_run:
  "object_program sample_program ''run'' ''p'' (\<lambda>_. Some 7) =
   Ok \<lparr>pi_instructions = [0x18, 0x11, 0, 0, 7] @ replicate 11 0, pi_insn_count = 2\<rparr>"
  by code_simp


end
