(* ===== verification/Kernel_Calls.thy ===== *)
theory Kernel_Calls
  imports Wire
begin

text \<open>
  The calls the data plane makes of the kernel, for code that interleaves its own decisions with
  netlink exchanges, interface lookups, program ownership tests, controls of the kernel module, file and
  module system calls and socket resets. A \<open>world\<close> holds the answers still
  to come and the log of calls made with their answers, so every function is deterministic in its
  world and an order of calls is a fact about the log. A function may return, wait for an answer that
  is not there yet, or panic. A component that keeps state of its own extends the record.
\<close>

section \<open>Calls, answers and actions\<close>

datatype answer =
    Net_Answer "io_error + unit" "(io_error + raw_message list) list"
  | Index_Answer u32 int
  | Owned_Answer "string + bool"
  | Ioctl_Answer int bytes
  | Sys_Answer int "string list"
  | Destroy_Answer "io_error + unit"

datatype call =
    Net_Call bytes
  | Index_Call string
  | Owned_Call u32 string bytes
  | Ioctl_Call u32 bytes
  | Sys_Call string string
  | Destroy_Call "u32 list"

record world =
  w_seq :: u32
  w_answers :: "answer list"
  w_log :: "(call \<times> answer) list"

datatype ('e, 'a) act_outcome = Returned "'e + 'a" | Blocked | Panics

type_synonym ('m, 'e, 'a) action = "'m world_scheme \<Rightarrow> ('e, 'a) act_outcome \<times> 'm world_scheme"

definition ret :: "'a \<Rightarrow> ('m, 'e, 'a) action" where
  "ret x w = (Returned (Ok x), w)"

definition fail :: "'e \<Rightarrow> ('m, 'e, 'a) action" where
  "fail e w = (Returned (Err e), w)"

definition lift_result :: "'e + 'a \<Rightarrow> ('m, 'e, 'a) action" where
  "lift_result r w = (Returned r, w)"

text \<open>The \<open>?\<close> operator: an error returns at once.\<close>

definition act_bind :: "('m, 'e, 'a) action \<Rightarrow> ('a \<Rightarrow> ('m, 'e, 'b) action) \<Rightarrow> ('m, 'e, 'b) action" where
  "act_bind m f w =
    (case m w of
       (Returned (Ok x), w') \<Rightarrow> f x w'
     | (Returned (Err e), w') \<Rightarrow> (Returned (Err e), w')
     | (Blocked, w') \<Rightarrow> (Blocked, w')
     | (Panics, w') \<Rightarrow> (Panics, w'))"

text \<open>A \<open>match\<close> on the result of a call.\<close>

definition act_match :: "('m, 'e, 'a) action \<Rightarrow> ('e + 'a \<Rightarrow> ('m, 'f, 'b) action) \<Rightarrow> ('m, 'f, 'b) action" where
  "act_match m f w =
    (case m w of
       (Returned r, w') \<Rightarrow> f r w'
     | (Blocked, w') \<Rightarrow> (Blocked, w')
     | (Panics, w') \<Rightarrow> (Panics, w'))"

definition act_map_err :: "('e \<Rightarrow> 'f) \<Rightarrow> ('m, 'e, 'a) action \<Rightarrow> ('m, 'f, 'a) action" where
  "act_map_err f m = act_match m (\<lambda>r. lift_result (map_err f r))"

text \<open>One call: the next answer is consumed if it is of the kind the call gets.\<close>

definition call_kernel :: "call \<Rightarrow> (answer \<Rightarrow> ('e, 'a) act_outcome option) \<Rightarrow> ('m, 'e, 'a) action" where
  "call_kernel c read w =
    (case w_answers w of
       [] \<Rightarrow> (Blocked, w)
     | a # rest \<Rightarrow>
         (case read a of
            None \<Rightarrow> (Blocked, w)
          | Some out \<Rightarrow> (out, w\<lparr>w_answers := rest, w_log := w_log w @ [(c, a)]\<rparr>)))"

section \<open>The request socket\<close>

definition of_batches :: "(io_error + 'a) option \<Rightarrow> (io_error, 'a) act_outcome" where
  "of_batches r = (case r of None \<Rightarrow> Blocked | Some x \<Rightarrow> Returned x)"

text \<open>\<open>RequestSocket::ack\<close> and \<open>RequestSocket::dump\<close>: the answer to \<open>send\<close>, then the batches \<open>recv\<close> returns.\<close>

definition sock_ack :: "bytes \<Rightarrow> ('m, io_error, unit) action" where
  "sock_ack request = call_kernel (Net_Call request)
    (\<lambda>a. case a of
       Net_Answer (Inl e) _ \<Rightarrow> Some (Returned (Err e))
     | Net_Answer (Inr _) batches \<Rightarrow> Some (of_batches (ack_batches batches))
     | _ \<Rightarrow> None)"

definition sock_dump :: "bytes \<Rightarrow> ('m, io_error, raw_message list) action" where
  "sock_dump request = call_kernel (Net_Call request)
    (\<lambda>a. case a of
       Net_Answer (Inl e) _ \<Rightarrow> Some (Returned (Err e))
     | Net_Answer (Inr _) batches \<Rightarrow> Some (of_batches (dump_batches [] batches))
     | _ \<Rightarrow> None)"

definition sock_next_seq :: "('m, 'e, u32) action" where
  "sock_next_seq w = (Returned (Ok (next_seq (w_seq w))), w\<lparr>w_seq := next_seq (w_seq w)\<rparr>)"

section \<open>What an action appends to the log\<close>

definition logs :: "'m world_scheme \<Rightarrow> 'm world_scheme \<Rightarrow> (call \<times> answer) list \<Rightarrow> bool" where
  "logs w w' l \<longleftrightarrow> w_log w' = w_log w @ l"

lemma ret_eq [simp]: "ret x w = (Returned (Ok x), w)" "fail e w = (Returned (Err e), w)"
  "lift_result r w = (Returned r, w)"
  by (simp_all add: ret_def fail_def lift_result_def)

lemma act_match_Returned:
  "act_match m f w = (Returned r, w') \<longleftrightarrow> (\<exists>q w1. m w = (Returned q, w1) \<and> f q w1 = (Returned r, w'))"
  by (auto simp: act_match_def split: prod.split act_outcome.split)

lemma act_bind_Ok:
  "act_bind m f w = (Returned (Ok y), w') \<longleftrightarrow>
    (\<exists>x w1. m w = (Returned (Ok x), w1) \<and> f x w1 = (Returned (Ok y), w'))"
  by (auto simp: act_bind_def split: prod.split act_outcome.split sum.split)

lemma act_map_err_Ok: "act_map_err g m w = (Returned (Ok x), w') \<longleftrightarrow> m w = (Returned (Ok x), w')"
  by (auto simp: act_map_err_def act_match_def map_err_def split: prod.splits act_outcome.splits sum.splits)

lemma sock_next_seq_eq [simp]:
  "sock_next_seq w = (Returned (Ok (next_seq (w_seq w))), w\<lparr>w_seq := next_seq (w_seq w)\<rparr>)"
  by (simp add: sock_next_seq_def)

end
