(* ===== verification/Route.thy ===== *)
theory Route
  imports Kernel_Calls BTree_Model
begin

text \<open>
  Typed rtnetlink, crates/fluxd/src/netlink/route.rs: the message structures, the decoders of links,
  addresses, routes, rules, queueing disciplines and filters with their account of unknown and
  repeated attributes, the identity of a filter Flux owns, and every request the daemon sends. A
  signed 32-bit field is its word; strings are UTF-8.
\<close>

section \<open>Constants\<close>

definition RTM_NEWLINK :: u16 where "RTM_NEWLINK = 16"
definition RTM_DELLINK :: u16 where "RTM_DELLINK = 17"
definition RTM_GETLINK :: u16 where "RTM_GETLINK = 18"
definition RTM_NEWADDR :: u16 where "RTM_NEWADDR = 20"
definition RTM_GETADDR :: u16 where "RTM_GETADDR = 22"
definition RTM_NEWROUTE :: u16 where "RTM_NEWROUTE = 24"
definition RTM_DELROUTE :: u16 where "RTM_DELROUTE = 25"
definition RTM_GETROUTE :: u16 where "RTM_GETROUTE = 26"
definition RTM_NEWRULE :: u16 where "RTM_NEWRULE = 32"
definition RTM_DELRULE :: u16 where "RTM_DELRULE = 33"
definition RTM_GETRULE :: u16 where "RTM_GETRULE = 34"
definition RTM_NEWQDISC :: u16 where "RTM_NEWQDISC = 36"
definition RTM_GETQDISC :: u16 where "RTM_GETQDISC = 38"
definition RTM_NEWTFILTER :: u16 where "RTM_NEWTFILTER = 44"
definition RTM_DELTFILTER :: u16 where "RTM_DELTFILTER = 45"
definition RTM_GETTFILTER :: u16 where "RTM_GETTFILTER = 46"
definition IFLA_ADDRESS :: u16 where "IFLA_ADDRESS = 1"
definition IFLA_IFNAME :: u16 where "IFLA_IFNAME = 3"
definition IFLA_MTU :: u16 where "IFLA_MTU = 4"
definition IFLA_LINK :: u16 where "IFLA_LINK = 5"
definition IFLA_MASTER :: u16 where "IFLA_MASTER = 10"
definition IFLA_LINKINFO :: u16 where "IFLA_LINKINFO = 18"
definition IFLA_IFALIAS :: u16 where "IFLA_IFALIAS = 20"
definition IFLA_INFO_KIND :: u16 where "IFLA_INFO_KIND = 1"
definition IFLA_INFO_DATA :: u16 where "IFLA_INFO_DATA = 2"
definition VETH_INFO_PEER :: u16 where "VETH_INFO_PEER = 1"
definition IFA_ADDRESS :: u16 where "IFA_ADDRESS = 1"
definition IFA_LOCAL :: u16 where "IFA_LOCAL = 2"
definition IFA_FLAGS :: u16 where "IFA_FLAGS = 8"
definition RTA_DST :: u16 where "RTA_DST = 1"
definition RTA_OIF :: u16 where "RTA_OIF = 4"
definition RTA_PRIORITY :: u16 where "RTA_PRIORITY = 6"
definition RTA_CACHEINFO :: u16 where "RTA_CACHEINFO = 12"
definition RTA_TABLE :: u16 where "RTA_TABLE = 15"
definition RTA_PREF :: u16 where "RTA_PREF = 20"
definition FRA_IIFNAME :: u16 where "FRA_IIFNAME = 3"
definition FRA_PRIORITY :: u16 where "FRA_PRIORITY = 6"
definition FRA_SUPPRESS_PREFIXLEN :: u16 where "FRA_SUPPRESS_PREFIXLEN = 14"
definition FRA_TABLE :: u16 where "FRA_TABLE = 15"
definition FRA_PROTOCOL :: u16 where "FRA_PROTOCOL = 21"
definition TCA_KIND :: u16 where "TCA_KIND = 1"
definition TCA_OPTIONS :: u16 where "TCA_OPTIONS = 2"
definition TCA_CHAIN :: u16 where "TCA_CHAIN = 11"
definition TCA_INGRESS_BLOCK :: u16 where "TCA_INGRESS_BLOCK = 13"
definition TCA_EGRESS_BLOCK :: u16 where "TCA_EGRESS_BLOCK = 14"
definition TCA_BPF_FD :: u16 where "TCA_BPF_FD = 6"
definition TCA_BPF_NAME :: u16 where "TCA_BPF_NAME = 7"
definition TCA_BPF_FLAGS :: u16 where "TCA_BPF_FLAGS = 8"
definition TCA_BPF_FLAGS_GEN :: u16 where "TCA_BPF_FLAGS_GEN = 9"
definition TCA_BPF_TAG :: u16 where "TCA_BPF_TAG = 10"
definition TCA_BPF_ID :: u16 where "TCA_BPF_ID = 11"
definition ETH_P_ALL :: u16 where "ETH_P_ALL = 0x0003"

definition TCA_BPF_FLAG_ACT_DIRECT :: u32 where "TCA_BPF_FLAG_ACT_DIRECT = 1"
definition IFF_UP :: u32 where "IFF_UP = 1"
definition IFF_LOOPBACK :: u32 where "IFF_LOOPBACK = 8"
definition TC_H_CLSACT :: u32 where "TC_H_CLSACT = 0xfffffff1"
definition TC_H_INGRESS :: u32 where "TC_H_INGRESS = 0xfffffff2"
definition TC_H_EGRESS :: u32 where "TC_H_EGRESS = 0xfffffff3"
definition TC_CLSACT_HANDLE :: u32 where "TC_CLSACT_HANDLE = 0xffff0000"

definition RT_TABLE_UNSPEC :: u8 where "RT_TABLE_UNSPEC = 0"
definition RT_SCOPE_HOST :: u8 where "RT_SCOPE_HOST = 254"
definition RTN_LOCAL :: u8 where "RTN_LOCAL = 2"
definition FR_ACT_TO_TBL :: u8 where "FR_ACT_TO_TBL = 1"

definition EVENT_GROUPS :: u32 where
  "EVENT_GROUPS = 1 OR push_bit 3 1 OR push_bit 4 1 OR push_bit 6 1 OR push_bit 7 1 OR push_bit 8 1
     OR push_bit 10 1 OR push_bit 18 1"

text \<open>\<open>libc::AF_UNSPEC\<close>.\<close>

definition AF_UNSPEC :: u8 where "AF_UNSPEC = 0"

section \<open>Message structures\<close>

text \<open>The \<open>repr(C)\<close> structures of wire.rs with their images; none has padding.\<close>

record if_info_msg =
  ii_family :: u8
  ii_pad :: u8
  ii_arphrd :: u16
  ii_index :: u32
  ii_flags :: u32
  ii_change :: u32

record if_addr_msg =
  ia_family :: u8
  ia_prefix_len :: u8
  ia_flags :: u8
  ia_scope :: u8
  ia_index :: u32

record rt_msg =
  rt_family :: u8
  rt_dst_len :: u8
  rt_src_len :: u8
  rt_tos :: u8
  rt_table :: u8
  rt_protocol :: u8
  rt_scope :: u8
  rt_kind :: u8
  rt_flags :: u32

record fib_rule_hdr =
  fr_family :: u8
  fr_dst_len :: u8
  fr_src_len :: u8
  fr_tos :: u8
  fr_table :: u8
  fr_reserved1 :: u8
  fr_reserved2 :: u8
  fr_action :: u8
  fr_flags :: u32

record tc_msg =
  tm_family :: u8
  tm_pad1 :: u8
  tm_pad2 :: u16
  tm_ifindex :: u32
  tm_handle :: u32
  tm_parent :: u32
  tm_info :: u32

definition if_info_default :: if_info_msg where
  "if_info_default = \<lparr>ii_family = 0, ii_pad = 0, ii_arphrd = 0, ii_index = 0, ii_flags = 0, ii_change = 0\<rparr>"

definition if_addr_default :: if_addr_msg where
  "if_addr_default = \<lparr>ia_family = 0, ia_prefix_len = 0, ia_flags = 0, ia_scope = 0, ia_index = 0\<rparr>"

definition rt_default :: rt_msg where
  "rt_default = \<lparr>rt_family = 0, rt_dst_len = 0, rt_src_len = 0, rt_tos = 0, rt_table = 0,
     rt_protocol = 0, rt_scope = 0, rt_kind = 0, rt_flags = 0\<rparr>"

definition fib_rule_default :: fib_rule_hdr where
  "fib_rule_default = \<lparr>fr_family = 0, fr_dst_len = 0, fr_src_len = 0, fr_tos = 0, fr_table = 0,
     fr_reserved1 = 0, fr_reserved2 = 0, fr_action = 0, fr_flags = 0\<rparr>"

definition tc_default :: tc_msg where
  "tc_default = \<lparr>tm_family = 0, tm_pad1 = 0, tm_pad2 = 0, tm_ifindex = 0, tm_handle = 0, tm_parent = 0, tm_info = 0\<rparr>"

definition if_info_bytes :: "if_info_msg \<Rightarrow> bytes" where
  "if_info_bytes m = [ii_family m, ii_pad m] @ le_bytes 2 (ii_arphrd m) @ le_bytes 4 (ii_index m)
     @ le_bytes 4 (ii_flags m) @ le_bytes 4 (ii_change m)"

definition if_addr_bytes :: "if_addr_msg \<Rightarrow> bytes" where
  "if_addr_bytes m = [ia_family m, ia_prefix_len m, ia_flags m, ia_scope m] @ le_bytes 4 (ia_index m)"

definition rt_bytes :: "rt_msg \<Rightarrow> bytes" where
  "rt_bytes m = [rt_family m, rt_dst_len m, rt_src_len m, rt_tos m, rt_table m, rt_protocol m, rt_scope m, rt_kind m]
     @ le_bytes 4 (rt_flags m)"

definition fib_rule_bytes :: "fib_rule_hdr \<Rightarrow> bytes" where
  "fib_rule_bytes m = [fr_family m, fr_dst_len m, fr_src_len m, fr_tos m, fr_table m, fr_reserved1 m, fr_reserved2 m,
     fr_action m] @ le_bytes 4 (fr_flags m)"

definition tc_bytes :: "tc_msg \<Rightarrow> bytes" where
  "tc_bytes m = [tm_family m, tm_pad1 m] @ le_bytes 2 (tm_pad2 m) @ le_bytes 4 (tm_ifindex m)
     @ le_bytes 4 (tm_handle m) @ le_bytes 4 (tm_parent m) @ le_bytes 4 (tm_info m)"

definition short_payload :: io_error where
  "short_payload = InvalidData ''short netlink payload''"

definition read_if_info :: "bytes \<Rightarrow> io_error + if_info_msg" where
  "read_if_info b =
    (if length b < 16 then Err short_payload
     else Ok \<lparr>ii_family = b ! 0, ii_pad = b ! 1, ii_arphrd = from_le_bytes (slice 2 4 b),
       ii_index = from_le_bytes (slice 4 8 b), ii_flags = from_le_bytes (slice 8 12 b),
       ii_change = from_le_bytes (slice 12 16 b)\<rparr>)"

definition read_if_addr :: "bytes \<Rightarrow> io_error + if_addr_msg" where
  "read_if_addr b =
    (if length b < 8 then Err short_payload
     else Ok \<lparr>ia_family = b ! 0, ia_prefix_len = b ! 1, ia_flags = b ! 2, ia_scope = b ! 3,
       ia_index = from_le_bytes (slice 4 8 b)\<rparr>)"

definition read_rt :: "bytes \<Rightarrow> io_error + rt_msg" where
  "read_rt b =
    (if length b < 12 then Err short_payload
     else Ok \<lparr>rt_family = b ! 0, rt_dst_len = b ! 1, rt_src_len = b ! 2, rt_tos = b ! 3, rt_table = b ! 4,
       rt_protocol = b ! 5, rt_scope = b ! 6, rt_kind = b ! 7, rt_flags = from_le_bytes (slice 8 12 b)\<rparr>)"

definition read_fib_rule :: "bytes \<Rightarrow> io_error + fib_rule_hdr" where
  "read_fib_rule b =
    (if length b < 12 then Err short_payload
     else Ok \<lparr>fr_family = b ! 0, fr_dst_len = b ! 1, fr_src_len = b ! 2, fr_tos = b ! 3, fr_table = b ! 4,
       fr_reserved1 = b ! 5, fr_reserved2 = b ! 6, fr_action = b ! 7, fr_flags = from_le_bytes (slice 8 12 b)\<rparr>)"

definition read_tc :: "bytes \<Rightarrow> io_error + tc_msg" where
  "read_tc b =
    (if length b < 20 then Err short_payload
     else Ok \<lparr>tm_family = b ! 0, tm_pad1 = b ! 1, tm_pad2 = from_le_bytes (slice 2 4 b),
       tm_ifindex = from_le_bytes (slice 4 8 b), tm_handle = from_le_bytes (slice 8 12 b),
       tm_parent = from_le_bytes (slice 12 16 b), tm_info = from_le_bytes (slice 16 20 b)\<rparr>)"

section \<open>Decoded objects\<close>

record link =
  lk_ifindex :: u32
  lk_name :: string
  lk_alias :: "string option"
  lk_kind :: "string option"
  lk_peer_ifindex :: "u32 option"
  lk_master_ifindex :: "u32 option"
  lk_arphrd :: u16
  lk_flags :: u32
  lk_mtu :: u32
  lk_address :: bytes
  lk_unknown_attrs :: bool
  lk_duplicate_attrs :: bool

record address =
  ad_ifindex :: u32
  ad_family :: u8
  ad_prefix_len :: u8
  ad_scope :: u8
  ad_flags :: u32
  ad_bytes :: bytes

record route =
  ro_family :: u8
  ro_dst_len :: u8
  ro_table :: u32
  ro_protocol :: u8
  ro_scope :: u8
  ro_kind :: u8
  ro_oif :: "u32 option"
  ro_has_dst :: bool
  ro_metric :: "u32 option"
  ro_preference :: "u8 option"
  ro_extra_attrs :: bool
  ro_extra_attr_kinds :: "u16 list"

record rule =
  ru_family :: u8
  ru_dst_len :: u8
  ru_src_len :: u8
  ru_table :: u32
  ru_action :: u8
  ru_priority :: "u32 option"
  ru_iif_name :: "string option"
  ru_suppress_prefix_len :: "u32 option"
  ru_protocol :: "u8 option"
  ru_extra_attrs :: bool
  ru_extra_attr_kinds :: "u16 list"

record qdisc =
  qd_ifindex :: u32
  qd_handle :: u32
  qd_parent :: u32
  qd_kind :: "string option"
  qd_options_nonempty :: bool
  qd_ingress_block :: bool
  qd_egress_block :: bool
  qd_unknown_attrs :: bool
  qd_duplicate_attrs :: bool

record tc_filter =
  tf_ifindex :: u32
  tf_parent :: u32
  tf_handle :: u32
  tf_chain :: u32
  tf_priority :: u16
  tf_protocol :: u16
  tf_kind :: "string option"
  tf_direct_action :: bool
  tf_bpf_flags :: "u32 option"
  tf_prog_id :: "u32 option"
  tf_prog_tag :: "bytes option"
  tf_prog_name :: "string option"
  tf_flags_gen :: "u32 option"
  tf_unknown_attrs :: bool
  tf_duplicate_attrs :: bool

record filter_identity =
  fi_ifindex :: u32
  fi_parent :: u32
  fi_handle :: u32
  fi_chain :: u32
  fi_priority :: u16
  fi_protocol :: u16
  fi_prog_id :: u32
  fi_prog_tag :: bytes
  fi_prog_name :: string
  fi_flags_gen :: u32

definition fi_matches :: "filter_identity \<Rightarrow> tc_filter \<Rightarrow> bool" where
  "fi_matches i f \<longleftrightarrow>
    \<not> tf_unknown_attrs f \<and> \<not> tf_duplicate_attrs f
    \<and> tf_ifindex f = fi_ifindex i \<and> tf_parent f = fi_parent i \<and> tf_handle f = fi_handle i
    \<and> tf_chain f = fi_chain i \<and> tf_priority f = fi_priority i \<and> tf_protocol f = fi_protocol i
    \<and> tf_kind f = Some ''bpf'' \<and> tf_direct_action f \<and> tf_bpf_flags f = Some TCA_BPF_FLAG_ACT_DIRECT
    \<and> tf_flags_gen f = Some (fi_flags_gen i) \<and> tf_prog_id f = Some (fi_prog_id i)
    \<and> tf_prog_tag f = Some (fi_prog_tag i) \<and> tf_prog_name f = Some (fi_prog_name i)"

record tc_attach =
  ta_ifindex :: u32
  ta_parent :: u32
  ta_handle :: u32
  ta_chain :: u32
  ta_priority :: u16
  ta_protocol :: u16
  ta_program_fd :: u32
  ta_program_name :: string

record network_snapshot =
  ns_links :: "link list"
  ns_addresses :: "address list"
  ns_routes :: "route list"
  ns_rules :: "rule list"
  ns_qdiscs :: "qdisc list"

section \<open>Decoders\<close>

text \<open>A loop over attributes whose body may return an error.\<close>

fun try_fold :: "('a \<Rightarrow> 's \<Rightarrow> 'e + 's) \<Rightarrow> 'a list \<Rightarrow> 's \<Rightarrow> 'e + 's" where
  "try_fold f [] s = Ok s"
| "try_fold f (x # xs) s = and_then (f x s) (try_fold f xs)"

definition tc_info :: "u16 \<Rightarrow> u16 \<Rightarrow> u32" where
  "tc_info priority protocol = push_bit 16 (ucast priority) OR ucast (to_be16 protocol)"

definition positive_index :: "u32 \<Rightarrow> io_error + u32" where
  "positive_index index =
    (if sint index < 0 \<or> index = 0 then Err (InvalidData ''invalid interface index'') else Ok index)"

record link_acc =
  la_name :: "string option"
  la_alias :: "string option"
  la_kind :: "string option"
  la_peer_ifindex :: "u32 option"
  la_master_ifindex :: "u32 option"
  la_mtu :: "u32 option"
  la_address :: "bytes option"
  la_seen :: "u16 btree_set"
  la_unknown :: bool
  la_duplicate :: bool

definition link_info_attr :: "attr \<Rightarrow> link_acc \<Rightarrow> io_error + link_acc" where
  "link_info_attr info s =
    (if at_kind info = IFLA_INFO_KIND then and_then (attr_cstr info) (\<lambda>v. Ok (s\<lparr>la_kind := Some v\<rparr>))
     else if at_kind info = IFLA_INFO_DATA then Ok s
     else Ok (s\<lparr>la_unknown := True\<rparr>))"

definition link_attr :: "attr \<Rightarrow> link_acc \<Rightarrow> io_error + link_acc" where
  "link_attr a s0 =
    (let k = at_kind a;
         s = s0\<lparr>la_duplicate := la_duplicate s0 \<or> set_contains (la_seen s0) k, la_seen := set_insert k (la_seen s0)\<rparr>
     in if k = IFLA_IFNAME then and_then (attr_cstr a) (\<lambda>v. Ok (s\<lparr>la_name := Some v\<rparr>))
        else if k = IFLA_IFALIAS then and_then (attr_cstr a) (\<lambda>v. Ok (s\<lparr>la_alias := Some v\<rparr>))
        else if k = IFLA_MTU then and_then (attr_u32 a) (\<lambda>v. Ok (s\<lparr>la_mtu := Some v\<rparr>))
        else if k = IFLA_LINK then and_then (attr_u32 a) (\<lambda>v. Ok (s\<lparr>la_peer_ifindex := Some v\<rparr>))
        else if k = IFLA_MASTER then and_then (attr_u32 a) (\<lambda>v. Ok (s\<lparr>la_master_ifindex := Some v\<rparr>))
        else if k = IFLA_ADDRESS then Ok (s\<lparr>la_address := Some (at_payload a)\<rparr>)
        else if k = IFLA_LINKINFO then
          and_then (attrs (at_payload a))
            (\<lambda>infos. try_fold link_info_attr infos (if at_nested a then s else s\<lparr>la_unknown := True\<rparr>))
        else if k = 2 \<or> 6 \<le> k \<and> k \<le> 9 \<or> 11 \<le> k \<and> k \<le> 17 \<or> k = 19 \<or> 21 \<le> k \<and> k \<le> 64 then Ok s
        else Ok (s\<lparr>la_unknown := True\<rparr>))"

definition parse_link :: "bytes \<Rightarrow> io_error + link" where
  "parse_link payload =
    and_then (read_if_info payload)
      (\<lambda>header. and_then (attrs (drop 16 payload))
      (\<lambda>as. and_then (try_fold link_attr as
         \<lparr>la_name = None, la_alias = None, la_kind = None, la_peer_ifindex = None, la_master_ifindex = None,
          la_mtu = None, la_address = None, la_seen = [], la_unknown = False, la_duplicate = False\<rparr>)
      (\<lambda>s. and_then (positive_index (ii_index header))
      (\<lambda>ifindex. and_then (ok_or (InvalidData ''link has no name'') (la_name s))
      (\<lambda>name. Ok \<lparr>lk_ifindex = ifindex, lk_name = name, lk_alias = la_alias s, lk_kind = la_kind s,
         lk_peer_ifindex = la_peer_ifindex s, lk_master_ifindex = la_master_ifindex s,
         lk_arphrd = ii_arphrd header, lk_flags = ii_flags header,
         lk_mtu = (case la_mtu s of None \<Rightarrow> 0 | Some v \<Rightarrow> v),
         lk_address = (case la_address s of None \<Rightarrow> [] | Some v \<Rightarrow> v),
         lk_unknown_attrs = la_unknown s, lk_duplicate_attrs = la_duplicate s\<rparr>)))))"

definition address_attr :: "attr \<Rightarrow> bytes option \<times> u32 \<Rightarrow> io_error + bytes option \<times> u32" where
  "address_attr a = (\<lambda>(addr, flags).
    if at_kind a = IFA_LOCAL then Ok (Some (at_payload a), flags)
    else if at_kind a = IFA_ADDRESS \<and> addr = None then Ok (Some (at_payload a), flags)
    else if at_kind a = IFA_FLAGS then and_then (attr_u32 a) (\<lambda>v. Ok (addr, v))
    else Ok (addr, flags))"

definition parse_address :: "bytes \<Rightarrow> io_error + address" where
  "parse_address payload =
    and_then (read_if_addr payload)
      (\<lambda>header. and_then (attrs (drop 8 payload))
      (\<lambda>as. and_then (try_fold address_attr as (None, ucast (ia_flags header)))
      (\<lambda>(addr, flags). and_then (ok_or (InvalidData ''address has no bytes'') addr)
      (\<lambda>b. Ok \<lparr>ad_ifindex = ia_index header, ad_family = ia_family header, ad_prefix_len = ia_prefix_len header,
         ad_scope = ia_scope header, ad_flags = flags, ad_bytes = b\<rparr>))))"

record route_acc =
  ra_table :: u32
  ra_oif :: "u32 option"
  ra_has_dst :: bool
  ra_metric :: "u32 option"
  ra_preference :: "u8 option"
  ra_extra :: bool
  ra_extra_attr_kinds :: "u16 list"
  ra_seen :: "u16 btree_set"

definition route_extra :: "u16 \<Rightarrow> route_acc \<Rightarrow> route_acc" where
  "route_extra k s = s\<lparr>ra_extra := True, ra_extra_attr_kinds := ra_extra_attr_kinds s @ [k]\<rparr>"

definition route_attr :: "attr \<Rightarrow> route_acc \<Rightarrow> io_error + route_acc" where
  "route_attr a s0 =
    (let k = at_kind a;
         s1 = (if set_contains (ra_seen s0) k then route_extra k s0 else s0);
         s = s1\<lparr>ra_seen := set_insert k (ra_seen s1)\<rparr>
     in if k = RTA_TABLE then and_then (attr_u32 a) (\<lambda>v. Ok (s\<lparr>ra_table := v\<rparr>))
        else if k = RTA_OIF then and_then (attr_u32 a) (\<lambda>v. Ok (s\<lparr>ra_oif := Some v\<rparr>))
        else if k = RTA_DST then Ok (s\<lparr>ra_has_dst := True\<rparr>)
        else if k = RTA_PRIORITY then and_then (attr_u32 a) (\<lambda>v. Ok (s\<lparr>ra_metric := Some v\<rparr>))
        else if k = RTA_CACHEINFO \<and> length (at_payload a) = 32 then Ok s
        else if k = RTA_PREF then
          (case at_payload a of
             [v] \<Rightarrow> Ok (s\<lparr>ra_preference := Some v\<rparr>)
           | _ \<Rightarrow> Err (InvalidData ''route preference attribute has the wrong size''))
        else Ok (route_extra k s))"

definition parse_route :: "bytes \<Rightarrow> io_error + route" where
  "parse_route payload =
    and_then (read_rt payload)
      (\<lambda>header. and_then (attrs (drop 12 payload))
      (\<lambda>as. and_then (try_fold route_attr as
         \<lparr>ra_table = ucast (rt_table header), ra_oif = None, ra_has_dst = False, ra_metric = None, ra_preference = None,
          ra_extra = (rt_src_len header \<noteq> 0 \<or> rt_tos header \<noteq> 0 \<or> rt_flags header \<noteq> 0),
          ra_extra_attr_kinds = [], ra_seen = []\<rparr>)
      (\<lambda>s. Ok \<lparr>ro_family = rt_family header, ro_dst_len = rt_dst_len header, ro_table = ra_table s,
         ro_protocol = rt_protocol header, ro_scope = rt_scope header, ro_kind = rt_kind header, ro_oif = ra_oif s,
         ro_has_dst = ra_has_dst s, ro_metric = ra_metric s, ro_preference = ra_preference s,
         ro_extra_attrs = ra_extra s, ro_extra_attr_kinds = ra_extra_attr_kinds s\<rparr>)))"

record rule_acc =
  rc_table :: u32
  rc_priority :: "u32 option"
  rc_iif_name :: "string option"
  rc_suppress_prefix_len :: "u32 option"
  rc_protocol :: "u8 option"
  rc_extra :: bool
  rc_extra_attr_kinds :: "u16 list"
  rc_seen :: "u16 btree_set"

definition rule_extra :: "u16 \<Rightarrow> rule_acc \<Rightarrow> rule_acc" where
  "rule_extra k s = s\<lparr>rc_extra := True, rc_extra_attr_kinds := rc_extra_attr_kinds s @ [k]\<rparr>"

definition rule_attr :: "attr \<Rightarrow> rule_acc \<Rightarrow> io_error + rule_acc" where
  "rule_attr a s0 =
    (let k = at_kind a;
         s1 = (if set_contains (rc_seen s0) k then rule_extra k s0 else s0);
         s = s1\<lparr>rc_seen := set_insert k (rc_seen s1)\<rparr>
     in if k = FRA_TABLE then and_then (attr_u32 a) (\<lambda>v. Ok (s\<lparr>rc_table := v\<rparr>))
        else if k = FRA_PRIORITY then and_then (attr_u32 a) (\<lambda>v. Ok (s\<lparr>rc_priority := Some v\<rparr>))
        else if k = FRA_IIFNAME then and_then (attr_cstr a) (\<lambda>v. Ok (s\<lparr>rc_iif_name := Some v\<rparr>))
        else if k = FRA_SUPPRESS_PREFIXLEN then
          and_then (attr_u32 a) (\<lambda>v. Ok (s\<lparr>rc_suppress_prefix_len := Some v\<rparr>))
        else if k = FRA_PROTOCOL then
          (case at_payload a of
             [v] \<Rightarrow> Ok (s\<lparr>rc_protocol := Some v\<rparr>)
           | _ \<Rightarrow> Err (InvalidData ''rule protocol attribute has the wrong size''))
        else Ok (rule_extra k s))"

definition parse_rule :: "bytes \<Rightarrow> io_error + rule" where
  "parse_rule payload =
    and_then (read_fib_rule payload)
      (\<lambda>header. and_then (attrs (drop 12 payload))
      (\<lambda>as. and_then (try_fold rule_attr as
         \<lparr>rc_table = ucast (fr_table header), rc_priority = None, rc_iif_name = None, rc_suppress_prefix_len = None,
          rc_protocol = None, rc_extra = (fr_tos header \<noteq> 0 \<or> fr_flags header \<noteq> 0), rc_extra_attr_kinds = [], rc_seen = []\<rparr>)
      (\<lambda>s. Ok \<lparr>ru_family = fr_family header, ru_dst_len = fr_dst_len header, ru_src_len = fr_src_len header,
         ru_table = rc_table s, ru_action = fr_action header, ru_priority = rc_priority s, ru_iif_name = rc_iif_name s,
         ru_suppress_prefix_len = rc_suppress_prefix_len s, ru_protocol = rc_protocol s,
         ru_extra_attrs = rc_extra s, ru_extra_attr_kinds = rc_extra_attr_kinds s\<rparr>)))"

record qdisc_acc =
  qa_kind :: "string option"
  qa_options_nonempty :: bool
  qa_ingress_block :: bool
  qa_egress_block :: bool
  qa_unknown :: bool
  qa_duplicate :: bool
  qa_seen :: "u16 btree_set"

definition qdisc_attr :: "attr \<Rightarrow> qdisc_acc \<Rightarrow> io_error + qdisc_acc" where
  "qdisc_attr a s0 =
    (let k = at_kind a;
         s = s0\<lparr>qa_duplicate := qa_duplicate s0 \<or> set_contains (qa_seen s0) k, qa_seen := set_insert k (qa_seen s0)\<rparr>
     in if k = TCA_KIND then and_then (attr_cstr a) (\<lambda>v. Ok (s\<lparr>qa_kind := Some v\<rparr>))
        else if k = TCA_OPTIONS then Ok (s\<lparr>qa_options_nonempty := (at_payload a \<noteq> [])\<rparr>)
        else if k = TCA_INGRESS_BLOCK then Ok (s\<lparr>qa_ingress_block := True\<rparr>)
        else if k = TCA_EGRESS_BLOCK then Ok (s\<lparr>qa_egress_block := True\<rparr>)
        else if 3 \<le> k \<and> k \<le> 12 then Ok s
        else Ok (s\<lparr>qa_unknown := True\<rparr>))"

definition parse_qdisc :: "bytes \<Rightarrow> io_error + qdisc" where
  "parse_qdisc payload =
    and_then (read_tc payload)
      (\<lambda>header. and_then (attrs (drop 20 payload))
      (\<lambda>as. and_then (try_fold qdisc_attr as
         \<lparr>qa_kind = None, qa_options_nonempty = False, qa_ingress_block = False, qa_egress_block = False,
          qa_unknown = False, qa_duplicate = False, qa_seen = []\<rparr>)
      (\<lambda>s. and_then (positive_index (tm_ifindex header))
      (\<lambda>ifindex. Ok \<lparr>qd_ifindex = ifindex, qd_handle = tm_handle header, qd_parent = tm_parent header, qd_kind = qa_kind s,
         qd_options_nonempty = qa_options_nonempty s, qd_ingress_block = qa_ingress_block s,
         qd_egress_block = qa_egress_block s, qd_unknown_attrs = qa_unknown s, qd_duplicate_attrs = qa_duplicate s\<rparr>))))"

record filter_acc =
  fa_kind :: "string option"
  fa_chain :: u32
  fa_direct_action :: bool
  fa_bpf_flags :: "u32 option"
  fa_prog_id :: "u32 option"
  fa_prog_tag :: "bytes option"
  fa_prog_name :: "string option"
  fa_flags_gen :: "u32 option"
  fa_unknown :: bool
  fa_duplicate :: bool
  fa_seen :: "u16 btree_set"

definition filter_option :: "attr \<Rightarrow> filter_acc \<times> u16 btree_set \<Rightarrow> io_error + filter_acc \<times> u16 btree_set" where
  "filter_option opt = (\<lambda>(s0, option_seen).
    let k = at_kind opt; s = s0\<lparr>fa_duplicate := fa_duplicate s0 \<or> set_contains option_seen k\<rparr>
    in and_then
      (if k = TCA_BPF_FLAGS then
         and_then (attr_u32 opt)
           (\<lambda>flags. Ok (s\<lparr>fa_direct_action := (flags AND TCA_BPF_FLAG_ACT_DIRECT \<noteq> 0), fa_bpf_flags := Some flags\<rparr>))
       else if k = TCA_BPF_FLAGS_GEN then and_then (attr_u32 opt) (\<lambda>v. Ok (s\<lparr>fa_flags_gen := Some v\<rparr>))
       else if k = TCA_BPF_TAG then
         Ok (if length (at_payload opt) = 8 then s\<lparr>fa_prog_tag := Some (at_payload opt)\<rparr> else s\<lparr>fa_unknown := True\<rparr>)
       else if k = TCA_BPF_ID then and_then (attr_u32 opt) (\<lambda>v. Ok (s\<lparr>fa_prog_id := Some v\<rparr>))
       else if k = TCA_BPF_NAME then and_then (attr_cstr opt) (\<lambda>v. Ok (s\<lparr>fa_prog_name := Some v\<rparr>))
       else Ok (s\<lparr>fa_unknown := True\<rparr>))
      (\<lambda>s'. Ok (s', set_insert k option_seen)))"

definition filter_attr :: "attr \<Rightarrow> filter_acc \<Rightarrow> io_error + filter_acc" where
  "filter_attr a s0 =
    (let k = at_kind a;
         s = s0\<lparr>fa_duplicate := fa_duplicate s0 \<or> set_contains (fa_seen s0) k, fa_seen := set_insert k (fa_seen s0)\<rparr>
     in if k = TCA_KIND then and_then (attr_cstr a) (\<lambda>v. Ok (s\<lparr>fa_kind := Some v\<rparr>))
        else if k = TCA_CHAIN then and_then (attr_u32 a) (\<lambda>v. Ok (s\<lparr>fa_chain := v\<rparr>))
        else if k = TCA_OPTIONS then
          and_then (attrs (at_payload a))
            (\<lambda>opts. and_then (try_fold filter_option opts (s, [])) (\<lambda>(s', _). Ok s'))
        else if 3 \<le> k \<and> k \<le> 10 \<or> k = 12 then Ok s
        else Ok (s\<lparr>fa_unknown := True\<rparr>))"

definition parse_filter :: "bytes \<Rightarrow> io_error + tc_filter" where
  "parse_filter payload =
    and_then (read_tc payload)
      (\<lambda>header. and_then (attrs (drop 20 payload))
      (\<lambda>as. and_then (try_fold filter_attr as
         \<lparr>fa_kind = None, fa_chain = 0, fa_direct_action = False, fa_bpf_flags = None, fa_prog_id = None,
          fa_prog_tag = None, fa_prog_name = None, fa_flags_gen = None, fa_unknown = False, fa_duplicate = False, fa_seen = []\<rparr>)
      (\<lambda>s. and_then (positive_index (tm_ifindex header))
      (\<lambda>ifindex. Ok \<lparr>tf_ifindex = ifindex, tf_parent = tm_parent header, tf_handle = tm_handle header, tf_chain = fa_chain s,
         tf_priority = ucast (drop_bit 16 (tm_info header)), tf_protocol = from_be16 (ucast (tm_info header)),
         tf_kind = fa_kind s, tf_direct_action = fa_direct_action s, tf_bpf_flags = fa_bpf_flags s,
         tf_prog_id = fa_prog_id s, tf_prog_tag = fa_prog_tag s, tf_prog_name = fa_prog_name s, tf_flags_gen = fa_flags_gen s,
         tf_unknown_attrs = fa_unknown s, tf_duplicate_attrs = fa_duplicate s\<rparr>))))"

section \<open>Requests\<close>

text \<open>The builder closures write attributes; closing a nested attribute that is not open panics.\<close>

type_synonym attrs_writer = "message_builder \<Rightarrow> message_builder option"

definition send_ack :: "message_builder option \<Rightarrow> ('m, io_error, unit) action" where
  "send_ack mb w =
    (case Option.bind mb mb_finish of None \<Rightarrow> (Panics, w) | Some request \<Rightarrow> sock_ack request w)"

definition mutate_flags_with_attrs :: "u16 \<Rightarrow> bool \<Rightarrow> bytes \<Rightarrow> attrs_writer \<Rightarrow> ('m, io_error, unit) action" where
  "mutate_flags_with_attrs kind create body write =
    act_bind sock_next_seq
      (\<lambda>seq. let flags = NLM_F_REQUEST OR NLM_F_ACK;
                 flags = (if create then flags OR (NLM_F_CREATE OR NLM_F_EXCL) else flags)
             in send_ack (write (mb_new kind flags seq body)))"

definition mutate_with_attrs :: "u16 \<Rightarrow> bytes \<Rightarrow> attrs_writer \<Rightarrow> ('m, io_error, unit) action" where
  "mutate_with_attrs kind body write = mutate_flags_with_attrs kind False body write"

definition rt_mutate :: "u16 \<Rightarrow> bytes \<Rightarrow> ('m, io_error, unit) action" where
  "rt_mutate kind body = mutate_with_attrs kind body Some"

definition rt_dump :: "u16 \<Rightarrow> bytes \<Rightarrow> ('m, io_error, raw_message list) action" where
  "rt_dump kind body =
    act_bind sock_next_seq
      (\<lambda>seq w. case mb_finish (mb_new kind (NLM_F_REQUEST OR NLM_F_ACK OR NLM_F_DUMP) seq body) of
         None \<Rightarrow> (Panics, w)
       | Some request \<Rightarrow> sock_dump request w)"

definition dump_parsed :: "u16 \<Rightarrow> bytes \<Rightarrow> u16 \<Rightarrow> (bytes \<Rightarrow> io_error + 'a) \<Rightarrow> ('m, io_error, 'a list) action" where
  "dump_parsed get body new parse =
    act_bind (rt_dump get body)
      (\<lambda>messages. lift_result (try_collect (\<lambda>m. parse (rm_payload m)) (filter (\<lambda>m. rm_kind m = new) messages)))"

definition dump_links :: "('m, io_error, link list) action" where
  "dump_links = dump_parsed RTM_GETLINK (if_info_bytes if_info_default) RTM_NEWLINK parse_link"

definition dump_addresses :: "('m, io_error, address list) action" where
  "dump_addresses = dump_parsed RTM_GETADDR (if_addr_bytes if_addr_default) RTM_NEWADDR parse_address"

definition dump_routes :: "('m, io_error, route list) action" where
  "dump_routes = dump_parsed RTM_GETROUTE (rt_bytes rt_default) RTM_NEWROUTE parse_route"

definition dump_rules :: "('m, io_error, rule list) action" where
  "dump_rules = dump_parsed RTM_GETRULE (fib_rule_bytes fib_rule_default) RTM_NEWRULE parse_rule"

definition dump_qdiscs :: "('m, io_error, qdisc list) action" where
  "dump_qdiscs = dump_parsed RTM_GETQDISC (tc_bytes tc_default) RTM_NEWQDISC parse_qdisc"

definition dump_filters :: "u32 \<Rightarrow> u32 \<Rightarrow> ('m, io_error, tc_filter list) action" where
  "dump_filters ifindex parent =
    dump_parsed RTM_GETTFILTER
      (tc_bytes (tc_default\<lparr>tm_family := AF_UNSPEC, tm_ifindex := ifindex, tm_parent := parent\<rparr>)) RTM_NEWTFILTER parse_filter"

definition net_snapshot :: "('m, io_error, network_snapshot) action" where
  "net_snapshot =
    act_bind dump_links
      (\<lambda>links. act_bind dump_addresses
      (\<lambda>addresses. act_bind dump_routes
      (\<lambda>routes. act_bind dump_rules
      (\<lambda>rules. act_bind dump_qdiscs
      (\<lambda>qdiscs. ret \<lparr>ns_links = links, ns_addresses = addresses, ns_routes = routes, ns_rules = rules, ns_qdiscs = qdiscs\<rparr>)))))"

definition veth_attrs :: "string \<Rightarrow> string \<Rightarrow> u32 \<Rightarrow> attrs_writer" where
  "veth_attrs host peer mtu mb =
    (let r = mb_attr_u32 IFLA_MTU mtu (mb_attr_cstr IFLA_IFNAME host mb);
         r = mb_begin_nested IFLA_INFO_DATA (mb_attr_cstr IFLA_INFO_KIND ''veth'' (mb_begin_nested IFLA_LINKINFO r));
         r = mb_nested_payload (if_info_bytes if_info_default) (mb_begin_nested VETH_INFO_PEER r);
         r = mb_attr_u32 IFLA_MTU mtu (mb_attr_cstr IFLA_IFNAME peer r)
     in Option.bind (mb_end_nested r) (\<lambda>r. Option.bind (mb_end_nested r) mb_end_nested))"

definition create_veth :: "string \<Rightarrow> string \<Rightarrow> u32 \<Rightarrow> ('m, io_error, unit) action" where
  "create_veth host peer mtu =
    act_bind sock_next_seq
      (\<lambda>seq. send_ack (veth_attrs host peer mtu
        (mb_new RTM_NEWLINK (NLM_F_REQUEST OR NLM_F_ACK OR NLM_F_CREATE OR NLM_F_EXCL) seq (if_info_bytes if_info_default))))"

definition set_link_alias :: "u32 \<Rightarrow> string \<Rightarrow> ('m, io_error, unit) action" where
  "set_link_alias ifindex alias =
    mutate_with_attrs RTM_NEWLINK (if_info_bytes (if_info_default\<lparr>ii_family := AF_UNSPEC, ii_index := ifindex\<rparr>))
      (\<lambda>r. Some (mb_attr_cstr IFLA_IFALIAS alias r))"

definition set_link_up :: "u32 \<Rightarrow> ('m, io_error, unit) action" where
  "set_link_up ifindex =
    rt_mutate RTM_NEWLINK (if_info_bytes
      (if_info_default\<lparr>ii_family := AF_UNSPEC, ii_index := ifindex, ii_flags := IFF_UP, ii_change := IFF_UP\<rparr>))"

definition delete_link :: "u32 \<Rightarrow> ('m, io_error, unit) action" where
  "delete_link ifindex =
    rt_mutate RTM_DELLINK (if_info_bytes (if_info_default\<lparr>ii_family := AF_UNSPEC, ii_index := ifindex\<rparr>))"

definition local_route :: "u16 \<Rightarrow> bool \<Rightarrow> u8 \<Rightarrow> u32 \<Rightarrow> u8 \<Rightarrow> u32 \<Rightarrow> ('m, io_error, unit) action" where
  "local_route kind create family table protocol lo_ifindex =
    mutate_flags_with_attrs kind create
      (rt_bytes (rt_default\<lparr>rt_family := family, rt_table := RT_TABLE_UNSPEC, rt_protocol := protocol,
         rt_scope := RT_SCOPE_HOST, rt_kind := RTN_LOCAL\<rparr>))
      (\<lambda>r. Some (mb_attr_u32 RTA_OIF lo_ifindex (mb_attr_u32 RTA_TABLE table r)))"

definition add_local_route :: "u8 \<Rightarrow> u32 \<Rightarrow> u8 \<Rightarrow> u32 \<Rightarrow> ('m, io_error, unit) action" where
  "add_local_route family table protocol lo_ifindex = local_route RTM_NEWROUTE True family table protocol lo_ifindex"

definition delete_local_route :: "u8 \<Rightarrow> u32 \<Rightarrow> u8 \<Rightarrow> u32 \<Rightarrow> ('m, io_error, unit) action" where
  "delete_local_route family table protocol lo_ifindex = local_route RTM_DELROUTE False family table protocol lo_ifindex"

definition rt_rule :: "u16 \<Rightarrow> bool \<Rightarrow> u8 \<Rightarrow> u32 \<Rightarrow> u32 \<Rightarrow> string \<Rightarrow> ('m, io_error, unit) action" where
  "rt_rule kind create family priority table iif =
    mutate_flags_with_attrs kind create
      (fib_rule_bytes (fib_rule_default\<lparr>fr_family := family, fr_table := RT_TABLE_UNSPEC, fr_action := FR_ACT_TO_TBL\<rparr>))
      (\<lambda>r. Some (mb_attr_cstr FRA_IIFNAME iif (mb_attr_u32 FRA_TABLE table (mb_attr_u32 FRA_PRIORITY priority r))))"

definition add_rule :: "u8 \<Rightarrow> u32 \<Rightarrow> u32 \<Rightarrow> string \<Rightarrow> ('m, io_error, unit) action" where
  "add_rule family priority table iif = rt_rule RTM_NEWRULE True family priority table iif"

definition delete_rule :: "u8 \<Rightarrow> u32 \<Rightarrow> u32 \<Rightarrow> string \<Rightarrow> ('m, io_error, unit) action" where
  "delete_rule family priority table iif = rt_rule RTM_DELRULE False family priority table iif"

definition create_clsact :: "u32 \<Rightarrow> ('m, io_error, unit) action" where
  "create_clsact ifindex =
    mutate_flags_with_attrs RTM_NEWQDISC True
      (tc_bytes (tc_default\<lparr>tm_family := AF_UNSPEC, tm_ifindex := ifindex, tm_handle := TC_CLSACT_HANDLE, tm_parent := TC_H_CLSACT\<rparr>))
      (\<lambda>r. Some (mb_attr_cstr TCA_KIND ''clsact'' r))"

definition attach_filter :: "tc_attach \<Rightarrow> ('m, io_error, unit) action" where
  "attach_filter attach =
    mutate_flags_with_attrs RTM_NEWTFILTER True
      (tc_bytes (tc_default\<lparr>tm_family := AF_UNSPEC, tm_ifindex := ta_ifindex attach, tm_handle := ta_handle attach,
         tm_parent := ta_parent attach, tm_info := tc_info (ta_priority attach) (ta_protocol attach)\<rparr>))
      (\<lambda>r. let r = mb_begin_nested TCA_OPTIONS (mb_attr_u32 TCA_CHAIN (ta_chain attach) (mb_attr_cstr TCA_KIND ''bpf'' r))
           in mb_end_nested (mb_attr_u32 TCA_BPF_FLAGS TCA_BPF_FLAG_ACT_DIRECT
                (mb_attr_cstr TCA_BPF_NAME (ta_program_name attach) (mb_attr_u32 TCA_BPF_FD (ta_program_fd attach) r))))"

definition detach_filter :: "u32 \<Rightarrow> u32 \<Rightarrow> u32 \<Rightarrow> u32 \<Rightarrow> u16 \<Rightarrow> u16 \<Rightarrow> ('m, io_error, unit) action" where
  "detach_filter ifindex parent handle chain priority protocol =
    mutate_with_attrs RTM_DELTFILTER
      (tc_bytes (tc_default\<lparr>tm_family := AF_UNSPEC, tm_ifindex := ifindex, tm_handle := handle, tm_parent := parent,
         tm_info := tc_info priority protocol\<rparr>))
      (\<lambda>r. Some (mb_attr_u32 TCA_CHAIN chain (mb_attr_cstr TCA_KIND ''bpf'' r)))"

text \<open>
  \<open>if_nametoindex\<close>: the answer is the index the C library returned and \<open>errno\<close>. A name with a NUL never
  reaches the call; its error kind is one of those the model does not tell apart.
\<close>

definition if_nametoindex :: "string \<Rightarrow> ('m, io_error, u32) action" where
  "if_nametoindex name =
    (if CHR 0x00 \<in> set name then fail (InvalidInput ''interface name has NUL'')
     else call_kernel (Index_Call name) (\<lambda>a. case a of
         Index_Answer index errno \<Rightarrow> Some (Returned (if index = 0 then Err (Os errno) else Ok index))
       | _ \<Rightarrow> None))"

section \<open>A recognised filter has no foreign attribute\<close>

text \<open>The image of the field that an option of the given kind sets.\<close>

definition opt_field :: "u16 \<Rightarrow> filter_acc \<Rightarrow> bytes option" where
  "opt_field k s =
    (if k = TCA_BPF_FLAGS then map_option (le_bytes 4) (fa_bpf_flags s)
     else if k = TCA_BPF_FLAGS_GEN then map_option (le_bytes 4) (fa_flags_gen s)
     else if k = TCA_BPF_TAG then fa_prog_tag s
     else if k = TCA_BPF_ID then map_option (le_bytes 4) (fa_prog_id s)
     else if k = TCA_BPF_NAME then map_option (\<lambda>n. as_bytes n @ [0]) (fa_prog_name s)
     else None)"

definition BPF_OPTIONS :: "u16 list" where
  "BPF_OPTIONS = [TCA_BPF_NAME, TCA_BPF_FLAGS, TCA_BPF_FLAGS_GEN, TCA_BPF_TAG, TCA_BPF_ID]"

lemmas option_kinds = TCA_BPF_NAME_def TCA_BPF_FLAGS_def TCA_BPF_FLAGS_GEN_def TCA_BPF_TAG_def TCA_BPF_ID_def

definition clean :: "filter_acc \<Rightarrow> bool" where
  "clean s \<longleftrightarrow> \<not> fa_unknown s \<and> \<not> fa_duplicate s"

lemma attr_u32_bytes: "attr_u32 a = Ok v \<longleftrightarrow> at_payload a = le_bytes 4 v"
  using le_bytes_from_le_bytes [of "at_payload a", where 'a = 32] by (auto simp: attr_u32_def)

lemma attr_cstr_bytes:
  assumes "attr_cstr a = Ok v"
  shows "at_payload a = as_bytes v @ [0]"
proof -
  have p: "at_payload a \<noteq> []" "last (at_payload a) = 0" "v = map char_of_byte (butlast (at_payload a))"
    using assms by (auto simp: attr_cstr_def ok_or_eq_Ok from_utf8_def split: if_split_asm)
  have "as_bytes v = butlast (at_payload a)" unfolding p(3) as_bytes_def by (simp add: comp_def)
  then show ?thesis using append_butlast_last_id [OF p(1)] p(2) by simp
qed

lemma filter_option_clean:
  assumes "filter_option opt (s, seen) = Ok (s', seen')" and "clean s'"
  shows "clean s \<and> at_kind opt \<notin> set seen \<and> set seen' = insert (at_kind opt) (set seen) \<and> at_kind opt \<in> set BPF_OPTIONS \<and>
    opt_field (at_kind opt) s' = Some (at_payload opt) \<and> (\<forall>k. k \<noteq> at_kind opt \<longrightarrow> opt_field k s' = opt_field k s) \<and>
    fa_kind s' = fa_kind s \<and> fa_chain s' = fa_chain s \<and> fa_seen s' = fa_seen s"
  using assms
  by (auto simp: filter_option_def Let_def and_then_eq_Ok clean_def BPF_OPTIONS_def opt_field_def option_kinds set_contains_def
      attr_u32_bytes dest: attr_cstr_bytes split: if_split_asm)

lemma filter_options_clean:
  "try_fold filter_option opts (s, seen) = Ok (s', seen') \<Longrightarrow> clean s' \<Longrightarrow>
   clean s \<and> distinct (map at_kind opts) \<and> set (map at_kind opts) \<inter> set seen = {} \<and> set (map at_kind opts) \<subseteq> set BPF_OPTIONS \<and>
   (\<forall>x\<in>set opts. opt_field (at_kind x) s' = Some (at_payload x)) \<and>
   (\<forall>k. k \<notin> set (map at_kind opts) \<longrightarrow> opt_field k s' = opt_field k s) \<and>
   fa_kind s' = fa_kind s \<and> fa_chain s' = fa_chain s \<and> fa_seen s' = fa_seen s"
proof (induction opts arbitrary: s seen)
  case (Cons x xs)
  obtain s1 seen1 where x: "filter_option x (s, seen) = Ok (s1, seen1)" "try_fold filter_option xs (s1, seen1) = Ok (s', seen')"
    using Cons.prems(1) by (auto simp: and_then_eq_Ok)
  note IH = Cons.IH [OF x(2) Cons.prems(2)]
  note first = filter_option_clean [OF x(1) IH [THEN conjunct1]]
  then show ?case using IH by auto
qed simp

text \<open>The nested options set exactly the fields of their kinds.\<close>

definition options_set :: "bytes \<Rightarrow> filter_acc \<Rightarrow> filter_acc \<Rightarrow> bool" where
  "options_set payload s s' \<longleftrightarrow>
    (\<exists>opts. attrs payload = Ok opts \<and> distinct (map at_kind opts) \<and> set (map at_kind opts) \<subseteq> set BPF_OPTIONS \<and>
       (\<forall>x\<in>set opts. opt_field (at_kind x) s' = Some (at_payload x)) \<and>
       (\<forall>k. k \<notin> set (map at_kind opts) \<longrightarrow> opt_field k s' = opt_field k s))"

lemma options_set_cong:
  "(\<And>k. opt_field k s = opt_field k t) \<Longrightarrow> (\<And>k. opt_field k s' = opt_field k t') \<Longrightarrow> options_set p s s' = options_set p t t'"
  by (simp add: options_set_def)

definition attr_set :: "attr \<Rightarrow> filter_acc \<Rightarrow> filter_acc \<Rightarrow> bool" where
  "attr_set a s s' \<longleftrightarrow> 1 \<le> at_kind a \<and> at_kind a \<le> 12 \<and>
    (at_kind a = TCA_KIND \<longrightarrow> map_option (\<lambda>v. as_bytes v @ [0]) (fa_kind s') = Some (at_payload a)) \<and>
    (at_kind a = TCA_CHAIN \<longrightarrow> at_payload a = le_bytes 4 (fa_chain s')) \<and>
    (at_kind a = TCA_OPTIONS \<longrightarrow> options_set (at_payload a) s s')"

text \<open>What an attribute of kind \<open>k\<close> leaves alone.\<close>

definition attr_keeps :: "u16 set \<Rightarrow> filter_acc \<Rightarrow> filter_acc \<Rightarrow> bool" where
  "attr_keeps ks s s' \<longleftrightarrow>
    (TCA_KIND \<notin> ks \<longrightarrow> fa_kind s' = fa_kind s) \<and> (TCA_CHAIN \<notin> ks \<longrightarrow> fa_chain s' = fa_chain s) \<and>
    (TCA_OPTIONS \<notin> ks \<longrightarrow> (\<forall>k. opt_field k s' = opt_field k s))"

lemmas tca_kinds = TCA_KIND_def TCA_CHAIN_def TCA_OPTIONS_def

lemma opt_field_marks [simp]: "opt_field k (s\<lparr>fa_duplicate := d, fa_seen := n\<rparr>) = opt_field k s"
  "opt_field k (s\<lparr>fa_kind := x\<rparr>) = opt_field k s" "opt_field k (s\<lparr>fa_chain := c\<rparr>) = opt_field k s"
  by (simp_all add: opt_field_def)

lemma filter_attr_clean:
  assumes "filter_attr a s = Ok s'" and "clean s'"
  shows "clean s \<and> at_kind a \<notin> set (fa_seen s) \<and> set (fa_seen s') = insert (at_kind a) (set (fa_seen s)) \<and>
    attr_set a s s' \<and> attr_keeps {at_kind a} s s'"
proof -
  define t where "t = s\<lparr>fa_duplicate := fa_duplicate s \<or> set_contains (fa_seen s) (at_kind a), fa_seen := set_insert (at_kind a) (fa_seen s)\<rparr>"
  have t: "clean t \<Longrightarrow> clean s \<and> at_kind a \<notin> set (fa_seen s)" "set (fa_seen t) = insert (at_kind a) (set (fa_seen s))"
    "fa_kind t = fa_kind s" "fa_chain t = fa_chain s" "opt_field k t = opt_field k s" for k
    by (auto simp: t_def clean_def set_contains_def)
  have step: "filter_attr a s = (if at_kind a = TCA_KIND then and_then (attr_cstr a) (\<lambda>v. Ok (t\<lparr>fa_kind := Some v\<rparr>))
        else if at_kind a = TCA_CHAIN then and_then (attr_u32 a) (\<lambda>v. Ok (t\<lparr>fa_chain := v\<rparr>))
        else if at_kind a = TCA_OPTIONS then
          and_then (attrs (at_payload a))
            (\<lambda>opts. and_then (try_fold filter_option opts (t, [])) (\<lambda>(s', _). Ok s'))
        else if 3 \<le> at_kind a \<and> at_kind a \<le> 10 \<or> at_kind a = 12 then Ok t
        else Ok (t\<lparr>fa_unknown := True\<rparr>))"
    by (simp add: filter_attr_def t_def Let_def)
  consider "at_kind a = TCA_KIND" | "at_kind a = TCA_CHAIN" | "at_kind a = TCA_OPTIONS"
    | "at_kind a \<noteq> TCA_KIND" "at_kind a \<noteq> TCA_CHAIN" "at_kind a \<noteq> TCA_OPTIONS" by blast
  then show ?thesis
  proof cases
    case 1
    then show ?thesis using assms t
      by (auto simp: step and_then_eq_Ok clean_def attr_set_def attr_keeps_def tca_kinds dest: attr_cstr_bytes)
  next
    case 2
    then show ?thesis using assms t
      by (auto simp: step and_then_eq_Ok clean_def attr_set_def attr_keeps_def tca_kinds attr_u32_bytes)
  next
    case 3
    then obtain opts seen where o: "attrs (at_payload a) = Ok opts" "try_fold filter_option opts (t, []) = Ok (s', seen)"
      using assms(1) by (auto simp: step and_then_eq_Ok tca_kinds)
    note c = filter_options_clean [OF o(2) assms(2)]
    have "options_set (at_payload a) t s'" unfolding options_set_def using c o(1) by blast
    then have "options_set (at_payload a) s s'" using options_set_cong [of t s s' s'] t(5) by simp
    then show ?thesis using 3 c t by (simp add: attr_set_def attr_keeps_def tca_kinds)
  next
    case 4
    then have "s' = t" "3 \<le> at_kind a \<and> at_kind a \<le> 10 \<or> at_kind a = 12"
      using assms by (auto simp: step clean_def split: if_split_asm)
    moreover have "1 \<le> at_kind a" "at_kind a \<le> 12" using calculation(2) by (auto simp: word_le_nat_alt)
    ultimately show ?thesis using 4 assms(2) t by (simp add: attr_set_def attr_keeps_def)
  qed
qed

lemma attr_set_later:
  assumes "attr_set a s s1" and "attr_keeps ks s1 s'" and "at_kind a \<notin> ks"
  shows "attr_set a s s'"
  using assms options_set_cong [of s s s1 s'] by (auto simp: attr_set_def attr_keeps_def)

lemma attr_set_earlier:
  assumes "attr_set x s1 s'" and "attr_keeps {k} s s1" and "at_kind x \<noteq> k"
  shows "attr_set x s s'"
  using assms options_set_cong [of s1 s s' s'] by (auto simp: attr_set_def attr_keeps_def)

lemma attr_keeps_trans: "attr_keeps A s s1 \<Longrightarrow> attr_keeps B s1 s' \<Longrightarrow> attr_keeps (A \<union> B) s s'"
  by (auto simp: attr_keeps_def)

lemma filter_attrs_clean:
  "try_fold filter_attr as s = Ok s' \<Longrightarrow> clean s' \<Longrightarrow>
   clean s \<and> distinct (map at_kind as) \<and> set (map at_kind as) \<inter> set (fa_seen s) = {} \<and>
   (\<forall>a\<in>set as. attr_set a s s') \<and> attr_keeps (set (map at_kind as)) s s'"
proof (induction as arbitrary: s)
  case Nil
  then show ?case by (simp add: attr_keeps_def)
next
  case (Cons a as)
  obtain s1 where a: "filter_attr a s = Ok s1" "try_fold filter_attr as s1 = Ok s'"
    using Cons.prems(1) by (auto simp: and_then_eq_Ok)
  note IH = Cons.IH [OF a(2) Cons.prems(2)]
  note first = filter_attr_clean [OF a(1) IH [THEN conjunct1]]
  have new: "at_kind a \<notin> set (map at_kind as)" using IH first by auto
  have "attr_set a s s'" using first IH new attr_set_later by blast
  moreover have "attr_set x s s'" if "x \<in> set as" for x
  proof (rule attr_set_earlier [of x s1 s' "at_kind a" s])
    show "attr_set x s1 s'" using IH that by blast
    show "attr_keeps {at_kind a} s s1" using first by blast
    show "at_kind x \<noteq> at_kind a" using new that by (auto simp: image_iff)
  qed
  moreover have "attr_keeps (set (map at_kind (a # as))) s s'"
    using attr_keeps_trans [of "{at_kind a}" s s1 "set (map at_kind as)" s'] first IH by simp
  ultimately show ?case using IH first new by auto
qed

lemma tc_info_iff: "info = tc_info priority protocol \<longleftrightarrow>
  (ucast (drop_bit 16 info) :: u16) = priority \<and> from_be16 (ucast info) = protocol"
proof
  assume i: "info = tc_info priority protocol"
  have "(ucast (drop_bit 16 info) :: u16) = priority" "(ucast info :: u16) = to_be16 protocol"
    unfolding i by (rule bit_word_eqI, auto simp: tc_info_def bit_simps dest: bit_imp_le_length)+
  then show "(ucast (drop_bit 16 info) :: u16) = priority \<and> from_be16 (ucast info) = protocol" by (simp add: from_to_be16)
next
  assume "(ucast (drop_bit 16 info) :: u16) = priority \<and> from_be16 (ucast info) = protocol"
  then have p: "priority = ucast (drop_bit 16 info)" "to_be16 protocol = ucast info" by (auto simp: from_to_be16)
  show "info = tc_info priority protocol"
    unfolding tc_info_def p by (rule bit_word_eqI) (auto simp: bit_simps)
qed

definition initial_filter :: filter_acc where
  "initial_filter = \<lparr>fa_kind = None, fa_chain = 0, fa_direct_action = False, fa_bpf_flags = None, fa_prog_id = None,
     fa_prog_tag = None, fa_prog_name = None, fa_flags_gen = None, fa_unknown = False, fa_duplicate = False, fa_seen = []\<rparr>"

text \<open>The options of a direct-action filter of the given program.\<close>

definition identity_options :: "filter_identity \<Rightarrow> (u16 \<times> bytes) set" where
  "identity_options i =
    {(TCA_BPF_NAME, as_bytes (fi_prog_name i) @ [0]), (TCA_BPF_FLAGS, le_bytes 4 (1 :: u32)),
     (TCA_BPF_FLAGS_GEN, le_bytes 4 (fi_flags_gen i)), (TCA_BPF_TAG, fi_prog_tag i), (TCA_BPF_ID, le_bytes 4 (fi_prog_id i))}"

lemma opt_field_initial [simp]: "opt_field k initial_filter = None"
  by (simp add: opt_field_def initial_filter_def)

lemma options_exact:
  assumes "options_set p initial_filter s"
    and "fa_bpf_flags s = Some 1" "fa_flags_gen s = Some (fi_flags_gen i)" "fa_prog_id s = Some (fi_prog_id i)"
      "fa_prog_tag s = Some (fi_prog_tag i)" "fa_prog_name s = Some (fi_prog_name i)"
  shows "\<exists>opts. attrs p = Ok opts \<and> distinct (map at_kind opts) \<and> (\<lambda>x. (at_kind x, at_payload x)) ` set opts = identity_options i"
proof -
  obtain opts where o: "attrs p = Ok opts" "distinct (map at_kind opts)" "set (map at_kind opts) \<subseteq> set BPF_OPTIONS"
    "\<forall>x\<in>set opts. opt_field (at_kind x) s = Some (at_payload x)" "\<forall>k. k \<notin> set (map at_kind opts) \<longrightarrow> opt_field k s = None"
    using assms(1) by (auto simp: options_set_def)
  have f: "opt_field k s = Some b \<longleftrightarrow> (k, b) \<in> identity_options i" for k b
    using assms(2-6) by (auto simp: opt_field_def identity_options_def option_kinds)
  have "(k, b) \<in> (\<lambda>x. (at_kind x, at_payload x)) ` set opts \<longleftrightarrow> (k, b) \<in> identity_options i" for k b
    unfolding f [symmetric]
  proof
    assume "(k, b) \<in> (\<lambda>x. (at_kind x, at_payload x)) ` set opts"
    then show "opt_field k s = Some b" using o(4) by auto
  next
    assume b: "opt_field k s = Some b"
    then have "k \<in> set (map at_kind opts)" using o(5) by force
    then obtain x where "x \<in> set opts" "at_kind x = k" by auto
    then show "(k, b) \<in> (\<lambda>x. (at_kind x, at_payload x)) ` set opts" using o(4) b by force
  qed
  then show ?thesis using o(1,2) by (intro exI [of _ opts]) auto
qed

lemma parse_filter_Ok:
  assumes "parse_filter payload = Ok f"
  shows "\<exists>h as s. read_tc payload = Ok h \<and> attrs (drop 20 payload) = Ok as \<and> try_fold filter_attr as initial_filter = Ok s \<and>
    tf_ifindex f = tm_ifindex h \<and> tf_parent f = tm_parent h \<and> tf_handle f = tm_handle h \<and>
    tm_info h = tc_info (tf_priority f) (tf_protocol f) \<and> tf_chain f = fa_chain s \<and> tf_kind f = fa_kind s \<and>
    tf_bpf_flags f = fa_bpf_flags s \<and> tf_prog_id f = fa_prog_id s \<and> tf_prog_tag f = fa_prog_tag s \<and>
    tf_prog_name f = fa_prog_name s \<and> tf_flags_gen f = fa_flags_gen s \<and>
    (\<not> tf_unknown_attrs f \<and> \<not> tf_duplicate_attrs f \<longleftrightarrow> clean s)"
  using assms
  by (auto simp: parse_filter_def and_then_eq_Ok initial_filter_def positive_index_def tc_info_iff clean_def split: if_split_asm)

text \<open>
  C34: a filter of a dump that matches a recorded identity is that filter and nothing else. Its header
  carries the recorded interface, parent, handle, priority and protocol; no attribute is repeated or
  outside the known range; a chain attribute names the recorded chain; its kind is \<open>bpf\<close> and its options are exactly the five of a direct-action
  filter with the recorded program name, tag, id and generation flags, byte for byte.
\<close>

theorem matching_filter_is_exact:
  assumes "parse_filter payload = Ok f" and "fi_matches i f"
  shows "\<exists>h as a opts. read_tc payload = Ok h \<and> tm_ifindex h = fi_ifindex i \<and> tm_parent h = fi_parent i \<and>
    tm_handle h = fi_handle i \<and> tm_info h = tc_info (fi_priority i) (fi_protocol i) \<and>
    attrs (drop 20 payload) = Ok as \<and> distinct (map at_kind as) \<and> list_all (\<lambda>x. 1 \<le> at_kind x \<and> at_kind x \<le> 12) as \<and>
    list_all (\<lambda>x. at_kind x = TCA_CHAIN \<longrightarrow> at_payload x = le_bytes 4 (fi_chain i)) as \<and>
    (TCA_KIND, as_bytes ''bpf'' @ [0]) \<in> (\<lambda>x. (at_kind x, at_payload x)) ` set as \<and>
    a \<in> set as \<and> at_kind a = TCA_OPTIONS \<and> attrs (at_payload a) = Ok opts \<and> distinct (map at_kind opts) \<and>
    (\<lambda>x. (at_kind x, at_payload x)) ` set opts = identity_options i"
proof -
  obtain h as s where p: "read_tc payload = Ok h" "attrs (drop 20 payload) = Ok as" "try_fold filter_attr as initial_filter = Ok s"
    "tf_ifindex f = tm_ifindex h" "tf_parent f = tm_parent h" "tf_handle f = tm_handle h"
    "tm_info h = tc_info (tf_priority f) (tf_protocol f)" "tf_kind f = fa_kind s"
    "tf_bpf_flags f = fa_bpf_flags s" "tf_prog_id f = fa_prog_id s" "tf_prog_tag f = fa_prog_tag s"
    "tf_prog_name f = fa_prog_name s" "tf_flags_gen f = fa_flags_gen s"
    "\<not> tf_unknown_attrs f \<and> \<not> tf_duplicate_attrs f \<longleftrightarrow> clean s" "tf_chain f = fa_chain s"
    using parse_filter_Ok [OF assms(1)] by blast
  have m: "clean s" "fa_kind s = Some ''bpf''" "fa_bpf_flags s = Some 1" "fa_flags_gen s = Some (fi_flags_gen i)"
    "fa_prog_id s = Some (fi_prog_id i)" "fa_prog_tag s = Some (fi_prog_tag i)" "fa_prog_name s = Some (fi_prog_name i)"
    using assms(2) p(8-14) by (simp_all add: fi_matches_def TCA_BPF_FLAG_ACT_DIRECT_def)
  note c = filter_attrs_clean [OF p(3) m(1)]
  have "fa_kind initial_filter = None" by (simp add: initial_filter_def)
  moreover have "opt_field TCA_BPF_FLAGS s \<noteq> None" using m(3) by (simp add: opt_field_def)
  ultimately have "TCA_KIND \<in> set (map at_kind as)" "TCA_OPTIONS \<in> set (map at_kind as)"
    using c m(2) unfolding attr_keeps_def by (metis option.distinct(1), metis opt_field_initial)
  then obtain k a where k: "k \<in> set as" "at_kind k = TCA_KIND" and a: "a \<in> set as" "at_kind a = TCA_OPTIONS" by auto
  have ka: "attr_set k initial_filter s" "attr_set a initial_filter s" using c k a by blast+
  then have "at_payload k = as_bytes ''bpf'' @ [0]" using k(2) m(2) by (simp add: attr_set_def)
  then have "(TCA_KIND, as_bytes ''bpf'' @ [0]) \<in> (\<lambda>x. (at_kind x, at_payload x)) ` set as" using k by force
  moreover have "list_all (\<lambda>x. 1 \<le> at_kind x \<and> at_kind x \<le> 12) as" using c by (auto simp: list_all_iff attr_set_def)
  moreover have "list_all (\<lambda>x. at_kind x = TCA_CHAIN \<longrightarrow> at_payload x = le_bytes 4 (fi_chain i)) as"
    using c assms(2) p(15) by (auto simp: list_all_iff attr_set_def fi_matches_def)
  moreover have "options_set (at_payload a) initial_filter s" using ka(2) a(2) by (simp add: attr_set_def)
  then obtain opts where "attrs (at_payload a) = Ok opts" "distinct (map at_kind opts)"
    "(\<lambda>x. (at_kind x, at_payload x)) ` set opts = identity_options i"
    using options_exact [OF _ m(3-7)] by blast
  moreover have "tm_ifindex h = fi_ifindex i" "tm_parent h = fi_parent i" "tm_handle h = fi_handle i"
    "tm_info h = tc_info (fi_priority i) (fi_protocol i)"
    using p(4-7) assms(2) by (auto simp: fi_matches_def)
  ultimately show ?thesis using p(1,2) c a by blast
qed

definition sample_identity :: filter_identity where
  "sample_identity = \<lparr>fi_ifindex = 7, fi_parent = TC_H_EGRESS, fi_handle = 1, fi_chain = 0, fi_priority = 2,
     fi_protocol = ETH_P_ALL, fi_prog_id = 42, fi_prog_tag = replicate 8 1, fi_prog_name = ''f'', fi_flags_gen = 0\<rparr>"

text \<open>The dump of that filter as the kernel writes it.\<close>

definition sample_filter :: bytes where
  "sample_filter =
    tc_bytes (tc_default\<lparr>tm_ifindex := 7, tm_handle := 1, tm_parent := TC_H_EGRESS, tm_info := tc_info 2 ETH_P_ALL\<rparr>)
    @ concat (map nla_bytes [Leaf TCA_KIND (as_bytes ''bpf'' @ [0]), Leaf TCA_CHAIN (le_bytes 4 (0 :: u32)),
        Nest TCA_OPTIONS [Leaf TCA_BPF_NAME (as_bytes ''f'' @ [0]), Leaf TCA_BPF_FLAGS (le_bytes 4 (1 :: u32)),
          Leaf TCA_BPF_FLAGS_GEN (le_bytes 4 (0 :: u32)), Leaf TCA_BPF_TAG (replicate 8 1), Leaf TCA_BPF_ID (le_bytes 4 (42 :: u32))]])"

definition sample_parsed :: tc_filter where
  "sample_parsed = \<lparr>tf_ifindex = 7, tf_parent = TC_H_EGRESS, tf_handle = 1, tf_chain = 0, tf_priority = 2, tf_protocol = ETH_P_ALL,
     tf_kind = Some ''bpf'', tf_direct_action = True, tf_bpf_flags = Some 1, tf_prog_id = Some 42, tf_prog_tag = Some (replicate 8 1),
     tf_prog_name = Some ''f'', tf_flags_gen = Some 0, tf_unknown_attrs = False, tf_duplicate_attrs = False\<rparr>"

lemma sample_parse: "parse_filter sample_filter = Ok sample_parsed"
  by code_simp

lemma sample_matches: "fi_matches sample_identity sample_parsed"
  by code_simp

theorem matching_filter_is_exact_witness:
  "\<exists>h as a opts. read_tc sample_filter = Ok h \<and> tm_info h = tc_info 2 ETH_P_ALL \<and>
    attrs (drop 20 sample_filter) = Ok as \<and> a \<in> set as \<and> attrs (at_payload a) = Ok opts \<and>
    (\<lambda>x. (at_kind x, at_payload x)) ` set opts = identity_options sample_identity"
  using matching_filter_is_exact [OF sample_parse sample_matches] by (auto simp: sample_identity_def)

section \<open>What Flux installs decodes as what it recognises\<close>

text \<open>The action sends one request, a datagram of exactly the given message, under a fresh sequence number.\<close>

definition sends :: "('m, io_error, unit) action \<Rightarrow> 'm world_scheme \<Rightarrow> raw_message \<Rightarrow> bool" where
  "sends m w msg \<longleftrightarrow>
    w_log (snd (m w)) = w_log w @ [(Net_Call (message_bytes msg), hd (w_answers w))] \<and>
    parse_datagram (message_bytes msg) = Ok [msg] \<and> rm_seq msg = next_seq (w_seq w)"

definition request :: "u16 \<Rightarrow> bool \<Rightarrow> bytes \<Rightarrow> nla list \<Rightarrow> u32 \<Rightarrow> raw_message" where
  "request kind create body ts seq =
    \<lparr>rm_kind = kind, rm_flags = (let flags = NLM_F_REQUEST OR NLM_F_ACK in if create then flags OR (NLM_F_CREATE OR NLM_F_EXCL) else flags),
     rm_seq = seq, rm_pid = 0, rm_payload = body @ concat (map nla_bytes ts)\<rparr>"

lemma emit_all_message:
  assumes "4 dvd length body"
  shows "Option.bind (emit_all ts (mb_new kind flags seq body)) mb_finish =
    Some (message_bytes \<lparr>rm_kind = kind, rm_flags = flags, rm_seq = seq, rm_pid = 0, rm_payload = body @ concat (map nla_bytes ts)\<rparr>)"
proof -
  have l: "4 dvd length (mb_bytes (mb_new kind flags seq body))" using assms by (simp add: mb_new_def)
  show ?thesis
    unfolding emit_appends(2) [OF l] Option.bind.bind_lunit
    by (rule finish_is_message) (simp_all add: mb_new_def)
qed

lemma mutate_eq:
  assumes "\<And>mb. write mb = emit_all ts mb" and "4 dvd length body"
  shows "mutate_flags_with_attrs kind create body write w =
    sock_ack (message_bytes (request kind create body ts (next_seq (w_seq w)))) (w\<lparr>w_seq := next_seq (w_seq w)\<rparr>)"
  using assms(2)
  by (simp add: mutate_flags_with_attrs_def act_bind_def send_ack_def assms(1) emit_all_message request_def Let_def)

lemma sock_ack_log: "w_answers w = Net_Answer r bs # rest \<Longrightarrow>
  w_log (snd (sock_ack req w)) = w_log w @ [(Net_Call req, Net_Answer r bs)]"
  by (auto simp: sock_ack_def call_kernel_def split: sum.split)

lemma mutate_sends:
  assumes "\<And>mb. write mb = emit_all ts mb" and "4 dvd length body" and "w_answers w = Net_Answer r bs # rest"
    and "16 + length (body @ concat (map nla_bytes ts)) < 2 ^ 32"
  shows "sends (mutate_flags_with_attrs kind create body write) w (request kind create body ts (next_seq (w_seq w)))"
  unfolding sends_def mutate_eq [of "write" ts, OF assms(1) assms(2)]
  using assms(3,4) parse_last [of "request kind create body ts (next_seq (w_seq w))" "[]" "[]"] sock_ack_log [of "w\<lparr>w_seq := next_seq (w_seq w)\<rparr>" r bs rest]
  by (simp add: parse_datagram_def request_def message_fits_def)

lemma attr_views [simp]:
  "attr_u32 \<lparr>at_kind = k, at_nested = n, at_payload = le_bytes 4 v\<rparr> = Ok v"
  "CHR 0x00 \<notin> set t \<Longrightarrow> utf8_valid (as_bytes t) \<Longrightarrow> attr_cstr \<lparr>at_kind = k, at_nested = n, at_payload = as_bytes t @ [0]\<rparr> = Ok t"
proof -
  show "attr_u32 \<lparr>at_kind = k, at_nested = n, at_payload = le_bytes 4 v\<rparr> = Ok v" by (simp add: attr_u32_bytes)
  assume t: "CHR 0x00 \<notin> set t" "utf8_valid (as_bytes t)"
  have "0 \<notin> set (as_bytes t)"
  proof
    assume "0 \<in> set (as_bytes t)"
    then obtain c where c: "c \<in> set t" "byte_of_char c = 0" by (auto simp: as_bytes_def)
    have "c = char_of_byte 0" using c(2) char_of_byte_inverse [of c] by simp
    moreover have "char_of_byte 0 = CHR 0x00" by code_simp
    ultimately show False using c(1) t(1) by simp
  qed
  then show "attr_cstr \<lparr>at_kind = k, at_nested = n, at_payload = as_bytes t @ [0]\<rparr> = Ok t"
    using t(2) by (simp add: attr_cstr_def from_utf8_as_bytes)
qed

lemma read_bodies [simp]:
  "read_fib_rule (fib_rule_bytes h @ rest) = Ok h" "read_rt (rt_bytes m @ rest) = Ok m" "read_tc (tc_bytes c @ rest) = Ok c"
  by (simp_all add: read_fib_rule_def fib_rule_bytes_def read_rt_def rt_bytes_def read_tc_def tc_bytes_def slice_append slice_def)

lemma body_lengths [simp]: "length (fib_rule_bytes h) = 12" "length (rt_bytes m) = 12" "length (tc_bytes c) = 20"
  by (simp_all add: fib_rule_bytes_def rt_bytes_def tc_bytes_def)

lemmas attr_kinds = FRA_IIFNAME_def FRA_PRIORITY_def FRA_TABLE_def FRA_SUPPRESS_PREFIXLEN_def FRA_PROTOCOL_def
  RTA_TABLE_def RTA_OIF_def RTA_DST_def RTA_PRIORITY_def RTA_CACHEINFO_def RTA_PREF_def tca_kinds
  TCA_INGRESS_BLOCK_def TCA_EGRESS_BLOCK_def

lemma plain_kind:
  assumes "unat k < 2 ^ 14"
  shows "k AND NLA_TYPE_MASK = k"
proof -
  have "NLA_TYPE_MASK = Bit_Operations.mask 14" by code_simp
  moreover have "take_bit 14 k = k" using assms by (simp add: word_unat_eq_iff unsigned_take_bit_eq take_bit_nat_eq_self)
  ultimately show ?thesis by (simp add: take_bit_eq_mask)
qed

lemma sends_parses:
  assumes "sends m w (request kind create body ts seq)" and "parse (body @ concat (map nla_bytes ts)) = v"
  shows "\<exists>msg. sends m w msg \<and> parse (rm_payload msg) = v"
  using assms by (intro exI [of _ "request kind create body ts seq"]) (simp add: request_def)

definition installed_rule :: "u8 \<Rightarrow> u32 \<Rightarrow> u32 \<Rightarrow> string \<Rightarrow> rule" where
  "installed_rule family priority table iif =
    \<lparr>ru_family = family, ru_dst_len = 0, ru_src_len = 0, ru_table = table, ru_action = FR_ACT_TO_TBL,
     ru_priority = Some priority, ru_iif_name = Some iif, ru_suppress_prefix_len = None, ru_protocol = None,
     ru_extra_attrs = False, ru_extra_attr_kinds = []\<rparr>"

definition installed_route :: "u8 \<Rightarrow> u32 \<Rightarrow> u8 \<Rightarrow> u32 \<Rightarrow> route" where
  "installed_route family table protocol oif =
    \<lparr>ro_family = family, ro_dst_len = 0, ro_table = table, ro_protocol = protocol, ro_scope = RT_SCOPE_HOST,
     ro_kind = RTN_LOCAL, ro_oif = Some oif, ro_has_dst = False, ro_metric = None, ro_preference = None,
     ro_extra_attrs = False, ro_extra_attr_kinds = []\<rparr>"

definition installed_clsact :: "u32 \<Rightarrow> qdisc" where
  "installed_clsact ifindex =
    \<lparr>qd_ifindex = ifindex, qd_handle = TC_CLSACT_HANDLE, qd_parent = TC_H_CLSACT, qd_kind = Some ''clsact'',
     qd_options_nonempty = False, qd_ingress_block = False, qd_egress_block = False,
     qd_unknown_attrs = False, qd_duplicate_attrs = False\<rparr>"

lemma length_nla_leaf: "length (nla_bytes (Leaf k p)) \<le> 8 + length p"
  by (simp add: nla_frame_def align4_def)

lemma leaves_length:
  "list_all (\<lambda>t. \<exists>k p. t = Leaf k p \<and> length p < 2 ^ 16) ts \<Longrightarrow> length (concat (map nla_bytes ts)) \<le> length ts * 70000"
proof (induction ts)
  case (Cons t ts)
  then obtain k p where "t = Leaf k p" "length p < 2 ^ 16" by auto
  then show ?case using Cons length_nla_leaf [of k p] by (simp del: nla_bytes.simps)
qed simp

lemma rule_decodes:
  assumes "w_answers w = Net_Answer r bs # rest" and t: "CHR 0x00 \<notin> set iif" "utf8_valid (as_bytes iif)" and n: "length iif < 65530"
  shows "\<exists>m. sends (add_rule family priority table iif) w m \<and>
    parse_rule (rm_payload m) = Ok (installed_rule family priority table iif)"
proof -
  let ?ts = "[Leaf FRA_PRIORITY (le_bytes 4 priority), Leaf FRA_TABLE (le_bytes 4 table), Leaf FRA_IIFNAME (as_bytes iif @ [0])]"
  let ?b = "fib_rule_bytes (fib_rule_default\<lparr>fr_family := family, fr_table := RT_TABLE_UNSPEC, fr_action := FR_ACT_TO_TBL\<rparr>)"
  have a: "attrs (concat (map nla_bytes ?ts)) = Ok (map view ?ts)"
    by (rule attrs_of_trees) (use n in \<open>simp add: plain_kind attr_kinds\<close>)
  have "sends (add_rule family priority table iif) w (request RTM_NEWRULE True ?b ?ts (next_seq (w_seq w)))"
    unfolding add_rule_def rt_rule_def
    by (rule mutate_sends [OF _ _ assms(1)]; use n leaves_length [of ?ts] in \<open>simp add: mb_attr_u32_def mb_attr_cstr_def\<close>)
  moreover have "parse_rule (?b @ concat (map nla_bytes ?ts)) = Ok (installed_rule family priority table iif)"
    using a t by (simp add: parse_rule_def rule_attr_def attr_kinds set_contains_def Let_def fib_rule_default_def installed_rule_def)
  ultimately show ?thesis by (rule sends_parses)
qed

lemma route_decodes:
  assumes "w_answers w = Net_Answer r bs # rest"
  shows "\<exists>m. sends (add_local_route family table protocol oif) w m \<and>
    parse_route (rm_payload m) = Ok (installed_route family table protocol oif)"
proof -
  let ?ts = "[Leaf RTA_TABLE (le_bytes 4 table), Leaf RTA_OIF (le_bytes 4 oif)]"
  let ?b = "rt_bytes (rt_default\<lparr>rt_family := family, rt_table := RT_TABLE_UNSPEC, rt_protocol := protocol,
         rt_scope := RT_SCOPE_HOST, rt_kind := RTN_LOCAL\<rparr>)"
  have a: "attrs (concat (map nla_bytes ?ts)) = Ok (map view ?ts)"
    by (rule attrs_of_trees) (simp add: plain_kind attr_kinds)
  have "sends (add_local_route family table protocol oif) w (request RTM_NEWROUTE True ?b ?ts (next_seq (w_seq w)))"
    unfolding add_local_route_def local_route_def
    by (rule mutate_sends [OF _ _ assms(1)]; use leaves_length [of ?ts] in \<open>simp add: mb_attr_u32_def\<close>)
  moreover have "parse_route (?b @ concat (map nla_bytes ?ts)) = Ok (installed_route family table protocol oif)"
    using a by (simp add: parse_route_def route_attr_def attr_kinds set_contains_def Let_def rt_default_def installed_route_def)
  ultimately show ?thesis by (rule sends_parses)
qed

lemma clsact_decodes:
  assumes "w_answers w = Net_Answer r bs # rest" and "0 < sint ifindex"
  shows "\<exists>m. sends (create_clsact ifindex) w m \<and> parse_qdisc (rm_payload m) = Ok (installed_clsact ifindex)"
proof -
  define t where "t = ''clsact''"
  have t: "CHR 0x00 \<notin> set t" "utf8_valid (as_bytes t)" "length t < 65530" unfolding t_def by code_simp+
  let ?ts = "[Leaf TCA_KIND (as_bytes t @ [0])]"
  let ?b = "tc_bytes (tc_default\<lparr>tm_family := AF_UNSPEC, tm_ifindex := ifindex, tm_handle := TC_CLSACT_HANDLE, tm_parent := TC_H_CLSACT\<rparr>)"
  have a: "attrs (concat (map nla_bytes ?ts)) = Ok (map view ?ts)"
    by (rule attrs_of_trees) (use t(3) in \<open>simp add: plain_kind attr_kinds\<close>)
  have "sends (create_clsact ifindex) w (request RTM_NEWQDISC True ?b ?ts (next_seq (w_seq w)))"
    unfolding create_clsact_def t_def [symmetric]
    by (rule mutate_sends [OF _ _ assms(1)]; use t(3) leaves_length [of ?ts] in \<open>simp add: mb_attr_cstr_def\<close>)
  moreover have "positive_index ifindex = Ok ifindex" using assms(2) by (auto simp: positive_index_def)
  then have "parse_qdisc (?b @ concat (map nla_bytes ?ts)) = Ok (installed_clsact ifindex)"
    unfolding installed_clsact_def t_def [symmetric]
    using a t(1,2) by (simp add: parse_qdisc_def qdisc_attr_def attr_kinds set_contains_def Let_def tc_default_def)
  ultimately show ?thesis by (rule sends_parses)
qed

text \<open>
  C35: the rule, the local route and the queueing discipline Flux asks the kernel to install are sent as
  one well-formed message each, and the module's own decoders read from that message exactly what was
  asked for, with no extra, unknown or repeated attribute.
\<close>

theorem install_requests_decode:
  assumes "w_answers w = Net_Answer r bs # rest" and "CHR 0x00 \<notin> set iif" "utf8_valid (as_bytes iif)" "length iif < 65530"
    and "0 < sint ifindex"
  shows "(\<exists>m. sends (add_rule family priority table iif) w m \<and>
       parse_rule (rm_payload m) = Ok (installed_rule family priority table iif)) \<and>
    (\<exists>m. sends (add_local_route family table protocol oif) w m \<and>
       parse_route (rm_payload m) = Ok (installed_route family table protocol oif)) \<and>
    (\<exists>m. sends (create_clsact ifindex) w m \<and> parse_qdisc (rm_payload m) = Ok (installed_clsact ifindex))"
  using rule_decodes [OF assms(1-4)] route_decodes [OF assms(1)] clsact_decodes [OF assms(1,5)] by blast

theorem install_requests_decode_witness:
  "\<exists>m. sends (add_rule 2 100 7 ''lo'') \<lparr>w_seq = 0, w_answers = [Net_Answer (Ok ()) []], w_log = []\<rparr> m \<and>
     parse_rule (rm_payload m) = Ok (installed_rule 2 100 7 ''lo'')"
proof -
  have "utf8_valid (as_bytes ''lo'')" "0 < sint (1 :: u32)" by code_simp+
  then show ?thesis
    using install_requests_decode [of "\<lparr>w_seq = 0, w_answers = [Net_Answer (Ok ()) []], w_log = []\<rparr>" "Ok ()" "[]" "[]" "''lo''" 1]
    by auto
qed

end
