(* ===== verification/Cleanup.thy ===== *)
theory Cleanup
  imports Route Sock_Diag Abi "HOL-Library.Product_Lexorder"
begin

text \<open>
  What the data plane recognises as its own and how it removes it: the ownership predicates of
  crates/fluxd/src/dataplane/platform.rs, the deletion of a recorded filter in
  crates/fluxd/src/dataplane/attachment.rs and the two-phase cleanup that runs at a cold start. An
  error is its code; the detail text for the log is not modelled. The test whether an attached program
  is Flux's own is a call of the world.
\<close>

section \<open>Constants and errors\<close>

definition HOST_NAME :: string where "HOST_NAME = ''flxrs0''"
definition PEER_NAME :: string where "PEER_NAME = ''flxrs1''"
definition HOST_ALIAS :: string where "HOST_ALIAS = ''flux-rs:managed:v1:host''"
definition PEER_ALIAS :: string where "PEER_ALIAS = ''flux-rs:managed:v1:peer''"
definition ROUTE_TABLE :: u32 where "ROUTE_TABLE = 20260"
definition ROUTE_PROTOCOL :: u8 where "ROUTE_PROTOCOL = 202"
definition RULE_PRIORITY :: u32 where "RULE_PRIORITY = 100"
definition TC_PREF_PREFERRED :: u16 where "TC_PREF_PREFERRED = 2"
definition TC_PREF_CLAT_MAX :: u16 where "TC_PREF_CLAT_MAX = 4"
definition RT_SCOPE_UNIVERSE :: u8 where "RT_SCOPE_UNIVERSE = 0"
definition RTN_UNICAST :: u8 where "RTN_UNICAST = 1"

type_synonym dataplane_error = string

definition errno_name :: "int \<Rightarrow> string" where
  "errno_name errno =
    (if errno = 13 then ''EACCES'' else if errno = 17 then ''EEXIST'' else if errno = 22 then ''EINVAL''
     else if errno = ENODEV then ''ENODEV'' else if errno = ENOENT then ''ENOENT'' else if errno = 28 then ''ENOSPC''
     else if errno = 1 then ''EPERM'' else if errno = 116 then ''ESTALE''
     else if errno < 0 then ''-'' @ dec (nat (- errno)) else dec (nat errno))"

text \<open>The debug name of an error kind; the kinds the model does not tell apart share one.\<close>

fun kind_name :: "io_error \<Rightarrow> string" where
  "kind_name (InvalidData _) = ''InvalidData''"
| "kind_name (Io_Interrupted _) = ''Interrupted''"
| "kind_name (UnexpectedEof _) = ''UnexpectedEof''"
| "kind_name (InvalidInput _) = ''InvalidInput''"
| "kind_name (NotFound _) = ''NotFound''"
| "kind_name (AddrInUse _) = ''AddrInUse''"
| "kind_name (TimedOut _) = ''TimedOut''"
| "kind_name WouldBlock = ''WouldBlock''"
| "kind_name _ = ''Other''"

definition dp_io :: "string \<Rightarrow> io_error \<Rightarrow> dataplane_error" where
  "dp_io operation e =
    operation @ '':'' @ (case raw_os_error e of Some n \<Rightarrow> errno_name n | None \<Rightarrow> kind_name e)"

section \<open>Ownership predicates\<close>

definition link_named :: "network_snapshot \<Rightarrow> string \<Rightarrow> link option" where
  "link_named snapshot name = find (\<lambda>l. lk_name l = name) (ns_links snapshot)"

definition classify_pair :: "network_snapshot \<Rightarrow> dataplane_error + (link \<times> link) option" where
  "classify_pair snapshot =
    (case (link_named snapshot HOST_NAME, link_named snapshot PEER_NAME) of
       (None, None) \<Rightarrow> Ok None
     | (host, peer) \<Rightarrow>
         (case (host, peer) of
            (Some h, Some p) \<Rightarrow>
              if lk_kind h = Some ''veth'' \<and> lk_kind p = Some ''veth'' \<and> lk_alias h = Some HOST_ALIAS
                 \<and> lk_alias p = Some PEER_ALIAS \<and> lk_peer_ifindex h = Some (lk_ifindex p)
                 \<and> lk_peer_ifindex p = Some (lk_ifindex h) \<and> lk_master_ifindex h = None \<and> lk_master_ifindex p = None
              then Ok (Some (h, p))
              else if lk_alias h \<noteq> Some HOST_ALIAS then Err ''veth_conflict:flxrs0 alias mismatch''
              else if lk_alias p \<noteq> Some PEER_ALIAS then Err ''veth_conflict:flxrs1 alias mismatch''
              else Err ''veth_conflict:layout mismatch''
          | (Some h, None) \<Rightarrow>
              if lk_alias h \<noteq> Some HOST_ALIAS then Err ''veth_conflict:flxrs0 alias mismatch''
              else Err ''veth_conflict:layout mismatch''
          | (None, Some p) \<Rightarrow>
              if lk_alias p \<noteq> Some PEER_ALIAS then Err ''veth_conflict:flxrs1 alias mismatch''
              else Err ''veth_conflict:layout mismatch''
          | (None, None) \<Rightarrow> Err ''veth_conflict:layout mismatch''))"

definition is_owned_rule :: "rule \<Rightarrow> bool" where
  "is_owned_rule r \<longleftrightarrow>
    (ru_family r = AF_INET \<or> ru_family r = AF_INET6) \<and> ru_dst_len r = 0 \<and> ru_src_len r = 0 \<and> ru_table r = ROUTE_TABLE
    \<and> ru_action r = 1 \<and> ru_priority r = Some RULE_PRIORITY \<and> ru_iif_name r = Some PEER_NAME
    \<and> ru_suppress_prefix_len r = Some (- 1) \<and> ru_protocol r = Some 0 \<and> \<not> ru_extra_attrs r"

definition is_owned_route :: "route \<Rightarrow> u32 \<Rightarrow> bool" where
  "is_owned_route r lo_ifindex \<longleftrightarrow>
    (ro_family r = AF_INET \<or> ro_family r = AF_INET6) \<and> ro_dst_len r = 0 \<and> ro_table r = ROUTE_TABLE
    \<and> ro_protocol r = ROUTE_PROTOCOL \<and> ro_kind r = 2 \<and> ro_oif r = Some lo_ifindex \<and> \<not> ro_has_dst r
    \<and> (if ro_family r = AF_INET then ro_scope r = 254 \<and> ro_metric r = None \<and> ro_preference r = None
       else if ro_family r = AF_INET6 then ro_scope r = 0 \<and> ro_metric r = Some 1024 \<and> ro_preference r = Some 0
       else False)
    \<and> \<not> ro_extra_attrs r"

definition exact_clsact :: "qdisc \<Rightarrow> u32 \<Rightarrow> bool" where
  "exact_clsact q ifindex \<longleftrightarrow>
    qd_ifindex q = ifindex \<and> qd_handle q = TC_CLSACT_HANDLE \<and> qd_parent q = TC_H_CLSACT \<and> qd_kind q = Some ''clsact''
    \<and> \<not> qd_options_nonempty q \<and> \<not> qd_ingress_block q \<and> \<not> qd_egress_block q \<and> \<not> qd_unknown_attrs q \<and> \<not> qd_duplicate_attrs q"

definition excluded_kind :: "string option \<Rightarrow> bool" where
  "excluded_kind kind \<longleftrightarrow>
    kind \<in> Some ` {''tun'', ''tap'', ''bridge'', ''bond'', ''veth'', ''dummy'', ''team'', ''ifb'', ''vlan'', ''vrf'',
      ''wireguard'', ''ipip'', ''sit'', ''gre'', ''gretap'', ''erspan''}"

definition is_clat_link :: "link \<Rightarrow> bool" where
  "is_clat_link l \<longleftrightarrow> starts_with (lk_name l) ''v4-'' \<and> lk_arphrd l = 0xfffe \<and> lk_kind l = Some ''tun''"

definition expected_stale_filter :: "link \<Rightarrow> u32 option \<Rightarrow> u32 \<Rightarrow> tc_filter \<Rightarrow> string \<Rightarrow> bool" where
  "expected_stale_filter l peer_ifindex parent f name \<longleftrightarrow>
    (if parent = TC_H_INGRESS then
       peer_ifindex = Some (lk_ifindex l) \<and> name = PROG_IN \<and> tf_chain f = TC_CHAIN \<and> tf_priority f = 1
       \<and> tf_protocol f = ETH_P_ALL \<and> tf_handle f = TC_HANDLE_INGRESS
     else if parent \<noteq> TC_H_EGRESS \<or> lk_master_ifindex l \<noteq> None \<or> (excluded_kind (lk_kind l) \<and> \<not> is_clat_link l)
       \<or> tf_chain f \<noteq> TC_CHAIN \<or> tf_priority f < TC_PREF_PREFERRED
       \<or> (starts_with (lk_name l) ''v4-'' \<and> tf_priority f \<ge> TC_PREF_CLAT_MAX)
     then False
     else if name = PROG_VERIFY then tf_handle f = TC_HANDLE_VERIFY \<and> tf_protocol f = ETH_P_ALL
     else if name = PROG_CAP_L2 then lk_arphrd l = 1 \<and> tf_handle f = TC_HANDLE_EGRESS \<and> tf_protocol f = ETH_P_ALL
     else if name = PROG_CAP_L3 then
       (lk_arphrd l = 519 \<or> is_clat_link l) \<and> tf_handle f = TC_HANDLE_EGRESS
       \<and> tf_protocol f = (if starts_with (lk_name l) ''v4-'' then 0x0800 else ETH_P_ALL)
     else False)"

definition tc_filter_conflict :: "link \<Rightarrow> dataplane_error" where
  "tc_filter_conflict l = ''tc_filter_conflict:'' @ lk_name l"

definition has_default_route :: "u32 \<Rightarrow> network_snapshot \<Rightarrow> bool" where
  "has_default_route ifindex snapshot \<longleftrightarrow>
    list_ex (\<lambda>r. ro_oif r = Some ifindex \<and> ro_dst_len r = 0 \<and> \<not> ro_has_dst r \<and> ro_kind r = RTN_UNICAST) (ns_routes snapshot)"

definition is_potential_candidate :: "link \<Rightarrow> network_snapshot \<Rightarrow> bool" where
  "is_potential_candidate l snapshot \<longleftrightarrow>
    lk_name l \<noteq> ''lo'' \<and> lk_name l \<noteq> HOST_NAME \<and> lk_name l \<noteq> PEER_NAME \<and> lk_flags l AND IFF_UP \<noteq> 0
    \<and> lk_flags l AND IFF_LOOPBACK = 0
    \<and> list_ex (\<lambda>a. ad_ifindex a = lk_ifindex l \<and> ad_scope a = RT_SCOPE_UNIVERSE
        \<and> (ad_family a = AF_INET \<or> ad_family a = AF_INET6)) (ns_addresses snapshot)"

section \<open>The manager\<close>

record owned_filter =
  of_ifname :: string
  of_identity :: filter_identity
  of_lower_filters :: "tc_filter list"

record manager = world +
  mg_attached :: "owned_filter list"
  mg_attaching :: bool
  mg_default_route_ready :: bool

record cleanup_plan =
  cp_tc_filters :: "owned_filter list"
  cp_host_ifindex :: "u32 option"
  cp_lo_ifindex :: u32
  cp_rule_families :: "u8 list"
  cp_route_families :: "u8 list"

text \<open>\<open>bpf::attached_program_owned\<close>.\<close>

definition attached_program_owned :: "u32 \<Rightarrow> string \<Rightarrow> bytes \<Rightarrow> ('m, dataplane_error, bool) action" where
  "attached_program_owned prog_id name tag =
    call_kernel (Owned_Call prog_id name tag) (\<lambda>a. case a of Owned_Answer r \<Rightarrow> Some (Returned r) | _ \<Rightarrow> None)"

definition dump_recorded_parent :: "owned_filter \<Rightarrow> ('m, dataplane_error, tc_filter list option) action" where
  "dump_recorded_parent owned =
    act_match (dump_filters (fi_ifindex (of_identity owned)) (fi_parent (of_identity owned)))
      (\<lambda>r. case r of
         Inr filters \<Rightarrow> ret (Some filters)
       | Inl e \<Rightarrow> if raw_os_error e = Some ENODEV \<or> raw_os_error e = Some ENOENT then ret None
                  else fail (dp_io ''tc_dump_failed'' e))"

definition detach_identity :: "owned_filter \<Rightarrow> ('m, dataplane_error, unit) action" where
  "detach_identity owned =
    (let i = of_identity owned
     in act_bind (dump_recorded_parent owned)
      (\<lambda>r1. case r1 of None \<Rightarrow> ret () | Some first \<Rightarrow>
       act_bind (dump_recorded_parent owned)
      (\<lambda>r2. case r2 of None \<Rightarrow> ret () | Some second \<Rightarrow>
       if first \<noteq> second then fail ''tc_filter:ESTALE''
       else (case find (fi_matches i) second of
          None \<Rightarrow> ret ()
        | Some f \<Rightarrow>
            (case (tf_prog_id f, tf_prog_name f, tf_prog_tag f) of
               (Some prog_id, Some name, Some tag) \<Rightarrow>
                 act_bind (attached_program_owned prog_id name tag)
                   (\<lambda>mine. if \<not> mine then fail ''tc_filter:ESTALE''
                      else act_match (if_nametoindex (of_ifname owned))
                        (\<lambda>r. if r \<noteq> Ok (fi_ifindex i) then fail ''tc_filter:ESTALE''
                             else act_map_err (dp_io ''tc_detach_failed'')
                               (detach_filter (fi_ifindex i) (fi_parent i) (fi_handle i) (fi_chain i) (fi_priority i) (fi_protocol i))))
             | _ \<Rightarrow> (\<lambda>w. (Panics, w)))))))"

definition detach_recorded :: "string \<Rightarrow> u32 \<Rightarrow> u32 \<Rightarrow> 'm manager_scheme \<Rightarrow> (dataplane_error, unit) act_outcome \<times> 'm manager_scheme" where
  "detach_recorded ifname parent handle m =
    (case position (\<lambda>f. of_ifname f = ifname \<and> fi_parent (of_identity f) = parent \<and> fi_handle (of_identity f) = handle) (mg_attached m) of
       None \<Rightarrow> (Returned (Ok ()), m)
     | Some index \<Rightarrow>
         act_bind (detach_identity (mg_attached m ! index))
           (\<lambda>_ w. (Returned (Ok ()), w\<lparr>mg_attached := take index (mg_attached w) @ drop (index + 1) (mg_attached w)\<rparr>)) m)"

section \<open>The cleanup plan\<close>

text \<open>The loop bodies of \<open>tc_cleanup_plan\<close>, innermost first.\<close>

definition plan_filter ::
    "link \<Rightarrow> u32 option \<Rightarrow> bool \<Rightarrow> u32 \<Rightarrow> tc_filter \<Rightarrow> owned_filter list \<Rightarrow> ('m, dataplane_error, owned_filter list) action" where
  "plan_filter l peer_ifindex qdisc_owned parent f owned =
    (let name = (case tf_prog_name f of None \<Rightarrow> [] | Some n \<Rightarrow> n);
         fixed_ingress_slot = (parent = TC_H_INGRESS \<and> tf_chain f = TC_CHAIN \<and> tf_priority f = 1
           \<and> tf_protocol f = ETH_P_ALL \<and> tf_handle f = TC_HANDLE_INGRESS)
     in if \<not> starts_with name ''flx_'' \<and> \<not> fixed_ingress_slot then ret owned
        else
          (case (tf_prog_id f, tf_prog_tag f, tf_flags_gen f) of
             (Some prog_id, Some prog_tag, Some flags_gen) \<Rightarrow>
               (let identity = \<lparr>fi_ifindex = lk_ifindex l, fi_parent = parent, fi_handle = tf_handle f, fi_chain = TC_CHAIN,
                      fi_priority = tf_priority f, fi_protocol = tf_protocol f, fi_prog_id = prog_id, fi_prog_tag = prog_tag,
                      fi_prog_name = name, fi_flags_gen = flags_gen\<rparr>
                in if \<not> (qdisc_owned \<and> expected_stale_filter l peer_ifindex parent f name) \<or> \<not> fi_matches identity f
                   then fail (tc_filter_conflict l)
                   else act_bind (attached_program_owned prog_id name prog_tag)
                     (\<lambda>mine. if \<not> mine then fail (tc_filter_conflict l)
                        else ret (owned @ [\<lparr>of_ifname = lk_name l, of_identity = identity, of_lower_filters = []\<rparr>])))
           | _ \<Rightarrow> fail (tc_filter_conflict l)))"

fun plan_filters ::
    "link \<Rightarrow> u32 option \<Rightarrow> bool \<Rightarrow> u32 \<Rightarrow> tc_filter list \<Rightarrow> owned_filter list \<Rightarrow> ('m, dataplane_error, owned_filter list) action" where
  "plan_filters l peer_ifindex qdisc_owned parent [] owned = ret owned"
| "plan_filters l peer_ifindex qdisc_owned parent (f # fs) owned =
    act_bind (plan_filter l peer_ifindex qdisc_owned parent f owned) (plan_filters l peer_ifindex qdisc_owned parent fs)"

fun plan_parents ::
    "link \<Rightarrow> u32 option \<Rightarrow> bool \<Rightarrow> u32 list \<Rightarrow> owned_filter list \<Rightarrow> ('m, dataplane_error, owned_filter list) action" where
  "plan_parents l peer_ifindex qdisc_owned [] owned = ret owned"
| "plan_parents l peer_ifindex qdisc_owned (parent # parents) owned =
    act_bind (act_map_err (dp_io ''tc_dump_failed'') (dump_filters (lk_ifindex l) parent))
      (\<lambda>filters. act_bind (plan_filters l peer_ifindex qdisc_owned parent filters owned)
        (plan_parents l peer_ifindex qdisc_owned parents))"

definition parents_of :: "link \<Rightarrow> u32 option \<Rightarrow> u32 list" where
  "parents_of l peer_ifindex =
    (if peer_ifindex = Some (lk_ifindex l) then [TC_H_INGRESS] else []) @
    (if lk_name l \<noteq> HOST_NAME \<and> lk_name l \<noteq> PEER_NAME \<and> lk_name l \<noteq> ''lo'' then [TC_H_EGRESS] else [])"

fun plan_links ::
    "qdisc list \<Rightarrow> u32 option \<Rightarrow> link list \<Rightarrow> owned_filter list \<Rightarrow> ('m, dataplane_error, owned_filter list) action" where
  "plan_links qdiscs peer_ifindex [] owned = ret owned"
| "plan_links qdiscs peer_ifindex (l # ls) owned =
    (case find (\<lambda>q. qd_ifindex q = lk_ifindex l \<and> qd_kind q = Some ''clsact'') qdiscs of
       None \<Rightarrow> plan_links qdiscs peer_ifindex ls owned
     | Some q \<Rightarrow>
         act_bind (plan_parents l peer_ifindex (exact_clsact q (lk_ifindex l)) (parents_of l peer_ifindex) owned)
           (plan_links qdiscs peer_ifindex ls))"

definition filter_order :: "owned_filter \<Rightarrow> u32 \<times> u32 \<times> u16 \<times> u16 \<times> u32 \<times> u32" where
  "filter_order o1 = (let i = of_identity o1 in
    (fi_ifindex i, fi_parent i, fi_priority i, fi_protocol i, fi_handle i, fi_prog_id i))"

definition tc_cleanup_plan :: "network_snapshot \<Rightarrow> u32 option \<Rightarrow> ('m, dataplane_error, owned_filter list) action" where
  "tc_cleanup_plan snapshot peer_ifindex =
    act_bind (plan_links (ns_qdiscs snapshot) peer_ifindex (ns_links snapshot) []) (\<lambda>owned. ret (sort_key filter_order owned))"

text \<open>\<open>sort_unstable\<close> and \<open>dedup\<close>.\<close>

definition sort_dedup :: "'a::linorder list \<Rightarrow> 'a list" where
  "sort_dedup xs = remdups_adj (sort xs)"

definition owned_rule_families :: "rule list \<Rightarrow> dataplane_error + u8 list" where
  "owned_rule_families rules =
    try_collect (\<lambda>r. if is_owned_rule r then Ok (ru_family r) else Err ''rule_conflict:priority 100 occupied'')
      (filter (\<lambda>r. ru_priority r = Some RULE_PRIORITY) rules)"

definition owned_route_families :: "u32 \<Rightarrow> route list \<Rightarrow> dataplane_error + u8 list" where
  "owned_route_families lo_ifindex routes =
    try_collect (\<lambda>r. if is_owned_route r lo_ifindex then Ok (ro_family r) else Err ''route_table_conflict:20260'')
      (filter (\<lambda>r. ro_table r = ROUTE_TABLE) routes)"

definition make_cleanup_plan :: "('m, dataplane_error, cleanup_plan) action" where
  "make_cleanup_plan =
    act_bind (act_map_err (dp_io ''rtnetlink_dump'') net_snapshot)
      (\<lambda>snapshot. act_bind (lift_result (ok_or ''loopback_missing'' (map_option lk_ifindex (link_named snapshot ''lo''))))
      (\<lambda>lo_ifindex. act_bind (lift_result (classify_pair snapshot))
      (\<lambda>pair. act_bind (tc_cleanup_plan snapshot (map_option (\<lambda>(_, p). lk_ifindex p) pair))
      (\<lambda>tc_filters. act_bind (lift_result (owned_rule_families (ns_rules snapshot)))
      (\<lambda>rule_families. act_bind (lift_result (owned_route_families lo_ifindex (ns_routes snapshot)))
      (\<lambda>route_families. ret \<lparr>cp_tc_filters = tc_filters, cp_host_ifindex = map_option (\<lambda>(h, _). lk_ifindex h) pair,
         cp_lo_ifindex = lo_ifindex, cp_rule_families = sort_dedup rule_families, cp_route_families = sort_dedup route_families\<rparr>))))))"

section \<open>Cleanup\<close>

definition ignore_absent :: "('m, io_error, unit) action \<Rightarrow> ('m, io_error, unit) action" where
  "ignore_absent act =
    act_match act (\<lambda>r. case r of
       Inl e \<Rightarrow> if raw_os_error e = Some ENOENT then ret () else fail e
     | Inr u \<Rightarrow> ret u)"

fun for_each :: "('a \<Rightarrow> ('m, 'e, unit) action) \<Rightarrow> 'a list \<Rightarrow> ('m, 'e, unit) action" where
  "for_each f [] = ret ()"
| "for_each f (x # xs) = act_bind (f x) (\<lambda>_. for_each f xs)"

definition delete_planned :: "cleanup_plan \<Rightarrow> ('m, dataplane_error, unit) action" where
  "delete_planned plan =
    act_bind (for_each detach_identity (cp_tc_filters plan))
      (\<lambda>_. act_bind (for_each (\<lambda>family. act_map_err (dp_io ''rule_delete'')
              (ignore_absent (delete_rule family RULE_PRIORITY ROUTE_TABLE PEER_NAME))) (cp_rule_families plan))
      (\<lambda>_. act_bind (for_each (\<lambda>family. act_map_err (dp_io ''route_delete'')
              (ignore_absent (delete_local_route family ROUTE_TABLE ROUTE_PROTOCOL (cp_lo_ifindex plan)))) (cp_route_families plan))
      (\<lambda>_. case cp_host_ifindex plan of
             None \<Rightarrow> ret ()
           | Some host_ifindex \<Rightarrow> act_map_err (dp_io ''veth_delete'') (ignore_absent (delete_link host_ifindex)))))"

definition cleanup_owned :: "'m manager_scheme \<Rightarrow> (dataplane_error, unit) act_outcome \<times> 'm manager_scheme" where
  "cleanup_owned =
    act_bind make_cleanup_plan
      (\<lambda>first. act_bind make_cleanup_plan
      (\<lambda>second. if first \<noteq> second then fail ''network_snapshot_stale''
         else act_bind (delete_planned second)
           (\<lambda>_ w. (Returned (Ok ()), w\<lparr>mg_attached := [], mg_attaching := False\<rparr>))))"

definition refresh_default_route_ready :: "'m manager_scheme \<Rightarrow> (dataplane_error, bool) act_outcome \<times> 'm manager_scheme" where
  "refresh_default_route_ready =
    act_bind (act_map_err (dp_io ''rtnetlink_dump'') net_snapshot)
      (\<lambda>snapshot w.
         let ready = list_ex (\<lambda>l. is_potential_candidate l snapshot \<and> has_default_route (lk_ifindex l) snapshot) (ns_links snapshot)
         in (Returned (Ok ready), w\<lparr>mg_default_route_ready := ready\<rparr>))"

section \<open>Which calls an action makes\<close>

text \<open>An action allows a set of calls when it appends only such calls to the log and leaves everything but the world
  alone.\<close>

named_theorems allow \<open>which calls the actions make\<close>

definition allows :: "(call \<Rightarrow> bool) \<Rightarrow> ('m, 'e, 'a) action \<Rightarrow> bool" where
  "allows P m \<longleftrightarrow> (\<forall>w. world.more (snd (m w)) = world.more w \<and>
     (\<exists>l. w_log (snd (m w)) = w_log w @ l \<and> list_all (\<lambda>(c, _). P c) l))"

lemma allowsD: "allows P m \<Longrightarrow> m w = (r, w') \<Longrightarrow> \<exists>l. w_log w' = w_log w @ l \<and> list_all (\<lambda>(c, _). P c) l"
  unfolding allows_def by (metis snd_conv)

lemma allows_more: "allows P m \<Longrightarrow> m w = (r, w') \<Longrightarrow> world.more w' = world.more w"
  unfolding allows_def by (metis snd_conv)

lemma allows_mono: "allows P m \<Longrightarrow> (\<And>c. P c \<Longrightarrow> Q c) \<Longrightarrow> allows Q m"
  unfolding allows_def list_all_iff by fastforce

lemma allows_pure [allow]: "allows P (ret x)" "allows P (fail e)" "allows P (lift_result r)" "allows P (\<lambda>w. (Panics, w))"
  "allows P sock_next_seq"
  by (auto simp: allows_def)

lemma allows_match [allow]:
  assumes "allows P m" and "\<And>r. allows P (f r)"
  shows "allows P (act_match m f)"
  unfolding allows_def
proof
  fix w
  obtain out w1 where m: "m w = (out, w1)" by fastforce
  then obtain l where l: "world.more w1 = world.more w" "w_log w1 = w_log w @ l" "list_all (\<lambda>(c, _). P c) l"
    using allowsD [OF assms(1)] allows_more [OF assms(1)] by blast
  show "world.more (snd (act_match m f w)) = world.more w \<and>
      (\<exists>l. w_log (snd (act_match m f w)) = w_log w @ l \<and> list_all (\<lambda>(c, _). P c) l)"
  proof (cases out)
    case (Returned r)
    obtain l' where "world.more (snd (f r w1)) = world.more w1" "w_log (snd (f r w1)) = w_log w1 @ l'" "list_all (\<lambda>(c, _). P c) l'"
      using assms(2) [of r] unfolding allows_def by blast
    then show ?thesis using m l Returned by (simp add: act_match_def)
  qed (use m l in \<open>simp_all add: act_match_def\<close>)
qed

lemma act_bind_match: "act_bind m f = act_match m (\<lambda>r. case r of Inl e \<Rightarrow> fail e | Inr x \<Rightarrow> f x)"
  by (rule ext) (auto simp: act_bind_def act_match_def split: prod.split act_outcome.split sum.split)

lemma allows_bind [allow]: "allows P m \<Longrightarrow> (\<And>x. allows P (f x)) \<Longrightarrow> allows P (act_bind m f)"
  unfolding act_bind_match by (intro allows_match) (auto split: sum.split intro: allow)

lemma allows_map_err [allow]: "allows P m \<Longrightarrow> allows P (act_map_err g m)"
  unfolding act_map_err_def by (intro allow)

lemma allows_call [allow]: "P c \<Longrightarrow> allows P (call_kernel c read)"
  by (auto simp: allows_def call_kernel_def split: list.split option.split)

lemma allows_for_each [allow]: "(\<And>x. x \<in> set xs \<Longrightarrow> allows P (f x)) \<Longrightarrow> allows P (for_each f xs)"
  by (induction xs) (auto intro: allow)

text \<open>A netlink request whose message type is not one of the \<open>GET\<close> types changes the kernel's state, and so may
  every call of the other kinds that are not queries.\<close>

definition mutating :: "call \<Rightarrow> bool" where
  "mutating c \<longleftrightarrow> (case c of
     Net_Call b \<Rightarrow> (from_le_bytes (slice 4 6 b) :: u16) \<notin>
       {RTM_GETLINK, RTM_GETADDR, RTM_GETROUTE, RTM_GETRULE, RTM_GETQDISC, RTM_GETTFILTER}
   | Ioctl_Call _ _ \<Rightarrow> True
   | Sys_Call _ _ \<Rightarrow> True
   | Destroy_Call _ \<Rightarrow> True
   | _ \<Rightarrow> False)"

lemma mutating_message: "mutating (Net_Call (message_bytes m)) \<longleftrightarrow>
  rm_kind m \<notin> {RTM_GETLINK, RTM_GETADDR, RTM_GETROUTE, RTM_GETRULE, RTM_GETQDISC, RTM_GETTFILTER}"
  by (simp add: mutating_def message_bytes_def hdr_bytes_def slice_append slice_def)

lemma mutating_simps [simp]: "\<not> mutating (Index_Call n)" "\<not> mutating (Owned_Call i n t)"
  by (simp_all add: mutating_def)

lemma allows_rt_dump:
  assumes "kind \<in> {RTM_GETLINK, RTM_GETADDR, RTM_GETROUTE, RTM_GETRULE, RTM_GETQDISC, RTM_GETTFILTER}"
  shows "allows (\<lambda>c. \<not> mutating c) (rt_dump kind body)"
proof -
  have f: "mb_finish (mb_new kind flags seq body) =
      Some (message_bytes \<lparr>rm_kind = kind, rm_flags = flags, rm_seq = seq, rm_pid = 0, rm_payload = body\<rparr>)" for flags seq
    using finish_is_message [of "mb_new kind flags seq body" kind flags seq body "[]"] by (simp add: mb_new_def)
  show ?thesis
    unfolding rt_dump_def f option.case sock_dump_def
    using assms by (intro allow) (auto simp: mutating_message)
qed

lemma allows_dumps [allow]:
  "allows (\<lambda>c. \<not> mutating c) dump_links" "allows (\<lambda>c. \<not> mutating c) dump_addresses" "allows (\<lambda>c. \<not> mutating c) dump_routes"
  "allows (\<lambda>c. \<not> mutating c) dump_rules" "allows (\<lambda>c. \<not> mutating c) dump_qdiscs" "allows (\<lambda>c. \<not> mutating c) (dump_filters i p)"
  unfolding dump_links_def dump_addresses_def dump_routes_def dump_rules_def dump_qdiscs_def dump_filters_def dump_parsed_def
  by (intro allow allows_rt_dump; simp)+

lemma allows_snapshot [allow]: "allows (\<lambda>c. \<not> mutating c) net_snapshot"
  unfolding net_snapshot_def by (intro allow)

lemma allows_queries [allow]: "allows (\<lambda>c. \<not> mutating c) (attached_program_owned i n t)" "allows (\<lambda>c. \<not> mutating c) (if_nametoindex name)"
  unfolding attached_program_owned_def if_nametoindex_def by (auto intro!: allow)

lemma allows_plan_filter [allow]: "allows (\<lambda>c. \<not> mutating c) (plan_filter l p q parent f owned)"
  unfolding plan_filter_def Let_def by (auto split: option.split prod.split intro!: allow)

lemma allows_plan_filters [allow]: "allows (\<lambda>c. \<not> mutating c) (plan_filters l p q parent fs owned)"
  by (induction fs arbitrary: owned) (auto intro!: allow)

lemma allows_plan_parents [allow]: "allows (\<lambda>c. \<not> mutating c) (plan_parents l p q parents owned)"
  by (induction parents arbitrary: owned) (auto intro!: allow)

lemma allows_plan_links [allow]: "allows (\<lambda>c. \<not> mutating c) (plan_links qs p ls owned)"
  by (induction ls arbitrary: owned) (auto split: option.split intro!: allow)

lemma allows_make_plan [allow]: "allows (\<lambda>c. \<not> mutating c) make_cleanup_plan"
  unfolding make_cleanup_plan_def tc_cleanup_plan_def by (intro allow)

section \<open>Cleanup deletes only what both plans named\<close>

definition filter_deletion :: "filter_identity \<Rightarrow> u32 \<Rightarrow> raw_message" where
  "filter_deletion i = request RTM_DELTFILTER False
    (tc_bytes (tc_default\<lparr>tm_family := AF_UNSPEC, tm_ifindex := fi_ifindex i, tm_handle := fi_handle i, tm_parent := fi_parent i,
       tm_info := tc_info (fi_priority i) (fi_protocol i)\<rparr>))
    [Leaf TCA_KIND (as_bytes ''bpf'' @ [0]), Leaf TCA_CHAIN (le_bytes 4 (fi_chain i))]"

definition rule_deletion :: "u8 \<Rightarrow> u32 \<Rightarrow> raw_message" where
  "rule_deletion family = request RTM_DELRULE False
    (fib_rule_bytes (fib_rule_default\<lparr>fr_family := family, fr_table := RT_TABLE_UNSPEC, fr_action := FR_ACT_TO_TBL\<rparr>))
    [Leaf FRA_PRIORITY (le_bytes 4 RULE_PRIORITY), Leaf FRA_TABLE (le_bytes 4 ROUTE_TABLE), Leaf FRA_IIFNAME (as_bytes PEER_NAME @ [0])]"

definition route_deletion :: "u8 \<Rightarrow> u32 \<Rightarrow> u32 \<Rightarrow> raw_message" where
  "route_deletion family lo = request RTM_DELROUTE False
    (rt_bytes (rt_default\<lparr>rt_family := family, rt_table := RT_TABLE_UNSPEC, rt_protocol := ROUTE_PROTOCOL,
       rt_scope := RT_SCOPE_HOST, rt_kind := RTN_LOCAL\<rparr>))
    [Leaf RTA_TABLE (le_bytes 4 ROUTE_TABLE), Leaf RTA_OIF (le_bytes 4 lo)]"

definition link_deletion :: "u32 \<Rightarrow> u32 \<Rightarrow> raw_message" where
  "link_deletion ifindex = request RTM_DELLINK False
    (if_info_bytes (if_info_default\<lparr>ii_family := AF_UNSPEC, ii_index := ifindex\<rparr>)) []"

definition planned_delete :: "cleanup_plan \<Rightarrow> call \<Rightarrow> bool" where
  "planned_delete plan c \<longleftrightarrow> (\<exists>seq msg. c = Net_Call (message_bytes msg) \<and>
    ((\<exists>f\<in>set (cp_tc_filters plan). msg = filter_deletion (of_identity f) seq) \<or>
     (\<exists>family\<in>set (cp_rule_families plan). msg = rule_deletion family seq) \<or>
     (\<exists>family\<in>set (cp_route_families plan). msg = route_deletion family (cp_lo_ifindex plan) seq) \<or>
     (\<exists>host. cp_host_ifindex plan = Some host \<and> msg = link_deletion host seq)))"

lemma allows_mutate:
  assumes "\<And>mb. write mb = emit_all ts mb" and "4 dvd length body" and "\<And>seq. P (Net_Call (message_bytes (request kind create body ts seq)))"
  shows "allows P (mutate_flags_with_attrs kind create body write)"
proof -
  have eq: "mutate_flags_with_attrs kind create body write =
      act_bind sock_next_seq (\<lambda>seq. sock_ack (message_bytes (request kind create body ts seq)))"
    using mutate_eq [of "write" ts, OF assms(1) assms(2)] by (intro ext) (simp add: act_bind_def)
  show ?thesis unfolding eq sock_ack_def by (intro allow assms(3))
qed

lemma allows_deletions [allow]:
  assumes "\<And>seq. P (Net_Call (message_bytes (filter_deletion i seq)))"
  shows "allows P (detach_filter (fi_ifindex i) (fi_parent i) (fi_handle i) (fi_chain i) (fi_priority i) (fi_protocol i))"
  unfolding detach_filter_def mutate_with_attrs_def
  by (rule allows_mutate [where P = P, OF _ _ assms [unfolded filter_deletion_def]]) (simp_all add: mb_attr_u32_def mb_attr_cstr_def)

lemma allows_delete_rule [allow]:
  assumes "\<And>seq. P (Net_Call (message_bytes (rule_deletion family seq)))"
  shows "allows P (delete_rule family RULE_PRIORITY ROUTE_TABLE PEER_NAME)"
  unfolding delete_rule_def rt_rule_def
  by (rule allows_mutate [where P = P, OF _ _ assms [unfolded rule_deletion_def]]) (simp_all add: mb_attr_u32_def mb_attr_cstr_def)

lemma allows_delete_route [allow]:
  assumes "\<And>seq. P (Net_Call (message_bytes (route_deletion family lo seq)))"
  shows "allows P (delete_local_route family ROUTE_TABLE ROUTE_PROTOCOL lo)"
  unfolding delete_local_route_def local_route_def
  by (rule allows_mutate [where P = P, OF _ _ assms [unfolded route_deletion_def]]) (simp_all add: mb_attr_u32_def)

lemma allows_delete_link [allow]:
  assumes "\<And>seq. P (Net_Call (message_bytes (link_deletion ifindex seq)))"
  shows "allows P (delete_link ifindex)"
  unfolding delete_link_def rt_mutate_def mutate_with_attrs_def
  by (rule allows_mutate [where P = P, OF _ _ assms [unfolded link_deletion_def]]) (simp_all add: if_info_bytes_def)

lemma allows_ignore_absent [allow]: "allows P m \<Longrightarrow> allows P (ignore_absent m)"
  unfolding ignore_absent_def by (intro allow) (auto split: sum.split intro: allow)

lemma allows_recorded_parent [allow]: "allows (\<lambda>c. \<not> mutating c) (dump_recorded_parent f)"
  unfolding dump_recorded_parent_def by (intro allow) (auto split: sum.split intro: allow)

lemma allows_detach_identity:
  assumes q: "\<And>c. \<not> mutating c \<Longrightarrow> P c" and d: "\<And>seq. P (Net_Call (message_bytes (filter_deletion (of_identity f) seq)))"
  shows "allows P (detach_identity f)"
proof -
  have r: "allows P (dump_recorded_parent f)" "allows P (attached_program_owned i n t)" "allows P (if_nametoindex name)" for i n t name
    using q by (auto intro: allows_mono allow)
  show ?thesis
    unfolding detach_identity_def Let_def using r d by (auto split: option.split prod.split intro!: allow)
qed

lemma planned_deleteI:
  "f \<in> set (cp_tc_filters plan) \<Longrightarrow> planned_delete plan (Net_Call (message_bytes (filter_deletion (of_identity f) seq)))"
  "family \<in> set (cp_rule_families plan) \<Longrightarrow> planned_delete plan (Net_Call (message_bytes (rule_deletion family seq)))"
  "family \<in> set (cp_route_families plan) \<Longrightarrow>
     planned_delete plan (Net_Call (message_bytes (route_deletion family (cp_lo_ifindex plan) seq)))"
  "cp_host_ifindex plan = Some host \<Longrightarrow> planned_delete plan (Net_Call (message_bytes (link_deletion host seq)))"
  unfolding planned_delete_def by blast+

lemma allows_delete_planned: "allows (\<lambda>c. \<not> mutating c \<or> planned_delete plan c) (delete_planned plan)"
proof -
  let ?P = "\<lambda>c. \<not> mutating c \<or> planned_delete plan c"
  have "allows ?P (for_each detach_identity (cp_tc_filters plan))"
    by (intro allows_for_each allows_detach_identity) (auto intro: planned_deleteI)
  moreover have "allows ?P (for_each (\<lambda>family. act_map_err (dp_io ''rule_delete'')
      (ignore_absent (delete_rule family RULE_PRIORITY ROUTE_TABLE PEER_NAME))) (cp_rule_families plan))"
    by (intro allow disjI2 planned_deleteI) simp_all
  moreover have "allows ?P (for_each (\<lambda>family. act_map_err (dp_io ''route_delete'')
      (ignore_absent (delete_local_route family ROUTE_TABLE ROUTE_PROTOCOL (cp_lo_ifindex plan)))) (cp_route_families plan))"
    by (intro allow disjI2 planned_deleteI) simp_all
  moreover have "allows ?P (case cp_host_ifindex plan of None \<Rightarrow> ret ()
      | Some host \<Rightarrow> act_map_err (dp_io ''veth_delete'') (ignore_absent (delete_link host)))"
    by (cases "cp_host_ifindex plan") (simp_all add: allows_pure allows_map_err allows_ignore_absent allows_delete_link planned_deleteI)
  ultimately show ?thesis unfolding delete_planned_def by (intro allows_bind)
qed

text \<open>
  C36: cleanup changes nothing before two complete ownership dumps gave the same plan, and then sends
  only deletions of objects of that plan: its filters, the rules and routes of its families and the host
  end of its interface pair. Whatever the kernel answers, no other object is touched.
\<close>

theorem cleanup_deletes_only_planned:
  "\<exists>dumps deletes. w_log (snd (cleanup_owned m)) = w_log m @ dumps @ deletes \<and> filter mutating (map fst dumps) = [] \<and>
    (deletes = [] \<or> (\<exists>plan m1 m2. make_cleanup_plan m = (Returned (Ok plan), m1) \<and>
       make_cleanup_plan m1 = (Returned (Ok plan), m2) \<and> w_log m2 = w_log m @ dumps \<and>
       list_all (planned_delete plan) (filter mutating (map fst deletes))))"
proof -
  obtain r m' where out: "cleanup_owned m = (r, m')" by fastforce
  have quiet: "list_all (\<lambda>(c, _). \<not> mutating c) l \<Longrightarrow> filter mutating (map fst l) = []" for l :: "(call \<times> answer) list"
    by (induction l) auto
  have sane: "list_all (\<lambda>(c, _). \<not> mutating c \<or> planned_delete plan c) l \<Longrightarrow> list_all (planned_delete plan) (filter mutating (map fst l))"
    for plan and l :: "(call \<times> answer) list" by (induction l) auto
  obtain o1 m1 where p1: "make_cleanup_plan m = (o1, m1)" by fastforce
  obtain l1 where l1: "w_log m1 = w_log m @ l1" "list_all (\<lambda>(c, _). \<not> mutating c) l1"
    using allowsD [OF allows_make_plan p1] by blast
  obtain o2 m2 where p2: "make_cleanup_plan m1 = (o2, m2)" by fastforce
  obtain l2 where l2: "w_log m2 = w_log m1 @ l2" "list_all (\<lambda>(c, _). \<not> mutating c) l2"
    using allowsD [OF allows_make_plan p2] by blast
  show ?thesis
  proof (cases "\<exists>plan. o1 = Returned (Ok plan) \<and> o2 = Returned (Ok plan)")
    case True
    then obtain plan where plan: "o1 = Returned (Ok plan)" "o2 = Returned (Ok plan)" by blast
    obtain out m3 where d: "delete_planned plan m2 = (out, m3)" by fastforce
    obtain l3 where l3: "w_log m3 = w_log m2 @ l3" "list_all (\<lambda>(c, _). \<not> mutating c \<or> planned_delete plan c) l3"
      using allowsD [OF allows_delete_planned d] by blast
    have "w_log m' = w_log m3"
      using out p1 p2 plan d by (auto simp: cleanup_owned_def act_bind_def split: act_outcome.split_asm sum.split_asm)
    then show ?thesis using out p1 p2 plan l1 l2 l3 quiet [of "l1 @ l2"] sane [OF l3(2)]
      by (intro exI [of _ "l1 @ l2"] exI [of _ l3]) auto
  next
    case False
    then have "w_log m' = w_log m1 \<or> w_log m' = w_log m2"
      using out p1 p2 by (auto simp: cleanup_owned_def act_bind_def split: act_outcome.split_asm sum.split_asm if_split_asm)
    then obtain l where "w_log m' = w_log m @ l" "list_all (\<lambda>(c, _). \<not> mutating c) l"
      using l1 l2 by (elim disjE) (auto intro!: that)
    then show ?thesis using out quiet by (intro exI [of _ l] exI [of _ "[]"]) simp
  qed
qed

section \<open>A plan names only owned objects\<close>

text \<open>A planned filter was read from the interface it names, in a slot and on an interface where Flux
  attaches that program, and the kernel confirmed the program as Flux's own.\<close>

definition stale_filter :: "network_snapshot \<Rightarrow> u32 option \<Rightarrow> (call \<times> answer) list \<Rightarrow> owned_filter \<Rightarrow> bool" where
  "stale_filter snapshot peer log x \<longleftrightarrow>
    (\<exists>l f q. l \<in> set (ns_links snapshot) \<and> q \<in> set (ns_qdiscs snapshot) \<and> exact_clsact q (lk_ifindex l) \<and>
       of_ifname x = lk_name l \<and> fi_ifindex (of_identity x) = lk_ifindex l \<and> fi_matches (of_identity x) f \<and>
       expected_stale_filter l peer (fi_parent (of_identity x)) f (fi_prog_name (of_identity x)) \<and>
       (Owned_Call (fi_prog_id (of_identity x)) (fi_prog_name (of_identity x)) (fi_prog_tag (of_identity x)), Owned_Answer (Ok True)) \<in> set log)"

lemma grows_log: "allows P m \<Longrightarrow> m w = (r, w') \<Longrightarrow> set (w_log w) \<subseteq> set (w_log w')"
  using allowsD by fastforce

lemma plan_filter_Ok:
  assumes "plan_filter l peer q parent f owned w = (Returned (Ok owned'), w')"
    and "l \<in> set (ns_links snapshot)" and "q \<Longrightarrow> \<exists>x\<in>set (ns_qdiscs snapshot). exact_clsact x (lk_ifindex l)"
    and "list_all (stale_filter snapshot peer (w_log w)) owned"
  shows "list_all (stale_filter snapshot peer (w_log w')) owned'"
proof -
  have keep: "list_all (stale_filter snapshot peer (w_log w')) owned"
    using assms(4) grows_log [OF allows_plan_filter assms(1)] unfolding list_all_iff stale_filter_def by blast
  consider "owned' = owned" | i where "owned' = owned @ [\<lparr>of_ifname = lk_name l, of_identity = i, of_lower_filters = []\<rparr>]"
      "q" "expected_stale_filter l peer (fi_parent i) f (fi_prog_name i)" "fi_matches i f" "fi_ifindex i = lk_ifindex l"
      "(Owned_Call (fi_prog_id i) (fi_prog_name i) (fi_prog_tag i), Owned_Answer (Ok True)) \<in> set (w_log w')"
    using assms(1)
    by (auto simp: plan_filter_def Let_def act_bind_Ok attached_program_owned_def call_kernel_def
        split: if_split_asm option.split_asm list.split_asm answer.split_asm)
  then show ?thesis
  proof cases
    case (2 i)
    then obtain x where "x \<in> set (ns_qdiscs snapshot)" "exact_clsact x (lk_ifindex l)" using assms(3) by blast
    then show ?thesis using 2 keep assms(2) by (auto simp: stale_filter_def)
  qed (use keep in simp)
qed

lemma plan_filters_Ok:
  "plan_filters l peer q parent fs owned w = (Returned (Ok owned'), w') \<Longrightarrow> l \<in> set (ns_links snapshot) \<Longrightarrow>
   (q \<Longrightarrow> \<exists>x\<in>set (ns_qdiscs snapshot). exact_clsact x (lk_ifindex l)) \<Longrightarrow>
   list_all (stale_filter snapshot peer (w_log w)) owned \<Longrightarrow> list_all (stale_filter snapshot peer (w_log w')) owned'"
proof (induction fs arbitrary: owned w)
  case (Cons f fs)
  obtain o1 w1 where "plan_filter l peer q parent f owned w = (Returned (Ok o1), w1)"
    "plan_filters l peer q parent fs o1 w1 = (Returned (Ok owned'), w')"
    using Cons.prems(1) by (auto simp: act_bind_Ok)
  then show ?case using Cons.IH plan_filter_Ok Cons.prems(2-4) by blast
qed auto

lemma stale_filter_mono: "set log \<subseteq> set log' \<Longrightarrow> list_all (stale_filter s p log) xs \<Longrightarrow> list_all (stale_filter s p log') xs"
  unfolding list_all_iff stale_filter_def by blast

lemma plan_parents_Ok:
  "plan_parents l peer q parents owned w = (Returned (Ok owned'), w') \<Longrightarrow> l \<in> set (ns_links snapshot) \<Longrightarrow>
   (q \<Longrightarrow> \<exists>x\<in>set (ns_qdiscs snapshot). exact_clsact x (lk_ifindex l)) \<Longrightarrow>
   list_all (stale_filter snapshot peer (w_log w)) owned \<Longrightarrow> list_all (stale_filter snapshot peer (w_log w')) owned'"
proof (induction parents arbitrary: owned w)
  case (Cons parent parents)
  obtain fs w1 o1 w2 where p: "dump_filters (lk_ifindex l) parent w = (Returned (Ok fs), w1)"
    "plan_filters l peer q parent fs owned w1 = (Returned (Ok o1), w2)"
    "plan_parents l peer q parents o1 w2 = (Returned (Ok owned'), w')"
    using Cons.prems(1) by (auto simp: act_bind_Ok act_map_err_Ok)
  have "list_all (stale_filter snapshot peer (w_log w1)) owned"
    using stale_filter_mono [OF grows_log [OF allows_dumps(6) p(1)] Cons.prems(4)] .
  then show ?case using Cons.IH [OF p(3)] plan_filters_Ok [OF p(2)] Cons.prems(2,3) by blast
qed auto

lemma plan_links_Ok:
  "plan_links (ns_qdiscs snapshot) peer ls owned w = (Returned (Ok owned'), w') \<Longrightarrow> set ls \<subseteq> set (ns_links snapshot) \<Longrightarrow>
   list_all (stale_filter snapshot peer (w_log w)) owned \<Longrightarrow> list_all (stale_filter snapshot peer (w_log w')) owned'"
proof (induction ls arbitrary: owned w)
  case (Cons l ls)
  let ?q = "find (\<lambda>q. qd_ifindex q = lk_ifindex l \<and> qd_kind q = Some ''clsact'') (ns_qdiscs snapshot)"
  show ?case
  proof (cases ?q)
    case None
    then show ?thesis using Cons by simp
  next
    case (Some q)
    then have q: "q \<in> set (ns_qdiscs snapshot)" by (auto simp: find_Some_iff)
    obtain o1 w1 where p: "plan_parents l peer (exact_clsact q (lk_ifindex l)) (parents_of l peer) owned w = (Returned (Ok o1), w1)"
      "plan_links (ns_qdiscs snapshot) peer ls o1 w1 = (Returned (Ok owned'), w')"
      using Cons.prems(1) Some by (auto simp: act_bind_Ok)
    have "list_all (stale_filter snapshot peer (w_log w1)) o1"
      using plan_parents_Ok [OF p(1)] Cons.prems(2,3) q by auto
    then show ?thesis using Cons.IH [OF p(2)] Cons.prems(2) by simp
  qed
qed auto

lemma set_sort_dedup: "set (sort_dedup xs) = set xs"
  by (simp add: sort_dedup_def)

lemma families_Ok:
  "try_collect (\<lambda>x. if P x then Ok (g x) else Err e) xs = Ok ys \<Longrightarrow> list_all P xs \<and> set ys = g ` set xs"
  by (induction xs arbitrary: ys) (auto simp: and_then_eq_Ok split: if_split_asm)

lemma classify_pair_Some:
  "classify_pair snapshot = Ok (Some (h, p)) \<longleftrightarrow>
    link_named snapshot HOST_NAME = Some h \<and> link_named snapshot PEER_NAME = Some p \<and>
    lk_kind h = Some ''veth'' \<and> lk_kind p = Some ''veth'' \<and> lk_alias h = Some HOST_ALIAS \<and> lk_alias p = Some PEER_ALIAS \<and>
    lk_peer_ifindex h = Some (lk_ifindex p) \<and> lk_peer_ifindex p = Some (lk_ifindex h) \<and>
    lk_master_ifindex h = None \<and> lk_master_ifindex p = None"
  by (auto simp: classify_pair_def split: option.split)

lemma classify_pair_None:
  "classify_pair snapshot = Ok None \<longleftrightarrow> link_named snapshot HOST_NAME = None \<and> link_named snapshot PEER_NAME = None"
  by (auto simp: classify_pair_def split: option.split)


text \<open>A host with a loopback interface and one leftover rule.\<close>

definition data_message :: "u16 \<Rightarrow> bytes \<Rightarrow> raw_message" where
  "data_message kind payload = \<lparr>rm_kind = kind, rm_flags = 0, rm_seq = 0, rm_pid = 0, rm_payload = payload\<rparr>"

definition dump_answer :: "raw_message list \<Rightarrow> answer" where
  "dump_answer ms = Net_Answer (Ok ()) [Ok (ms @ [data_message NLMSG_DONE (replicate 4 0)])]"

definition sample_lo :: raw_message where
  "sample_lo = data_message RTM_NEWLINK (if_info_bytes (if_info_default\<lparr>ii_index := 1\<rparr>) @ nla_bytes (Leaf IFLA_IFNAME (as_bytes ''lo'' @ [0])))"

definition sample_rule :: raw_message where
  "sample_rule = data_message RTM_NEWRULE
    (fib_rule_bytes (fib_rule_default\<lparr>fr_family := AF_INET, fr_action := 1\<rparr>) @ concat (map nla_bytes
      [Leaf FRA_PRIORITY (le_bytes 4 RULE_PRIORITY), Leaf FRA_TABLE (le_bytes 4 ROUTE_TABLE), Leaf FRA_IIFNAME (as_bytes PEER_NAME @ [0]),
       Leaf FRA_SUPPRESS_PREFIXLEN (le_bytes 4 (- 1 :: u32)), Leaf FRA_PROTOCOL [0]]))"

definition sample_world :: world where
  "sample_world = \<lparr>w_seq = 0,
     w_answers = [dump_answer [sample_lo], dump_answer [], dump_answer [], dump_answer [sample_rule], dump_answer []], w_log = []\<rparr>"

definition sample_plan :: cleanup_plan where
  "sample_plan = \<lparr>cp_tc_filters = [], cp_host_ifindex = None, cp_lo_ifindex = 1, cp_rule_families = [AF_INET], cp_route_families = []\<rparr>"

lemma sample_plan_made: "fst (make_cleanup_plan sample_world) = Returned (Ok sample_plan)"
  by code_simp


end
