(* ===== verification/Kmod_Device.thy ===== *)
theory Kmod_Device
  imports Kernel_Calls Kmod_Uapi Gki_Line Net_Addr
begin

text \<open>
  The holder of the kernel module's control device, crates/fluxd/src/kmod.rs: the ioctl wrappers with
  their retry on an interrupted call, loading the module of the running kernel's generation and opening
  the device. Each system call is a call of the world with its \<open>errno\<close>, zero for success.
\<close>

section \<open>Controls\<close>

definition EINTR :: int where "EINTR = 4"

definition CTL_PATH :: string where "CTL_PATH = ''/dev/fluxrs''"
definition MODULE_NAME :: string where "MODULE_NAME = ''fluxrs''"

text \<open>One \<open>ioctl\<close> call: its \<open>errno\<close> and the buffer after it.\<close>

definition ioctl_once :: "u32 \<Rightarrow> bytes \<Rightarrow> ('m, io_error, int \<times> bytes) action" where
  "ioctl_once req arg =
    call_kernel (Ioctl_Call req arg) (\<lambda>a. case a of Ioctl_Answer errno buf \<Rightarrow> Some (Returned (Ok (errno, buf))) | _ \<Rightarrow> None)"

lemma call_kernel_shorter:
  "call_kernel c read w = (Returned r, w') \<Longrightarrow> length (w_answers w') < length (w_answers w)"
  by (auto simp: call_kernel_def split: list.split_asm option.split_asm)

function kmod_ioctl :: "u32 \<Rightarrow> bytes \<Rightarrow> ('m, io_error, bytes) action" where
  "kmod_ioctl req arg w =
    (case ioctl_once req arg w of
       (Returned (Ok (errno, buf)), w') \<Rightarrow>
         if errno = 0 then (Returned (Ok buf), w')
         else if errno \<noteq> EINTR then (Returned (Err (Os errno)), w')
         else kmod_ioctl req arg w'
     | (Returned (Err e), w') \<Rightarrow> (Returned (Err e), w')
     | (Blocked, w') \<Rightarrow> (Blocked, w')
     | (Panics, w') \<Rightarrow> (Panics, w'))"
  by pat_completeness auto

termination
  by (relation "measure (\<lambda>(req, arg, w). length (w_answers w))") (auto simp: ioctl_once_def dest: call_kernel_shorter [OF sym])

declare kmod_ioctl.simps [simp del]

definition listeners_bytes :: "listeners \<Rightarrow> bytes" where
  "listeners_bytes l = le_bytes 4 (lis_v4_addr l) @ le_bytes 2 (lis_v4_port l) @ le_bytes 2 (lis_pad0 l) @ lis_v6_addr l
    @ le_bytes 2 (lis_v6_port l) @ le_bytes 2 (lis_pad1 l)"

definition uids_bytes :: "uids \<Rightarrow> bytes" where
  "uids_bytes u = le_bytes 4 (uids_count u) @ concat (map (le_bytes 4) (uids_slots u))"

definition discard :: "('m, 'e, 'a) action \<Rightarrow> ('m, 'e, unit) action" where
  "discard act = act_bind act (\<lambda>_. ret ())"

definition set_listeners :: "ipv4_addr \<Rightarrow> u16 \<Rightarrow> ipv6_addr \<Rightarrow> u16 \<Rightarrow> ('m, io_error, unit) action" where
  "set_listeners v4 v4_port v6 v6_port =
    discard (kmod_ioctl SET_LISTENERS (listeners_bytes
      \<lparr>lis_v4_addr = from_le_bytes (ipv4_octets v4), lis_v4_port = to_be16 v4_port, lis_pad0 = 0,
       lis_v6_addr = ipv6_octets v6, lis_v6_port = to_be16 v6_port, lis_pad1 = 0\<rparr>))"

definition set_uids :: "u32 list \<Rightarrow> ('m, io_error, unit) action" where
  "set_uids uids =
    (if length uids > UID_SLOT_MAX then fail (InvalidInput ''too many UIDs for FLUXRS_SET_UIDS'')
     else discard (kmod_ioctl SET_UIDS (uids_bytes
       \<lparr>uids_count = word_of_nat (length uids), uids_slots = uids @ replicate (UID_SLOT_MAX - length uids) 0\<rparr>)))"

definition set_bypass :: "u32 \<Rightarrow> pfx4 list \<Rightarrow> pfx6 list \<Rightarrow> u32 list \<Rightarrow> bytes list \<Rightarrow> ('m, io_error, unit) action" where
  "set_bypass cidr_mode v4 v6 self4 self6 =
    (if length v4 > LPM_MAX \<or> length v6 > LPM_MAX then fail (InvalidInput ''too many prefixes for FLUXRS_SET_BYPASS'')
     else if length self4 > SELF_MAX \<or> length self6 > SELF_MAX then
       fail (InvalidInput ''too many self-addresses for FLUXRS_SET_BYPASS'')
     else discard (kmod_ioctl SET_BYPASS (encode_bypass cidr_mode v4 v6 self4 self6)))"

definition clear_uids :: "('m, io_error, unit) action" where
  "clear_uids = discard (kmod_ioctl CLEAR_UIDS [])"

definition read_kmod_status :: "bytes \<Rightarrow> kmod_status" where
  "read_kmod_status b =
    \<lparr>ks_live = from_le_bytes (slice 0 4 b), ks_steal_ready = from_le_bytes (slice 4 8 b),
     ks_selected_seen = from_le_bytes (slice 8 16 b), ks_stolen = from_le_bytes (slice 16 24 b),
     ks_miss_listener = from_le_bytes (slice 24 32 b)\<rparr>"

definition get_status :: "('m, io_error, kmod_status) action" where
  "get_status = act_bind (kmod_ioctl GET_STATUS (replicate 32 0)) (\<lambda>b. ret (read_kmod_status b))"

section \<open>Loading\<close>

datatype load_error =
    UnknownRelease string
  | MissingModule gki_line string
  | Finit string io_error
  | Load_Control io_error
  | Load_Io io_error

definition sys_once :: "string \<Rightarrow> string \<Rightarrow> ('m, io_error, string list) action" where
  "sys_once name arg =
    call_kernel (Sys_Call name arg)
      (\<lambda>a. case a of Sys_Answer errno out \<Rightarrow> Some (Returned (if errno = 0 then Ok out else Err (Os errno))) | _ \<Rightarrow> None)"

function sys_retry :: "string \<Rightarrow> string \<Rightarrow> ('m, io_error, string list) action" where
  "sys_retry name arg w =
    (case sys_once name arg w of
       (Returned (Ok out), w') \<Rightarrow> (Returned (Ok out), w')
     | (Returned (Err e), w') \<Rightarrow> if e \<noteq> Os EINTR then (Returned (Err e), w') else sys_retry name arg w'
     | (Blocked, w') \<Rightarrow> (Blocked, w')
     | (Panics, w') \<Rightarrow> (Panics, w'))"
  by pat_completeness auto

termination
  by (relation "measure (\<lambda>(name, arg, w). length (w_answers w))") (auto simp: sys_once_def dest: call_kernel_shorter [OF sym])

declare sys_retry.simps [simp del]

definition kernel_release :: "('m, io_error, string) action" where
  "kernel_release = act_bind (sys_once ''uname'' []) (\<lambda>out. ret (concat out))"

definition delete_module :: "('m, io_error, unit) action" where
  "delete_module = discard (sys_retry ''delete_module'' MODULE_NAME)"

definition finit_module :: "string \<Rightarrow> ('m, io_error, unit) action" where
  "finit_module path = act_bind (sys_once ''open'' path) (\<lambda>_. discard (sys_retry ''finit_module'' path))"

definition open_ctl :: "('m, io_error, unit) action" where
  "open_ctl = discard (sys_once ''open'' CTL_PATH)"

definition pick_name :: "string \<Rightarrow> gki_line \<Rightarrow> ('m, load_error, string) action" where
  "pick_name kmod_dir line =
    act_bind (act_map_err Load_Io (sys_once ''readdir'' kmod_dir))
      (\<lambda>names. lift_result (ok_or (MissingModule line kmod_dir) (pick_module_file line names)))"

definition load_from_dir :: "string \<Rightarrow> string \<Rightarrow> ('m, load_error, unit) action" where
  "load_from_dir kmod_dir release =
    act_bind (lift_result (ok_or (UnknownRelease release) (from_uname_release release)))
      (\<lambda>line. act_bind (pick_name kmod_dir line)
      (\<lambda>name. let path = kmod_dir @ ''/'' @ name
              in act_match (finit_module path)
      (\<lambda>r. case r of
         Inl e \<Rightarrow> if e = Os 17 then act_match open_ctl
                    (\<lambda>c. case c of Inr u \<Rightarrow> ret () | Inl e \<Rightarrow> act_match delete_module (\<lambda>_. fail (Load_Control e)))
                  else fail (Finit path e)
       | Inr _ \<Rightarrow> act_match open_ctl
                    (\<lambda>c. case c of Inr u \<Rightarrow> ret () | Inl e \<Rightarrow> act_match delete_module (\<lambda>_. fail (Load_Control e))))))"

end
