(* ===== verification/Data_Plane.thy ===== *)
theory Data_Plane
  imports Cleanup Kmod_Device Policy_Epoch Control_Wire "HOL-Library.List_Lexorder"
begin

text \<open>
  The data plane manager, crates/fluxd/src/dataplane/platform.rs: applying a policy, the device's own
  addresses that are always bypassed, preparing, publishing and withdrawing a generation, and the
  convergence that cleans up, loads the kernel module and reports. The policy the kernel module holds
  is what the last successful controls sent it. The status keeps what decisions depend on; interface
  rows, system settings and counters read for display are left out. How the C library words an error is
  the parameter \<open>io_text\<close>.
\<close>

section \<open>Constants and state\<close>

definition IFA_F_SECONDARY_TEMPORARY :: u32 where "IFA_F_SECONDARY_TEMPORARY = 0x01"
definition IFA_F_DADFAILED :: u32 where "IFA_F_DADFAILED = 0x08"
definition IFA_F_TENTATIVE :: u32 where "IFA_F_TENTATIVE = 0x40"
definition IFA_F_STABLE_PRIVACY :: u32 where "IFA_F_STABLE_PRIVACY = 0x800"

record desired_policy =
  dp_apps_mode :: list_mode
  dp_cidr_mode :: list_mode
  dp_interfaces_mode :: list_mode
  dp_interfaces :: "string btree_set"
  dp_selected_uids :: "u32 btree_set"
  dp_bypass_v4 :: "(lpm_v4_key, bypass_tag) btree_map"
  dp_bypass_v6 :: "(lpm_v6_key, bypass_tag) btree_map"

record dataplane_status =
  ds_active :: bool
  ds_topology_ready :: bool
  ds_bpf_ready :: bool
  ds_attachment_ready :: bool
  ds_policy :: policy_counts
  ds_warnings :: "string list"
  ds_error :: "dataplane_error option"

definition status_default :: dataplane_status where
  "status_default = \<lparr>ds_active = False, ds_topology_ready = False, ds_bpf_ready = False, ds_attachment_ready = False,
     ds_policy = policy_counts_default, ds_warnings = [], ds_error = None\<rparr>"

text \<open>\<open>kmod\<close> is whether the control device is held.\<close>

record dp_manager = manager +
  mg_test_bypass :: bool
  mg_reconciled_once :: bool
  mg_last_control :: "control option"
  mg_apps_mode :: list_mode
  mg_cidr_mode :: list_mode
  mg_interfaces_mode :: list_mode
  mg_interfaces :: "string btree_set"
  mg_uid_modes :: "(u32, u8) btree_map"
  mg_bypass_v4 :: "(lpm_v4_key, bypass_tag) btree_map"
  mg_bypass_v6 :: "(lpm_v6_key, bypass_tag) btree_map"
  mg_self_v4 :: "bytes btree_set"
  mg_self_v6 :: "bytes btree_set"
  mg_address_seen_v4 :: "(bytes, u64) btree_map"
  mg_address_seen_v6 :: "(bytes, u64) btree_map"
  mg_address_tick :: u64
  mg_kmod_dir :: string
  mg_kmod :: bool
  mg_status :: dataplane_status

type_synonym 'a dp_action = "dp_manager \<Rightarrow> (dataplane_error, 'a) act_outcome \<times> dp_manager"

definition on_status :: "(dataplane_status \<Rightarrow> dataplane_status) \<Rightarrow> dp_manager \<Rightarrow> dp_manager" where
  "on_status f m = m\<lparr>mg_status := f (mg_status m)\<rparr>"

section \<open>Policies and epochs\<close>

fun list_cidr_mode :: "list_mode \<Rightarrow> cidr_mode" where
  "list_cidr_mode Blacklist = Cidr_Blacklist"
| "list_cidr_mode Whitelist = Cidr_Whitelist"

definition cidr_mode_value :: "list_mode \<Rightarrow> u16" where
  "cidr_mode_value mode = cidr_mode_discr (list_cidr_mode mode)"

text \<open>\<open>u8::try_from(prefixlen).unwrap_or(limit).min(limit)\<close>.\<close>

definition clamp_prefix :: "u32 \<Rightarrow> u8 \<Rightarrow> u8" where
  "clamp_prefix prefixlen limit = (if unat prefixlen < 256 then min (ucast prefixlen) limit else limit)"

definition lpm_v4_to_cidr :: "lpm_v4_key \<Rightarrow> ipv4_cidr" where
  "lpm_v4_to_cidr key =
    (case ipv4_cidr_from_octets (k4_addr key) (clamp_prefix (k4_prefixlen key) 32) of
       Inr c \<Rightarrow> c | Inl _ \<Rightarrow> Ipv4Cidr 0 0)"

definition lpm_v6_to_cidr :: "lpm_v6_key \<Rightarrow> ipv6_cidr" where
  "lpm_v6_to_cidr key =
    (case ipv6_cidr_from_octets (k6_addr key) (clamp_prefix (k6_prefixlen key) 128) of
       Inr c \<Rightarrow> c | Inl _ \<Rightarrow> Ipv6Cidr 0 0)"

definition epoch_v4 :: "(lpm_v4_key, bypass_tag) btree_map \<Rightarrow> (ipv4_cidr, bypass_tag) btree_map" where
  "epoch_v4 m = map_from_iter (map (\<lambda>(key, tag). (lpm_v4_to_cidr key, tag)) m)"

definition epoch_v6 :: "(lpm_v6_key, bypass_tag) btree_map \<Rightarrow> (ipv6_cidr, bypass_tag) btree_map" where
  "epoch_v6 m = map_from_iter (map (\<lambda>(key, tag). (lpm_v6_to_cidr key, tag)) m)"

definition desired_epoch :: "desired_policy \<Rightarrow> bytes btree_set \<Rightarrow> bytes btree_set \<Rightarrow> policy_epoch" where
  "desired_epoch desired s4 s6 =
    (epoch_new (list_cidr_mode (dp_cidr_mode desired)))
      \<lparr>selected := dp_selected_uids desired,
       bypass_v4 := epoch_v4 (dp_bypass_v4 desired), bypass_v6 := epoch_v6 (dp_bypass_v6 desired),
       self_v4 := set_from_iter (map ipv4_from_octets s4), self_v6 := set_from_iter (map ipv6_from_octets s6)\<rparr>"

definition uid_modes_from_epoch :: "policy_epoch \<Rightarrow> (u32, u8) btree_map" where
  "uid_modes_from_epoch epoch =
    (let modes = fold (\<lambda>uid. map_insert uid (uid_mode_discr Selected)) (selected epoch) []
     in fold (\<lambda>uid. map_insert uid (uid_mode_discr Draining)) (draining epoch) modes)"

definition live_uid :: "u32 \<times> u8 \<Rightarrow> policy_epoch \<Rightarrow> policy_epoch" where
  "live_uid = (\<lambda>(uid, mode) epoch.
    if mode = uid_mode_discr Selected then epoch\<lparr>selected := set_insert uid (selected epoch)\<rparr>
    else if mode = uid_mode_discr Draining then epoch\<lparr>draining := set_insert uid (draining epoch)\<rparr>
    else epoch)"

definition live_epoch :: "dp_manager \<Rightarrow> policy_epoch" where
  "live_epoch m =
    (fold live_uid (mg_uid_modes m) (epoch_new (list_cidr_mode (mg_cidr_mode m))))
      \<lparr>bypass_v4 := epoch_v4 (mg_bypass_v4 m), bypass_v6 := epoch_v6 (mg_bypass_v6 m),
       self_v4 := set_from_iter (map ipv4_from_octets (mg_self_v4 m)),
       self_v6 := set_from_iter (map ipv6_from_octets (mg_self_v6 m))\<rparr>"

definition policy_counts :: "dp_manager \<Rightarrow> policy_counts" where
  "policy_counts m =
    \<lparr>pc_apps_mode = mg_apps_mode m, pc_cidr_mode = mg_cidr_mode m, pc_interfaces_mode = mg_interfaces_mode m,
     pc_selected = word_of_nat (length (filter (\<lambda>(_, mode). mode = uid_mode_discr Selected) (mg_uid_modes m))),
     pc_draining = word_of_nat (length (filter (\<lambda>(_, mode). mode = uid_mode_discr Draining) (mg_uid_modes m))),
     pc_bypass_v4 = word_of_nat (length (mg_bypass_v4 m)), pc_bypass_v6 = word_of_nat (length (mg_bypass_v6 m)),
     pc_self_addresses = word_of_nat (length (mg_self_v4 m) + length (mg_self_v6 m))\<rparr>"

section \<open>The device's own addresses\<close>

definition is_privacy_address :: "u8 \<Rightarrow> u32 \<Rightarrow> bool" where
  "is_privacy_address family flags \<longleftrightarrow>
    family = AF_INET6 \<and> flags AND (IFA_F_SECONDARY_TEMPORARY OR IFA_F_STABLE_PRIVACY) \<noteq> 0"

text \<open>\<open>is_unspecified\<close> and \<open>is_multicast\<close> on octets.\<close>

definition ineligible_v4 :: "bytes \<Rightarrow> bool" where
  "ineligible_v4 b \<longleftrightarrow> b = replicate 4 0 \<or> 224 \<le> b ! 0 \<and> b ! 0 \<le> 239"

definition ineligible_v6 :: "bytes \<Rightarrow> bool" where
  "ineligible_v6 b \<longleftrightarrow> b = replicate 16 0 \<or> b ! 0 = 255"

definition add_candidate :: "bytes \<Rightarrow> bool \<Rightarrow> (bytes, bool) btree_map \<Rightarrow> (bytes, bool) btree_map" where
  "add_candidate b privacy m =
    map_insert b (case map_get m b of None \<Rightarrow> privacy | Some existing \<Rightarrow> existing \<and> privacy) m"

definition candidate :: "address \<Rightarrow> (bytes, bool) btree_map \<times> (bytes, bool) btree_map \<Rightarrow> (bytes, bool) btree_map \<times> (bytes, bool) btree_map" where
  "candidate a = (\<lambda>(v4, v6).
    if ad_flags a AND (IFA_F_TENTATIVE OR IFA_F_DADFAILED) \<noteq> 0 then (v4, v6)
    else if ad_family a = AF_INET \<and> length (ad_bytes a) = 4 then
      (if ineligible_v4 (ad_bytes a) then (v4, v6) else (add_candidate (ad_bytes a) False v4, v6))
    else if ad_family a = AF_INET6 \<and> length (ad_bytes a) = 16 then
      (if ineligible_v6 (ad_bytes a) then (v4, v6)
       else (v4, add_candidate (ad_bytes a) (is_privacy_address (ad_family a) (ad_flags a)) v6))
    else (v4, v6))"

text \<open>A new address gets the next tick; addresses that are gone are forgotten.\<close>

definition see_address :: "bytes \<Rightarrow> (bytes, u64) btree_map \<times> u64 \<Rightarrow> (bytes, u64) btree_map \<times> u64" where
  "see_address b = (\<lambda>(seen, tick).
    if map_contains_key seen b then (seen, tick)
    else (map_insert b (saturating_add tick 1) seen, saturating_add tick 1))"

definition retain_seen :: "(bytes, bool) btree_map \<Rightarrow> (bytes, u64) btree_map \<Rightarrow> (bytes, u64) btree_map" where
  "retain_seen candidates seen = map_retain (\<lambda>b _. map_contains_key candidates b) seen"

text \<open>\<open>Reverse\<close> orders by the complement. The addresses are distinct, so the order is total.\<close>

definition select_self_addresses ::
    "(bytes, bool) btree_map \<Rightarrow> (bytes, u64) btree_map \<Rightarrow> nat \<Rightarrow> dataplane_error + bytes btree_set \<times> bool" where
  "select_self_addresses candidates seen capacity =
    (let chosen = set_from_iter (map fst (filter (\<lambda>(_, privacy). \<not> privacy) candidates))
     in if length chosen > capacity then Err ''policy_capacity:self_addr''
        else
          (let privacy = sort_key (\<lambda>b. (NOT (case map_get seen b of None \<Rightarrow> 0 | Some t \<Rightarrow> t), b))
                 (map fst (filter (\<lambda>(_, privacy). privacy) candidates));
               available = capacity - length chosen
           in Ok (set_extend chosen (take available privacy), length privacy > available)))"

definition desired_self_addresses :: "address list \<Rightarrow> (bytes btree_set \<times> bytes btree_set \<times> bool) dp_action" where
  "desired_self_addresses addresses m =
    (let (v4, v6) = fold candidate addresses ([], []);
         (seen4, tick) = fold see_address (map_keys v4) (retain_seen v4 (mg_address_seen_v4 m), mg_address_tick m);
         (seen6, tick) = fold see_address (map_keys v6) (retain_seen v6 (mg_address_seen_v6 m), tick);
         m = m\<lparr>mg_address_seen_v4 := seen4, mg_address_seen_v6 := seen6, mg_address_tick := tick\<rparr>;
         capacity = unat SELF_ADDR_MAX_ENTRIES
     in (Returned (and_then (select_self_addresses v4 seen4 capacity)
           (\<lambda>(s4, t4). and_then (select_self_addresses v6 seen6 capacity) (\<lambda>(s6, t6). Ok (s4, s6, t4 \<or> t6)))), m))"

section \<open>Applying a policy\<close>

definition kmod_pfx4 :: "ipv4_cidr \<times> bypass_tag \<Rightarrow> pfx4" where
  "kmod_pfx4 = (\<lambda>(cidr, tag). \<lparr>p4_addr = from_le_bytes (ipv4_octets (v4_addr cidr)), p4_prefixlen = v4_prefix_len cidr,
     p4_tag = bypass_tag_discr tag, p4_pad = [0, 0]\<rparr>)"

definition kmod_pfx6 :: "ipv6_cidr \<times> bypass_tag \<Rightarrow> pfx6" where
  "kmod_pfx6 = (\<lambda>(cidr, tag). \<lparr>p6_addr = ipv6_octets (v6_addr cidr), p6_prefixlen = v6_prefix_len cidr,
     p6_tag = bypass_tag_discr tag, p6_pad = [0, 0]\<rparr>)"

definition kmod_set_bypass :: "policy_epoch \<Rightarrow> ('m, dataplane_error, unit) action" where
  "kmod_set_bypass epoch =
    act_map_err (dp_io ''lkm_set_bypass'')
      (set_bypass (ucast (cidr_mode_discr (pe_cidr_mode epoch))) (map kmod_pfx4 (bypass_v4 epoch)) (map kmod_pfx6 (bypass_v6 epoch))
        (map (\<lambda>a. from_le_bytes (ipv4_octets a)) (self_v4 epoch)) (map ipv6_octets (self_v6 epoch)))"

text \<open>\<open>destroy_tcp_for_uids\<close>, whose own behaviour is Sock_Diag; here only its result matters.\<close>

definition destroy_tcp :: "u32 list \<Rightarrow> ('m, io_error, unit) action" where
  "destroy_tcp uids = call_kernel (Destroy_Call uids) (\<lambda>a. case a of Destroy_Answer r \<Rightarrow> Some (Returned r) | _ \<Rightarrow> None)"

definition on_warnings :: "(string list \<Rightarrow> string list) \<Rightarrow> dp_manager \<Rightarrow> dp_manager" where
  "on_warnings f = on_status (\<lambda>s. s\<lparr>ds_warnings := f (ds_warnings s)\<rparr>)"

definition reset_dropped :: "(io_error \<Rightarrow> string) \<Rightarrow> u32 list \<Rightarrow> unit dp_action" where
  "reset_dropped io_text dropped m =
    (let m = on_warnings (filter (\<lambda>x. \<not> starts_with x ''sock_destroy_'')) m
     in if dropped = [] then (Returned (Ok ()), m)
        else act_match (destroy_tcp dropped)
          (\<lambda>r m. case r of
             Inr _ \<Rightarrow> (Returned (Ok ()), m)
           | Inl e \<Rightarrow>
               (Returned (Ok ()), on_warnings (\<lambda>ws. ws @
                 [if dump_retryable e then ''sock_destroy_incomplete: live TCP of unselected UIDs was not reset''
                  else ''sock_destroy_failed:'' @ io_text e]) m)) m)"

definition record_policy :: "desired_policy \<Rightarrow> policy_epoch \<Rightarrow> bytes btree_set \<Rightarrow> bytes btree_set \<Rightarrow> bool \<Rightarrow> dp_manager \<Rightarrow> dp_manager" where
  "record_policy desired nxt s4 s6 truncated m =
    (let m = m\<lparr>mg_last_control := map_option (\<lambda>c. c\<lparr>selected_count := word_of_nat (length (selected nxt)),
               draining_count := word_of_nat (length (draining nxt)), bypass_v4_count := word_of_nat (length (bypass_v4 nxt)),
               bypass_v6_count := word_of_nat (length (bypass_v6 nxt)), ctl_cidr_mode := cidr_mode_value (dp_cidr_mode desired)\<rparr>)
               (mg_last_control m)\<rparr>;
         m = m\<lparr>mg_uid_modes := uid_modes_from_epoch nxt, mg_bypass_v4 := dp_bypass_v4 desired, mg_bypass_v6 := dp_bypass_v6 desired,
               mg_self_v4 := s4, mg_self_v6 := s6, mg_apps_mode := dp_apps_mode desired, mg_cidr_mode := dp_cidr_mode desired,
               mg_interfaces_mode := dp_interfaces_mode desired, mg_interfaces := dp_interfaces desired\<rparr>;
         m = on_status (\<lambda>s. s\<lparr>ds_policy := policy_counts m\<rparr>) m;
         m = on_warnings (filter (\<lambda>x. \<not> contains_str x ''self_addr_lru'')) m
     in if truncated then
          on_warnings (\<lambda>ws. ws @ [''self_addr_lru: more than 256 live privacy addresses; oldest entries were omitted'']) m
        else m)"

definition apply_policy :: "(io_error \<Rightarrow> string) \<Rightarrow> desired_policy \<Rightarrow> unit dp_action" where
  "apply_policy io_text desired m =
    (if mg_test_bypass m then
       (Returned (Ok ()), on_status (\<lambda>s. s\<lparr>ds_policy := policy_counts_default
          \<lparr>pc_apps_mode := dp_apps_mode desired, pc_cidr_mode := dp_cidr_mode desired, pc_interfaces_mode := dp_interfaces_mode desired,
           pc_selected := word_of_nat (length (dp_selected_uids desired)),
           pc_bypass_v4 := word_of_nat (length (dp_bypass_v4 desired)),
           pc_bypass_v6 := word_of_nat (length (dp_bypass_v6 desired))\<rparr>\<rparr>) m)
     else if length (dp_selected_uids desired) > unat UID_SELECTED_MAX then (Returned (Err ''policy_capacity:selected''), m)
     else if length (dp_bypass_v4 desired) > unat LPM_MAX_ENTRIES \<or> length (dp_bypass_v6 desired) > unat LPM_MAX_ENTRIES
     then (Returned (Err ''policy_capacity:bypass''), m)
     else
       act_bind (act_map_err (dp_io ''rtnetlink_dump'') net_snapshot)
         (\<lambda>snapshot. act_bind (desired_self_addresses (ns_addresses snapshot))
         (\<lambda>(s4, s6, truncated) m.
            let from = live_epoch m;
                nxt = committed from (desired_epoch desired s4 s6)
            in if length (selected nxt) + length (draining nxt) > unat UID_POLICY_MAX_ENTRIES then
                 (Returned (Err ''policy_capacity:uid_policy''), m)
               else if \<not> mg_kmod m then (Returned (Err ''lkm_not_loaded''), m)
               else
                 act_bind (kmod_set_bypass nxt)
                   (\<lambda>_. act_match (set_uids (selected nxt))
                     (\<lambda>r. case r of
                        Inl e \<Rightarrow> act_match (kmod_set_bypass from) (\<lambda>_. fail (dp_io ''lkm_set_uids'' e))
                      | Inr _ \<Rightarrow>
                          act_bind (reset_dropped io_text (set_difference (selected from) (selected nxt)))
                            (\<lambda>_ m. (Returned (Ok ()), record_policy desired nxt s4 s6 truncated m)))) m)) m)"

definition stage_interface_policy :: "desired_policy \<Rightarrow> dp_manager \<Rightarrow> dp_manager" where
  "stage_interface_policy desired m =
    on_status (\<lambda>s. s\<lparr>ds_policy := (ds_policy s)\<lparr>pc_interfaces_mode := dp_interfaces_mode desired\<rparr>\<rparr>)
      (m\<lparr>mg_interfaces_mode := dp_interfaces_mode desired, mg_interfaces := dp_interfaces desired\<rparr>)"

section \<open>Generations\<close>

definition parsed :: "string \<Rightarrow> (string \<Rightarrow> 'a option) \<Rightarrow> dataplane_error + 'a" where
  "parsed text parse = ok_or ''control_address_invalid'' (parse text)"

definition inactive_control :: "u32 \<Rightarrow> u32 \<Rightarrow> u64 \<Rightarrow> u16 \<Rightarrow> u16 \<Rightarrow> dataplane_error + control" where
  "inactive_control host_ifindex peer_ifindex generation port_v4 port_v6 =
    and_then (parsed LISTEN_V4_STR parse_ipv4)
      (\<lambda>l4. and_then (parsed LISTEN_V6_STR parse_ipv6)
      (\<lambda>l6. and_then (parsed PROBE_REMOTE_V4_STR parse_ipv4)
      (\<lambda>p4. and_then (parsed PROBE_REMOTE_V6_STR parse_ipv6)
      (\<lambda>p6. Ok \<lparr>abi_magic = FLUX_ABI_MAGIC, active = 0, ctl_generation = max generation 1, flxrs0_ifindex = host_ifindex,
         flxrs1_ifindex = peer_ifindex, listen_port_v4 = to_be16 port_v4, listen_port_v6 = to_be16 port_v6,
         listen_v4 = ipv4_octets l4, probe_remote_v4 = ipv4_octets p4, probe_remote_port = to_be16 PROBE_REMOTE_PORT,
         ctl_cidr_mode = cidr_mode_discr Cidr_Blacklist, listen_v6 = ipv6_octets l6, probe_remote_v6 = ipv6_octets p6,
         selected_count = 0, draining_count = 0, bypass_v4_count = 0, bypass_v6_count = 0, policy_bank = 0,
         ctl_pad1 = replicate 7 0\<rparr>))))"

definition with_counts :: "policy_counts \<Rightarrow> control \<Rightarrow> control" where
  "with_counts counts c = c\<lparr>selected_count := pc_selected counts, draining_count := pc_draining counts,
     bypass_v4_count := pc_bypass_v4 counts, bypass_v6_count := pc_bypass_v6 counts\<rparr>"

definition publish_active :: "unit dp_action" where
  "publish_active m =
    (if mg_test_bypass m then (Returned (Ok ()), m)
     else if \<not> ds_attachment_ready (mg_status m) then (Returned (Err ''dataplane_not_ready''), m)
     else
       (case mg_last_control m of
          None \<Rightarrow> (Returned (Err ''control_missing''), m)
        | Some c \<Rightarrow>
            (Returned (Ok ()), on_status (\<lambda>s. s\<lparr>ds_active := True\<rparr>)
               (m\<lparr>mg_last_control := Some (with_counts (policy_counts m) (c\<lparr>active := 1\<rparr>))\<rparr>))))"

definition publish_inactive :: "unit dp_action" where
  "publish_inactive m =
    (if mg_test_bypass m then (Returned (Ok ()), m)
     else
       (case mg_last_control m of
          None \<Rightarrow> (Returned (Ok ()), on_status (\<lambda>s. s\<lparr>ds_active := False\<rparr>) m)
        | Some c \<Rightarrow>
            (let m = (if active c \<noteq> 0 then m\<lparr>mg_last_control := Some (c\<lparr>active := 0\<rparr>)\<rparr> else m)
             in act_bind (if mg_kmod m then act_map_err (dp_io ''lkm_clear_uids'') clear_uids else ret ())
                  (\<lambda>_ m. (Returned (Ok ()), on_status (\<lambda>s. s\<lparr>ds_active := False\<rparr>) m)) m)))"

definition prepare_generation :: "u64 \<Rightarrow> u16 \<Rightarrow> u16 \<Rightarrow> unit dp_action" where
  "prepare_generation generation port_v4 port_v6 m =
    (if mg_test_bypass m then (Returned (Ok ()), m)
     else
       act_bind (lift_result (inactive_control 0 0 generation port_v4 port_v6))
         (\<lambda>control m.
            let control = control\<lparr>ctl_cidr_mode := cidr_mode_value (mg_cidr_mode m)\<rparr>;
                control = (case mg_last_control m of Some before \<Rightarrow> control\<lparr>policy_bank := policy_bank before AND 1\<rparr> | None \<Rightarrow> control);
                control = with_counts (policy_counts m) control
            in act_bind (lift_result (parsed LISTEN_V4_STR parse_ipv4))
                 (\<lambda>listen_v4. act_bind (lift_result (parsed LISTEN_V6_STR parse_ipv6))
                 (\<lambda>listen_v6 m. if \<not> mg_kmod m then (Returned (Err ''lkm_not_loaded''), m)
                    else act_bind (act_map_err (dp_io ''lkm_set_listeners'') (set_listeners listen_v4 port_v4 listen_v6 port_v6))
                      (\<lambda>_ m. (Returned (Ok ()), on_status (\<lambda>s. s\<lparr>ds_active := False\<rparr>) (m\<lparr>mg_last_control := Some control\<rparr>))) m)) m) m)"

section \<open>Convergence\<close>

fun kmod_load_error :: "load_error \<Rightarrow> dataplane_error" where
  "kmod_load_error (UnknownRelease release) = ''lkm_unknown_release:'' @ release"
| "kmod_load_error (MissingModule _ _) = ''lkm_missing_module''"
| "kmod_load_error (Finit _ e) = dp_io ''lkm_finit'' e"
| "kmod_load_error (Load_Control e) = dp_io ''lkm_control'' e"
| "kmod_load_error (Load_Io e) = dp_io ''lkm_io'' e"

definition drop_kmod :: "dp_manager \<Rightarrow> dp_manager" where
  "drop_kmod m = on_status (\<lambda>s. s\<lparr>ds_attachment_ready := False, ds_bpf_ready := False, ds_topology_ready := False\<rparr>) (m\<lparr>mg_kmod := False\<rparr>)"

definition load_kmod :: "unit dp_action" where
  "load_kmod m =
    (if mg_kmod m then (Returned (Ok ()), m)
     else
       act_bind (act_map_err (dp_io ''uname'') kernel_release)
         (\<lambda>release m. act_bind (act_map_err kmod_load_error (load_from_dir (mg_kmod_dir m) release))
           (\<lambda>_ m. (Returned (Ok ()), m\<lparr>mg_kmod := True\<rparr>)) m) m)"

definition ensure_kmod :: "unit dp_action" where
  "ensure_kmod =
    act_bind load_kmod
      (\<lambda>_. act_bind (act_map_err (dp_io ''lkm_status'') get_status)
      (\<lambda>status m.
         if ks_steal_ready status = 0 then (Returned (Err ''lkm_tproxy_symbol''), drop_kmod m)
         else
           (case mg_last_control m of
              Some _ \<Rightarrow> (Returned (Ok ()), m)
            | None \<Rightarrow> (case inactive_control 0 0 1 0 0 of
                         Inl e \<Rightarrow> (Returned (Err e), m)
                       | Inr c \<Rightarrow> (Returned (Ok ()), m\<lparr>mg_last_control := Some c\<rparr>)))))"

text \<open>
  \<open>converge_inner\<close> returns nothing; a failure is the \<open>error\<close> of the status it stores. The next status is
  built from the state at entry.
\<close>

definition reconcile :: "unit dp_action" where
  "reconcile m =
    (if mg_reconciled_once m then (Returned (Ok ()), m)
     else act_bind cleanup_owned (\<lambda>_ m. (Returned (Ok ()), m\<lparr>mg_reconciled_once := True\<rparr>)) m)"

definition converge_inner :: "bool \<Rightarrow> bool \<Rightarrow> unit dp_action" where
  "converge_inner enabled has_object m =
    (if mg_test_bypass m then
       (Returned (Ok ()), m\<lparr>mg_status := status_default\<lparr>ds_policy := ds_policy (mg_status m),
          ds_warnings := [''no data plane: debug-only daemon integration-test bypass'']\<rparr>\<rparr>)
     else
       (let nxt = status_default\<lparr>ds_active := ds_active (mg_status m), ds_policy := ds_policy (mg_status m)\<rparr>
        in act_match reconcile
          (\<lambda>r. case r of
             Inl e \<Rightarrow> (\<lambda>m. (Returned (Ok ()), m\<lparr>mg_status := nxt\<lparr>ds_error := Some e\<rparr>\<rparr>))
           | Inr _ \<Rightarrow>
               if \<not> enabled then
                 (\<lambda>m. act_match publish_inactive
                   (\<lambda>r m. (Returned (Ok ()), m\<lparr>mg_status := (case r of
                       Inl e \<Rightarrow> nxt\<lparr>ds_error := Some e\<rparr> | Inr _ \<Rightarrow> nxt\<lparr>ds_active := False\<rparr>)\<rparr>)) (drop_kmod m))
               else
                 act_match ensure_kmod
                   (\<lambda>r m. (Returned (Ok ()), m\<lparr>mg_status := (case r of
                       Inl e \<Rightarrow> nxt\<lparr>ds_error := Some e\<rparr>
                     | Inr _ \<Rightarrow>
                         (let n = nxt\<lparr>ds_topology_ready := True, ds_bpf_ready := True, ds_attachment_ready := mg_kmod m\<rparr>
                          in if \<not> has_object then n\<lparr>ds_warnings :=
                               [''phase-3 network seam is the LOCAL_OUT module; no BPF object was requested'']\<rparr>
                             else if \<not> ds_active n then n\<lparr>ds_warnings :=
                               [''LOCAL_OUT module is loaded with steal idle until the engine is ready'']\<rparr>
                             else n))\<rparr>))) m))"

definition converge :: "bool \<Rightarrow> unit dp_action" where
  "converge enabled = converge_inner enabled False"

definition converge_with_bpf :: "bool \<Rightarrow> unit dp_action" where
  "converge_with_bpf enabled = converge_inner enabled True"

text \<open>\<open>Manager::open\<close>: the two sockets are the world; whether the test seam is on and the default module
  directory come from the environment.\<close>

definition manager_open :: "world \<Rightarrow> bool \<Rightarrow> string \<Rightarrow> dp_manager" where
  "manager_open w test_bypass default_kmod_dir =
    \<lparr>w_seq = w_seq w, w_answers = w_answers w, w_log = w_log w,
     mg_attached = [], mg_attaching = False, mg_default_route_ready = False, mg_test_bypass = test_bypass, mg_reconciled_once = False,
     mg_last_control = None, mg_apps_mode = Whitelist, mg_cidr_mode = Blacklist, mg_interfaces_mode = Blacklist, mg_interfaces = [],
     mg_uid_modes = [], mg_bypass_v4 = [], mg_bypass_v6 = [], mg_self_v4 = [], mg_self_v6 = [], mg_address_seen_v4 = [],
     mg_address_seen_v6 = [], mg_address_tick = 0, mg_kmod_dir = default_kmod_dir, mg_kmod = False, mg_status = status_default\<rparr>"

definition set_kmod_dir :: "string \<Rightarrow> dp_manager \<Rightarrow> dp_manager" where
  "set_kmod_dir dir m = m\<lparr>mg_kmod_dir := dir\<rparr>"

section \<open>What the controls do to the log and to the state\<close>

text \<open>The argument of the last successful control of a kind.\<close>

definition last_ioctl :: "u32 \<Rightarrow> (call \<times> answer) list \<Rightarrow> bytes option" where
  "last_ioctl req log =
    fold (\<lambda>(c, a) r. case (c, a) of
        (Ioctl_Call q arg, Ioctl_Answer errno _) \<Rightarrow> if q = req \<and> errno = 0 then Some arg else r
      | _ \<Rightarrow> r) log None"

lemma last_ioctl_append [simp]:
  "last_ioctl req (log @ [(Ioctl_Call q arg, Ioctl_Answer errno b)]) = (if q = req \<and> errno = 0 then Some arg else last_ioctl req log)"
  "last_ioctl req (log @ [(Net_Call x, a)]) = last_ioctl req log"
  "last_ioctl req (log @ [(Destroy_Call u, a)]) = last_ioctl req log"
  by (simp_all add: last_ioctl_def)

lemma allows_ioctl [allow]: "P (Ioctl_Call req arg) \<Longrightarrow> allows P (kmod_ioctl req arg)"
  unfolding allows_def
proof
  fix w :: "'m world_scheme"
  assume "P (Ioctl_Call req arg)"
  then show "world.more (snd (kmod_ioctl req arg w)) = world.more w \<and>
      (\<exists>l. w_log (snd (kmod_ioctl req arg w)) = w_log w @ l \<and> list_all (\<lambda>(c, _). P c) l)"
  proof (induction req arg w rule: kmod_ioctl.induct)
    case (1 req arg w)
    have f: "allows P (ioctl_once req arg)" unfolding ioctl_once_def using 1 by (intro allow)
    obtain out w1 where o: "ioctl_once req arg w = (out, w1)" by fastforce
    obtain l where l: "world.more w1 = world.more w" "w_log w1 = w_log w @ l" "list_all (\<lambda>(c, _). P c) l"
      using allowsD [OF f o] allows_more [OF f o] by blast
    show ?case
    proof (cases "\<exists>errno b. out = Returned (Ok (errno, b)) \<and> errno \<noteq> 0 \<and> errno = EINTR")
      case True
      then have k: "kmod_ioctl req arg w = kmod_ioctl req arg w1" using o by (subst kmod_ioctl.simps) auto
      have "world.more (snd (kmod_ioctl req arg w1)) = world.more w1 \<and>
          (\<exists>l. w_log (snd (kmod_ioctl req arg w1)) = w_log w1 @ l \<and> list_all (\<lambda>(c, _). P c) l)"
        using True o "1.IH" "1.prems" by fastforce
      then show ?thesis unfolding k using l by auto
    next
      case False
      then have "snd (kmod_ioctl req arg w) = w1" using o by (subst kmod_ioctl.simps) (auto split: act_outcome.split sum.split)
      then show ?thesis using l by auto
    qed
  qed
qed

lemma allows_controls [allow]:
  "P (Ioctl_Call SET_UIDS (uids_bytes \<lparr>uids_count = word_of_nat (length us), uids_slots = us @ replicate (UID_SLOT_MAX - length us) 0\<rparr>)) \<Longrightarrow>
     allows P (set_uids us)"
  "allows (\<lambda>_. True) (kmod_set_bypass e)" "allows (\<lambda>_. True) (destroy_tcp us)"
  unfolding set_uids_def kmod_set_bypass_def set_bypass_def destroy_tcp_def discard_def by (auto intro!: allow)

lemma ioctl_last:
  "kmod_ioctl req arg w = (Returned r, w') \<Longrightarrow>
   last_ioctl q (w_log w') = (if q = req \<and> (\<exists>b. r = Ok b) then Some arg else last_ioctl q (w_log w))"
proof (induction req arg w rule: kmod_ioctl.induct)
  case (1 req arg w)
  have once: "ioctl_once req arg w = (Returned r1, w1) \<Longrightarrow>
      \<exists>errno b. r1 = Ok (errno, b) \<and> w_log w1 = w_log w @ [(Ioctl_Call req arg, Ioctl_Answer errno b)]" for r1 w1
    by (auto simp: ioctl_once_def call_kernel_def split: list.split_asm answer.split_asm)
  obtain out w1 where o: "ioctl_once req arg w = (out, w1)" by fastforce
  then obtain r1 where r1: "out = Returned r1" using "1.prems" by (subst (asm) kmod_ioctl.simps) (auto split: act_outcome.split_asm)
  then obtain errno b where eb: "r1 = Ok (errno, b)" "w_log w1 = w_log w @ [(Ioctl_Call req arg, Ioctl_Answer errno b)]"
    using once o by blast
  show ?case
  proof (cases "errno = EINTR")
    case True
    then have "errno \<noteq> 0" by (simp add: EINTR_def)
    moreover have "kmod_ioctl req arg w1 = (Returned r, w')"
      using "1.prems" o r1 eb True calculation by (subst (asm) kmod_ioctl.simps) simp
    ultimately show ?thesis using "1.IH" [OF o [symmetric]] r1 eb True by auto
  next
    case False
    then show ?thesis using "1.prems" o r1 eb by (subst (asm) kmod_ioctl.simps) (auto split: if_split_asm)
  qed
qed

lemma quiet_last: "allows (\<lambda>c. \<not> mutating c) m \<Longrightarrow> m w = (r, w') \<Longrightarrow> last_ioctl q (w_log w') = last_ioctl q (w_log w)"
proof -
  assume a: "allows (\<lambda>c. \<not> mutating c) m" "m w = (r, w')"
  obtain l where l: "w_log w' = w_log w @ l" "list_all (\<lambda>(c, _). \<not> mutating c) l" using allowsD [OF a] by blast
  have "list_all (\<lambda>(c, _). \<not> mutating c) l \<Longrightarrow> last_ioctl q (log @ l) = last_ioctl q log" for log
  proof (induction l arbitrary: log)
    case (Cons x l)
    have "last_ioctl q (log @ [x]) = last_ioctl q log"
      using Cons.prems by (auto simp: last_ioctl_def mutating_def split: call.split_asm call.split answer.split)
    then show ?case using Cons.IH [of "log @ [x]"] Cons.prems by simp
  qed simp
  then show ?thesis using l by simp
qed

section \<open>Live and recorded epochs\<close>

lemma live_uids:
  fixes e :: policy_epoch
  shows "set (selected (fold live_uid kvs e)) = set (selected e) \<union> {u. (u, 1) \<in> set kvs}"
    "set (draining (fold live_uid kvs e)) = set (draining e) \<union> {u. (u, 2) \<in> set kvs}"
    "set_inv (selected e) \<Longrightarrow> set_inv (selected (fold live_uid kvs e))"
    "set_inv (draining e) \<Longrightarrow> set_inv (draining (fold live_uid kvs e))"
    "pe_cidr_mode (fold live_uid kvs e) = pe_cidr_mode e"
proof -
  have step: "set (selected (live_uid kv e)) = (if snd kv = 1 then insert (fst kv) (set (selected e)) else set (selected e))"
    "set (draining (live_uid kv e)) = (if snd kv = 2 then insert (fst kv) (set (draining e)) else set (draining e))"
    "set_inv (selected e) \<Longrightarrow> set_inv (selected (live_uid kv e))" "set_inv (draining e) \<Longrightarrow> set_inv (draining (live_uid kv e))"
    "pe_cidr_mode (live_uid kv e) = pe_cidr_mode e" for kv e
    by (auto simp: live_uid_def split: prod.split)
  show "set (selected (fold live_uid kvs e)) = set (selected e) \<union> {u. (u, 1) \<in> set kvs}"
    by (induction kvs arbitrary: e) (auto simp: step)
  show "set (draining (fold live_uid kvs e)) = set (draining e) \<union> {u. (u, 2) \<in> set kvs}"
    by (induction kvs arbitrary: e) (auto simp: step)
  show "set_inv (selected e) \<Longrightarrow> set_inv (selected (fold live_uid kvs e))" "set_inv (draining e) \<Longrightarrow> set_inv (draining (fold live_uid kvs e))"
    "pe_cidr_mode (fold live_uid kvs e) = pe_cidr_mode e"
    by (induction kvs arbitrary: e) (auto simp: step)
qed

lemma live_epoch_fields:
  "set (selected (live_epoch m)) = {u. (u, 1) \<in> set (mg_uid_modes m)}"
  "set (draining (live_epoch m)) = {u. (u, 2) \<in> set (mg_uid_modes m)}"
  "pe_cidr_mode (live_epoch m) = list_cidr_mode (mg_cidr_mode m)"
  "bypass_v4 (live_epoch m) = epoch_v4 (mg_bypass_v4 m)" "bypass_v6 (live_epoch m) = epoch_v6 (mg_bypass_v6 m)"
  "self_v4 (live_epoch m) = set_from_iter (map ipv4_from_octets (mg_self_v4 m))"
  "self_v6 (live_epoch m) = set_from_iter (map ipv6_from_octets (mg_self_v6 m))"
  "set_inv (selected (live_epoch m))" "set_inv (draining (live_epoch m))"
  by (simp_all add: live_epoch_def live_uids epoch_new_def)

lemma map_inv_from_iter: "map_inv (map_from_iter kvs)"
  by (simp add: map_from_iter_def map_inv_extend)

lemma epoch_inv_live: "map_inv (mg_uid_modes m) \<Longrightarrow> epoch_inv (live_epoch m)"
  by (auto simp: epoch_inv_def live_epoch_fields epoch_v4_def epoch_v6_def map_inv_from_iter map_get_Some_iff [symmetric])

lemma epoch_inv_desired: "set_inv (dp_selected_uids d) \<Longrightarrow> epoch_inv (desired_epoch d s4 s6)"
  by (simp add: epoch_inv_def desired_epoch_def epoch_new_def epoch_v4_def epoch_v6_def map_inv_from_iter)

lemma uid_modes_insert:
  "map_inv m \<Longrightarrow> map_inv (fold (\<lambda>u. map_insert u v) us m) \<and>
   map_get (fold (\<lambda>u. map_insert u v) us m) k = (if k \<in> set us then Some v else map_get m k)"
  by (induction us arbitrary: m) auto

lemma uid_modes_epoch:
  shows "map_inv (uid_modes_from_epoch e)"
    "(u, v) \<in> set (uid_modes_from_epoch e) \<longleftrightarrow> (if u \<in> set (draining e) then v = 2 else u \<in> set (selected e) \<and> v = 1)"
proof -
  let ?s = "fold (\<lambda>uid. map_insert uid (1 :: u8)) (selected e) []"
  have s: "map_inv ?s" "map_get ?s k = (if k \<in> set (selected e) then Some 1 else None)" for k :: u32
    using uid_modes_insert [of "[]" "1 :: u8" "selected e" k] by simp_all
  have e: "uid_modes_from_epoch e = fold (\<lambda>uid. map_insert uid 2) (draining e) ?s" by (simp add: uid_modes_from_epoch_def)
  show i: "map_inv (uid_modes_from_epoch e)" using uid_modes_insert [OF s(1)] unfolding e by blast
  have "map_get (uid_modes_from_epoch e) u = (if u \<in> set (draining e) then Some 2 else if u \<in> set (selected e) then Some 1 else None)"
    using uid_modes_insert [OF s(1), of 2 "draining e" u] s(2) unfolding e by simp
  then show "(u, v) \<in> set (uid_modes_from_epoch e) \<longleftrightarrow> (if u \<in> set (draining e) then v = 2 else u \<in> set (selected e) \<and> v = 1)"
    unfolding map_get_Some_iff [OF i, symmetric] by auto
qed

lemma record_policy_fields:
  "mg_uid_modes (record_policy d n s4 s6 t m) = uid_modes_from_epoch n" "mg_cidr_mode (record_policy d n s4 s6 t m) = dp_cidr_mode d"
  "mg_bypass_v4 (record_policy d n s4 s6 t m) = dp_bypass_v4 d" "mg_bypass_v6 (record_policy d n s4 s6 t m) = dp_bypass_v6 d"
  "mg_self_v4 (record_policy d n s4 s6 t m) = s4" "mg_self_v6 (record_policy d n s4 s6 t m) = s6"
  "w_log (record_policy d n s4 s6 t m) = w_log m"
  by (simp_all add: record_policy_def Let_def on_warnings_def on_status_def)

lemma recorded_epoch_is_live:
  assumes "epoch_inv from" and "set_inv (dp_selected_uids d)"
  shows "live_epoch (record_policy d (committed from (desired_epoch d s4 s6)) s4 s6 t m) = committed from (desired_epoch d s4 s6)"
proof -
  let ?n = "committed from (desired_epoch d s4 s6)" and ?l = "live_epoch (record_policy d (committed from (desired_epoch d s4 s6)) s4 s6 t m)"
  have n: "epoch_inv ?n" using epoch_inv_committed [OF assms(1) epoch_inv_desired [OF assms(2)]] .
  have "selected ?l = selected ?n" "draining ?l = draining ?n"
    using n unfolding epoch_inv_def
    by (auto intro!: set_inv_ext simp: live_epoch_fields record_policy_fields uid_modes_epoch simp del: committed_fields split: if_split_asm)
  moreover have "pe_cidr_mode ?l = pe_cidr_mode ?n" "bypass_v4 ?l = bypass_v4 ?n" "bypass_v6 ?l = bypass_v6 ?n"
    "self_v4 ?l = self_v4 ?n" "self_v6 ?l = self_v6 ?n"
    by (simp_all add: live_epoch_fields record_policy_fields desired_epoch_def epoch_new_def)
  ultimately show ?thesis by (intro policy_epoch.equality) auto
qed

section \<open>A policy is applied as one commit\<close>

definition bypass_image :: "policy_epoch \<Rightarrow> bytes" where
  "bypass_image epoch = encode_bypass (ucast (cidr_mode_discr (pe_cidr_mode epoch))) (map kmod_pfx4 (bypass_v4 epoch))
     (map kmod_pfx6 (bypass_v6 epoch)) (map (\<lambda>a. from_le_bytes (ipv4_octets a)) (self_v4 epoch)) (map ipv6_octets (self_v6 epoch))"

definition uids_image :: "u32 list \<Rightarrow> bytes" where
  "uids_image us = uids_bytes \<lparr>uids_count = word_of_nat (length us), uids_slots = us @ replicate (UID_SLOT_MAX - length us) 0\<rparr>"

lemma discard_Returned:
  "discard act w = (Returned (Ok ()), w') \<longleftrightarrow> (\<exists>b. act w = (Returned (Ok b), w'))"
  "discard act w = (Returned (Err e), w') \<longleftrightarrow> act w = (Returned (Err e), w')"
  by (auto simp: discard_def act_bind_def split: prod.split act_outcome.split sum.split)

lemma map_err_Returned: "act_map_err g m w = (Returned r, w') \<longleftrightarrow> (\<exists>q. m w = (Returned q, w') \<and> r = map_err g q)"
  by (auto simp: act_map_err_def act_match_Returned)

lemma map_err_Ok_iff: "map_err g q = Ok y \<longleftrightarrow> q = Ok y"
  by (cases q) (simp_all add: map_err_def)

lemma unit_result_cases: "(q = Ok () \<Longrightarrow> P) \<Longrightarrow> (\<And>e. q = Err e \<Longrightarrow> P) \<Longrightarrow> P"
  by (cases q) auto

lemma discarded_ioctl_last:
  assumes "discard (kmod_ioctl req arg) w = (Returned r, w')"
  shows "last_ioctl q (w_log w') = (if q = req \<and> r = Ok () then Some arg else last_ioctl q (w_log w))"
proof (cases r)
  case (Inl e)
  then show ?thesis using assms ioctl_last [of req arg w "Err e" w' q] by (simp add: discard_Returned)
next
  case (Inr u)
  then obtain b where "kmod_ioctl req arg w = (Returned (Ok b), w')" using assms by (auto simp: discard_Returned)
  then show ?thesis using Inr ioctl_last [of req arg w "Ok b" w' q] by simp
qed

lemma set_bypass_last:
  assumes "kmod_set_bypass e w = (Returned r, w')"
  shows "last_ioctl q (w_log w') = (if q = SET_BYPASS \<and> r = Ok () then Some (bypass_image e) else last_ioctl q (w_log w))"
proof -
  obtain r0 where r0: "set_bypass (ucast (cidr_mode_discr (pe_cidr_mode e))) (map kmod_pfx4 (bypass_v4 e))
     (map kmod_pfx6 (bypass_v6 e)) (map (\<lambda>a. from_le_bytes (ipv4_octets a)) (self_v4 e)) (map ipv6_octets (self_v6 e)) w = (Returned r0, w')"
    and r: "r = Ok () \<longleftrightarrow> r0 = Ok ()"
    using assms unfolding kmod_set_bypass_def map_err_Returned by (auto simp: map_err_Ok_iff)
  show ?thesis
    using r0 r discarded_ioctl_last [where q = q and r = r0 and w = w and w' = w']
    by (auto simp: set_bypass_def bypass_image_def split: if_split_asm)
qed

lemma set_uids_last:
  assumes "set_uids us w = (Returned r, w')"
  shows "last_ioctl q (w_log w') = (if q = SET_UIDS \<and> r = Ok () then Some (uids_image us) else last_ioctl q (w_log w))"
  using assms discarded_ioctl_last [where q = q and r = r and w = w and w' = w']
  by (auto simp: set_uids_def uids_image_def split: if_split_asm)

lemma controls_distinct: "SET_BYPASS \<noteq> SET_UIDS"
  by code_simp

text \<open>The live epoch is a function of the manager beyond its world.\<close>

lemma live_epoch_more: "world.more (m :: dp_manager) = world.more m' \<Longrightarrow> live_epoch m = live_epoch m'"
  by (cases m; cases m') (simp add: live_epoch_def)

lemma kmod_more: "world.more (m :: dp_manager) = world.more m' \<Longrightarrow>
  mg_uid_modes m = mg_uid_modes m' \<and> mg_test_bypass m = mg_test_bypass m'"
  by (cases m; cases m') simp

lemma self_addresses_state:
  assumes "desired_self_addresses as m = (out, m')"
  shows "live_epoch m' = live_epoch m \<and> mg_uid_modes m' = mg_uid_modes m \<and> w_log m' = w_log m"
  using assms by (auto simp: desired_self_addresses_def live_epoch_def Let_def split: prod.split_asm)

lemma reset_dropped_state:
  assumes "reset_dropped t us m = (Returned r, m')"
  shows "r = Ok () \<and> last_ioctl q (w_log m') = last_ioctl q (w_log m)"
  using assms
  by (auto simp: reset_dropped_def Let_def act_match_Returned destroy_tcp_def call_kernel_def on_warnings_def on_status_def
      split: if_split_asm list.split_asm answer.split_asm sum.split_asm)

lemma apply_policy_Ok:
  assumes "\<not> mg_test_bypass m" and "apply_policy t d m = (Returned (Ok ()), m')"
  obtains snapshot m1 s4 s6 tr m2 m3 m4 m5 n where
    "net_snapshot m = (Returned (Ok snapshot), m1)" "desired_self_addresses (ns_addresses snapshot) m1 = (Returned (Ok (s4, s6, tr)), m2)"
    "n = committed (live_epoch m2) (desired_epoch d s4 s6)" "length (selected n) \<le> 1024" "length (selected n) + length (draining n) \<le> 4096"
    "kmod_set_bypass n m2 = (Returned (Ok ()), m3)" "set_uids (selected n) m3 = (Returned (Ok ()), m4)"
    "reset_dropped t (set_difference (selected (live_epoch m2)) (selected n)) m4 = (Returned (Ok ()), m5)"
    "m' = record_policy d n s4 s6 tr m5"
proof -
  have n: "length (dp_selected_uids d) \<le> 1024"
    and b: "act_bind (act_map_err (dp_io ''rtnetlink_dump'') net_snapshot)
         (\<lambda>snapshot. act_bind (desired_self_addresses (ns_addresses snapshot))
         (\<lambda>(s4, s6, truncated) m.
            let from = live_epoch m;
                nxt = committed from (desired_epoch d s4 s6)
            in if length (selected nxt) + length (draining nxt) > unat UID_POLICY_MAX_ENTRIES then
                 (Returned (Err ''policy_capacity:uid_policy''), m)
               else if \<not> mg_kmod m then (Returned (Err ''lkm_not_loaded''), m)
               else
                 act_bind (kmod_set_bypass nxt)
                   (\<lambda>_. act_match (set_uids (selected nxt))
                     (\<lambda>r. case r of
                        Inl e \<Rightarrow> act_match (kmod_set_bypass from) (\<lambda>_. fail (dp_io ''lkm_set_uids'' e))
                      | Inr _ \<Rightarrow>
                          act_bind (reset_dropped t (set_difference (selected from) (selected nxt)))
                            (\<lambda>_ m. (Returned (Ok ()), record_policy d nxt s4 s6 truncated m)))) m)) m = (Returned (Ok ()), m')"
    using assms by (auto simp: apply_policy_def UID_SELECTED_MAX_def split: if_split_asm)
  from b obtain snapshot m1 s4 s6 tr m2 where s: "net_snapshot m = (Returned (Ok snapshot), m1)"
    "desired_self_addresses (ns_addresses snapshot) m1 = (Returned (Ok (s4, s6, tr)), m2)"
    and cap: "length (selected (committed (live_epoch m2) (desired_epoch d s4 s6))) +
      length (draining (committed (live_epoch m2) (desired_epoch d s4 s6))) \<le> 4096"
    and r: "act_bind (kmod_set_bypass (committed (live_epoch m2) (desired_epoch d s4 s6)))
       (\<lambda>_. act_match (set_uids (selected (committed (live_epoch m2) (desired_epoch d s4 s6))))
         (\<lambda>r. case r of
            Inl e \<Rightarrow> act_match (kmod_set_bypass (live_epoch m2)) (\<lambda>_. fail (dp_io ''lkm_set_uids'' e))
          | Inr _ \<Rightarrow>
              act_bind (reset_dropped t (set_difference (selected (live_epoch m2)) (selected (committed (live_epoch m2) (desired_epoch d s4 s6)))))
                (\<lambda>_ m. (Returned (Ok ()), record_policy d (committed (live_epoch m2) (desired_epoch d s4 s6)) s4 s6 tr m)))) m2 = (Returned (Ok ()), m')"
    by (auto simp: act_bind_Ok act_map_err_Ok Let_def UID_POLICY_MAX_ENTRIES_def split: if_split_asm)
  let ?n = "committed (live_epoch m2) (desired_epoch d s4 s6)"
  obtain m3 q m4 where k: "kmod_set_bypass ?n m2 = (Returned (Ok ()), m3)" "set_uids (selected ?n) m3 = (Returned q, m4)"
    and q: "(case q of
            Inl e \<Rightarrow> act_match (kmod_set_bypass (live_epoch m2)) (\<lambda>_. fail (dp_io ''lkm_set_uids'' e))
          | Inr _ \<Rightarrow> act_bind (reset_dropped t (set_difference (selected (live_epoch m2)) (selected ?n)))
                (\<lambda>_ m. (Returned (Ok ()), record_policy d ?n s4 s6 tr m))) m4 = (Returned (Ok ()), m')"
    using r unfolding act_bind_Ok act_match_Returned by auto
  have "q = Ok ()" using q by (cases q rule: unit_result_cases) (simp_all add: act_match_Returned)
  moreover obtain m5 where "reset_dropped t (set_difference (selected (live_epoch m2)) (selected ?n)) m4 = (Returned (Ok ()), m5)"
    "m' = record_policy d ?n s4 s6 tr m5"
    using q calculation by (auto simp: act_bind_Ok)
  moreover have "length (selected ?n) \<le> 1024" using n by (simp add: desired_epoch_def)
  ultimately show ?thesis using that [OF s refl] k cap by blast
qed

text \<open>
  C7: when a policy is applied, the epoch the manager holds afterwards is the commit of the requested
  policy onto the epoch it held before, and the last prefix table and user table the kernel module
  accepted are the images of exactly that epoch: the abstract commit is what both sides see. The user
  table never exceeds the module's 1024 slots.
\<close>

theorem apply_policy_commits_epoch:
  assumes "\<not> mg_test_bypass m" and "map_inv (mg_uid_modes m)" and "set_inv (dp_selected_uids d)"
    and "apply_policy io_text d m = (Returned (Ok ()), m')"
  shows "\<exists>s4 s6. live_epoch m' = committed (live_epoch m) (desired_epoch d s4 s6) \<and>
    last_ioctl SET_BYPASS (w_log m') = Some (bypass_image (live_epoch m')) \<and>
    last_ioctl SET_UIDS (w_log m') = Some (uids_image (selected (live_epoch m'))) \<and>
    length (selected (live_epoch m')) \<le> 1024 \<and> map_inv (mg_uid_modes m')"
proof -
  obtain snapshot m1 s4 s6 tr m2 m3 m4 m5 n where
    s: "net_snapshot m = (Returned (Ok snapshot), m1)" "desired_self_addresses (ns_addresses snapshot) m1 = (Returned (Ok (s4, s6, tr)), m2)"
    and n: "n = committed (live_epoch m2) (desired_epoch d s4 s6)" "length (selected n) \<le> 1024"
    and k: "kmod_set_bypass n m2 = (Returned (Ok ()), m3)" "set_uids (selected n) m3 = (Returned (Ok ()), m4)"
      "reset_dropped io_text (set_difference (selected (live_epoch m2)) (selected n)) m4 = (Returned (Ok ()), m5)"
    and m': "m' = record_policy d n s4 s6 tr m5"
    using apply_policy_Ok [OF assms(1,4)] by metis
  have e: "live_epoch m2 = live_epoch m"
    using self_addresses_state [OF s(2)] live_epoch_more [OF allows_more [OF allows_snapshot s(1)]] by simp
  have l: "live_epoch m' = n"
    unfolding m' n(1) e by (rule recorded_epoch_is_live [OF epoch_inv_live [OF assms(2)] assms(3)])
  have "last_ioctl q (w_log m') = last_ioctl q (w_log m4)" for q
    unfolding m' record_policy_fields using reset_dropped_state [OF k(3)] by blast
  then have "last_ioctl SET_BYPASS (w_log m') = Some (bypass_image n)" "last_ioctl SET_UIDS (w_log m') = Some (uids_image (selected n))"
    using set_uids_last [OF k(2), of SET_BYPASS] set_uids_last [OF k(2), of SET_UIDS] set_bypass_last [OF k(1), of SET_BYPASS]
      controls_distinct by simp_all
  moreover have "map_inv (mg_uid_modes m')" unfolding m' record_policy_fields by (rule uid_modes_epoch(1))
  ultimately show ?thesis using l n e by metis
qed

definition sample_policy :: desired_policy where
  "sample_policy = \<lparr>dp_apps_mode = Whitelist, dp_cidr_mode = Blacklist, dp_interfaces_mode = Blacklist, dp_interfaces = [],
     dp_selected_uids = [10002], dp_bypass_v4 = [], dp_bypass_v6 = []\<rparr>"

definition sample_manager :: "answer list \<Rightarrow> bool \<Rightarrow> dp_manager" where
  "sample_manager later held =
    \<lparr>w_seq = 0, w_answers = replicate 5 (dump_answer []) @ later, w_log = [],
     mg_attached = [], mg_attaching = False, mg_default_route_ready = True, mg_test_bypass = False, mg_reconciled_once = True,
     mg_last_control = None, mg_apps_mode = Whitelist, mg_cidr_mode = Blacklist, mg_interfaces_mode = Blacklist, mg_interfaces = [],
     mg_uid_modes = [(10001, 1)], mg_bypass_v4 = [], mg_bypass_v6 = [], mg_self_v4 = [], mg_self_v6 = [], mg_address_seen_v4 = [],
     mg_address_seen_v6 = [], mg_address_tick = 0, mg_kmod_dir = ''/data'', mg_kmod = held, mg_status = status_default\<rparr>"

definition sample_later :: "answer list" where
  "sample_later = [Ioctl_Answer 0 [], Ioctl_Answer 0 [], Destroy_Answer (Ok ())]"

lemma ioctl_answered:
  assumes "w_answers w = Ioctl_Answer 0 b # rest"
  shows "kmod_ioctl req arg w = (Returned (Ok b), w\<lparr>w_answers := rest, w_log := w_log w @ [(Ioctl_Call req arg, Ioctl_Answer 0 b)]\<rparr>)"
  using assms by (subst kmod_ioctl.simps) (simp add: ioctl_once_def call_kernel_def)

lemma empty_dump:
  assumes "w_answers w = dump_answer [] # rest"
  shows "\<exists>w'. dump_parsed get body new parse w = (Returned (Ok []), w') \<and> w_answers w' = rest"
proof -
  have d: "dump_batches [] [Ok ([] @ [data_message NLMSG_DONE (replicate 4 0)])] = Some (Ok [])" by code_simp
  show ?thesis
    unfolding dump_parsed_def rt_dump_def finish_new option.case sock_dump_def
    using assms d by (simp add: act_bind_def call_kernel_def dump_answer_def of_batches_def)
qed

lemma empty_snapshot:
  assumes "w_answers w = replicate 5 (dump_answer []) @ rest"
  shows "\<exists>w'. net_snapshot w = (Returned (Ok \<lparr>ns_links = [], ns_addresses = [], ns_routes = [], ns_rules = [], ns_qdiscs = []\<rparr>), w') \<and>
    w_answers w' = rest"
proof -
  have w: "w_answers w = dump_answer [] # dump_answer [] # dump_answer [] # dump_answer [] # dump_answer [] # rest"
    using assms by (simp add: numeral_eq_Suc)
  obtain w1 w2 w3 w4 w5 where
    "dump_links w = (Returned (Ok []), w1)" "dump_addresses w1 = (Returned (Ok []), w2)" "dump_routes w2 = (Returned (Ok []), w3)"
    "dump_rules w3 = (Returned (Ok []), w4)" "dump_qdiscs w4 = (Returned (Ok []), w5)" "w_answers w5 = rest"
    unfolding dump_links_def dump_addresses_def dump_routes_def dump_rules_def dump_qdiscs_def
    using empty_dump [OF w] empty_dump by metis
  then show ?thesis by (auto simp: net_snapshot_def act_bind_def)
qed

lemma sample_applied: "\<exists>m'. apply_policy io_text sample_policy (sample_manager sample_later True) = (Returned (Ok ()), m')"
proof -
  let ?m = "sample_manager sample_later True"
  obtain m1 where s: "net_snapshot ?m =
      (Returned (Ok \<lparr>ns_links = [], ns_addresses = [], ns_routes = [], ns_rules = [], ns_qdiscs = []\<rparr>), m1)" "w_answers m1 = sample_later"
    using empty_snapshot [of ?m sample_later] by (auto simp: sample_manager_def)
  have more: "world.more m1 = world.more ?m" by (rule allows_more [OF allows_snapshot s(1)])
  then have k: "mg_kmod m1" "live_epoch m1 = live_epoch ?m" "mg_address_seen_v4 m1 = []" "mg_address_seen_v6 m1 = []"
    using live_epoch_more [OF more] by (cases m1; simp add: sample_manager_def)+
  have self: "\<exists>m2. desired_self_addresses [] m1 = (Returned (Ok ([], [], False)), m2) \<and> w_answers m2 = sample_later \<and> mg_kmod m2"
    using k s(2) by (simp add: desired_self_addresses_def Let_def retain_seen_def map_retain_def select_self_addresses_def map_keys_def
        set_from_iter_def set_extend_def)
  then obtain m2 where m2: "desired_self_addresses [] m1 = (Returned (Ok ([], [], False)), m2)" "w_answers m2 = sample_later" "mg_kmod m2"
    by blast
  let ?n = "committed (live_epoch m2) (desired_epoch sample_policy [] [])"
  have n: "selected ?n = [10002]" "bypass_v4 ?n = []" "bypass_v6 ?n = []" "self_v4 ?n = []" "self_v6 ?n = []"
    by (simp_all add: desired_epoch_def sample_policy_def epoch_v4_def epoch_v6_def map_from_iter_def map_extend_def set_from_iter_def set_extend_def)
  have frm: "live_epoch m2 = live_epoch ?m" using self_addresses_state [OF m2(1)] k(2) by simp
  have d: "length (draining ?n) = 1" "set_difference (selected (live_epoch m2)) [10002] = [10001]"
    unfolding frm by code_simp+
  obtain m3 where m3: "kmod_set_bypass ?n m2 = (Returned (Ok ()), m3)" "w_answers m3 = [Ioctl_Answer 0 [], Destroy_Answer (Ok ())]"
    using m2(2) n by (auto simp: sample_later_def kmod_set_bypass_def set_bypass_def discard_def act_map_err_def act_match_def act_bind_def
        ioctl_answered map_err_def)
  obtain m4 where m4: "set_uids [10002] m3 = (Returned (Ok ()), m4)" "w_answers m4 = [Destroy_Answer (Ok ())]"
    using m3(2) by (auto simp: set_uids_def discard_def act_bind_def ioctl_answered UID_SLOT_MAX_def)
  obtain m5 where m5: "reset_dropped io_text [10001] m4 = (Returned (Ok ()), m5)"
    using m4(2) by (auto simp: reset_dropped_def act_match_def destroy_tcp_def call_kernel_def on_warnings_def on_status_def)
  have c: "length (dp_bypass_v4 sample_policy) = 0" "length (dp_bypass_v6 sample_policy) = 0"
    "length (dp_selected_uids sample_policy) = 1" "\<not> mg_test_bypass ?m"
    by (simp_all add: sample_policy_def sample_manager_def)
  show ?thesis
    using s m2 m3 m4 m5 n d c
    by (simp add: apply_policy_def act_bind_def act_map_err_def act_match_def map_err_def Let_def UID_SELECTED_MAX_def
        UID_POLICY_MAX_ENTRIES_def)
qed

theorem apply_policy_commits_epoch_witness:
  "\<exists>m'. apply_policy (\<lambda>_. []) sample_policy (sample_manager sample_later True) = (Returned (Ok ()), m') \<and>
    selected (live_epoch m') = [10002] \<and> last_ioctl SET_UIDS (w_log m') = Some (uids_image [10002])"
proof -
  obtain m' where m': "apply_policy (\<lambda>_. []) sample_policy (sample_manager sample_later True) = (Returned (Ok ()), m')"
    using sample_applied by blast
  have h: "\<not> mg_test_bypass (sample_manager sample_later True)" "map_inv (mg_uid_modes (sample_manager sample_later True))"
    "set_inv (dp_selected_uids sample_policy)"
    by (simp_all add: sample_manager_def sample_policy_def map_inv_def set_inv_def)
  obtain s4 s6 where "live_epoch m' = committed (live_epoch (sample_manager sample_later True)) (desired_epoch sample_policy s4 s6)"
    "last_ioctl SET_UIDS (w_log m') = Some (uids_image (selected (live_epoch m')))"
    using apply_policy_commits_epoch [OF h m'] by blast
  then show ?thesis using m' by (simp add: desired_epoch_def sample_policy_def)
qed

section \<open>A policy that fails\<close>

definition policy_kept :: "dp_manager \<Rightarrow> dp_manager \<Rightarrow> bool" where
  "policy_kept m m' \<longleftrightarrow> live_epoch m' = live_epoch m \<and> mg_status m' = mg_status m \<and> mg_last_control m' = mg_last_control m \<and>
    last_ioctl SET_UIDS (w_log m') = last_ioctl SET_UIDS (w_log m) \<and>
    mg_test_bypass m' = mg_test_bypass m \<and> mg_uid_modes m' = mg_uid_modes m \<and> mg_bypass_v4 m' = mg_bypass_v4 m \<and>
    mg_bypass_v6 m' = mg_bypass_v6 m \<and> mg_self_v4 m' = mg_self_v4 m \<and> mg_self_v6 m' = mg_self_v6 m"

lemma policy_kept_refl [simp]: "policy_kept m m"
  by (simp add: policy_kept_def)

lemma policy_kept_trans: "policy_kept m m1 \<Longrightarrow> policy_kept m1 m2 \<Longrightarrow> policy_kept m m2"
  by (simp add: policy_kept_def)

lemma framed_kept:
  assumes "allows P act" and "act m = (r, m')" and "last_ioctl SET_UIDS (w_log m') = last_ioctl SET_UIDS (w_log m)"
  shows "policy_kept m m'"
proof -
  have more: "world.more m' = world.more m" by (rule allows_more [OF assms(1,2)])
  then show ?thesis
    using live_epoch_more [OF more] assms(3) unfolding policy_kept_def by (cases m; cases m') simp
qed

lemma kept_steps:
  shows "net_snapshot m = (Returned q, m') \<Longrightarrow> policy_kept m m'"
    and "desired_self_addresses as m = (Returned q1, m') \<Longrightarrow> policy_kept m m'"
    and "kmod_set_bypass e m = (Returned q2, m') \<Longrightarrow> policy_kept m m'"
    and "set_uids us m = (Returned (Err x), m') \<Longrightarrow> policy_kept m m'"
proof -
  show "net_snapshot m = (Returned q, m') \<Longrightarrow> policy_kept m m'"
    using quiet_last [OF allows_snapshot] by (blast intro: framed_kept allows_snapshot)
  show "desired_self_addresses as m = (Returned q1, m') \<Longrightarrow> policy_kept m m'"
    by (auto simp: desired_self_addresses_def policy_kept_def live_epoch_def Let_def split: prod.split_asm)
  show "kmod_set_bypass e m = (Returned q2, m') \<Longrightarrow> policy_kept m m'"
    using set_bypass_last [of e m q2 m' SET_UIDS] controls_distinct by (intro framed_kept [OF allows_controls(2)]) auto
  show "set_uids us m = (Returned (Err x), m') \<Longrightarrow> policy_kept m m'"
    using set_uids_last [of us m "Err x" m' SET_UIDS] by (intro framed_kept [OF allows_controls(1) [where P = "\<lambda>_. True"]]) auto
qed

lemma act_bind_Err:
  "act_bind m f w = (Returned (Err e), w') \<longleftrightarrow>
    m w = (Returned (Err e), w') \<or> (\<exists>x w1. m w = (Returned (Ok x), w1) \<and> f x w1 = (Returned (Err e), w'))"
  by (auto simp: act_bind_def split: prod.split act_outcome.split sum.split)

lemma user_table_kept:
  assumes "act_match (set_uids us)
      (\<lambda>r. case r of
         Inl x \<Rightarrow> act_match (kmod_set_bypass from) (\<lambda>_. fail (dp_io ''lkm_set_uids'' x))
       | Inr _ \<Rightarrow> act_bind (reset_dropped io_text dropped) (\<lambda>_ m. (Returned (Ok ()), rec m))) m = (Returned (Err e), m')"
  shows "policy_kept m m'"
proof -
  obtain q m2 where u: "set_uids us m = (Returned q, m2)"
    "(case q of
         Inl x \<Rightarrow> act_match (kmod_set_bypass from) (\<lambda>_. fail (dp_io ''lkm_set_uids'' x))
       | Inr _ \<Rightarrow> act_bind (reset_dropped io_text dropped) (\<lambda>_ m. (Returned (Ok ()), rec m))) m2 = (Returned (Err e), m')"
    using assms unfolding act_match_Returned by blast
  obtain x where q: "q = Err x"
    using u(2) by (cases q rule: unit_result_cases) (auto simp: act_bind_Err dest: reset_dropped_state [where q = 0])
  then obtain q2 where "kmod_set_bypass from m2 = (Returned q2, m')" using u(2) by (auto simp: act_match_Returned)
  then show ?thesis using u(1) q by (blast intro: policy_kept_trans kept_steps)
qed

lemma apply_policy_kept:
  assumes "apply_policy io_text d m = (Returned (Err e), m')"
  shows "policy_kept m m'"
  using assms unfolding apply_policy_def
  by (auto simp: act_bind_Err act_map_err_Ok map_err_Returned Let_def split: if_split_asm
      intro: policy_kept_trans [OF kept_steps(1)] policy_kept_trans [OF policy_kept_trans [OF kept_steps(1) kept_steps(2)]]
        kept_steps(1,2,3) policy_kept_trans [OF policy_kept_trans [OF policy_kept_trans [OF kept_steps(1) kept_steps(2)] kept_steps(3)]]
        user_table_kept)

text \<open>
  C38: a policy that cannot be applied leaves the manager as it was: its epoch, its control block, the
  status it reports and the user table the kernel module last accepted are unchanged, whichever step
  failed (a capacity, the netlink dumps, the device, the prefix table or the user table).
\<close>

theorem failed_policy_is_not_recorded:
  assumes "apply_policy io_text d m = (Returned (Err e), m')"
  shows "live_epoch m' = live_epoch m \<and> mg_status m' = mg_status m \<and> mg_last_control m' = mg_last_control m \<and>
    last_ioctl SET_UIDS (w_log m') = last_ioctl SET_UIDS (w_log m)"
  using apply_policy_kept [OF assms] by (simp add: policy_kept_def)

theorem failed_policy_is_not_recorded_witness:
  "\<exists>m' e. apply_policy (\<lambda>_. []) (sample_policy\<lparr>dp_selected_uids := replicate 1025 0\<rparr>) (sample_manager [] True) = (Returned (Err e), m') \<and>
    live_epoch m' = live_epoch (sample_manager [] True)"
proof -
  have "apply_policy (\<lambda>_. []) (sample_policy\<lparr>dp_selected_uids := replicate 1025 0\<rparr>) (sample_manager [] True) =
      (Returned (Err ''policy_capacity:selected''), sample_manager [] True)"
    by (simp add: apply_policy_def sample_manager_def UID_SELECTED_MAX_def)
  with failed_policy_is_not_recorded [OF this] show ?thesis by blast
qed

end
