(* ===== verification/Manager_Life.thy ===== *)
theory Manager_Life
  imports Data_Plane
begin

text \<open>
  The life of the data plane manager: the public operations of crates/fluxd/src/dataplane/platform.rs
  as steps, together with answers of the kernel that arrive between them, and what holds in every state
  reached from \<open>Manager::open\<close> by any sequence of them, whether they succeed or fail.
\<close>

section \<open>Steps\<close>

inductive manager_step :: "(io_error \<Rightarrow> string) \<Rightarrow> dp_manager \<Rightarrow> dp_manager \<Rightarrow> bool" for io_text where
  step_converge: "converge_inner enabled has_object m = (Returned r, m') \<Longrightarrow> manager_step io_text m m'"
| step_stage: "manager_step io_text m (stage_interface_policy d m)"
| step_apply: "set_inv (dp_selected_uids d) \<Longrightarrow> apply_policy io_text d m = (Returned r, m') \<Longrightarrow> manager_step io_text m m'"
| step_prepare: "prepare_generation generation p4 p6 m = (Returned r, m') \<Longrightarrow> manager_step io_text m m'"
| step_active: "publish_active m = (Returned r, m') \<Longrightarrow> manager_step io_text m m'"
| step_inactive: "publish_inactive m = (Returned r, m') \<Longrightarrow> manager_step io_text m m'"
| step_route: "refresh_default_route_ready m = (Returned q, m') \<Longrightarrow> manager_step io_text m m'"
| step_dir: "manager_step io_text m (set_kmod_dir dir m)"
| step_answers: "manager_step io_text m (m\<lparr>w_answers := w_answers m @ as\<rparr>)"

section \<open>The invariant\<close>

text \<open>The part of the manager the kernel's tables come from.\<close>

definition tables :: "dp_manager \<Rightarrow> (u32, u8) btree_map \<times> nat \<times> nat \<times> nat \<times> nat" where
  "tables m = (mg_uid_modes m, length (mg_bypass_v4 m), length (mg_bypass_v6 m), length (mg_self_v4 m), length (mg_self_v6 m))"

definition tables_ok :: "dp_manager \<Rightarrow> bool" where
  "tables_ok m \<longleftrightarrow> map_inv (mg_uid_modes m) \<and> list_all (\<lambda>(_, mode). mode = 1 \<or> mode = 2) (mg_uid_modes m) \<and>
    length (mg_uid_modes m) \<le> 4096 \<and> length (filter (\<lambda>(_, mode). mode = 1) (mg_uid_modes m)) \<le> 1024 \<and>
    length (mg_bypass_v4 m) \<le> 65536 \<and> length (mg_bypass_v6 m) \<le> 65536 \<and>
    length (mg_self_v4 m) \<le> 256 \<and> length (mg_self_v6 m) \<le> 256"

text \<open>A control block that says active is reported active; under the test seam there is none.\<close>

definition control_ok :: "dp_manager \<Rightarrow> bool" where
  "control_ok m \<longleftrightarrow> (case mg_last_control m of None \<Rightarrow> True | Some c \<Rightarrow> \<not> mg_test_bypass m \<and> (active c = 0 \<or> ds_active (mg_status m)))"

lemma tables_ok_cong: "tables m' = tables m \<Longrightarrow> tables_ok m' = tables_ok m"
  by (simp add: tables_def tables_ok_def)

text \<open>Actions that only use the world keep everything the invariant is about.\<close>

definition quiet :: "dp_manager \<Rightarrow> dp_manager \<Rightarrow> bool" where
  "quiet m m' \<longleftrightarrow> tables m' = tables m \<and> mg_test_bypass m' = mg_test_bypass m \<and> mg_last_control m' = mg_last_control m \<and>
    ds_active (mg_status m') = ds_active (mg_status m)"

lemma quiet_refl [simp]: "quiet m m"
  by (simp add: quiet_def)

lemma quiet_trans: "quiet m m1 \<Longrightarrow> quiet m1 m2 \<Longrightarrow> quiet m m2"
  by (simp add: quiet_def)

lemma quiet_more: "manager.more (m' :: dp_manager) = manager.more m \<Longrightarrow> quiet m m'"
  by (cases m; cases m') (simp add: quiet_def tables_def)

lemma manager_more: "world.more (m' :: 'a manager_scheme) = world.more m \<Longrightarrow> manager.more m' = manager.more m"
  by (cases m; cases m') simp

lemma quiet_allows: "allows P act \<Longrightarrow> act m = (r, m') \<Longrightarrow> quiet m m'"
  by (intro quiet_more manager_more allows_more)

lemma allows_sys_once [allow]: "allows (\<lambda>_. True) (sys_once name arg)"
  unfolding sys_once_def by (intro allow) simp

lemma allows_sys_retry [allow]: "allows (\<lambda>_. True) (sys_retry name arg)"
  unfolding allows_def
proof
  fix w :: "'m world_scheme"
  show "world.more (snd (sys_retry name arg w)) = world.more w \<and>
      (\<exists>l. w_log (snd (sys_retry name arg w)) = w_log w @ l \<and> list_all (\<lambda>(c, _). True) l)"
  proof (induction name arg w rule: sys_retry.induct)
    case (1 name arg w)
    obtain out w1 where e: "sys_once name arg w = (out, w1)" by fastforce
    obtain l where l: "world.more w1 = world.more w" "w_log w1 = w_log w @ l"
      using allowsD [OF allows_sys_once e] allows_more [OF allows_sys_once e] by blast
    show ?case
    proof (cases "out = Returned (Err (Os EINTR))")
      case True
      then have k: "sys_retry name arg w = sys_retry name arg w1" using e by (subst sys_retry.simps) auto
      show ?thesis unfolding k using "1.IH" [OF e [symmetric]] True l by (auto simp: list_all_iff)
    next
      case False
      then have "snd (sys_retry name arg w) = w1" using e by (subst sys_retry.simps) (auto split: act_outcome.split sum.split)
      then show ?thesis using l by (auto simp: list_all_iff)
    qed
  qed
qed

lemma allows_loading [allow]:
  "allows (\<lambda>_. True) kernel_release" "allows (\<lambda>_. True) (load_from_dir dir release)" "allows (\<lambda>_. True) get_status"
  "allows (\<lambda>_. True) clear_uids" "allows (\<lambda>_. True) (set_listeners v4 p4 v6 p6)"
  unfolding kernel_release_def load_from_dir_def get_status_def clear_uids_def set_listeners_def pick_name_def finit_module_def open_ctl_def
    delete_module_def discard_def Let_def
  by (auto intro!: allow split: sum.split)


section \<open>What each operation does to the invariant's state\<close>

text \<open>A control block an operation leaves behind is the one before or an inactive one.\<close>

definition settles :: "dp_manager \<Rightarrow> dp_manager \<Rightarrow> bool" where
  "settles m m' \<longleftrightarrow> tables m' = tables m \<and> mg_test_bypass m' = mg_test_bypass m \<and>
    (\<forall>c. mg_last_control m' = Some c \<longrightarrow> active c = 0 \<or> mg_last_control m = Some c \<and> (ds_active (mg_status m) \<longrightarrow> ds_active (mg_status m'))) \<and>
    (mg_test_bypass m \<longrightarrow> mg_last_control m' = mg_last_control m)"

lemma settles_control: "settles m m' \<Longrightarrow> control_ok m \<Longrightarrow> control_ok m'"
  by (auto simp: settles_def control_ok_def split: option.split_asm option.split)

lemma quiet_settles: "quiet m m' \<Longrightarrow> settles m m'"
  by (simp add: quiet_def settles_def)

lemma quiet_then: "quiet m m1 \<Longrightarrow> settles m1 m2 \<Longrightarrow> settles m m2"
  by (simp add: quiet_def settles_def)

lemma inactive_control_inactive: "inactive_control h p g v4 v6 = Ok c \<Longrightarrow> active c = 0"
  by (auto simp: inactive_control_def and_then_def split: sum.split_asm)

lemma act_bind_Returned:
  "act_bind m f w = (Returned r, w') \<longleftrightarrow>
    (\<exists>e. m w = (Returned (Err e), w') \<and> r = Err e) \<or> (\<exists>x w1. m w = (Returned (Ok x), w1) \<and> f x w1 = (Returned r, w'))"
  by (cases r) (auto simp: act_bind_Ok act_bind_Err)

lemma bind_quiet:
  assumes "act_bind act f m = (Returned r, m')" and "\<And>q m1. act m = (q, m1) \<Longrightarrow> quiet m m1"
  shows "quiet m m' \<or> (\<exists>x m1. quiet m m1 \<and> f x m1 = (Returned r, m'))"
  using assms unfolding act_bind_Returned by blast

lemma clear_uids_quiet: "(if held then act_map_err g clear_uids else ret ()) m = (Returned r, m') \<Longrightarrow> quiet m m'"
  by (cases held) (auto intro: quiet_allows [OF allows_map_err [OF allows_loading(4)]])

lemma publish_inactive_settles:
  assumes "publish_inactive m = (Returned r, m')"
  shows "settles m m' \<and> (mg_test_bypass m \<or> (\<forall>c. mg_last_control m' = Some c \<longrightarrow> active c = 0))"
proof (cases "mg_test_bypass m \<or> mg_last_control m = None")
  case True
  then have "m' = m \<or> mg_last_control m = None \<and> m' = on_status (\<lambda>s. s\<lparr>ds_active := False\<rparr>) m"
    using assms by (simp add: publish_inactive_def split: if_split_asm)
  then show ?thesis using True by (auto simp: on_status_def settles_def tables_def)
next
  case False
  then obtain c where c: "mg_last_control m = Some c" "\<not> mg_test_bypass m" by auto
  define m0 where "m0 = (if active c \<noteq> 0 then m\<lparr>mg_last_control := Some (c\<lparr>active := 0\<rparr>)\<rparr> else m)"
  have m: "tables m0 = tables m" "mg_test_bypass m0 = mg_test_bypass m" "\<And>d. mg_last_control m0 = Some d \<Longrightarrow> active d = 0"
    using c unfolding m0_def by (auto simp: tables_def split: if_split_asm)
  obtain q m1 where q: "(if mg_kmod m0 then act_map_err (dp_io ''lkm_clear_uids'') clear_uids else ret ()) m0 = (Returned q, m1)"
    "m' = m1 \<or> m' = on_status (\<lambda>s. s\<lparr>ds_active := False\<rparr>) m1"
    using assms c unfolding m0_def by (auto simp: publish_inactive_def Let_def act_bind_Returned)
  have "quiet m0 m1" using q(1) by (rule clear_uids_quiet)
  then show ?thesis using q(2) m c(2) by (auto simp: settles_def quiet_def on_status_def tables_def)
qed

lemma load_kmod_quiet: "load_kmod m = (r, m') \<Longrightarrow> quiet m m'"
proof (cases "mg_kmod m")
  case False
  assume a: "load_kmod m = (r, m')"
  have held: "quiet m1 m2 \<Longrightarrow> quiet m1 (m2\<lparr>mg_kmod := True\<rparr>)" for m1 m2 by (simp add: quiet_def tables_def)
  have "act_map_err (dp_io ''uname'') kernel_release w = (q, w') \<Longrightarrow> quiet w w'"
    "act_map_err kmod_load_error (load_from_dir d x) w = (q1, w') \<Longrightarrow> quiet w w'" for w w' d x q q1
    using quiet_allows allows_map_err allows_loading by blast+
  then show ?thesis
    using a False unfolding load_kmod_def
    by (fastforce simp: act_bind_def split: prod.split_asm act_outcome.split_asm sum.split_asm intro: quiet_trans held)
qed (simp add: load_kmod_def)

lemma ensure_kmod_settles:
  assumes "ensure_kmod m = (Returned r, m')" and "\<not> mg_test_bypass m"
  shows "settles m m' \<and> ds_active (mg_status m') = ds_active (mg_status m)"
proof -
  define finish where "finish = (\<lambda>(status :: kmod_status) m.
         if ks_steal_ready status = 0 then (Returned (Err ''lkm_tproxy_symbol''), drop_kmod m)
         else
           (case mg_last_control m of
              Some _ \<Rightarrow> (Returned (Ok ()), m)
            | None \<Rightarrow> (case inactive_control 0 0 1 0 0 of
                         Inl e \<Rightarrow> (Returned (Err e), m)
                       | Inr c \<Rightarrow> (Returned (Ok ()), m\<lparr>mg_last_control := Some c\<rparr>))))"
  have s: "act_map_err (dp_io ''lkm_status'') get_status w = (q, w') \<Longrightarrow> quiet w w'" for w w' q
    using quiet_allows allows_map_err allows_loading(3) by blast
  have "quiet m m' \<or> (\<exists>status m2. quiet m m2 \<and> finish status m2 = (Returned r, m'))"
  proof -
    have "act_bind load_kmod (\<lambda>_. act_bind (act_map_err (dp_io ''lkm_status'') get_status) finish) m = (Returned r, m')"
      using assms(1) unfolding ensure_kmod_def finish_def .
    from bind_quiet [OF this] load_kmod_quiet consider "quiet m m'"
      | m1 where "quiet m m1" "act_bind (act_map_err (dp_io ''lkm_status'') get_status) finish m1 = (Returned r, m')" by blast
    then show ?thesis
    proof cases
      case 2
      from bind_quiet [OF 2(2)] s 2(1) show ?thesis by (blast intro: quiet_trans)
    qed simp
  qed
  then show ?thesis
  proof (elim disjE exE conjE)
    assume "quiet m m'"
    then show ?thesis by (simp add: quiet_def settles_def)
  next
    fix status m2
    assume q: "quiet m m2" and f: "finish status m2 = (Returned r, m')"
    have "m' = m2 \<or> m' = drop_kmod m2 \<or> (\<exists>c. active c = 0 \<and> m' = m2\<lparr>mg_last_control := Some c\<rparr>)"
      using f unfolding finish_def
      by (auto split: if_split_asm option.split_asm sum.split_asm intro: exI [of _ "projr (inactive_control 0 0 1 0 0)"]
          simp: inactive_control_inactive)
    then show ?thesis using q assms(2) by (auto simp: quiet_def settles_def drop_kmod_def on_status_def tables_def)
  qed
qed

lemma cleanup_quiet: "cleanup_owned m = (Returned r, m') \<Longrightarrow> quiet m m'"
proof -
  assume a: "cleanup_owned m = (Returned r, m')"
  have q: "make_cleanup_plan w = (out, w') \<Longrightarrow> quiet w w'" "delete_planned plan w = (out1, w') \<Longrightarrow> quiet w w'" for w w' out out1 plan
    using quiet_allows allows_make_plan allows_delete_planned by blast+
  have "quiet m1 m2 \<Longrightarrow> quiet m1 (m2\<lparr>mg_attached := [], mg_attaching := False\<rparr>)" for m1 m2 by (simp add: quiet_def tables_def)
  then show ?thesis
    using a unfolding cleanup_owned_def act_bind_Returned
    by (auto simp: act_bind_Returned split: if_split_asm dest!: q intro: quiet_trans)
qed

lemma reconcile_quiet: "reconcile m = (Returned r, m') \<Longrightarrow> quiet m m'"
proof -
  assume a: "reconcile m = (Returned r, m')"
  have "quiet m1 m2 \<Longrightarrow> quiet m1 (m2\<lparr>mg_reconciled_once := True\<rparr>)" for m1 m2 by (simp add: quiet_def tables_def)
  then show ?thesis using a by (auto simp: reconcile_def act_bind_Returned split: if_split_asm dest!: cleanup_quiet)
qed


lemma converge_inner_ok:
  assumes "converge_inner enabled has_object m = (Returned r, m')" and "control_ok m"
  shows "control_ok m' \<and> tables m' = tables m"
proof (cases "mg_test_bypass m")
  case True
  then show ?thesis using assms by (auto simp: converge_inner_def control_ok_def tables_def split: option.split_asm)
next
  case False
  define n where "n = status_default\<lparr>ds_active := ds_active (mg_status m), ds_policy := ds_policy (mg_status m)\<rparr>"
  define loaded where "loaded = (\<lambda>(m :: dp_manager). let n = n\<lparr>ds_topology_ready := True, ds_bpf_ready := True, ds_attachment_ready := mg_kmod m\<rparr>
                          in if \<not> has_object then n\<lparr>ds_warnings :=
                               [''phase-3 network seam is the LOCAL_OUT module; no BPF object was requested'']\<rparr>
                             else if \<not> ds_active n then n\<lparr>ds_warnings :=
                               [''LOCAL_OUT module is loaded with steal idle until the engine is ready'']\<rparr>
                             else n)"
  define rest :: "dataplane_error + unit \<Rightarrow> unit dp_action" where "rest = (\<lambda>r. case r of
             Inl e \<Rightarrow> (\<lambda>m. (Returned (Ok ()), m\<lparr>mg_status := n\<lparr>ds_error := Some e\<rparr>\<rparr>))
           | Inr _ \<Rightarrow>
               if \<not> enabled then
                 (\<lambda>m. act_match publish_inactive
                   (\<lambda>r m. (Returned (Ok ()), m\<lparr>mg_status := (case r of
                       Inl e \<Rightarrow> n\<lparr>ds_error := Some e\<rparr> | Inr _ \<Rightarrow> n\<lparr>ds_active := False\<rparr>)\<rparr>)) (drop_kmod m))
               else
                 act_match ensure_kmod
                   (\<lambda>r m. (Returned (Ok ()), m\<lparr>mg_status := (case r of
                       Inl e \<Rightarrow> n\<lparr>ds_error := Some e\<rparr>
                     | Inr _ \<Rightarrow> loaded m)\<rparr>)))"
  have "act_match reconcile rest m = (Returned r, m')"
    using assms(1) False unfolding converge_inner_def rest_def loaded_def n_def by (simp only: Let_def if_False)
  then obtain q m1 where q: "reconcile m = (Returned q, m1)" "rest q m1 = (Returned r, m')"
    unfolding act_match_Returned by blast
  have m1: "quiet m m1" by (rule reconcile_quiet [OF q(1)])
  have n: "ds_active n = ds_active (mg_status m)" "ds_active (loaded x) = ds_active (mg_status m)" for x
    by (simp_all add: n_def loaded_def Let_def)
  consider (fail) st where "m' = m1\<lparr>mg_status := st\<rparr>" "ds_active st = ds_active (mg_status m)"
    | (off) q2 m2 st where "publish_inactive (drop_kmod m1) = (Returned q2, m2)" "m' = m2\<lparr>mg_status := st\<rparr>"
    | (on) q2 m2 st where "ensure_kmod m1 = (Returned q2, m2)" "m' = m2\<lparr>mg_status := st\<rparr>" "ds_active st = ds_active (mg_status m)"
  proof (cases q rule: unit_result_cases)
    case 1
    have "ds_active (case q2 of Inl e \<Rightarrow> n\<lparr>ds_error := Some e\<rparr> | Inr _ \<Rightarrow> loaded x) = ds_active (mg_status m)" for q2 :: "string + unit" and x
      by (cases q2) (simp_all add: n)
    note st = this
    show ?thesis
    proof (cases enabled)
      case True
      with 1 q(2) have "act_match ensure_kmod (\<lambda>r m. (Returned (Ok ()), m\<lparr>mg_status := (case r of
          Inl e \<Rightarrow> n\<lparr>ds_error := Some e\<rparr> | Inr _ \<Rightarrow> loaded m)\<rparr>)) m1 = (Returned r, m')" by (simp add: rest_def)
      then obtain q2 m2 where "ensure_kmod m1 = (Returned q2, m2)"
        "m' = m2\<lparr>mg_status := (case q2 of Inl e \<Rightarrow> n\<lparr>ds_error := Some e\<rparr> | Inr _ \<Rightarrow> loaded m2)\<rparr>"
        unfolding act_match_Returned by blast
      then show ?thesis using on st by blast
    next
      case False
      with 1 q(2) have "act_match publish_inactive (\<lambda>r m. (Returned (Ok ()), m\<lparr>mg_status := (case r of
          Inl e \<Rightarrow> n\<lparr>ds_error := Some e\<rparr> | Inr _ \<Rightarrow> n\<lparr>ds_active := False\<rparr>)\<rparr>)) (drop_kmod m1) = (Returned r, m')" by (simp add: rest_def)
      then show ?thesis using off unfolding act_match_Returned by blast
    qed
  next
    case (2 e)
    with q(2) n show ?thesis using fail unfolding rest_def by (auto simp: n)
  qed
  then show ?thesis
  proof cases
    case fail
    then show ?thesis using m1 assms(2) by (cases "mg_last_control m") (simp_all add: quiet_def control_ok_def tables_def)
  next
    case off
    have d: "quiet m1 (drop_kmod m1)" by (simp add: quiet_def drop_kmod_def on_status_def tables_def)
    show ?thesis
      using publish_inactive_settles [OF off(1)] quiet_trans [OF m1 d] False off(2)
      by (auto simp: settles_def quiet_def control_ok_def tables_def split: option.split)
  next
    case on
    have "\<not> mg_test_bypass m1" using m1 False by (simp add: quiet_def)
    with ensure_kmod_settles [OF on(1)] have e: "settles m m2" "ds_active (mg_status m2) = ds_active (mg_status m)"
      using quiet_then [OF m1] m1 by (simp_all add: quiet_def)
    have "control_ok m2" by (rule settles_control [OF e(1) assms(2)])
    then show ?thesis using e on(2,3) by (auto simp: settles_def control_ok_def tables_def split: option.split_asm option.split)
  qed
qed

lemma prepare_generation_settles:
  assumes "prepare_generation g p4 p6 m = (Returned r, m')"
  shows "settles m m'"
proof (cases "mg_test_bypass m")
  case False
  have listen: "act_map_err (dp_io ''lkm_set_listeners'') (set_listeners l4 q4 l6 q6) w = (q, w') \<Longrightarrow> quiet w w'" for l4 q4 l6 q6 w w' q
    using quiet_allows allows_map_err allows_loading(5) by blast
  have prepared: "quiet m m2 \<Longrightarrow> active c = 0 \<Longrightarrow> settles m (on_status (\<lambda>s. s\<lparr>ds_active := False\<rparr>) (m2\<lparr>mg_last_control := Some c\<rparr>))" for m2 c
    using False by (auto simp: settles_def quiet_def on_status_def tables_def)
  show ?thesis
    using assms False unfolding prepare_generation_def
    by (auto simp: act_bind_Returned Let_def with_counts_def dest!: inactive_control_inactive
        split: if_split_asm option.split_asm intro!: prepared intro: listen quiet_settles)
qed (use assms in \<open>simp add: prepare_generation_def settles_def\<close>)

lemma publish_active_settles:
  assumes "publish_active m = (Returned r, m')" and "control_ok m"
  shows "control_ok m' \<and> tables m' = tables m"
  using assms by (auto simp: publish_active_def control_ok_def tables_def on_status_def split: if_split_asm option.split_asm)

lemma refresh_quiet: "refresh_default_route_ready m = (Returned r, m') \<Longrightarrow> quiet m m'"
proof -
  assume a: "refresh_default_route_ready m = (Returned r, m')"
  have "quiet m1 m2 \<Longrightarrow> quiet m1 (m2\<lparr>mg_default_route_ready := b\<rparr>)" for m1 m2 b by (simp add: quiet_def tables_def)
  moreover have "act_map_err (dp_io ''rtnetlink_dump'') net_snapshot w = (q, w') \<Longrightarrow> quiet w w'" for w w' q
    using quiet_allows allows_map_err allows_snapshot by blast
  ultimately show ?thesis
    using a by (auto simp: refresh_default_route_ready_def act_bind_Returned Let_def)
qed

section \<open>Capacities\<close>

lemma length_set_insert_le: "length (set_insert x s) \<le> Suc (length s)"
  by (induction s) auto

lemma length_set_extend_le: "length (set_extend s xs) \<le> length s + length xs"
proof (induction xs arbitrary: s)
  case (Cons x xs)
  have "length (set_extend (set_insert x s) xs) \<le> length (set_insert x s) + length xs" by (rule Cons.IH)
  then show ?case using length_set_insert_le [of x s] by (simp add: set_extend_def)
qed (simp add: set_extend_def)

lemma select_self_addresses_capacity:
  assumes "select_self_addresses cs seen cap = Ok (sel, t)"
  shows "length sel \<le> cap"
proof -
  define chosen where "chosen = set_from_iter (map fst (filter (\<lambda>(_, privacy). \<not> privacy) cs))"
  define privacy where "privacy = sort_key (\<lambda>b. (NOT (case map_get seen b of None \<Rightarrow> 0 | Some t \<Rightarrow> t), b))
                 (map fst (filter (\<lambda>(_, privacy). privacy) cs))"
  have "sel = set_extend chosen (take (cap - length chosen) privacy)" "length chosen \<le> cap"
    using assms unfolding select_self_addresses_def Let_def chosen_def [symmetric] privacy_def [symmetric]
    by (auto split: if_split_asm)
  moreover have "length (set_extend chosen (take (cap - length chosen) privacy)) \<le> length chosen + (cap - length chosen)"
    using length_set_extend_le [of chosen "take (cap - length chosen) privacy"] by simp
  ultimately show ?thesis by simp
qed

lemma desired_self_capacity:
  assumes "desired_self_addresses as m = (Returned (Ok (s4, s6, t)), m')"
  shows "length s4 \<le> 256 \<and> length s6 \<le> 256"
  using assms
  by (auto simp: desired_self_addresses_def Let_def SELF_ADDR_MAX_ENTRIES_def and_then_eq_Ok split: prod.split_asm
      dest!: select_self_addresses_capacity)

lemma length_uid_modes: "length (uid_modes_from_epoch e) \<le> length (selected e) + length (draining e)"
proof -
  have "distinct (map fst (uid_modes_from_epoch e))" by (rule map_inv_distinct [OF uid_modes_epoch(1)])
  then have "length (uid_modes_from_epoch e) = card (fst ` set (uid_modes_from_epoch e))"
    using distinct_card [of "map fst (uid_modes_from_epoch e)"] by simp
  also have "\<dots> \<le> card (set (selected e) \<union> set (draining e))"
    by (intro card_mono) (auto simp: uid_modes_epoch split: if_split_asm)
  also have "\<dots> \<le> length (selected e) + length (draining e)"
    using card_Un_le [of "set (selected e)" "set (draining e)"] card_length [of "selected e"] card_length [of "draining e"] by linarith
  finally show ?thesis .
qed

lemma selected_uid_modes:
  assumes "map_inv modes"
  shows "length (filter (\<lambda>(_, mode). mode = v) modes) = card {u. (u, v) \<in> set modes}"
proof -
  have "distinct (map fst (filter (\<lambda>(_, mode). mode = v) modes))" using map_inv_distinct [OF assms] by (simp add: distinct_map_filter)
  then have "length (filter (\<lambda>(_, mode). mode = v) modes) = card (fst ` set (filter (\<lambda>(_, mode). mode = v) modes))"
    using distinct_card by fastforce
  also have "fst ` set (filter (\<lambda>(_, mode). mode = v) modes) = {u. (u, v) \<in> set modes}" by force
  finally show ?thesis .
qed

definition tracked :: "dp_manager \<Rightarrow> u32 set" where
  "tracked m = fst ` set (mg_uid_modes m)"

lemma tracked_epoch: "tables_ok m \<Longrightarrow> tracked m = set (selected (live_epoch m)) \<union> set (draining (live_epoch m))"
  by (force simp: tracked_def live_epoch_fields tables_ok_def list_all_iff)

lemma length_live_selected:
  assumes "tables_ok m"
  shows "length (selected (live_epoch m)) = length (filter (\<lambda>(_, mode). mode = 1) (mg_uid_modes m))"
proof -
  have "length (selected (live_epoch m)) = card (set (selected (live_epoch m)))"
    using distinct_card [OF set_inv_distinct [OF live_epoch_fields(8)]] by simp
  then show ?thesis using assms selected_uid_modes [of "mg_uid_modes m" 1] by (simp add: live_epoch_fields tables_ok_def)
qed

lemma self_addresses_quiet: "desired_self_addresses as m = (r, m') \<Longrightarrow> quiet m m'"
  by (auto simp: desired_self_addresses_def Let_def quiet_def tables_def split: prod.split_asm)

lemma on_warnings_quiet: "quiet m (on_warnings f m)"
  by (simp add: quiet_def tables_def on_warnings_def on_status_def)

lemma reset_dropped_quiet:
  assumes "reset_dropped io_text us m = (Returned r, m')"
  shows "quiet m m'"
proof -
  let ?m = "on_warnings (filter (\<lambda>x. \<not> starts_with x ''sock_destroy_'')) m"
  have "m' = ?m \<or> (\<exists>q m1. destroy_tcp us ?m = (Returned q, m1) \<and> (m' = m1 \<or> (\<exists>f. m' = on_warnings f m1)))"
  proof (cases "us = []")
    case False
    then obtain q m1 where q: "destroy_tcp us ?m = (Returned q, m1)"
      and b: "(case q of
             Inr _ \<Rightarrow> (Returned (Ok ()), m1)
           | Inl e \<Rightarrow>
               (Returned (Ok ()), on_warnings (\<lambda>ws. ws @
                 [if dump_retryable e then ''sock_destroy_incomplete: live TCP of unselected UIDs was not reset''
                  else ''sock_destroy_failed:'' @ io_text e]) m1)) = (Returned r, m')"
      using assms unfolding reset_dropped_def Let_def act_match_Returned if_not_P [OF False] by blast
    have "m' = m1 \<or> (\<exists>f. m' = on_warnings f m1)" using b by (cases q rule: unit_result_cases) auto
    then show ?thesis using q by blast
  qed (use assms in \<open>simp add: reset_dropped_def Let_def\<close>)
  then show ?thesis
    using on_warnings_quiet quiet_allows [OF allows_controls(3)] by (blast intro: quiet_trans)
qed

lemma record_control_ok:
  assumes "quiet m m5" and "control_ok m"
  shows "control_ok (record_policy d n s4 s6 t m5)"
proof -
  have "ds_active (mg_status (record_policy d n s4 s6 t m5)) = ds_active (mg_status m)"
    "mg_test_bypass (record_policy d n s4 s6 t m5) = mg_test_bypass m"
    "\<And>c. mg_last_control (record_policy d n s4 s6 t m5) = Some c \<Longrightarrow> \<exists>c0. mg_last_control m = Some c0 \<and> active c = active c0"
    using assms(1) by (cases t; auto simp: record_policy_def Let_def on_warnings_def on_status_def quiet_def)+
  then show ?thesis using assms(2) by (fastforce simp: control_ok_def split: option.split_asm option.split)
qed

lemma apply_policy_recorded:
  assumes "\<not> mg_test_bypass m" and "apply_policy io_text d m = (Returned (Ok ()), m')" and "set_inv (dp_selected_uids d)" and "tables_ok m"
  shows "tables_ok m' \<and> tracked m \<subseteq> tracked m' \<and> (control_ok m \<longrightarrow> control_ok m')"
proof -
  obtain snapshot m1 s4 s6 tr m2 m3 m4 m5 n where
    s: "net_snapshot m = (Returned (Ok snapshot), m1)" "desired_self_addresses (ns_addresses snapshot) m1 = (Returned (Ok (s4, s6, tr)), m2)"
    and n: "n = committed (live_epoch m2) (desired_epoch d s4 s6)" "length (selected n) \<le> 1024" "length (selected n) + length (draining n) \<le> 4096"
    and k: "kmod_set_bypass n m2 = (Returned (Ok ()), m3)" "set_uids (selected n) m3 = (Returned (Ok ()), m4)"
      "reset_dropped io_text (set_difference (selected (live_epoch m2)) (selected n)) m4 = (Returned (Ok ()), m5)"
    and m': "m' = record_policy d n s4 s6 tr m5"
    using apply_policy_Ok [OF assms(1,2)] by metis
  have "quiet m m1" "quiet m1 m2" "quiet m2 m3" "quiet m3 m4" "quiet m4 m5"
    using s k by (auto intro: quiet_allows [OF allows_snapshot] self_addresses_quiet reset_dropped_quiet
        quiet_allows [OF allows_controls(2)] quiet_allows [OF allows_controls(1) [where P = "\<lambda>_. True"]])
  then have "quiet m m5" by (blast intro: quiet_trans)
  then have c: "control_ok m \<longrightarrow> control_ok m'" unfolding m' by (auto intro: record_control_ok)
  have e: "live_epoch m2 = live_epoch m"
    using self_addresses_state [OF s(2)] live_epoch_more [OF allows_more [OF allows_snapshot s(1)]] by simp
  have inv: "epoch_inv (live_epoch m)" using assms(4) by (intro epoch_inv_live) (simp add: tables_ok_def)
  have i: "epoch_inv n"
    unfolding n(1) e using epoch_inv_committed [OF inv epoch_inv_desired [OF assms(3)]] .
  have caps: "length (dp_bypass_v4 d) \<le> 65536" "length (dp_bypass_v6 d) \<le> 65536"
    using assms(1,2) by (auto simp: apply_policy_def LPM_MAX_ENTRIES_def split: if_split_asm)
  have "card {u. (u, 1) \<in> set (uid_modes_from_epoch n)} \<le> card (set (selected n))"
    by (intro card_mono) (auto simp: uid_modes_epoch split: if_split_asm)
  also have "\<dots> \<le> 1024" using n(2) card_length [of "selected n"] by linarith
  finally have sel: "length (filter (\<lambda>(_, mode). mode = 1) (uid_modes_from_epoch n)) \<le> 1024"
    using selected_uid_modes [OF uid_modes_epoch(1), of 1 n] by simp
  have "list_all (\<lambda>(_, mode). mode = 1 \<or> mode = 2) (uid_modes_from_epoch n)"
    by (auto simp: list_all_iff uid_modes_epoch split: if_split_asm)
  then have ok: "tables_ok m'"
    using sel caps desired_self_capacity [OF s(2)] uid_modes_epoch(1) [of n] length_uid_modes [of n] n(3)
    unfolding m' by (simp add: tables_ok_def record_policy_fields)
  have l: "live_epoch m' = n"
    unfolding m' n(1) e by (rule recorded_epoch_is_live [OF inv assms(3)])
  have "set (selected (live_epoch m)) \<union> set (draining (live_epoch m)) \<subseteq> set (selected n) \<union> set (draining n)"
    unfolding n(1) e using draining_committed by auto
  then show ?thesis using ok tracked_epoch [OF assms(4)] tracked_epoch [OF ok] l c by simp
qed

lemma kept_quiet: "policy_kept m m' \<Longrightarrow> quiet m m'"
  by (simp add: policy_kept_def quiet_def tables_def)

section \<open>Every reachable state\<close>

definition manager_ok :: "dp_manager \<Rightarrow> bool" where
  "manager_ok m \<longleftrightarrow> tables_ok m \<and> control_ok m"

lemma same_tables: "tables m' = tables m \<Longrightarrow> tables_ok m' = tables_ok m \<and> tracked m' = tracked m"
  by (simp add: tables_def tables_ok_def tracked_def)

lemma settles_ok: "settles m m' \<Longrightarrow> manager_ok m \<Longrightarrow> manager_ok m' \<and> tracked m \<subseteq> tracked m'"
  using settles_control [of m m'] same_tables [of m' m] by (auto simp: manager_ok_def settles_def)

lemma apply_policy_ok:
  assumes "apply_policy io_text d m = (Returned r, m')" and "set_inv (dp_selected_uids d)" and "manager_ok m"
  shows "manager_ok m' \<and> tracked m \<subseteq> tracked m'"
proof (cases r rule: unit_result_cases)
  case 1
  show ?thesis
  proof (cases "mg_test_bypass m")
    case True
    then have "quiet m m'" using assms(1) by (auto simp: apply_policy_def on_status_def quiet_def tables_def)
    then show ?thesis using settles_ok [OF quiet_settles] assms(3) by blast
  next
    case False
    then show ?thesis using apply_policy_recorded [OF False] assms 1 by (auto simp: manager_ok_def)
  qed
next
  case (2 e)
  then show ?thesis using apply_policy_kept assms(1,3) settles_ok [OF quiet_settles [OF kept_quiet]] by blast
qed

lemma manager_step_ok: "manager_step io_text m m' \<Longrightarrow> manager_ok m \<Longrightarrow> manager_ok m' \<and> tracked m \<subseteq> tracked m'"
proof (induction rule: manager_step.induct)
  case (step_converge enabled has_object m r m')
  then show ?case using converge_inner_ok same_tables [of m' m] by (auto simp: manager_ok_def)
next
  case (step_stage m d)
  have "quiet m (stage_interface_policy d m)" by (simp add: stage_interface_policy_def on_status_def quiet_def tables_def)
  then show ?case using settles_ok [OF quiet_settles] step_stage by blast
next
  case (step_apply d m r m')
  then show ?case using apply_policy_ok by blast
next
  case (step_prepare generation p4 p6 m r m')
  then show ?case using settles_ok prepare_generation_settles by blast
next
  case (step_active m r m')
  then show ?case using publish_active_settles same_tables [of m' m] by (auto simp: manager_ok_def)
next
  case (step_inactive m r m')
  then show ?case using settles_ok publish_inactive_settles by blast
next
  case (step_route m q m')
  then show ?case using settles_ok [OF quiet_settles] refresh_quiet by blast
next
  case (step_dir m dir)
  have "quiet m (set_kmod_dir dir m)" by (simp add: set_kmod_dir_def quiet_def tables_def)
  then show ?case using settles_ok [OF quiet_settles] step_dir by blast
next
  case (step_answers m as)
  have "quiet m (m\<lparr>w_answers := w_answers m @ as\<rparr>)" by (simp add: quiet_def tables_def)
  then show ?case using settles_ok [OF quiet_settles] step_answers by blast
qed

lemma manager_steps_ok: "(manager_step io_text)\<^sup>*\<^sup>* m m' \<Longrightarrow> manager_ok m \<Longrightarrow> manager_ok m' \<and> tracked m \<subseteq> tracked m'"
proof (induction rule: rtranclp_induct)
  case (step m1 m2)
  then show ?case using manager_step_ok by blast
qed simp

lemma manager_open_ok: "manager_ok (manager_open w test_bypass dir)"
  by (simp add: manager_open_def manager_ok_def tables_ok_def control_ok_def)

lemma reported_selected: "tables_ok m \<Longrightarrow> unat (pc_selected (policy_counts m)) = length (selected (live_epoch m))"
  using length_live_selected [of m] by (simp add: policy_counts_def tables_ok_def unat_of_nat_small)



text \<open>
  C40: a user that is selected in a well-formed state stays in the manager's user table through any
  sequence of operations, failed ones included: later it is selected or draining, never forgotten, so its
  open connections are never taken for those of a user Flux never touched.
\<close>

theorem selected_users_stay_tracked:
  assumes "manager_ok m" and "(manager_step io_text)\<^sup>*\<^sup>* m m'" and "u \<in> set (selected (live_epoch m))"
  shows "u \<in> set (selected (live_epoch m')) \<or> u \<in> set (draining (live_epoch m'))"
proof -
  have "manager_ok m'" "tracked m \<subseteq> tracked m'" using manager_steps_ok [OF assms(2,1)] by simp_all
  then show ?thesis using assms(1,3) tracked_epoch [of m] tracked_epoch [of m'] by (auto simp: manager_ok_def)
qed

theorem selected_users_stay_tracked_witness:
  "\<exists>m'. apply_policy (\<lambda>_. []) sample_policy (sample_manager sample_later True) = (Returned (Ok ()), m') \<and>
    (10001 \<in> set (selected (live_epoch m')) \<or> 10001 \<in> set (draining (live_epoch m')))"
proof -
  let ?m = "sample_manager sample_later True"
  obtain m' where m': "apply_policy (\<lambda>_. []) sample_policy ?m = (Returned (Ok ()), m')"
    using sample_applied by blast
  have ok: "manager_ok ?m" by (simp add: manager_ok_def tables_ok_def control_ok_def sample_manager_def map_inv_def)
  have "set_inv (dp_selected_uids sample_policy)" by (simp add: sample_policy_def set_inv_def)
  then have s: "(manager_step (\<lambda>_. []))\<^sup>*\<^sup>* ?m m'" using m' by (blast intro: step_apply)
  have "(10001 :: u32) \<in> set (selected (live_epoch ?m))" by (simp add: live_epoch_fields sample_manager_def)
  then show ?thesis using m' selected_users_stay_tracked [OF ok s] by blast
qed

end
