(* ===== verification/Engine.thy ===== *)
theory Engine
  imports Engine_Config Sock_Diag
begin

text \<open>
  The engine process, crates/fluxd/src/engine.rs: error tokens and their details, the port draw, the
  configuration check with its bounded output, process identity and the verification of listener
  inodes, and the types of a switch transaction. What the operating system answers is an argument; how
  the C library words an error is the parameter \<open>io_text\<close>. Forking, pipes and pidfds are not modelled.
\<close>

section \<open>Constants and errors\<close>

text \<open>Durations are in milliseconds.\<close>

definition TERMINATE_GRACE :: nat where "TERMINATE_GRACE = 3000"
definition READY_DEADLINE :: nat where "READY_DEADLINE = 5000"
definition CHECK_DEADLINE :: nat where "CHECK_DEADLINE = 15000"
definition OUTPUT_CAP :: nat where "OUTPUT_CAP = 64 * 1024"
definition OUTPUT_READ_BUDGET :: nat where "OUTPUT_READ_BUDGET = 16"
definition PORT_DRAW_ATTEMPTS :: nat where "PORT_DRAW_ATTEMPTS = 128"

datatype engine_error =
    BinaryMissing string
  | ConfigInvalid engine_config_error
  | WriteEffective io_error
  | CheckFailed string string
  | SpawnFailed string
  | Exited string string
  | NotReady u8
  | SocketOwnerMismatch u32
  | Engine_Io io_error

fun error_token :: "engine_error \<Rightarrow> string" where
  "error_token (BinaryMissing path) = ''engine_binary_missing:'' @ path"
| "error_token (ConfigInvalid _) = ''engine_config_invalid''"
| "error_token (CheckFailed _ _) = ''engine_check_failed''"
| "error_token (SpawnFailed _) = ''engine_spawn_failed''"
| "error_token (Exited exit _) = ''engine_exited:'' @ exit"
| "error_token (NotReady verified) = ''engine_not_ready:'' @ dec (unat verified) @ ''/4 sockets''"
| "error_token (SocketOwnerMismatch _) = ''engine_socket_owner_mismatch''"
| "error_token (WriteEffective _) = ''engine_io_error''"
| "error_token (Engine_Io _) = ''engine_io_error''"

definition section_sign :: string where
  "section_sign = [CHR 0xC2, CHR 0xA7]"

fun join_comma :: "string list \<Rightarrow> string" where
  "join_comma [] = []"
| "join_comma [t] = t"
| "join_comma (t # u # ts) = t @ '', '' @ join_comma (u # ts)"

fun describe_config_error :: "engine_config_error \<Rightarrow> string" where
  "describe_config_error NotAnObject = ''template.json is not a JSON object''"
| "describe_config_error UserSuppliedInbound =
    ''template.json declares its own inbounds; Flux injects the only two (blueprint '' @ section_sign @ ''9.1)''"
| "describe_config_error InboundsNotArray = ''`inbounds` is not an array''"
| "describe_config_error (ReservedTag tag) =
    ''tag `'' @ tag @ ''` is the tag of an inbound Flux injects; rename it (blueprint '' @ section_sign @ ''9.6)''"
| "describe_config_error OutboundsNotArray = ''template.json `outbounds` is absent or not an array''"
| "describe_config_error NodeNotAnObject = ''a refined subscription node is not an outbound object''"
| "describe_config_error NodeTagMissing = ''a refined subscription node has no non-empty tag''"
| "describe_config_error (UnfilledGroups tags) =
    (let (subject, verb, them) = (if length tags = 1 then (''group'', ''has'', ''it'') else (''groups'', ''have'', ''them''))
     in ''template.json is still a template: '' @ subject @ '' '' @ join_comma tags @ '' '' @ verb @
        '' no members and there is no node to fill '' @ them @
        '' with. Set `url` under [subscription] in flux.toml, or write the nodes into '' @ them @ '' yourself.'')"

fun error_detail :: "(io_error \<Rightarrow> string) \<Rightarrow> engine_error \<Rightarrow> string option" where
  "error_detail io_text (ConfigInvalid e) = Some (describe_config_error e)"
| "error_detail io_text (CheckFailed exit output_head) =
    Some (if output_head = [] then ''check exited with '' @ exit else ''check exited with '' @ exit @ '': '' @ output_head)"
| "error_detail io_text (Exited _ output_head) = (if output_head \<noteq> [] then Some output_head else None)"
| "error_detail io_text (SpawnFailed detail) = Some detail"
| "error_detail io_text (SocketOwnerMismatch inode) =
    Some (''socket inode '' @ dec (unat inode) @ '' is not held by the candidate pid'')"
| "error_detail io_text (WriteEffective e) = Some (io_text e)"
| "error_detail io_text (Engine_Io e) = Some (io_text e)"
| "error_detail io_text (BinaryMissing _) = None"
| "error_detail io_text (NotReady _) = None"

text \<open>\<open>is_retryable\<close> of the reactor.\<close>

fun is_retryable :: "engine_error \<Rightarrow> bool" where
  "is_retryable (BinaryMissing _) = False"
| "is_retryable (ConfigInvalid _) = False"
| "is_retryable (CheckFailed _ _) = False"
| "is_retryable _ = True"

section \<open>Types of a switch\<close>

record engine_spec =
  sp_binary :: string
  sp_workdir :: string
  sp_listen_v4 :: ipv4_addr
  sp_listen_v6 :: ipv6_addr

text \<open>A child without its descriptors: the pidfd and the output pipe are the process itself.\<close>

record engine_child =
  ch_pid :: int
  ch_start_time :: u64
  ch_identity_verified :: bool
  ch_params :: engine_params
  ch_effective :: string
  ch_spawned_at :: nat
  ch_sockets_verified :: u8

record old_generation =
  og_params :: engine_params
  og_effective :: string

record switch_plan =
  pl_generation :: u64
  pl_params :: engine_params
  pl_candidate :: string
  pl_user :: json
  pl_old :: "old_generation option"

datatype check_disposition = Check_Normal | Check_TimedOut | Check_Cancelled | Check_SupervisionFailed

datatype wait_role = Candidate switch_plan | Recovery engine_error

datatype stop_next =
    StartCandidate switch_plan
  | Recover switch_plan engine_error
  | FinishRecoveryFailure engine_error engine_error
  | Stop_Cancelled

record engine_check =
  ck_captured :: bytes

datatype engine_transaction =
    Checking engine_check switch_plan nat check_disposition
  | Waiting engine_child wait_role nat nat
  | Stopping engine_child stop_next nat bool

definition expectations :: "engine_spec \<Rightarrow> engine_params \<Rightarrow> socket_expectation list" where
  "expectations spec params =
    [\<lparr>se_protocol = 6, se_addr = Ip_V4 (sp_listen_v4 spec), se_port = ep_port_v4 params\<rparr>,
     \<lparr>se_protocol = 17, se_addr = Ip_V4 (sp_listen_v4 spec), se_port = ep_port_v4 params\<rparr>,
     \<lparr>se_protocol = 6, se_addr = Ip_V6 (sp_listen_v6 spec), se_port = ep_port_v6 params\<rparr>,
     \<lparr>se_protocol = 17, se_addr = Ip_V6 (sp_listen_v6 spec), se_port = ep_port_v6 params\<rparr>]"

section \<open>Output of a process\<close>

text \<open>The first character of the bytes and its length, or the bytes one replacement character stands for.\<close>

fun utf8_first :: "bytes \<Rightarrow> bool \<times> nat" where
  "utf8_first [] = (True, 1)"
| "utf8_first (a # r) =
    (if a < 0x80 then (True, 1)
     else if 0xC2 \<le> a \<and> a \<le> 0xDF then
       (case r of b # _ \<Rightarrow> if utf8_cont b then (True, 2) else (False, 1) | [] \<Rightarrow> (False, 1))
     else if 0xE0 \<le> a \<and> a \<le> 0xEF then
       (case r of
          b # r' \<Rightarrow>
            if utf8_cont b \<and> (a = 0xE0 \<longrightarrow> 0xA0 \<le> b) \<and> (a = 0xED \<longrightarrow> b \<le> 0x9F)
            then (case r' of c # _ \<Rightarrow> if utf8_cont c then (True, 3) else (False, 2) | [] \<Rightarrow> (False, 2))
            else (False, 1)
        | [] \<Rightarrow> (False, 1))
     else if 0xF0 \<le> a \<and> a \<le> 0xF4 then
       (case r of
          b # r' \<Rightarrow>
            if utf8_cont b \<and> (a = 0xF0 \<longrightarrow> 0x90 \<le> b) \<and> (a = 0xF4 \<longrightarrow> b \<le> 0x8F)
            then (case r' of
                    c # r'' \<Rightarrow>
                      if utf8_cont c
                      then (case r'' of d # _ \<Rightarrow> if utf8_cont d then (True, 4) else (False, 3) | [] \<Rightarrow> (False, 3))
                      else (False, 2)
                  | [] \<Rightarrow> (False, 2))
            else (False, 1)
        | [] \<Rightarrow> (False, 1))
     else (False, 1))"

lemma utf8_first_pos: "0 < snd (utf8_first bs)"
  by (induction bs rule: utf8_first.induct) (auto split: list.split)

function from_utf8_lossy :: "bytes \<Rightarrow> string" where
  "from_utf8_lossy bs =
    (if bs = [] then []
     else (if fst (utf8_first bs) then map char_of_byte (take (snd (utf8_first bs)) bs) else [CHR 0xEF, CHR 0xBF, CHR 0xBD])
       @ from_utf8_lossy (drop (snd (utf8_first bs)) bs))"
  by pat_completeness auto
termination
  by (relation "measure length") (auto simp: utf8_first_pos)

declare from_utf8_lossy.simps [simp del]

definition head_lines :: "bytes \<Rightarrow> nat \<Rightarrow> string" where
  "head_lines bs n = join_with newline (take n (lines (from_utf8_lossy bs)))"

datatype exit_status = Exit_Code int | Exit_Signal int | Exit_Unknown

text \<open>A decimal integer as \<open>format!\<close> prints it.\<close>

definition int_text :: "int \<Rightarrow> string" where
  "int_text i = (if i < 0 then ''-'' @ dec (nat (- i)) else dec (nat i))"

fun describe_exit :: "exit_status \<Rightarrow> string" where
  "describe_exit (Exit_Code code) = ''code='' @ int_text code"
| "describe_exit (Exit_Signal sig) = ''signal='' @ int_text sig"
| "describe_exit Exit_Unknown = ''unknown''"

text \<open>What the \<open>read\<close> calls return: the bytes of one call (none at the end), or an error.\<close>

fun drain_reads :: "nat \<Rightarrow> (io_error + bytes) list \<Rightarrow> bytes \<Rightarrow> bytes" where
  "drain_reads 0 rs captured = captured"
| "drain_reads (Suc budget) [] captured = captured"
| "drain_reads (Suc budget) (Inl e # rs) captured =
    (if e = Os 4 then drain_reads budget rs captured else captured)"
| "drain_reads (Suc budget) (Inr chunk # rs) captured =
    (if chunk = [] then captured
     else drain_reads budget rs
       (if length captured < OUTPUT_CAP then captured @ take (OUTPUT_CAP - length captured) chunk else captured))"

lemma drain_reads_code [code]:
  "drain_reads n rs captured =
    (if n = 0 then captured
     else
       (case rs of
          [] \<Rightarrow> captured
        | Inl e # rs \<Rightarrow> if e = Os 4 then drain_reads (n - 1) rs captured else captured
        | Inr chunk # rs \<Rightarrow>
            if chunk = [] then captured
            else drain_reads (n - 1) rs
              (if length captured < OUTPUT_CAP then captured @ take (OUTPUT_CAP - length captured) chunk else captured)))"
  by (cases n; simp split: list.split sum.split)

definition drain_output :: "(io_error + bytes) list \<Rightarrow> engine_check \<Rightarrow> engine_check" where
  "drain_output reads check = check\<lparr>ck_captured := drain_reads OUTPUT_READ_BUDGET reads (ck_captured check)\<rparr>"

text \<open>\<open>EngineCheck::finish\<close> with the reads before and after \<open>try_wait\<close>; ECHILD is 10.\<close>

definition check_finish ::
    "(io_error + bytes) list \<Rightarrow> io_error + exit_status option \<Rightarrow> (io_error + bytes) list \<Rightarrow> engine_check \<Rightarrow>
     (engine_error + (engine_error + unit) option) \<times> engine_check" where
  "check_finish early try_wait late check =
    (let check = drain_output early check
     in case try_wait of
          Inr None \<Rightarrow> (Ok None, check)
        | Inl e \<Rightarrow> (if e = Os 10 then Ok (Some (Err (Engine_Io e))) else Err (Engine_Io e), check)
        | Inr (Some status) \<Rightarrow>
            (let check = drain_output late check
             in (Ok (Some (if status = Exit_Code 0 then Ok ()
                           else Err (CheckFailed (describe_exit status) (head_lines (ck_captured check) 8)))), check)))"

definition timeout_error :: "(io_error + bytes) list \<Rightarrow> engine_check \<Rightarrow> engine_error" where
  "timeout_error reads check = CheckFailed ''timeout'' (head_lines (ck_captured (drain_output reads check)) 8)"

text \<open>The loop of \<open>drain_output_head\<close>: reading stops at the cap, the last chunk is kept whole.\<close>

fun head_reads :: "nat \<Rightarrow> (io_error + bytes) list \<Rightarrow> bytes \<Rightarrow> bytes" where
  "head_reads 0 rs buf = buf"
| "head_reads (Suc budget) [] buf = buf"
| "head_reads (Suc budget) (Inl e # rs) buf = buf"
| "head_reads (Suc budget) (Inr chunk # rs) buf =
    (if chunk = [] \<or> length buf \<ge> OUTPUT_CAP then buf else head_reads budget rs (buf @ chunk))"

lemma head_reads_code [code]:
  "head_reads n rs buf =
    (if n = 0 then buf
     else
       (case rs of
          Inr chunk # rs \<Rightarrow> if chunk = [] \<or> length buf \<ge> OUTPUT_CAP then buf else head_reads (n - 1) rs (buf @ chunk)
        | _ \<Rightarrow> buf))"
  by (cases n; simp split: list.split sum.split)

definition drain_output_head :: "(io_error + bytes) list \<Rightarrow> string" where
  "drain_output_head reads = head_lines (head_reads OUTPUT_READ_BUDGET reads []) 8"

section \<open>Identity and listeners\<close>

definition is_ascii_space :: "char \<Rightarrow> bool" where
  "is_ascii_space c \<longleftrightarrow> c \<in> {CHR '' '', CHR 0x09, CHR 0x0A, CHR 0x0C, CHR 0x0D}"

function split_ascii_whitespace :: "string \<Rightarrow> string list" where
  "split_ascii_whitespace s =
    (case dropWhile is_ascii_space s of
       [] \<Rightarrow> []
     | c # cs \<Rightarrow> takeWhile (\<lambda>x. \<not> is_ascii_space x) (c # cs) # split_ascii_whitespace (dropWhile (\<lambda>x. \<not> is_ascii_space x) (c # cs)))"
  by pat_completeness auto
termination
proof (relation "measure length", simp)
  fix s :: string and c cs
  assume a: "dropWhile is_ascii_space s = c # cs"
  then have "\<not> is_ascii_space c" by (metis hd_dropWhile list.distinct(1) list.sel(1))
  then have "length (dropWhile (\<lambda>x. \<not> is_ascii_space x) (c # cs)) \<le> length cs" by (simp add: length_dropWhile_le)
  also have "\<dots> < length s" using length_dropWhile_le [of is_ascii_space s] a by simp
  finally show "(dropWhile (\<lambda>x. \<not> is_ascii_space x) (c # cs), s) \<in> measure length" by simp
qed

declare split_ascii_whitespace.simps [simp del]

text \<open>The argument is what reading \<open>/proc/<pid>/stat\<close> gave.\<close>

definition proc_start_time :: "string option \<Rightarrow> u64 option" where
  "proc_start_time stat =
    (case stat of
       None \<Rightarrow> None
     | Some text \<Rightarrow>
         (case rsplit_once CHR '')'' text of
            None \<Rightarrow> None
          | Some (_, after) \<Rightarrow>
              (case split_ascii_whitespace after of
                 [] \<Rightarrow> None
               | state # rest \<Rightarrow>
                   if state = ''Z'' \<or> state = ''X'' then None
                   else if 18 < length rest then parse_uint (rest ! 18) else None)))"

definition verify_process_identity ::
    "string option \<Rightarrow> io_error + string \<Rightarrow> io_error + string \<Rightarrow> engine_child \<Rightarrow> (io_error + bool) \<times> engine_child" where
  "verify_process_identity stat exe_link canonical child =
    (if ch_identity_verified child then (Ok True, child)
     else
       (case proc_start_time stat of
          None \<Rightarrow> (Err (NotFound (''/proc/'' @ int_text (ch_pid child) @ ''/stat is unavailable'')), child)
        | Some current_start \<Rightarrow>
            if current_start = 0 \<or> current_start \<noteq> ch_start_time child
            then (Err (InvalidData (''child identity changed: starttime '' @ dec (unat current_start) @ '' != '' @
                    dec (unat (ch_start_time child)))), child)
            else
              (case exe_link of
                 Inl e \<Rightarrow> (Err e, child)
               | Inr actual \<Rightarrow>
                   (case canonical of
                      Inl e \<Rightarrow> (Err e, child)
                    | Inr expected \<Rightarrow>
                        if actual \<noteq> expected then (Ok False, child)
                        else (Ok True, child\<lparr>ch_identity_verified := True\<rparr>)))))"

datatype readiness = Readiness_Pending u8 | Readiness_Ready

fun count_owned :: "(u32 \<Rightarrow> io_error + bool) \<Rightarrow> u32 option list \<Rightarrow> u8 \<Rightarrow> bool \<Rightarrow> engine_error + u8 \<times> bool" where
  "count_owned owns [] verified all_present = Ok (verified, all_present)"
| "count_owned owns (None # rest) verified all_present = count_owned owns rest verified False"
| "count_owned owns (Some inode # rest) verified all_present =
    (case owns inode of
       Inr b \<Rightarrow> if b then count_owned owns rest (verified + 1) all_present else Err (SocketOwnerMismatch inode)
     | Inl e \<Rightarrow> Err (Engine_Io e))"

definition verify_listener_inodes ::
    "(u32 \<Rightarrow> io_error + bool) \<Rightarrow> engine_child \<Rightarrow> u32 option list \<Rightarrow> (engine_error + readiness) \<times> engine_child" where
  "verify_listener_inodes owns child inodes =
    (case count_owned owns inodes 0 True of
       Inl e \<Rightarrow> (Err e, child)
     | Inr (verified, all_present) \<Rightarrow>
         (Ok (if all_present \<and> verified = 4 then Readiness_Ready else Readiness_Pending verified),
          child\<lparr>ch_sockets_verified := verified\<rparr>))"

section \<open>Drawing ports\<close>

text \<open>The answers of \<open>getrandom\<close> and of binding both sockets, in the order they are asked for; no result when they
  run out.\<close>

datatype draw_answer = Random "io_error + u16" | Bound "io_error + unit"

fun draw_port :: "draw_answer list \<Rightarrow> ((io_error + u16) \<times> draw_answer list) option" where
  "draw_port (Random (Inl e) # rest) = Some (Err e, rest)"
| "draw_port (Random (Inr draw) # rest) =
    (let span = unat LISTEN_PORT_MAX - unat LISTEN_PORT_MIN + 1;
         limit = 65536 div span * span
     in if unat draw < limit then Some (Ok (LISTEN_PORT_MIN + word_of_nat (unat draw mod span)), rest) else draw_port rest)"
| "draw_port _ = None"

definition addr_in_use :: "io_error \<Rightarrow> bool" where
  "addr_in_use e \<longleftrightarrow> e = Os 98 \<or> (case e of AddrInUse _ \<Rightarrow> True | _ \<Rightarrow> False)"

fun reserve_random_port ::
    "nat \<Rightarrow> u16 option \<Rightarrow> io_error option \<Rightarrow> draw_answer list \<Rightarrow> ((io_error + u16) \<times> draw_answer list) option" where
  "reserve_random_port 0 excluded last_collision replies =
    Some (Err (case last_collision of Some e \<Rightarrow> e | None \<Rightarrow> AddrInUse ''could not reserve a distinct listener port''), replies)"
| "reserve_random_port (Suc n) excluded last_collision replies =
    (case draw_port replies of
       None \<Rightarrow> None
     | Some (Inl e, rest) \<Rightarrow> Some (Err e, rest)
     | Some (Inr port, rest) \<Rightarrow>
         if excluded = Some port then reserve_random_port n excluded last_collision rest
         else
           (case rest of
              Bound (Inr _) # rest' \<Rightarrow> Some (Ok port, rest')
            | Bound (Inl e) # rest' \<Rightarrow>
                if addr_in_use e then reserve_random_port n excluded (Some e) rest' else Some (Err e, rest')
            | _ \<Rightarrow> None))"

definition draw_ports :: "draw_answer list \<Rightarrow> ((io_error + u16 \<times> u16) \<times> draw_answer list) option" where
  "draw_ports replies =
    (case reserve_random_port PORT_DRAW_ATTEMPTS None None replies of
       None \<Rightarrow> None
     | Some (Inl e, rest) \<Rightarrow> Some (Err e, rest)
     | Some (Inr v4, rest) \<Rightarrow>
         (case reserve_random_port PORT_DRAW_ATTEMPTS (Some v4) None rest of
            None \<Rightarrow> None
          | Some (Inl e, rest) \<Rightarrow> Some (Err e, rest)
          | Some (Inr v6, rest) \<Rightarrow> Some (Ok (v4, v6), rest)))"

section \<open>What they give\<close>

lemma drain_reads_capped: "length captured \<le> OUTPUT_CAP \<Longrightarrow> length (drain_reads n rs captured) \<le> OUTPUT_CAP"
  by (induction n rs captured rule: drain_reads.induct) auto

lemma check_output_capped:
  "length (ck_captured c) \<le> OUTPUT_CAP \<Longrightarrow> length (ck_captured (snd (check_finish a w b c))) \<le> OUTPUT_CAP"
  by (auto simp: check_finish_def drain_output_def Let_def drain_reads_capped split: sum.split option.split)

lemma count_owned_Ok:
  "count_owned owns inodes v p = Ok (v', p') \<Longrightarrow>
   p' = (p \<and> None \<notin> set inodes) \<and> v' = v + word_of_nat (length (filter (\<lambda>i. i \<noteq> None) inodes)) \<and>
   (\<forall>i. Some i \<in> set inodes \<longrightarrow> owns i = Ok True)"
  by (induction owns inodes v p rule: count_owned.induct) (auto split: sum.split_asm if_split_asm)

lemma verify_ready:
  assumes "verify_listener_inodes owns child inodes = (Ok Readiness_Ready, child')" and "length inodes = 4"
  shows "\<exists>is. inodes = map Some is \<and> (\<forall>i\<in>set is. owns i = Ok True) \<and> child' = child\<lparr>ch_sockets_verified := 4\<rparr>"
proof -
  obtain v p where c: "count_owned owns inodes 0 True = Ok (v, p)" "p" "v = 4" "child' = child\<lparr>ch_sockets_verified := v\<rparr>"
    using assms(1) by (auto simp: verify_listener_inodes_def split: sum.split_asm prod.split_asm if_split_asm)
  have "None \<notin> set inodes" using count_owned_Ok [OF c(1)] c(2) by simp
  then have "inodes = map Some (map the inodes)" by (induction inodes) auto
  moreover have "\<forall>i\<in>set (map the inodes). owns i = Ok True"
    using count_owned_Ok [OF c(1)] \<open>None \<notin> set inodes\<close> by (metis (no_types, lifting) calculation imageI list.set_map)
  ultimately show ?thesis using c by blast
qed

lemma port_in_range: "LISTEN_PORT_MIN \<le> LISTEN_PORT_MIN + word_of_nat (n mod 4536)"
proof -
  have "n mod 4536 < 4536" by simp
  then have k: "unat (word_of_nat (n mod 4536) :: u16) = n mod 4536" by (intro unat_of_nat_small) simp
  have "unat (LISTEN_PORT_MIN + word_of_nat (n mod 4536)) = 61000 + n mod 4536"
    using k \<open>n mod 4536 < 4536\<close> by (subst unat_add_small) (simp_all add: LISTEN_PORT_MIN_def)
  then show ?thesis unfolding word_le_nat_alt by (simp add: LISTEN_PORT_MIN_def)
qed

lemma port_span: "unat LISTEN_PORT_MAX - unat LISTEN_PORT_MIN + 1 = 4536"
  by (simp add: LISTEN_PORT_MAX_def LISTEN_PORT_MIN_def)

lemma draw_port_step:
  "draw_port (Random (Ok draw) # rs) =
    (if unat draw < 63504 then Some (Ok (LISTEN_PORT_MIN + word_of_nat (unat draw mod 4536)), rs) else draw_port rs)"
  unfolding draw_port.simps Let_def port_span by (rule if_cong) simp_all

lemma draw_port_range: "draw_port rs = Some (Ok p, rest) \<Longrightarrow> LISTEN_PORT_MIN \<le> p"
proof (induction rs rule: draw_port.induct)
  case (2 draw rs)
  show ?case
  proof (cases "unat draw < 63504")
    case True
    then have "p = LISTEN_PORT_MIN + word_of_nat (unat draw mod 4536)" using "2.prems" unfolding draw_port_step by simp
    then show ?thesis using port_in_range by simp
  next
    case False
    have "\<not> unat draw < 65536 div (unat LISTEN_PORT_MAX - unat LISTEN_PORT_MIN + 1) * (unat LISTEN_PORT_MAX - unat LISTEN_PORT_MIN + 1)"
      unfolding port_span using False by simp
    then show ?thesis using "2.IH" [OF refl refl] "2.prems" False unfolding draw_port_step if_not_P [OF False] by blast
  qed
qed simp_all

lemma reserve_random_port_Ok:
  "reserve_random_port n excluded c rs = Some (Ok p, rest) \<Longrightarrow> LISTEN_PORT_MIN \<le> p \<and> excluded \<noteq> Some p"
proof (induction n arbitrary: c rs)
  case (Suc n)
  obtain port rs1 where d: "draw_port rs = Some (Ok port, rs1)"
    using Suc.prems by (auto split: option.split_asm prod.split_asm sum.split_asm)
  show ?case
  proof (cases "excluded = Some port")
    case True
    then show ?thesis using Suc.prems d Suc.IH by simp
  next
    case False
    then obtain r rs2 where r: "rs1 = Bound r # rs2"
      using Suc.prems d by (cases rs1) (auto split: draw_answer.split_asm)
    show ?thesis
    proof (cases r)
      case (Inl e)
      then show ?thesis using Suc.prems d False r Suc.IH [of "Some e" rs2] by (simp split: if_split_asm)
    next
      case (Inr u)
      then show ?thesis using Suc.prems d False r draw_port_range [OF d] by simp
    qed
  qed
qed simp

lemma draw_ports_distinct:
  "draw_ports rs = Some (Ok (v4, v6), rest) \<Longrightarrow> v4 \<noteq> v6 \<and> LISTEN_PORT_MIN \<le> v4 \<and> LISTEN_PORT_MIN \<le> v6"
  by (auto simp: draw_ports_def dest!: reserve_random_port_Ok split: option.split_asm prod.split_asm sum.split_asm)

end
