(* ===== verification/Reactor_State.thy ===== *)
theory Reactor_State
  imports Engine Runtime Config Data_Plane
begin

text \<open>
  The reactor's state and the parts of crates/fluxd/src/reactor.rs and crates/fluxd/src/subscription.rs
  below its transactions: errors, timers, the subscription coordinator and its fetches. The environment
  is a record of functions from the log of calls made so far to what the next call returns, so every
  handler is a total function of the state and holds for every behaviour of the outside. Calls that
  matter to the statements are events of their own; the others are logged by name. Log lines and the
  responses written to control clients are left out.
\<close>

section \<open>Events and environment\<close>

text \<open>The calls that only ask, and the timers.\<close>

datatype rx_call =
    C_advance_attachment | C_apply_policy | C_begin_attachment | C_cancel_attachment | C_clear_fault_latch
  | C_complete_convergence_controls | C_complete_subscribe_controls | C_data_plane_converge_false
  | C_data_plane_converge_with_bpf | C_default_route | C_delete_fault_latch | C_disabled | C_drain_faults
  | C_drain_inotify | C_drain_nl80211 | C_drain_rtnetlink | C_draw_ports | C_dump_interfaces | C_ensure_layout
  | C_epoll_ctl | C_epoll_del | C_load_configuration | C_now | C_open_nl80211 | C_poll_pidfd
  | C_prepare_generation | C_prune_cache | C_publish_active | C_publish_inactive | C_quick_check | C_read_engine
  | C_read_output | C_read_policy | C_read_probe | C_rebuild_watches | C_register_ring | C_set_switch
  | C_source_snapshots | C_spawn | C_spawn_check | C_stage_interface_policy | C_start_fetch | C_start_probe
  | C_take_result | C_terminate | C_try_wait | C_verify_identity | C_verify_inodes | C_write_effective
  | C_write_source_cache

datatype rx_timer = T_backoff | T_debounce | T_engine | T_subscription | T_tc_verify

datatype rx_event =
    Ev_Spawn int string engine_params
  | Ev_Reap int bool
  | Ev_Signal int int
  | Ev_Remove string
  | Ev_Check_Spawn string
  | Ev_Check_Kill
  | Ev_Freeze bool
  | Ev_Survived int
  | Ev_Activate "engine_child option" bool
  | Ev_Arm rx_timer nat
  | Ev_Disarm rx_timer
  | Ev_Call rx_call

type_synonym rx_log = "rx_event list"

text \<open>\<open>Ev_Reap\<close> says whether the exit was confirmed, \<open>Ev_Survived\<close> that a child outlived SIGKILL, \<open>Ev_Activate\<close> which child
  capture was activated for and whether the data plane accepted.\<close>

text \<open>An error of the data plane with its detail, and a token with an optional detail.\<close>

type_synonym dp_error = "string \<times> string"
type_synonym token_error = "string \<times> string option"

record policy_candidate =
  pc_flux :: flux_config
  pc_desired :: desired_policy
  pc_warnings :: "string list"

datatype drained = Drain_Quiet | Drain_Changed | Drain_Resync

datatype watch_action = Watch_Switch | Watch_Config | Watch_Policy | Watch_Rebuild | Watch_Overflow

text \<open>A finished fetch: per source the bytes, or the token and detail of the transport error.\<close>

record fetch_result =
  fr_epoch :: u64
  fr_sources :: "(remote_source \<times> (string \<times> string + bytes)) list"

record rx_env =
  en_spec :: engine_spec
  en_io_text :: "io_error \<Rightarrow> string"
  en_to_vec :: "json \<Rightarrow> bytes option"
  en_disabled :: "rx_log \<Rightarrow> bool"
  en_now :: "rx_log \<Rightarrow> nat"
  en_ports :: "rx_log \<Rightarrow> io_error + u16 \<times> u16"
  en_write_effective :: "rx_log \<Rightarrow> json \<Rightarrow> u64 \<Rightarrow> engine_error + string"
  en_spawn_check :: "rx_log \<Rightarrow> string \<Rightarrow> engine_error + unit"
  en_watch :: "rx_log \<Rightarrow> io_error + unit"
  en_reads :: "rx_log \<Rightarrow> (io_error + bytes) list"
  en_try_wait :: "rx_log \<Rightarrow> io_error + exit_status option"
  en_spawn :: "rx_log \<Rightarrow> string \<Rightarrow> engine_params \<Rightarrow> engine_error + int \<times> u64"
  en_exited :: "rx_log \<Rightarrow> int \<Rightarrow> bool"
  en_stat :: "rx_log \<Rightarrow> int \<Rightarrow> string option"
  en_exe :: "rx_log \<Rightarrow> int \<Rightarrow> io_error + string"
  en_canonical :: "rx_log \<Rightarrow> string \<Rightarrow> io_error + string"
  en_owns :: "rx_log \<Rightarrow> int \<Rightarrow> u32 \<Rightarrow> io_error + bool"
  en_send :: "rx_log \<Rightarrow> bytes \<Rightarrow> io_error + unit"
  en_recv :: "rx_log \<Rightarrow> io_error + raw_message list"
  en_terminate :: "rx_log \<Rightarrow> int \<Rightarrow> io_error + string"
  en_freeze :: "rx_log \<Rightarrow> dp_error + unit"
  en_activate :: "rx_log \<Rightarrow> dp_error + unit"
  en_prepare :: "rx_log \<Rightarrow> engine_params \<Rightarrow> dp_error + unit"
  en_clear_latch :: "rx_log \<Rightarrow> dp_error + unit"
  en_attach :: "rx_log \<Rightarrow> dp_error + nat option"
  en_cancel_attachment :: "rx_log \<Rightarrow> dp_error + unit"
  en_apply_policy :: "rx_log \<Rightarrow> desired_policy \<Rightarrow> dp_error + unit"
  en_dp_error :: "rx_log \<Rightarrow> dp_error option"
  en_dp_active :: "rx_log \<Rightarrow> bool"
  en_attachment_ready :: "rx_log \<Rightarrow> bool"
  en_attachment_busy :: "rx_log \<Rightarrow> bool"
  en_register_ring :: "rx_log \<Rightarrow> io_error + unit"
  en_route_ready :: "rx_log \<Rightarrow> dp_error + bool"
  en_layout :: "rx_log \<Rightarrow> string + unit"
  en_read_policy :: "rx_log \<Rightarrow> token_error + policy_candidate"
  en_read_engine :: "rx_log \<Rightarrow> flux_config \<Rightarrow> token_error + json"
  en_load_config :: "rx_log \<Rightarrow> token_error + flux_config"
  en_fakeip :: "flux_config \<Rightarrow> json \<Rightarrow> string + unit"
  en_worker_start :: "rx_log \<Rightarrow> io_error + bool"
  en_snapshots :: "rx_log \<Rightarrow> remote_source list"
  en_cache_write :: "rx_log \<Rightarrow> remote_source \<Rightarrow> bytes \<Rightarrow> string + unit"
  en_ssid_open :: "rx_log \<Rightarrow> io_error + bool"
  en_ssid_dump :: "rx_log \<Rightarrow> io_error + bytes list"
  en_ssid_drain :: "rx_log \<Rightarrow> io_error + drained"
  en_advance :: "rx_log \<Rightarrow> dp_error + nat option"
  en_faults :: "rx_log \<Rightarrow> dp_error + fault_event list"
  en_rtnetlink :: "rx_log \<Rightarrow> io_error + drained"
  en_watches :: "rx_log \<Rightarrow> io_error + watch_action list"
  en_set_switch :: "rx_log \<Rightarrow> bool \<Rightarrow> io_error + unit"
  en_fetched :: "rx_log \<Rightarrow> fetch_result option"
  en_remote :: "node_policy \<Rightarrow> bytes \<Rightarrow> (string \<times> string) + unit"

section \<open>State\<close>

record pending_batch =
  pb_raw :: "(remote_source \<times> bytes) list"
  pb_generation :: "u64 option"

record coordinator =
  co_schedule :: "(remote_source list \<times> u64) option"
  co_pending :: "pending_batch option"
  co_fetch_queued :: bool
  co_reconfigure_queued :: bool
  co_retry_on_route :: bool
  co_default_route_was_ready :: bool
  co_route_recovery_epoch :: u64
  co_fetch_route_epoch :: u64
  co_fetch_epoch :: u64

definition coordinator_default :: coordinator where
  "coordinator_default = \<lparr>co_schedule = None, co_pending = None, co_fetch_queued = False, co_reconfigure_queued = False,
     co_retry_on_route = False, co_default_route_was_ready = False, co_route_recovery_epoch = 0, co_fetch_route_epoch = 0,
     co_fetch_epoch = 0\<rparr>"

record ssid_view =
  sw_connected :: "bool option"
  sw_paused :: bool
  sw_matched_entry :: "nat option"

record reactor =
  rx_log :: rx_log
  rx_engine_timer :: bool
  rx_engine :: "engine_child option"
  rx_transaction :: "engine_transaction option"
  rx_activation_role :: "wait_role option"
  rx_diag_probe :: "probe_ready option"
  rx_cancel_requested :: bool
  rx_shutdown_requested :: bool
  rx_generations :: generations
  rx_last_error :: "string option"
  rx_last_error_detail :: "string option"
  rx_policy_error :: "token_error option"
  rx_subscription_error :: "token_error option"
  rx_crash_count :: u32
  rx_backoff_until :: "nat option"
  rx_reload_requested :: bool
  rx_policy_changed :: bool
  rx_engine_config_changed :: bool
  rx_topology_changed :: bool
  rx_wifi_changed :: bool
  rx_dataplane_error_active :: bool
  rx_current_policy :: "policy_candidate option"
  rx_current_engine_user :: "json option"
  rx_ssid_transport :: bool
  rx_ssid_setup_failure :: "(list_mode \<times> string list) option"
  rx_ssid_status :: "ssid_view option"
  rx_ssid_paused :: bool
  rx_policy_retry_available :: bool
  rx_bad_page_size :: "int option"
  rx_planner :: model
  rx_coord :: coordinator
  rx_worker_busy :: bool

definition emit :: "rx_event \<Rightarrow> reactor \<Rightarrow> reactor" where
  "emit e r = r\<lparr>rx_log := rx_log r @ [e]\<rparr>"

text \<open>A call that only asks.\<close>

definition ask :: "(rx_log \<Rightarrow> 'a) \<Rightarrow> rx_call \<Rightarrow> reactor \<Rightarrow> 'a \<times> reactor" where
  "ask f name r = (f (rx_log r), emit (Ev_Call name) r)"

definition disabled :: "rx_env \<Rightarrow> reactor \<Rightarrow> bool \<times> reactor" where
  "disabled E = ask (en_disabled E) C_disabled"

definition now :: "rx_env \<Rightarrow> reactor \<Rightarrow> nat \<times> reactor" where
  "now E = ask (en_now E) C_now"

definition on_coord :: "(coordinator \<Rightarrow> coordinator) \<Rightarrow> reactor \<Rightarrow> reactor" where
  "on_coord f r = r\<lparr>rx_coord := f (rx_coord r)\<rparr>"

text \<open>The engine timer; a zero duration is armed for one nanosecond, so arming always arms.\<close>

definition arm_engine_timer :: "nat \<Rightarrow> reactor \<Rightarrow> reactor" where
  "arm_engine_timer d r = emit (Ev_Arm T_engine d) (r\<lparr>rx_engine_timer := True\<rparr>)"

definition disarm_engine_timer :: "reactor \<Rightarrow> reactor" where
  "disarm_engine_timer r = emit (Ev_Disarm T_engine) (r\<lparr>rx_engine_timer := False\<rparr>)"

definition transaction_busy :: "reactor \<Rightarrow> bool" where
  "transaction_busy r \<longleftrightarrow> rx_transaction r \<noteq> None \<or> rx_activation_role r \<noteq> None"

section \<open>Errors, backoff and retries\<close>

definition set_error :: "token_error \<Rightarrow> reactor \<Rightarrow> reactor" where
  "set_error e r = r\<lparr>rx_last_error := Some (fst e), rx_last_error_detail := snd e\<rparr>"

definition clear_error :: "reactor \<Rightarrow> reactor" where
  "clear_error r = r\<lparr>rx_last_error := None, rx_last_error_detail := None\<rparr>"

definition set_policy_error :: "token_error \<Rightarrow> reactor \<Rightarrow> reactor" where
  "set_policy_error e r = set_error e (r\<lparr>rx_policy_error := Some e\<rparr>)"

definition clear_policy_error :: "reactor \<Rightarrow> reactor" where
  "clear_policy_error r =
    (case rx_policy_error r of
       None \<Rightarrow> r
     | Some (token, _) \<Rightarrow>
         (let r = r\<lparr>rx_policy_error := None\<rparr> in if rx_last_error r = Some token then clear_error r else r))"

definition set_subscription_error :: "token_error \<Rightarrow> reactor \<Rightarrow> reactor" where
  "set_subscription_error e r = set_error e (r\<lparr>rx_subscription_error := Some e\<rparr>)"

definition clear_subscription_error :: "reactor \<Rightarrow> reactor" where
  "clear_subscription_error r =
    (case rx_subscription_error r of
       None \<Rightarrow> r
     | Some (token, _) \<Rightarrow>
         (let r = r\<lparr>rx_subscription_error := None\<rparr> in if rx_last_error r = Some token then clear_error r else r))"

definition overall_ok :: "reactor \<Rightarrow> bool" where
  "overall_ok r \<longleftrightarrow> rx_last_error r = None \<and> rx_policy_error r = None \<and> rx_subscription_error r = None"

definition schedule_backoff :: "rx_env \<Rightarrow> nat \<Rightarrow> reactor \<Rightarrow> reactor" where
  "schedule_backoff E seconds r =
    (let (t, r) = now E r in emit (Ev_Arm T_backoff (1000 * seconds)) (r\<lparr>rx_backoff_until := Some (t + 1000 * seconds)\<rparr>))"

definition cancel_backoff :: "reactor \<Rightarrow> reactor" where
  "cancel_backoff r = emit (Ev_Disarm T_backoff) (r\<lparr>rx_backoff_until := None\<rparr>)"

definition queue_policy_retry :: "reactor \<Rightarrow> reactor" where
  "queue_policy_retry r =
    (if \<not> rx_policy_retry_available r then r
     else emit (Ev_Arm T_debounce 1500) (r\<lparr>rx_policy_retry_available := False, rx_policy_changed := True\<rparr>))"

text \<open>Completing waiting control requests only touches the connections.\<close>

definition complete_convergence_controls :: "reactor \<Rightarrow> reactor" where
  "complete_convergence_controls = emit (Ev_Call C_complete_convergence_controls)"

definition complete_subscribe_controls :: "reactor \<Rightarrow> reactor" where
  "complete_subscribe_controls = emit (Ev_Call C_complete_subscribe_controls)"

section \<open>The subscription coordinator\<close>

definition reset_on_disable :: "coordinator \<Rightarrow> coordinator" where
  "reset_on_disable c = c\<lparr>co_schedule := None, co_retry_on_route := False, co_default_route_was_ready := False,
     co_pending := None, co_fetch_queued := False, co_reconfigure_queued := False\<rparr>"

definition pending_generation :: "coordinator \<Rightarrow> u64 option" where
  "pending_generation c = Option.bind (co_pending c) pb_generation"

definition discard_generation :: "u64 \<Rightarrow> coordinator \<Rightarrow> coordinator" where
  "discard_generation generation c =
    (case co_pending c of
       Some p \<Rightarrow> if pb_generation p = Some generation then c\<lparr>co_pending := None\<rparr> else c
     | None \<Rightarrow> c)"

definition take_pending_if_generation :: "u64 option \<Rightarrow> coordinator \<Rightarrow> pending_batch option \<times> coordinator" where
  "take_pending_if_generation generation c =
    (case co_pending c of
       Some p \<Rightarrow> if pb_generation p = generation then (Some p, c\<lparr>co_pending := None\<rparr>) else (None, c)
     | None \<Rightarrow> (None, c))"

definition refresh_default_route_observation :: "rx_env \<Rightarrow> reactor \<Rightarrow> reactor" where
  "refresh_default_route_observation E r =
    (let (ready, r) = ask (en_route_ready E) C_default_route r
     in case ready of
          Inl _ \<Rightarrow> r
        | Inr route_ready \<Rightarrow>
            on_coord (\<lambda>c. (if \<not> co_default_route_was_ready c \<and> route_ready
                then c\<lparr>co_route_recovery_epoch := co_route_recovery_epoch c + 1\<rparr> else c)\<lparr>co_default_route_was_ready := route_ready\<rparr>) r)"

definition disabled_fetch :: "string \<Rightarrow> token_error" where
  "disabled_fetch detail = (''subscription_fetch_failed:disabled'', Some detail)"

definition start_subscription_fetch_with :: "rx_env \<Rightarrow> node_config \<Rightarrow> reactor \<Rightarrow> (token_error + unit) \<times> reactor" where
  "start_subscription_fetch_with E config r =
    (let (off, r) = disabled E r
     in if off then (Err (disabled_fetch ''subscription refresh is unavailable while Flux is disabled''), r)
        else if remote_sources config = [] then (Err (disabled_fetch ''nodes.sources has no remote subscription''), r)
        else if pending_generation (rx_coord r) \<noteq> None then (Ok (), on_coord (\<lambda>c. c\<lparr>co_fetch_queued := True\<rparr>) r)
        else if rx_worker_busy r then (Ok (), r)
        else
          (let r = on_coord (\<lambda>c. c\<lparr>co_pending := None\<rparr>) r;
               r = refresh_default_route_observation E r;
               r = on_coord (\<lambda>c. c\<lparr>co_fetch_route_epoch := co_route_recovery_epoch c,
                     co_fetch_epoch := saturating_add (co_fetch_epoch c) 1\<rparr>) r;
               (started, r) = ask (en_worker_start E) C_start_fetch r
           in case started of
                Inr b \<Rightarrow> (Ok (), if b then r\<lparr>rx_worker_busy := True\<rparr> else r)
              | Inl e \<Rightarrow> (Err (''subscription_fetch_failed:worker'', Some (''cannot start subscription worker: '' @ en_io_text E e)), r)))"

definition start_subscription_fetch :: "rx_env \<Rightarrow> reactor \<Rightarrow> (token_error + unit) \<times> reactor" where
  "start_subscription_fetch E r =
    (let (off, r) = disabled E r
     in if off then (Err (disabled_fetch ''subscription refresh is unavailable while Flux is disabled''), r)
        else
          (let (flux, r) = ask (en_load_config E) C_load_configuration r
           in case flux of Inl e \<Rightarrow> (Err e, r) | Inr f \<Rightarrow> start_subscription_fetch_with E (cfg_nodes f) r))"

definition rearm_subscription_timer :: "rx_env \<Rightarrow> reactor \<Rightarrow> reactor" where
  "rearm_subscription_timer E r =
    (case co_schedule (rx_coord r) of
       None \<Rightarrow> emit (Ev_Disarm T_subscription) r
     | Some (sources, interval) \<Rightarrow>
         (let (off, r) = (if rx_shutdown_requested r then (False, r) else disabled E r)
          in if rx_shutdown_requested r \<or> off \<or> sources = [] \<or> interval = 0 then emit (Ev_Disarm T_subscription) r
             else emit (Ev_Arm T_subscription (1000 * unat interval)) r))"

definition ensure_subscription_schedule :: "rx_env \<Rightarrow> node_config \<Rightarrow> reactor \<Rightarrow> reactor" where
  "ensure_subscription_schedule E config r =
    (let sources = remote_sources config
     in if sources = [] then emit (Ev_Disarm T_subscription) (on_coord (\<lambda>c. c\<lparr>co_schedule := None\<rparr>) r)
        else
          (let introduced = list_ex (\<lambda>s. case co_schedule (rx_coord r) of None \<Rightarrow> True | Some (previous, _) \<Rightarrow> s \<notin> set previous) sources;
               schedule = (sources, fc_interval (nc_fetch config));
               r = (if co_schedule (rx_coord r) \<noteq> Some schedule
                    then rearm_subscription_timer E (on_coord (\<lambda>c. c\<lparr>co_schedule := Some schedule\<rparr>) r) else r)
           in if \<not> introduced then r
              else
                (let (snapshots, r) = ask (en_snapshots E) C_source_snapshots r
                 in if length snapshots < length sources then
                      (case start_subscription_fetch_with E config r of
                         (Inl e, r) \<Rightarrow> set_subscription_error e r
                       | (Inr _, r) \<Rightarrow> r)
                    else r)))"

definition configure_subscription :: "rx_env \<Rightarrow> bool \<Rightarrow> reactor \<Rightarrow> reactor" where
  "configure_subscription E sources_changed r =
    (case rx_current_policy r of
       None \<Rightarrow> r
     | Some policy \<Rightarrow>
         (let config = cfg_nodes (pc_flux policy)
          in if sources_changed \<and> pending_generation (rx_coord r) \<noteq> None
             then on_coord (\<lambda>c. c\<lparr>co_reconfigure_queued := True\<rparr>) r
             else
               (let r = emit (Ev_Call C_prune_cache) (ensure_subscription_schedule E config r)
                in if remote_sources config = [] then
                     complete_subscribe_controls (clear_subscription_error (on_coord (\<lambda>c. c\<lparr>co_retry_on_route := False,
                       co_pending := None, co_fetch_queued := False, co_reconfigure_queued := False\<rparr>) r))
                   else r)))"

definition resume_queued_subscription_work :: "rx_env \<Rightarrow> reactor \<Rightarrow> reactor" where
  "resume_queued_subscription_work E r =
    (if transaction_busy r then r
     else if co_reconfigure_queued (rx_coord r) then
       configure_subscription E True ((on_coord (\<lambda>c. c\<lparr>co_reconfigure_queued := False, co_fetch_queued := False\<rparr>) r)\<lparr>rx_engine_config_changed := True\<rparr>)
     else if co_fetch_queued (rx_coord r) then
       (case start_subscription_fetch E (on_coord (\<lambda>c. c\<lparr>co_fetch_queued := False\<rparr>) r) of
          (Inl e, r) \<Rightarrow> set_subscription_error e r
        | (Inr _, r) \<Rightarrow> r)
     else r)"

text \<open>\<open>commit_pending_subscription\<close>: one write per accepted source; a source that is no longer configured is skipped.
  Comparing with the cached bytes first is part of the write.\<close>

fun cache_writes :: "rx_env \<Rightarrow> (remote_source \<times> bytes) list \<Rightarrow> remote_source list \<Rightarrow> reactor \<Rightarrow> string list \<times> reactor" where
  "cache_writes E [] sources r = ([], r)"
| "cache_writes E ((source, raw) # rest) sources r =
    (if source \<notin> set sources then cache_writes E rest sources r
     else
       (let (w, r) = ask (\<lambda>log. en_cache_write E log source raw) C_write_source_cache r;
            (failures, r) = cache_writes E rest sources r
        in (case w of Inl e \<Rightarrow> (''source '' @ rs_id source @ '': '' @ e) # failures | Inr _ \<Rightarrow> failures, r)))"

fun join_semicolon :: "string list \<Rightarrow> string" where
  "join_semicolon [] = []"
| "join_semicolon [t] = t"
| "join_semicolon (t # u # ts) = t @ ''; '' @ join_semicolon (u # ts)"

definition commit_pending_subscription :: "rx_env \<Rightarrow> u64 option \<Rightarrow> reactor \<Rightarrow> bool \<times> reactor" where
  "commit_pending_subscription E generation r =
    (let (pending, c) = take_pending_if_generation generation (rx_coord r);
         r = r\<lparr>rx_coord := c\<rparr>
     in case pending of
          None \<Rightarrow> (True, r)
        | Some p \<Rightarrow>
            (case rx_current_policy r of
               None \<Rightarrow> (True, r)
             | Some policy \<Rightarrow>
                 (let (failures, r) = cache_writes E (pb_raw p) (remote_sources (cfg_nodes (pc_flux policy))) r
                  in if failures = [] then (True, r)
                     else (False, set_subscription_error (''subscription_fetch_failed:cache_write'', Some (join_semicolon failures)) r))))"

end
