(* ===== verification/Engine_Switch.thy ===== *)
theory Engine_Switch
  imports Reactor_State Supervisor "HOL-Library.Monad_Syntax"
begin

text \<open>
  The engine transaction of crates/fluxd/src/reactor.rs: checking a generation, stopping the old child,
  starting the new one, waiting for its sockets, activation, recovery and cancellation. A handler returns
  the new state, or nothing when it panics or when \<open>conv\<close>, the convergence it may call, does not return.
\<close>

type_synonym converger = "string \<Rightarrow> reactor \<Rightarrow> reactor option"

definition SIGKILL :: int where "SIGKILL = 9"
definition SIGTERM :: int where "SIGTERM = 15"

section \<open>Calls\<close>

definition remove_file :: "string \<Rightarrow> reactor \<Rightarrow> reactor" where
  "remove_file path = emit (Ev_Remove path)"

definition has_exited :: "rx_env \<Rightarrow> engine_child \<Rightarrow> reactor \<Rightarrow> bool \<times> reactor" where
  "has_exited E child = ask (\<lambda>log. en_exited E log (ch_pid child)) C_poll_pidfd"

text \<open>\<open>epoll_add\<close> and \<open>epoll_retag\<close> of the descriptors of a child.\<close>

definition watch :: "rx_env \<Rightarrow> reactor \<Rightarrow> (io_error + unit) \<times> reactor" where
  "watch E = ask (en_watch E) C_epoll_ctl"

definition spawn :: "rx_env \<Rightarrow> string \<Rightarrow> engine_params \<Rightarrow> reactor \<Rightarrow> (engine_error + engine_child) \<times> reactor" where
  "spawn E effective params r =
    (let (started, r) = ask (\<lambda>log. en_spawn E log effective params) C_spawn r
     in case started of
          Inl e \<Rightarrow> (Err e, r)
        | Inr (pid, start_time) \<Rightarrow>
            (let (t, r) = now E (emit (Ev_Spawn pid effective params) r)
             in (Ok \<lparr>ch_pid = pid, ch_start_time = start_time, ch_identity_verified = False, ch_params = params,
                   ch_effective = effective, ch_spawned_at = t, ch_sockets_verified = 0\<rparr>, r)))"

text \<open>\<open>terminate\<close> with no grace; an error means the exit was not confirmed.\<close>

definition reap_child :: "rx_env \<Rightarrow> engine_child \<Rightarrow> reactor \<Rightarrow> (io_error + string) \<times> reactor" where
  "reap_child E child r =
    (let (ended, r) = ask (\<lambda>log. en_terminate E log (ch_pid child)) C_terminate r
     in (ended, emit (Ev_Reap (ch_pid child) (case ended of Inl _ \<Rightarrow> False | Inr _ \<Rightarrow> True)) r))"

definition exit_text :: "rx_env \<Rightarrow> io_error + string \<Rightarrow> string" where
  "exit_text E ended = (case ended of Inr exit \<Rightarrow> exit | Inl e \<Rightarrow> ''reap-error:'' @ en_io_text E e)"

definition output_head :: "rx_env \<Rightarrow> reactor \<Rightarrow> string \<times> reactor" where
  "output_head E r = (let (reads, r) = ask (en_reads E) C_read_output r in (drain_output_head reads, r))"

definition publish_inactive :: "rx_env \<Rightarrow> reactor \<Rightarrow> (dp_error + unit) \<times> reactor" where
  "publish_inactive E r =
    (let (done, r) = ask (en_freeze E) C_publish_inactive r
     in (done, emit (Ev_Freeze (done = Ok ())) r))"

definition publish_active :: "rx_env \<Rightarrow> reactor \<Rightarrow> (dp_error + unit) \<times> reactor" where
  "publish_active E r =
    (let (done, r) = ask (en_activate E) C_publish_active r
     in (done, emit (Ev_Activate (rx_engine r) (done = Ok ())) r))"

definition cancel_attachment :: "rx_env \<Rightarrow> reactor \<Rightarrow> (dp_error + unit) \<times> reactor" where
  "cancel_attachment E = ask (en_cancel_attachment E) C_cancel_attachment"

definition dp_text :: "dp_error \<Rightarrow> string" where
  "dp_text e = fst e @ '' ('' @ snd e @ '')''"

section \<open>Stopping and ending\<close>

definition drop_diag_probe :: "reactor \<Rightarrow> reactor" where
  "drop_diag_probe r =
    (case rx_diag_probe r of
       None \<Rightarrow> r
     | Some _ \<Rightarrow> emit (Ev_Call C_epoll_del) (r\<lparr>rx_diag_probe := None\<rparr>))"

definition begin_stop :: "rx_env \<Rightarrow> engine_child \<Rightarrow> stop_next \<Rightarrow> reactor \<Rightarrow> reactor" where
  "begin_stop E child nxt r =
    (let (_, r) = watch E (drop_diag_probe r);
         (t, r) = now E (emit (Ev_Signal (ch_pid child) SIGTERM) r)
     in arm_engine_timer TERMINATE_GRACE (r\<lparr>rx_transaction := Some (Stopping child nxt (t + TERMINATE_GRACE) False)\<rparr>))"

fun cleanup_cancelled_wait_role :: "wait_role \<Rightarrow> reactor \<Rightarrow> reactor" where
  "cleanup_cancelled_wait_role (Candidate sp) r =
    (case pl_old sp of Some old \<Rightarrow> remove_file (og_effective old) r | None \<Rightarrow> r)"
| "cleanup_cancelled_wait_role (Recovery _) r = r"

fun cleanup_cancelled_stop_next :: "stop_next \<Rightarrow> reactor \<Rightarrow> reactor" where
  "cleanup_cancelled_stop_next (StartCandidate sp) r = remove_file (pl_candidate sp) r"
| "cleanup_cancelled_stop_next (Recover sp _) r =
    (case pl_old sp of Some old \<Rightarrow> remove_file (og_effective old) r | None \<Rightarrow> r)"
| "cleanup_cancelled_stop_next (FinishRecoveryFailure _ _) r = r"
| "cleanup_cancelled_stop_next Stop_Cancelled r = r"

definition run_queued_convergence :: "rx_env \<Rightarrow> converger \<Rightarrow> reactor \<Rightarrow> reactor option" where
  "run_queued_convergence E conv r =
    (if rx_shutdown_requested r then Some r
     else
       (let (off, r) = disabled E r
        in if \<not> off \<and> (rx_reload_requested r \<or> rx_policy_changed r \<or> rx_engine_config_changed r \<or> rx_topology_changed r)
           then conv ''queued change'' r else Some r))"

definition complete_when_idle :: "reactor \<Rightarrow> reactor" where
  "complete_when_idle r = (if transaction_busy r then r else complete_convergence_controls r)"

definition finish_cancelled :: "rx_env \<Rightarrow> converger \<Rightarrow> reactor \<Rightarrow> reactor option" where
  "finish_cancelled E conv r =
    (let r = disarm_engine_timer ((drop_diag_probe r)\<lparr>rx_transaction := None\<rparr>)
     in case rx_engine r of
          Some child \<Rightarrow> Some (begin_stop E child Stop_Cancelled (r\<lparr>rx_engine := None\<rparr>))
        | None \<Rightarrow>
            (let (off, r) = disabled E (r\<lparr>rx_cancel_requested := False\<rparr>)
             in if off then Some (complete_convergence_controls (clear_error r))
                else if rx_shutdown_requested r then Some r
                else do { r \<leftarrow> conv ''post-cancel enable'' r; Some (complete_when_idle r) }))"

definition backoff_step :: "reactor \<Rightarrow> nat" where
  "backoff_step r = BACKOFF_STEPS ! min (unat (rx_crash_count r)) (length BACKOFF_STEPS - 1)"

definition back_off :: "rx_env \<Rightarrow> reactor \<Rightarrow> reactor" where
  "back_off E r = schedule_backoff E (backoff_step r) (r\<lparr>rx_crash_count := rx_crash_count r + 1\<rparr>)"

definition with_recovery :: "engine_error option \<Rightarrow> string option \<Rightarrow> string option" where
  "with_recovery recovery detail =
    (case recovery of
       None \<Rightarrow> detail
     | Some e \<Rightarrow>
         (let note = ''recovery also failed: '' @ error_token e
          in Some (case detail of Some d \<Rightarrow> d @ ''; '' @ note | None \<Rightarrow> note)))"

definition finish_transaction_error :: "rx_env \<Rightarrow> converger \<Rightarrow> engine_error \<Rightarrow> engine_error option \<Rightarrow> reactor \<Rightarrow> reactor option" where
  "finish_transaction_error E conv error recovery_error r =
    (let r = (if pending_generation (rx_coord r) \<noteq> None then on_coord (\<lambda>c. c\<lparr>co_pending := None\<rparr>) r else r);
         r = disarm_engine_timer (r\<lparr>rx_transaction := None\<rparr>);
         r = set_error (error_token error, with_recovery recovery_error (error_detail (en_io_text E) error)) r;
         (off, r) = (if rx_engine r = None then disabled E r else (False, r));
         r = (if rx_engine r = None \<and> \<not> off \<and> \<not> rx_shutdown_requested r \<and> is_retryable error then back_off E r else r)
     in do { r \<leftarrow> run_queued_convergence E conv (resume_queued_subscription_work E r); Some (complete_when_idle r) })"

section \<open>Starting a child\<close>

definition wait_for_child :: "rx_env \<Rightarrow> engine_child \<Rightarrow> wait_role \<Rightarrow> reactor \<Rightarrow> reactor" where
  "wait_for_child E child role r =
    (let (t, r) = now E r
     in arm_engine_timer 10 (r\<lparr>rx_transaction := Some (Waiting child role (t + READY_DEADLINE) 10)\<rparr>))"

definition begin_candidate_failure :: "rx_env \<Rightarrow> converger \<Rightarrow> switch_plan \<Rightarrow> engine_error \<Rightarrow> reactor \<Rightarrow> reactor option" where
  "begin_candidate_failure E conv sp error r =
    (let r = remove_file (pl_candidate sp) (on_coord (discard_generation (pl_generation sp)) r)
     in if rx_cancel_requested r then
          finish_cancelled E conv (case pl_old sp of Some old \<Rightarrow> remove_file (og_effective old) r | None \<Rightarrow> r)
        else
          (case pl_old sp of
             None \<Rightarrow> finish_transaction_error E conv error None r
           | Some old \<Rightarrow>
               (case spawn E (og_effective old) (og_params old) r of
                  (Inl recovery_error, r) \<Rightarrow> finish_transaction_error E conv error (Some recovery_error) r
                | (Inr child, r) \<Rightarrow>
                    (case watch E r of
                       (Inr _, r) \<Rightarrow> Some (wait_for_child E child (Recovery error) r)
                     | (Inl e, r) \<Rightarrow> Some (begin_stop E child (FinishRecoveryFailure error (Engine_Io e)) r)))))"

definition start_candidate :: "rx_env \<Rightarrow> converger \<Rightarrow> switch_plan \<Rightarrow> reactor \<Rightarrow> reactor option" where
  "start_candidate E conv sp r =
    (case spawn E (pl_candidate sp) (pl_params sp) r of
       (Inl error, r) \<Rightarrow> begin_candidate_failure E conv sp error r
     | (Inr child, r) \<Rightarrow>
         (case watch E r of
            (Inr _, r) \<Rightarrow> Some (wait_for_child E child (Candidate sp) r)
          | (Inl e, r) \<Rightarrow> Some (begin_stop E child (Recover sp (Engine_Io e)) r)))"

section \<open>Checking\<close>

definition retain_current :: "reactor \<Rightarrow> u64 \<Rightarrow> coordinator \<Rightarrow> coordinator" where
  "retain_current r generation c =
    (case (co_pending c, rx_current_policy r) of
       (Some p, Some policy) \<Rightarrow>
         c\<lparr>co_pending := Some (p\<lparr>pb_raw := filter (\<lambda>(source, _). source \<in> set (remote_sources (cfg_nodes (pc_flux policy)))) (pb_raw p),
           pb_generation := Some generation\<rparr>)\<rparr>
     | _ \<Rightarrow> c)"

definition start_generation_check :: "rx_env \<Rightarrow> converger \<Rightarrow> json \<Rightarrow> u64 \<Rightarrow> reactor \<Rightarrow> reactor option" where
  "start_generation_check E conv user generation r =
    (let r = on_coord (retain_current r generation) r;
         (ports, r) = ask (en_ports E) C_draw_ports r
     in case ports of
          Inl e \<Rightarrow> finish_transaction_error E conv (Engine_Io e) None r
        | Inr (port_v4, port_v6) \<Rightarrow>
            (let params = \<lparr>ep_generation = generation, ep_port_v4 = port_v4, ep_port_v6 = port_v6\<rparr>
             in case build_effective user params of
                  Inl e \<Rightarrow> finish_transaction_error E conv (ConfigInvalid e) None r
                | Inr effective \<Rightarrow>
                    (case ask (\<lambda>log. en_write_effective E log effective generation) C_write_effective r of
                       (Inl e, r) \<Rightarrow> finish_transaction_error E conv e None r
                     | (Inr path, r) \<Rightarrow>
                         (case ask (\<lambda>log. en_spawn_check E log path) C_spawn_check r of
                            (Inl e, r) \<Rightarrow> finish_transaction_error E conv e None (remove_file path r)
                          | (Inr _, r) \<Rightarrow>
                              (let (watched, r) = watch E (emit (Ev_Check_Spawn path) r);
                                   (disposition, r) =
                                     (case watched of
                                        Inr _ \<Rightarrow> (Check_Normal, r)
                                      | Inl e \<Rightarrow> (Check_SupervisionFailed,
                                          emit Ev_Check_Kill (set_error (''engine_io_error'', Some (''cannot watch engine check: '' @ en_io_text E e)) r)));
                                   (t, r) = now E r;
                                   sp = \<lparr>pl_generation = generation, pl_params = params, pl_candidate = path,
                                     pl_user = user, pl_old = None\<rparr>
                               in Some (arm_engine_timer (if disposition = Check_Normal then CHECK_DEADLINE else 10)
                                    (r\<lparr>rx_transaction := Some (Checking \<lparr>ck_captured = []\<rparr> sp (t + CHECK_DEADLINE) disposition)\<rparr>)))))))"

definition complete_check ::
    "rx_env \<Rightarrow> converger \<Rightarrow> engine_check \<Rightarrow> switch_plan \<Rightarrow> check_disposition \<Rightarrow> engine_error + unit \<Rightarrow> reactor \<Rightarrow> reactor option" where
  "complete_check E conv check sp disposition result r =
    (let r = disarm_engine_timer r
     in case disposition of
          Check_Cancelled \<Rightarrow> finish_cancelled E conv (remove_file (pl_candidate sp) r)
        | Check_TimedOut \<Rightarrow>
            (let (reads, r) = ask (en_reads E) C_read_output r
             in finish_transaction_error E conv (timeout_error reads check) None (remove_file (pl_candidate sp) r))
        | Check_SupervisionFailed \<Rightarrow>
            (let detail = (case rx_last_error_detail r of Some d \<Rightarrow> d | None \<Rightarrow> ''engine check supervision failed'')
             in finish_transaction_error E conv (Engine_Io (Io_Other detail)) None
                  (remove_file (pl_candidate sp) (r\<lparr>rx_last_error_detail := None\<rparr>)))
        | Check_Normal \<Rightarrow>
            (case result of
               Inl error \<Rightarrow> finish_transaction_error E conv error None (remove_file (pl_candidate sp) r)
             | Inr _ \<Rightarrow>
                 if rx_cancel_requested r then finish_cancelled E conv (remove_file (pl_candidate sp) r)
                 else
                   (case rx_engine r of
                      None \<Rightarrow> start_candidate E conv sp r
                    | Some child \<Rightarrow>
                        (case publish_inactive E (r\<lparr>rx_engine := None\<rparr>) of
                           (Inl error, r) \<Rightarrow>
                             finish_transaction_error E conv (Engine_Io (Io_Other (dp_text error))) None
                               ((remove_file (pl_candidate sp) r)\<lparr>rx_engine := Some child\<rparr>)
                         | (Inr _, r) \<Rightarrow>
                             Some (begin_stop E child (StartCandidate
                               (sp\<lparr>pl_old := Some \<lparr>og_params = ch_params child, og_effective = ch_effective child\<rparr>\<rparr>)) r)))))"

text \<open>\<open>EngineCheck::finish\<close> with what the kernel answers.\<close>

definition finish_check :: "rx_env \<Rightarrow> engine_check \<Rightarrow> reactor \<Rightarrow> ((engine_error + (engine_error + unit) option) \<times> engine_check) \<times> reactor" where
  "finish_check E check r =
    (let (early, r) = ask (en_reads E) C_read_output r;
         (waited, r) = ask (en_try_wait E) C_try_wait r;
         (late, r) = ask (en_reads E) C_read_output r
     in (check_finish early waited late check, r))"

text \<open>The check can no longer be supervised: it is killed and polled.\<close>

definition supervision_failed :: "rx_env \<Rightarrow> engine_check \<Rightarrow> switch_plan \<Rightarrow> engine_error \<Rightarrow> reactor \<Rightarrow> reactor" where
  "supervision_failed E check sp e r =
    (let (t, r) = now E (emit Ev_Check_Kill (set_error (error_token e, error_detail (en_io_text E) e) r))
     in arm_engine_timer 10 (r\<lparr>rx_transaction := Some (Checking check sp (t + 2000) Check_SupervisionFailed)\<rparr>))"

definition handle_check_exit :: "rx_env \<Rightarrow> converger \<Rightarrow> reactor \<Rightarrow> reactor option" where
  "handle_check_exit E conv r =
    (case rx_transaction r of
       Some (Checking check sp deadline disposition) \<Rightarrow>
         (case finish_check E check (r\<lparr>rx_transaction := None\<rparr>) of
            ((Inr (Some result), check), r) \<Rightarrow> complete_check E conv check sp disposition result r
          | ((Inr None, check), r) \<Rightarrow> Some (r\<lparr>rx_transaction := Some (Checking check sp deadline disposition)\<rparr>)
          | ((Inl e, check), r) \<Rightarrow> Some (supervision_failed E check sp e r))
     | _ \<Rightarrow> Some r)"

definition drain_check_output :: "rx_env \<Rightarrow> reactor \<Rightarrow> reactor" where
  "drain_check_output E r =
    (case rx_transaction r of
       Some (Checking check sp deadline disposition) \<Rightarrow>
         (let (reads, r) = ask (en_reads E) C_read_output r
          in r\<lparr>rx_transaction := Some (Checking (drain_output reads check) sp deadline disposition)\<rparr>)
     | _ \<Rightarrow> r)"

section \<open>Activation\<close>

definition record_dataplane_error :: "rx_env \<Rightarrow> dp_error \<Rightarrow> reactor \<Rightarrow> reactor" where
  "record_dataplane_error E error r =
    (let (_, r) = cancel_attachment E (emit (Ev_Disarm T_tc_verify) r)
     in (set_error (fst error, Some (snd error)) r)\<lparr>rx_dataplane_error_active := True\<rparr>)"

text \<open>What stopping a child that served \<open>role\<close> leads to.\<close>

fun stop_next_of :: "wait_role \<Rightarrow> engine_error \<Rightarrow> stop_next" where
  "stop_next_of (Candidate sp) error = Recover sp error"
| "stop_next_of (Recovery candidate_error) error = FinishRecoveryFailure candidate_error error"

definition fail_phase6_activation :: "rx_env \<Rightarrow> converger \<Rightarrow> string \<Rightarrow> dp_error \<Rightarrow> reactor \<Rightarrow> reactor option" where
  "fail_phase6_activation E conv operation error r =
    (let engine_error = Engine_Io (Io_Other (operation @ '' failed: '' @ dp_text error));
         r = record_dataplane_error E error r
     in case rx_activation_role r of
          None \<Rightarrow> Some (snd (publish_inactive E r))
        | Some role \<Rightarrow>
            (let r = r\<lparr>rx_activation_role := None\<rparr>
             in case rx_engine r of
                  None \<Rightarrow> finish_transaction_error E conv engine_error None r
                | Some child \<Rightarrow> Some (begin_stop E child (stop_next_of role engine_error) (r\<lparr>rx_engine := None\<rparr>))))"

text \<open>The tail of \<open>finish_phase6_activation\<close> once capture is active for \<open>child\<close>.\<close>

definition commit_activation :: "rx_env \<Rightarrow> converger \<Rightarrow> engine_child \<Rightarrow> reactor \<Rightarrow> reactor option" where
  "commit_activation E conv child r =
    (let r = r\<lparr>rx_generations := gen_commit (rx_generations r) (ep_generation (ch_params child))\<rparr>;
         role = rx_activation_role r;
         r = r\<lparr>rx_activation_role := None\<rparr>;
         r = (case role of
                Some (Candidate sp) \<Rightarrow>
                  clear_error ((case pl_old sp of Some old \<Rightarrow> remove_file (og_effective old) r | None \<Rightarrow> r)
                    \<lparr>rx_current_engine_user := Some (pl_user sp)\<rparr>)
              | Some (Recovery candidate_error) \<Rightarrow>
                  set_error (error_token candidate_error, error_detail (en_io_text E) candidate_error) r
              | None \<Rightarrow> r);
         r = resume_queued_subscription_work E (r\<lparr>rx_cancel_requested := False\<rparr>)
     in do { r \<leftarrow> run_queued_convergence E conv r; Some (complete_when_idle r) })"

definition publish_activation :: "rx_env \<Rightarrow> converger \<Rightarrow> reactor \<Rightarrow> reactor option" where
  "publish_activation E conv r =
    (case publish_active E r of
       (Inl error, r) \<Rightarrow> fail_phase6_activation E conv ''active control publication'' error r
     | (Inr _, r) \<Rightarrow>
         (case rx_engine r of
            None \<Rightarrow> fail_phase6_activation E conv ''activation commit''
              (''engine_not_ready'', ''LOCAL_OUT became ready without a supervised engine child'') r
          | Some child \<Rightarrow> commit_activation E conv child r))"

definition finish_phase6_activation :: "rx_env \<Rightarrow> converger \<Rightarrow> reactor \<Rightarrow> reactor option" where
  "finish_phase6_activation E conv r =
    (case rx_activation_role r of
       Some (Candidate sp) \<Rightarrow>
         (case commit_pending_subscription E (Some (pl_generation sp)) r of
            (True, r) \<Rightarrow> publish_activation E conv r
          | (False, r) \<Rightarrow>
              (let error = Engine_Io (Io_Other ''subscription cache could not be committed'');
                   r = r\<lparr>rx_activation_role := None\<rparr>
               in case rx_engine r of
                    None \<Rightarrow> finish_transaction_error E conv error None r
                  | Some child \<Rightarrow> Some (begin_stop E child (Recover sp error) (r\<lparr>rx_engine := None\<rparr>))))
     | _ \<Rightarrow> publish_activation E conv r)"

definition dp_active :: "rx_env \<Rightarrow> reactor \<Rightarrow> bool" where
  "dp_active E r = en_dp_active E (rx_log r)"

definition attach :: "rx_env \<Rightarrow> converger \<Rightarrow> bool \<Rightarrow> reactor \<Rightarrow> reactor option" where
  "attach E conv activating r =
    (case ask (en_attach E) C_begin_attachment r of
       (Inr (Some delay), r) \<Rightarrow> Some (emit (Ev_Arm T_tc_verify delay) r)
     | (Inr None, r) \<Rightarrow>
         (let r = emit (Ev_Disarm T_tc_verify) r
          in if \<not> en_attachment_ready E (rx_log r) then Some r
             else if activating \<or> \<not> dp_active E r then finish_phase6_activation E conv r
             else Some r)
     | (Inl error, r) \<Rightarrow>
         if activating \<or> \<not> dp_active E r then fail_phase6_activation E conv ''TC attachment'' error r
         else Some (record_dataplane_error E error r))"

definition start_phase6_attachment :: "rx_env \<Rightarrow> converger \<Rightarrow> engine_params \<Rightarrow> reactor \<Rightarrow> reactor option" where
  "start_phase6_attachment E conv params r =
    (if rx_activation_role r \<noteq> None \<or> \<not> dp_active E r then
       (case ask (\<lambda>log. en_prepare E log params) C_prepare_generation r of
          (Inl error, r) \<Rightarrow> fail_phase6_activation E conv ''inactive control publication'' error r
        | (Inr _, r) \<Rightarrow>
            (case ask (en_clear_latch E) C_clear_fault_latch r of
               (Inl error, r) \<Rightarrow> fail_phase6_activation E conv ''fault-latch reset'' error r
             | (Inr _, r) \<Rightarrow> attach E conv True r))
     else attach E conv False r)"

definition promote_ready_child :: "rx_env \<Rightarrow> converger \<Rightarrow> engine_child \<Rightarrow> wait_role \<Rightarrow> reactor \<Rightarrow> reactor option" where
  "promote_ready_child E conv child role r =
    (case watch E (drop_diag_probe r) of
       (Inl e, r) \<Rightarrow> Some (begin_stop E child (stop_next_of role (Engine_Io e)) r)
     | (Inr _, r) \<Rightarrow>
         start_phase6_attachment E conv (ch_params child)
           ((disarm_engine_timer r)\<lparr>rx_engine := Some child, rx_activation_role := Some role, rx_cancel_requested := False\<rparr>))"

section \<open>Waiting\<close>

definition park_waiting :: "rx_env \<Rightarrow> engine_child \<Rightarrow> wait_role \<Rightarrow> nat \<Rightarrow> nat \<Rightarrow> reactor \<Rightarrow> reactor" where
  "park_waiting E child role deadline backoff r =
    (let (t, r) = now E r
     in arm_engine_timer (max (deadline - t) 1) (r\<lparr>rx_transaction := Some (Waiting child role deadline backoff)\<rparr>))"

definition rearm_waiting :: "rx_env \<Rightarrow> engine_child \<Rightarrow> wait_role \<Rightarrow> nat \<Rightarrow> nat \<Rightarrow> reactor \<Rightarrow> reactor" where
  "rearm_waiting E child role deadline backoff r =
    (let (t, r) = now E r
     in arm_engine_timer (min backoff (deadline - t))
          (r\<lparr>rx_transaction := Some (Waiting child role deadline (min (backoff * 2) 250))\<rparr>))"

definition fail_waiting :: "rx_env \<Rightarrow> engine_child \<Rightarrow> wait_role \<Rightarrow> engine_error \<Rightarrow> reactor \<Rightarrow> reactor" where
  "fail_waiting E child role error = begin_stop E child (stop_next_of role error)"

text \<open>What follows the exit of a child that served \<open>role\<close>.\<close>

definition role_failed :: "rx_env \<Rightarrow> converger \<Rightarrow> wait_role \<Rightarrow> engine_error \<Rightarrow> reactor \<Rightarrow> reactor option" where
  "role_failed E conv role error r =
    (case role of
       Candidate sp \<Rightarrow> begin_candidate_failure E conv sp error r
     | Recovery candidate_error \<Rightarrow> finish_transaction_error E conv candidate_error (Some error) r)"

definition finish_waiting_exit :: "rx_env \<Rightarrow> converger \<Rightarrow> engine_child \<Rightarrow> wait_role \<Rightarrow> reactor \<Rightarrow> reactor option" where
  "finish_waiting_exit E conv child role r =
    (let (head, r) = output_head E (drop_diag_probe r);
         (ended, r) = reap_child E child r
     in role_failed E conv role (engine_error.Exited (exit_text E ended) head) r)"

definition check_identity :: "rx_env \<Rightarrow> engine_child \<Rightarrow> reactor \<Rightarrow> ((io_error + bool) \<times> engine_child) \<times> reactor" where
  "check_identity E child =
    ask (\<lambda>log. verify_process_identity (en_stat E log (ch_pid child)) (en_exe E log (ch_pid child))
      (en_canonical E log (sp_binary (en_spec E))) child) C_verify_identity"

definition start_probe :: "rx_env \<Rightarrow> engine_child \<Rightarrow> wait_role \<Rightarrow> nat \<Rightarrow> nat \<Rightarrow> reactor \<Rightarrow> reactor option" where
  "start_probe E child role deadline backoff r =
    (case ask (\<lambda>log. probe_start (en_send E log) (expectations (en_spec E) (ch_params child))) C_start_probe r of
       ((_, Panicked), _) \<Rightarrow> None
     | ((_, Failed error), r) \<Rightarrow> Some (fail_waiting E child role (Engine_Io error) r)
     | ((probe, Done _), r) \<Rightarrow>
         (case watch E r of
            (Inl error, r) \<Rightarrow> Some (fail_waiting E child role (Engine_Io error) r)
          | (Inr _, r) \<Rightarrow> Some (park_waiting E child role deadline backoff (r\<lparr>rx_diag_probe := Some probe\<rparr>))))"

text \<open>The three reasons to leave a wait, tested in this order by both handlers; \<open>alive\<close> goes on otherwise.\<close>

definition still_waiting ::
    "rx_env \<Rightarrow> converger \<Rightarrow> engine_child \<Rightarrow> wait_role \<Rightarrow> nat \<Rightarrow> reactor \<Rightarrow> (reactor \<Rightarrow> reactor option) \<Rightarrow> (reactor \<Rightarrow> reactor) \<Rightarrow> reactor option" where
  "still_waiting E conv child role deadline r alive leave =
    (if rx_cancel_requested r then Some (begin_stop E child Stop_Cancelled (cleanup_cancelled_wait_role role (leave r)))
     else
       (let (gone, r) = has_exited E child r
        in if gone then finish_waiting_exit E conv child role (leave r)
           else
             (let (t, r) = now E r
              in if deadline \<le> t then Some (fail_waiting E child role (NotReady (ch_sockets_verified child)) (leave r))
                 else alive r)))"

definition advance_waiting :: "rx_env \<Rightarrow> converger \<Rightarrow> engine_child \<Rightarrow> wait_role \<Rightarrow> nat \<Rightarrow> nat \<Rightarrow> reactor \<Rightarrow> reactor option" where
  "advance_waiting E conv child role deadline backoff r =
    still_waiting E conv child role deadline r
      (\<lambda>r. case check_identity E child r of
         ((Inl error, child), r) \<Rightarrow> Some (fail_waiting E child role (Engine_Io error) r)
       | ((Inr False, child), r) \<Rightarrow> Some (rearm_waiting E child role deadline backoff (drop_diag_probe r))
       | ((Inr True, child), r) \<Rightarrow>
           if rx_diag_probe r \<noteq> None then Some (park_waiting E child role deadline backoff r)
           else start_probe E child role deadline backoff r)
      (\<lambda>r. r)"

definition judge_inodes ::
    "rx_env \<Rightarrow> converger \<Rightarrow> engine_child \<Rightarrow> wait_role \<Rightarrow> nat \<Rightarrow> nat \<Rightarrow> u32 option list \<Rightarrow> reactor \<Rightarrow> reactor option" where
  "judge_inodes E conv child role deadline backoff inodes r =
    (case ask (\<lambda>log. verify_listener_inodes (en_owns E log (ch_pid child)) child inodes) C_verify_inodes r of
       ((Inr Readiness_Ready, child), r) \<Rightarrow> promote_ready_child E conv child role r
     | ((Inr (Readiness_Pending _), child), r) \<Rightarrow> Some (rearm_waiting E child role deadline backoff r)
     | ((Inl error, child), r) \<Rightarrow> Some (fail_waiting E child role error r))"

text \<open>The probe is taken out first; detaching it is \<open>epoll_del\<close>. A transaction that is not waiting would be dropped.\<close>

definition detach :: "reactor \<Rightarrow> reactor" where
  "detach = emit (Ev_Call C_epoll_del)"

definition handle_sock_diag :: "rx_env \<Rightarrow> converger \<Rightarrow> reactor \<Rightarrow> reactor option" where
  "handle_sock_diag E conv r =
    (case rx_diag_probe r of
       None \<Rightarrow> Some r
     | Some probe \<Rightarrow>
         (let r' = r\<lparr>rx_diag_probe := None, rx_transaction := None\<rparr>
          in case rx_transaction r of
               Some (Waiting child role deadline backoff) \<Rightarrow>
                 still_waiting E conv child role deadline r'
                   (\<lambda>r. case ask (\<lambda>log. on_readable (en_recv E log) (en_send E log) probe) C_read_probe r of
                      ((_, Panicked), _) \<Rightarrow> None
                    | ((probe, Done Wait), r) \<Rightarrow> Some (park_waiting E child role deadline backoff (r\<lparr>rx_diag_probe := Some probe\<rparr>))
                    | ((_, Done (Pending _ inodes)), r) \<Rightarrow> judge_inodes E conv child role deadline backoff inodes (detach r)
                    | ((_, Done (Ready inodes)), r) \<Rightarrow> judge_inodes E conv child role deadline backoff (map Some inodes) (detach r)
                    | ((_, Failed error), r) \<Rightarrow>
                        Some (if dump_retryable error then rearm_waiting E child role deadline backoff (detach r)
                              else fail_waiting E child role (Engine_Io error) (detach r)))
                   detach
             | _ \<Rightarrow> Some (detach r')))"

section \<open>Stopping\<close>

definition complete_stopped :: "rx_env \<Rightarrow> converger \<Rightarrow> engine_child \<Rightarrow> stop_next \<Rightarrow> reactor \<Rightarrow> reactor option" where
  "complete_stopped E conv child nxt r =
    (let (_, r) = output_head E (disarm_engine_timer r);
         (_, r) = reap_child E child r
     in case nxt of
          StartCandidate sp \<Rightarrow>
            if rx_cancel_requested r
            then finish_cancelled E conv (remove_file (pl_candidate sp) (remove_file (ch_effective child) r))
            else start_candidate E conv sp r
        | Recover sp candidate_error \<Rightarrow> begin_candidate_failure E conv sp candidate_error (remove_file (ch_effective child) r)
        | FinishRecoveryFailure candidate_error recovery_error \<Rightarrow>
            finish_transaction_error E conv candidate_error (Some recovery_error) (remove_file (ch_effective child) r)
        | Stop_Cancelled \<Rightarrow> finish_cancelled E conv (remove_file (ch_effective child) r))"

fun stop_generation :: "stop_next \<Rightarrow> u64 option" where
  "stop_generation (StartCandidate sp) = Some (pl_generation sp)"
| "stop_generation (Recover sp _) = Some (pl_generation sp)"
| "stop_generation _ = None"

definition stop_confirmation_failed :: "rx_env \<Rightarrow> engine_child \<Rightarrow> stop_next \<Rightarrow> reactor \<Rightarrow> reactor" where
  "stop_confirmation_failed E child nxt r =
    (let r = (case stop_generation nxt of Some g \<Rightarrow> on_coord (discard_generation g) r | None \<Rightarrow> r);
         r = emit (Ev_Survived (ch_pid child)) (cleanup_cancelled_stop_next nxt r);
         r = set_error (''engine_stop_failed'', Some ''engine survived SIGKILL confirmation window; no replacement was started'') r;
         (_, r) = watch E r;
         r = r\<lparr>rx_generations := gen_commit (rx_generations r) (ep_generation (ch_params child)),
           rx_engine := Some child, rx_transaction := None, rx_cancel_requested := False\<rparr>
     in schedule_backoff E 1 (complete_convergence_controls (resume_queued_subscription_work E (disarm_engine_timer r))))"

definition cancel_engine_work :: "rx_env \<Rightarrow> reactor \<Rightarrow> reactor" where
  "cancel_engine_work E r =
    (let r = drop_diag_probe r
     in case rx_transaction r of
          None \<Rightarrow>
            (let r = (case rx_activation_role r of
                        Some role \<Rightarrow> cleanup_cancelled_wait_role role (r\<lparr>rx_activation_role := None\<rparr>)
                      | None \<Rightarrow> r)
             in case rx_engine r of
                  Some child \<Rightarrow> begin_stop E child Stop_Cancelled (r\<lparr>rx_engine := None\<rparr>)
                | None \<Rightarrow> r\<lparr>rx_cancel_requested := False\<rparr>)
        | Some (Checking check sp deadline _) \<Rightarrow>
            arm_engine_timer 10 ((emit Ev_Check_Kill r)\<lparr>rx_transaction := Some (Checking check sp deadline Check_Cancelled)\<rparr>)
        | Some (Waiting child role _ _) \<Rightarrow>
            begin_stop E child Stop_Cancelled (cleanup_cancelled_wait_role role (r\<lparr>rx_transaction := None\<rparr>))
        | Some (Stopping child nxt _ _) \<Rightarrow>
            begin_stop E child Stop_Cancelled (cleanup_cancelled_stop_next nxt (r\<lparr>rx_transaction := None\<rparr>)))"

section \<open>Events of a transaction\<close>

definition timer_checking ::
    "rx_env \<Rightarrow> converger \<Rightarrow> engine_check \<Rightarrow> switch_plan \<Rightarrow> nat \<Rightarrow> check_disposition \<Rightarrow> reactor \<Rightarrow> reactor option" where
  "timer_checking E conv check sp deadline disposition r =
    (let (t, r) = (if disposition = Check_Normal then now E r else (0, r));
         (disposition, r) = (if disposition = Check_Normal \<and> deadline \<le> t then (Check_TimedOut, emit Ev_Check_Kill r) else (disposition, r))
     in case finish_check E check r of
          ((Inr (Some result), check), r) \<Rightarrow> complete_check E conv check sp disposition result r
        | ((Inr None, check), r) \<Rightarrow>
            (let (t, r) = now E r
             in Some (arm_engine_timer (if disposition = Check_Normal then deadline - t else 10)
                  (r\<lparr>rx_transaction := Some (Checking check sp deadline disposition)\<rparr>)))
        | ((Inl e, check), r) \<Rightarrow> Some (supervision_failed E check sp e r))"

definition timer_stopping :: "rx_env \<Rightarrow> converger \<Rightarrow> engine_child \<Rightarrow> stop_next \<Rightarrow> nat \<Rightarrow> bool \<Rightarrow> reactor \<Rightarrow> reactor option" where
  "timer_stopping E conv child nxt deadline kill_sent r =
    (let (gone, r) = has_exited E child r
     in if gone then complete_stopped E conv child nxt r
        else
          (let (t, r) = now E r
           in if t < deadline then
                Some (arm_engine_timer (deadline - t) (r\<lparr>rx_transaction := Some (Stopping child nxt deadline kill_sent)\<rparr>))
              else if \<not> kill_sent then
                (let (t, r) = now E (emit (Ev_Signal (ch_pid child) SIGKILL) r)
                 in Some (arm_engine_timer 2000 (r\<lparr>rx_transaction := Some (Stopping child nxt (t + 2000) True)\<rparr>)))
              else Some (stop_confirmation_failed E child nxt r)))"

text \<open>The timer has fired, so it is no longer armed.\<close>

definition handle_engine_timer :: "rx_env \<Rightarrow> converger \<Rightarrow> reactor \<Rightarrow> reactor option" where
  "handle_engine_timer E conv r =
    (let transaction = rx_transaction r;
         r = r\<lparr>rx_engine_timer := False, rx_transaction := None\<rparr>
     in case transaction of
          None \<Rightarrow> Some r
        | Some (Checking check sp deadline disposition) \<Rightarrow> timer_checking E conv check sp deadline disposition r
        | Some (Waiting child role deadline backoff) \<Rightarrow> advance_waiting E conv child role deadline backoff r
        | Some (Stopping child nxt deadline kill_sent) \<Rightarrow> timer_stopping E conv child nxt deadline kill_sent r)"

definition handle_transaction_pidfd :: "rx_env \<Rightarrow> converger \<Rightarrow> reactor \<Rightarrow> reactor option" where
  "handle_transaction_pidfd E conv r =
    (case rx_transaction r of
       Some (Waiting child role deadline backoff) \<Rightarrow> advance_waiting E conv child role deadline backoff (r\<lparr>rx_transaction := None\<rparr>)
     | Some (Stopping child nxt _ _) \<Rightarrow> complete_stopped E conv child nxt (r\<lparr>rx_transaction := None\<rparr>)
     | _ \<Rightarrow> Some r)"

end
