(* ===== verification/Reactor.thy ===== *)
theory Reactor
  imports Engine_Switch List_Mode Control_Wire "HOL-Library.AList"
begin

text \<open>
  The reactor of crates/fluxd/src/reactor.rs above the engine transaction: the SSID list, convergence,
  the planner's commands, every event handler and the dispatch of the event loop. Convergence may call
  itself through the transaction, so it carries a depth: \<open>rx_converge E n\<close> returns nothing when more than
  \<open>n\<close> nested calls are needed. Writing \<open>module.prop\<close>, the sockets of control clients and log lines are
  left out.
\<close>

section \<open>The SSID list\<close>

type_synonym ssid_policy = "list_mode \<times> string list"

definition DEBOUNCE :: nat where "DEBOUNCE = 1500"

definition mark_ssid_unreadable :: "reactor \<Rightarrow> reactor" where
  "mark_ssid_unreadable r = r\<lparr>rx_ssid_status := Some \<lparr>sw_connected = None, sw_paused = False, sw_matched_entry = None\<rparr>,
     rx_ssid_paused := False, rx_wifi_changed := False\<rparr>"

definition mark_ssid_setup_failed :: "ssid_policy \<Rightarrow> reactor \<Rightarrow> reactor" where
  "mark_ssid_setup_failed policy r = mark_ssid_unreadable (r\<lparr>rx_ssid_setup_failure := Some policy\<rparr>)"

definition close_ssid_transport :: "reactor \<Rightarrow> reactor" where
  "close_ssid_transport r = (if rx_ssid_transport r then emit (Ev_Call C_epoll_del) (r\<lparr>rx_ssid_transport := False\<rparr>) else r)"

text \<open>The dump, the drain that follows it and the verdict.\<close>

definition judge_ssid :: "rx_env \<Rightarrow> ssid_policy \<Rightarrow> reactor \<Rightarrow> bool \<times> reactor" where
  "judge_ssid E policy r =
    (if \<not> rx_ssid_transport r then (False, mark_ssid_unreadable r)
     else
       (case ask (en_ssid_dump E) C_dump_interfaces r of
          (Inl _, r) \<Rightarrow> (False, mark_ssid_unreadable r)
        | (Inr connected, r) \<Rightarrow>
            (let (drained, r) = ask (en_ssid_drain E) C_drain_nl80211 r;
                 follow_up = (drained \<noteq> Ok Drain_Quiet);
                 verdict = ssid_verdict (fst policy) (snd policy) connected;
                 r = r\<lparr>rx_ssid_status := Some \<lparr>sw_connected = Some (connected \<noteq> []), sw_paused = sv_paused verdict,
                       sw_matched_entry = sv_matched_entry verdict\<rparr>,
                     rx_ssid_paused := sv_paused verdict, rx_wifi_changed := follow_up\<rparr>
             in (sv_paused verdict, if follow_up then emit (Ev_Arm T_debounce DEBOUNCE) r else r))))"

definition evaluate_ssid :: "rx_env \<Rightarrow> ssid_policy option \<Rightarrow> bool \<Rightarrow> reactor \<Rightarrow> bool \<times> reactor" where
  "evaluate_ssid E policy retry_setup r =
    (if policy = None \<or> snd (the policy) = [] then
       (False, (close_ssid_transport r)\<lparr>rx_ssid_setup_failure := None, rx_ssid_status := None, rx_ssid_paused := False,
         rx_wifi_changed := False\<rparr>)
     else
       (let policy = the policy;
            retry = (retry_setup \<and> \<not> rx_ssid_transport r \<or> rx_ssid_setup_failure r \<noteq> None \<and> rx_ssid_setup_failure r \<noteq> Some policy);
            r = (if retry then r\<lparr>rx_ssid_setup_failure := None\<rparr> else r)
        in if \<not> rx_ssid_transport r \<and> rx_ssid_setup_failure r \<noteq> Some policy then
             (case ask (en_ssid_open E) C_open_nl80211 r of
                (Inl _, r) \<Rightarrow> (False, mark_ssid_setup_failed policy r)
              | (Inr False, r) \<Rightarrow> (False, mark_ssid_setup_failed policy r)
              | (Inr True, r) \<Rightarrow> judge_ssid E policy (r\<lparr>rx_ssid_transport := True, rx_ssid_setup_failure := None\<rparr>))
           else judge_ssid E policy r))"

section \<open>Convergence\<close>

definition deactivate_runtime :: "rx_env \<Rightarrow> reactor \<Rightarrow> reactor" where
  "deactivate_runtime E r =
    (let (_, r) = cancel_attachment E (emit (Ev_Disarm T_tc_verify) r);
         r = cancel_engine_work E ((emit (Ev_Call C_data_plane_converge_false) r)\<lparr>rx_cancel_requested := True\<rparr>)
     in cancel_backoff (r\<lparr>rx_reload_requested := True, rx_policy_changed := True, rx_engine_config_changed := True,
          rx_topology_changed := False\<rparr>))"

definition read_candidate_policy :: "rx_env \<Rightarrow> bool \<Rightarrow> reactor \<Rightarrow> policy_candidate option \<times> reactor" where
  "read_candidate_policy E want r =
    (if \<not> want then (None, r)
     else
       (case ask (en_read_policy E) C_read_policy r of
          (Inl e, r) \<Rightarrow> (None, set_policy_error e r)
        | (Inr cand, r) \<Rightarrow> (Some cand, r)))"

definition no_policy :: token_error where
  "no_policy = (''flux_config_invalid'', Some ''no valid policy exists for the engine candidateidate'')"

definition accept_user :: "reactor \<Rightarrow> reactor" where
  "accept_user r =
    (let r = (case rx_subscription_error r of
                Some (token, _) \<Rightarrow> if token = ''flux_config_invalid'' then clear_subscription_error r else r
              | None \<Rightarrow> r)
     in if rx_policy_error r = None \<and> rx_last_error r = Some ''flux_config_invalid'' then clear_error r else r)"

definition reject_user :: "token_error \<Rightarrow> reactor \<Rightarrow> reactor" where
  "reject_user e r =
    (if fst e = ''subscription_cache_missing'' then (if rx_subscription_error r = None then set_subscription_error e r else r)
     else if take 13 (fst e) = ''subscription_'' then set_subscription_error e r
     else set_error e r)"

definition read_candidate_user :: "rx_env \<Rightarrow> bool \<Rightarrow> flux_config option \<Rightarrow> reactor \<Rightarrow> json option \<times> reactor" where
  "read_candidate_user E want flux r =
    (if \<not> want then (None, r)
     else
       (case flux of
          None \<Rightarrow> (None, set_error no_policy r)
        | Some flux \<Rightarrow>
            (case ask (\<lambda>log. en_read_engine E log flux) C_read_engine (ensure_subscription_schedule E (cfg_nodes flux) r) of
               (Inr user, r) \<Rightarrow> (Some user, accept_user r)
             | (Inl e, r) \<Rightarrow> (None, reject_user e r))))"

text \<open>The policy must suit the engine that runs, the engine the policy that stays.\<close>

definition validate_policy :: "rx_env \<Rightarrow> policy_candidate option \<Rightarrow> json option \<Rightarrow> reactor \<Rightarrow> policy_candidate option \<times> reactor" where
  "validate_policy E cand user r =
    (case (cand, case rx_current_engine_user r of Some u \<Rightarrow> Some u | None \<Rightarrow> user) of
       (Some policy, Some u) \<Rightarrow>
         (case en_fakeip E (pc_flux policy) u of
            Inl e \<Rightarrow> (None, set_policy_error (''fakeip_bypass_overlap'', Some e) r)
          | Inr _ \<Rightarrow> (cand, r))
     | _ \<Rightarrow> (cand, r))"

definition flux_of :: "policy_candidate option \<Rightarrow> reactor \<Rightarrow> flux_config option" where
  "flux_of cand r =
    (case cand of Some policy \<Rightarrow> Some (pc_flux policy) | None \<Rightarrow> map_option pc_flux (rx_current_policy r))"

definition validate_user :: "rx_env \<Rightarrow> policy_candidate option \<Rightarrow> json option \<Rightarrow> reactor \<Rightarrow> json option \<times> reactor" where
  "validate_user E cand user r =
    (case user of
       None \<Rightarrow> (None, r)
     | Some u \<Rightarrow>
         (case flux_of cand r of
            None \<Rightarrow> (None, set_error no_policy r)
          | Some flux \<Rightarrow>
              (case en_fakeip E flux u of
                 Inl e \<Rightarrow> (None, set_error (''fakeip_bypass_overlap'', Some e) r)
               | Inr _ \<Rightarrow> (user, r))))"

text \<open>What one convergence has decided before it touches the data plane.\<close>

record round =
  rd_refresh :: bool
  rd_busy :: bool
  rd_need_start :: bool
  rd_want_engine :: bool
  rd_policy :: "policy_candidate option"
  rd_url_changed :: bool
  rd_user :: "json option"

definition policy_refused :: "rx_env \<Rightarrow> dp_error \<Rightarrow> reactor \<Rightarrow> reactor" where
  "policy_refused E error r =
    record_dataplane_error E error (queue_policy_retry (set_policy_error (fst error, Some (snd error)) r))"

definition install_policy :: "rx_env \<Rightarrow> round \<Rightarrow> reactor \<Rightarrow> json option \<times> reactor" where
  "install_policy E rd r =
    (case rd_policy rd of
       Some policy \<Rightarrow>
         (case ask (\<lambda>log. en_apply_policy E log (pc_desired policy)) C_apply_policy r of
            (Inr _, r) \<Rightarrow>
              (rd_user rd, configure_subscription E (rd_url_changed rd)
                (clear_policy_error (r\<lparr>rx_current_policy := Some policy, rx_policy_retry_available := True\<rparr>)))
          | (Inl error, r) \<Rightarrow>
              (let r = policy_refused E error r in (if rx_current_policy r = None then None else rd_user rd, r)))
     | None \<Rightarrow>
         (case (rd_refresh rd, rx_current_policy r) of
            (True, Some policy) \<Rightarrow>
              (case ask (\<lambda>log. en_apply_policy E log (pc_desired policy)) C_apply_policy r of
                 (Inr _, r) \<Rightarrow> (rd_user rd, r)
               | (Inl error, r) \<Rightarrow> (rd_user rd, policy_refused E error r))
          | _ \<Rightarrow> (rd_user rd, r)))"

definition generated_bytes_equal :: "rx_env \<Rightarrow> json \<Rightarrow> json \<Rightarrow> bool" where
  "generated_bytes_equal E left right =
    (case (en_to_vec E left, en_to_vec E right) of (Some a, Some b) \<Rightarrow> a = b | _ \<Rightarrow> False)"

text \<open>The running engine is kept: accept the refreshed sources, then maintain the attachment.\<close>

definition keep_engine :: "rx_env \<Rightarrow> converger \<Rightarrow> json option \<Rightarrow> reactor \<Rightarrow> reactor option" where
  "keep_engine E conv user r =
    (let r = (case user of
                Some _ \<Rightarrow>
                  (let (committed, r) = commit_pending_subscription E None r
                   in if committed \<and> rx_policy_error r = None \<and> rx_subscription_error r = None \<and> \<not> rx_dataplane_error_active r
                      then clear_error r else r)
              | None \<Rightarrow> on_coord (\<lambda>c. c\<lparr>co_pending := None\<rparr>) r)
     in case rx_engine r of Some child \<Rightarrow> start_phase6_attachment E conv (ch_params child) r | None \<Rightarrow> Some r)"

definition converge_engine :: "rx_env \<Rightarrow> converger \<Rightarrow> round \<Rightarrow> json option \<Rightarrow> reactor \<Rightarrow> reactor option" where
  "converge_engine E conv rd user r =
    (if rx_activation_role r \<noteq> None then
       (case rx_engine r of Some child \<Rightarrow> start_phase6_attachment E conv (ch_params child) r | None \<Rightarrow> Some r)
     else if rd_busy rd then Some r
     else
       (let r = r\<lparr>rx_reload_requested := False, rx_engine_config_changed := False\<rparr>;
            need_switch = (rx_engine r \<noteq> None \<and>
              (case user of
                 None \<Rightarrow> False
               | Some u \<Rightarrow> (case rx_current_engine_user r of None \<Rightarrow> True | Some current \<Rightarrow> \<not> generated_bytes_equal E current u)))
        in if \<not> rd_need_start rd \<and> \<not> need_switch then keep_engine E conv user r
           else
             (case user of
                None \<Rightarrow> Some r
              | Some u \<Rightarrow>
                  (case allocate (rx_generations r) of
                     None \<Rightarrow> None
                   | Some (g, generation) \<Rightarrow>
                       start_generation_check E conv u generation (cancel_backoff (r\<lparr>rx_generations := g\<rparr>))))))"

definition dataplane_blocked :: "rx_env \<Rightarrow> dp_error \<Rightarrow> reactor \<Rightarrow> reactor" where
  "dataplane_blocked E error r =
    (let (_, r) = cancel_attachment E (emit (Ev_Disarm T_tc_verify) r);
         r = (set_error (fst error, Some (snd error)) r)\<lparr>rx_dataplane_error_active := True\<rparr>
     in if rx_engine r \<noteq> None \<or> rx_transaction r \<noteq> None then cancel_engine_work E (r\<lparr>rx_cancel_requested := True\<rparr>) else r)"

definition converge_installed :: "rx_env \<Rightarrow> converger \<Rightarrow> round \<Rightarrow> reactor \<Rightarrow> reactor option" where
  "converge_installed E conv rd r =
    (let r = (if rx_dataplane_error_active r then (clear_error r)\<lparr>rx_dataplane_error_active := False\<rparr> else r);
         r = (if rd_want_engine rd \<and> rd_user rd = None \<and> (case co_pending (rx_coord r) of Some p \<Rightarrow> pb_generation p = None | None \<Rightarrow> False)
              then on_coord (\<lambda>c. c\<lparr>co_pending := None\<rparr>) r else r);
         (user, r) = install_policy E rd r;
         r = (if co_schedule (rx_coord r) = None \<and> rx_current_policy r \<noteq> None then configure_subscription E False r else r)
     in converge_engine E conv rd user (r\<lparr>rx_topology_changed := False\<rparr>))"

definition converge_dataplane :: "rx_env \<Rightarrow> converger \<Rightarrow> round \<Rightarrow> reactor \<Rightarrow> reactor option" where
  "converge_dataplane E conv rd r =
    (case cancel_attachment E (emit (Ev_Disarm T_tc_verify) r) of
       (Inl error, r) \<Rightarrow> Some (record_dataplane_error E error r)
     | (Inr _, r) \<Rightarrow>
         (let r = (if rd_policy rd \<noteq> None then emit (Ev_Call C_stage_interface_policy) r else r);
              (blocked, r) = ask (en_dp_error E) C_data_plane_converge_with_bpf r
          in case blocked of
               Some error \<Rightarrow> Some (dataplane_blocked E error r)
             | None \<Rightarrow>
                 (case ask (en_register_ring E) C_register_ring r of
                    (Inl e, r) \<Rightarrow> Some (set_error (''ringbuf_epoll_register_failed'', Some (en_io_text E e)) r)
                  | (Inr _, r) \<Rightarrow> converge_installed E conv rd r)))"

definition converge_inputs :: "rx_env \<Rightarrow> converger \<Rightarrow> reactor \<Rightarrow> reactor option" where
  "converge_inputs E conv r =
    (let refresh = rx_topology_changed r;
         busy = transaction_busy r;
         need_start = (\<not> busy \<and> rx_engine r = None);
         want_engine = (\<not> busy \<and> (need_start \<or> rx_reload_requested r \<or> rx_engine_config_changed r));
         want_policy = (rx_current_policy r = None \<or> rx_reload_requested r \<or> rx_policy_changed r \<or> rx_topology_changed r);
         retry_ssid_setup = rx_policy_changed r;
         ssid_only_change = (rx_wifi_changed r \<and> \<not> rx_reload_requested r \<and> \<not> rx_policy_changed r \<and>
           \<not> rx_engine_config_changed r \<and> \<not> rx_topology_changed r);
         was_active = (dp_active E r \<and> rx_engine r \<noteq> None \<and> rx_activation_role r = None \<and> \<not> rx_ssid_paused r);
         (policy, r) = read_candidate_policy E want_policy r;
         r = r\<lparr>rx_policy_changed := False\<rparr>;
         url_changed = (case (policy, rx_current_policy r) of
             (Some new, Some current) \<Rightarrow> remote_sources (cfg_nodes (pc_flux current)) \<noteq> remote_sources (cfg_nodes (pc_flux new))
           | _ \<Rightarrow> False);
         (user, r) = read_candidate_user E want_engine (flux_of policy r) r;
         (policy, r) = validate_policy E policy user r;
         (user, r) = validate_user E policy user r;
         (paused, r) = evaluate_ssid E (map_option (\<lambda>flux. (cfg_ssid_mode flux, cfg_ssids flux)) (flux_of policy r)) retry_ssid_setup r
     in if paused then Some (deactivate_runtime E r)
        else if ssid_only_change \<and> was_active \<and> \<not> busy then Some r
        else if \<not> busy \<and> rx_engine r = None \<and> user = None then
          Some ((emit (Ev_Call C_data_plane_converge_false) r)\<lparr>rx_reload_requested := False, rx_engine_config_changed := False,
            rx_topology_changed := False\<rparr>)
        else converge_dataplane E conv \<lparr>rd_refresh = refresh, rd_busy = busy, rd_need_start = need_start,
               rd_want_engine = want_engine, rd_policy = policy, rd_url_changed = url_changed, rd_user = user\<rparr> r)"

definition disable_tail :: "reactor \<Rightarrow> reactor" where
  "disable_tail r =
    on_coord reset_on_disable (emit (Ev_Disarm T_subscription) (complete_subscribe_controls
      (r\<lparr>rx_ssid_paused := False,
         rx_ssid_status := map_option (\<lambda>s. s\<lparr>sw_paused := False, sw_matched_entry := None\<rparr>) (rx_ssid_status r)\<rparr>)))"

definition converge_step :: "rx_env \<Rightarrow> converger \<Rightarrow> string \<Rightarrow> reactor \<Rightarrow> reactor option" where
  "converge_step E conv reason r =
    (if rx_shutdown_requested r then Some (cancel_engine_work E (r\<lparr>rx_cancel_requested := True\<rparr>))
     else
       (let (off, r) = disabled E r
        in if off then Some (deactivate_runtime E (disable_tail r))
           else
             (case rx_bad_page_size r of
                Some page_size \<Rightarrow> Some (r\<lparr>rx_last_error := Some (''unsupported_page_size:'' @ int_text page_size)\<rparr>)
              | None \<Rightarrow>
                  (case ask (en_layout E) C_ensure_layout r of
                     (Inl token, r) \<Rightarrow> Some (r\<lparr>rx_last_error := Some token\<rparr>)
                   | (Inr _, r) \<Rightarrow>
                       if rx_topology_changed r \<and> en_attachment_busy E (rx_log r) \<and> \<not> rx_reload_requested r \<and>
                          \<not> rx_policy_changed r \<and> \<not> rx_engine_config_changed r
                       then Some r else converge_inputs E conv r))))"

fun rx_converge :: "rx_env \<Rightarrow> nat \<Rightarrow> converger" where
  "rx_converge E 0 reason r = None"
| "rx_converge E (Suc n) reason r = converge_step E (rx_converge E n) reason r"

section \<open>Stimuli\<close>

definition rx_phase :: "rx_env \<Rightarrow> reactor \<Rightarrow> phase" where
  "rx_phase E r =
    observe \<lparr>disable_present = en_disabled E (rx_log r) \<or> rx_shutdown_requested r, shutdown = rx_shutdown_requested r,
      ssid_paused = rx_ssid_paused r, engine_present = rx_engine r \<noteq> None, dataplane_active = dp_active E r,
      awaiting_commit = rx_activation_role r \<noteq> None, convergence_busy = transaction_busy r\<rparr>"

definition settle :: "rx_env \<Rightarrow> reactor \<Rightarrow> reactor" where
  "settle E r = r\<lparr>rx_planner := (rx_planner r)\<lparr>m_phase := rx_phase E r\<rparr>\<rparr>"

definition request_shutdown :: "rx_env \<Rightarrow> reactor \<Rightarrow> reactor" where
  "request_shutdown E r =
    (if rx_shutdown_requested r then r
     else
       (let (_, r) = publish_inactive E (r\<lparr>rx_shutdown_requested := True\<rparr>);
            (_, r) = cancel_attachment E (emit (Ev_Disarm T_subscription) (emit (Ev_Disarm T_tc_verify) r))
        in cancel_engine_work E (r\<lparr>rx_cancel_requested := True\<rparr>)))"

definition execute_commands :: "rx_env \<Rightarrow> converger \<Rightarrow> command_kind list \<Rightarrow> stimulus \<Rightarrow> string \<Rightarrow> reactor \<Rightarrow> reactor option" where
  "execute_commands E conv kinds stim reason r =
    (if ExitProcess \<in> set kinds then Some (request_shutdown E r)
     else if (stim = Disable \<or> stim = SsidPause) \<and> StopEngine \<in> set kinds then Some (deactivate_runtime E r)
     else
       (let r = (if PublishInactive \<in> set kinds
                 then (case publish_inactive E r of (Inl error, r) \<Rightarrow> record_dataplane_error E error r | (Inr _, r) \<Rightarrow> r) else r);
            r = (if StopEngine \<in> set kinds \<or> RestartWithBackoff \<in> set kinds
                 then cancel_engine_work E (r\<lparr>rx_cancel_requested := True\<rparr>) else r)
        in if list_ex needs_converge kinds then conv reason r
           else Some (if RevalidateOnly \<in> set kinds then emit (Ev_Call C_quick_check) r else r)))"

definition apply_stimulus :: "rx_env \<Rightarrow> converger \<Rightarrow> stimulus \<Rightarrow> string \<Rightarrow> reactor \<Rightarrow> reactor option" where
  "apply_stimulus E conv stim reason r =
    (let phase = m_phase (rx_planner r);
         (m, commands) = plan (rx_planner r) stim;
         kinds = map cmd_kind commands
     in if IgnoreUnexpected \<in> set kinds then Some (r\<lparr>rx_planner := m\<lparr>m_phase := phase\<rparr>\<rparr>)
        else if kinds = [] then Some (r\<lparr>rx_planner := m\<rparr>)
        else do { r \<leftarrow> execute_commands E conv kinds stim reason (r\<lparr>rx_planner := m\<rparr>); Some (settle E r) })"

definition take_debounce_stimulus :: "rx_env \<Rightarrow> reactor \<Rightarrow> stimulus \<times> reactor" where
  "take_debounce_stimulus E r =
    (if rx_wifi_changed r \<and> \<not> rx_topology_changed r then
       (let (paused, r) = evaluate_ssid E (map_option (\<lambda>flux. (cfg_ssid_mode flux, cfg_ssids flux)) (flux_of None r)) False r
        in (if paused then SsidPause else SsidResume, r))
     else (if rx_topology_changed r then CaptureSideDrift else DebounceExpired, r))"

section \<open>Event handlers\<close>

definition SIGHUP :: int where "SIGHUP = 1"
definition SIGINT :: int where "SIGINT = 2"

definition handle_signal :: "rx_env \<Rightarrow> converger \<Rightarrow> int \<Rightarrow> reactor \<Rightarrow> reactor option" where
  "handle_signal E conv sig r =
    (if sig = SIGHUP then
       apply_stimulus E conv Sighup ''SIGHUP'' (r\<lparr>rx_reload_requested := True, rx_policy_retry_available := True\<rparr>)
     else if sig = SIGTERM \<or> sig = SIGINT then apply_stimulus E conv Sigterm ''signal'' r
     else Some r)"

definition set_switch :: "rx_env \<Rightarrow> converger \<Rightarrow> bool \<Rightarrow> reactor \<Rightarrow> reactor option" where
  "set_switch E conv on r =
    (case ask (\<lambda>log. en_set_switch E log on) C_set_switch r of
       (Inl _, r) \<Rightarrow> Some r
     | (Inr _, r) \<Rightarrow> apply_stimulus E conv (if on then Enable else Disable) (if on then ''enable'' else ''disable'') r)"

text \<open>The state after a control request; the response is not modelled.\<close>

definition dispatch_request :: "rx_env \<Rightarrow> converger \<Rightarrow> request \<Rightarrow> reactor \<Rightarrow> reactor option" where
  "dispatch_request E conv req r =
    (case req of
       Req_Status \<Rightarrow> Some r
     | Req_Check \<Rightarrow> Some (emit (Ev_Call C_quick_check) r)
     | Req_Enable \<Rightarrow> set_switch E conv True r
     | Req_Disable \<Rightarrow> set_switch E conv False r
     | Req_Reload \<Rightarrow>
         apply_stimulus E conv Reload ''reload'' (r\<lparr>rx_reload_requested := True, rx_policy_retry_available := True\<rparr>)
     | Req_Subscribe \<Rightarrow> Some (snd (start_subscription_fetch E r))
     | Req_Stop \<Rightarrow> apply_stimulus E conv Stop ''stop request'' r)"

definition handle_inotify :: "rx_env \<Rightarrow> converger \<Rightarrow> reactor \<Rightarrow> reactor option" where
  "handle_inotify E conv r =
    (let (drained, r) = ask (en_watches E) C_drain_inotify r;
         actions = (case drained of Inr actions \<Rightarrow> actions | Inl _ \<Rightarrow> [Watch_Overflow]);
         switch_changed = (Watch_Switch \<in> set actions);
         rebuild = (Watch_Rebuild \<in> set actions \<or> Watch_Overflow \<in> set actions);
         engine_changed = (rebuild \<or> Watch_Config \<in> set actions);
         policy_changed = (engine_changed \<or> Watch_Policy \<in> set actions);
         r = (if rebuild then emit (Ev_Call C_rebuild_watches) r else r)
     in do {
          r \<leftarrow> (if switch_changed then
                (let (off, r) = disabled E r in apply_stimulus E conv (if off then Disable else Enable) ''disable-file change'' r)
              else Some r);
          Some (if policy_changed \<or> engine_changed then
                  emit (Ev_Arm T_debounce DEBOUNCE)
                    (r\<lparr>rx_policy_changed := rx_policy_changed r \<or> policy_changed,
                       rx_engine_config_changed := rx_engine_config_changed r \<or> engine_changed,
                       rx_policy_retry_available := rx_policy_retry_available r \<or> policy_changed\<rparr>)
                else r) })"

definition handle_rtnetlink :: "rx_env \<Rightarrow> reactor \<Rightarrow> reactor" where
  "handle_rtnetlink E r =
    (let (drained, r) = ask (en_rtnetlink E) C_drain_rtnetlink r
     in if drained = Ok Drain_Quiet then r else emit (Ev_Arm T_debounce DEBOUNCE) (r\<lparr>rx_topology_changed := True\<rparr>))"

definition handle_nl80211 :: "rx_env \<Rightarrow> reactor \<Rightarrow> reactor" where
  "handle_nl80211 E r =
    (if \<not> rx_ssid_transport r then r
     else
       (let (drained, r) = ask (en_ssid_drain E) C_drain_nl80211 r
        in if drained = Ok Drain_Quiet then r
           else
             (let (off, r) = disabled E r
              in if off then r else emit (Ev_Arm T_debounce DEBOUNCE) (r\<lparr>rx_wifi_changed := True\<rparr>))))"

definition handle_tc_verify :: "rx_env \<Rightarrow> converger \<Rightarrow> reactor \<Rightarrow> reactor option" where
  "handle_tc_verify E conv r =
    (case ask (en_advance E) C_advance_attachment r of
       (Inr (Some delay), r) \<Rightarrow> Some (emit (Ev_Arm T_tc_verify delay) r)
     | (Inr None, r) \<Rightarrow>
         if \<not> en_attachment_ready E (rx_log r) then Some r
         else do {
           r \<leftarrow> (if rx_activation_role r \<noteq> None \<or> \<not> dp_active E r then finish_phase6_activation E conv r else Some r);
           run_queued_convergence E conv r }
     | (Inl error, r) \<Rightarrow>
         if rx_activation_role r \<noteq> None \<or> \<not> dp_active E r then fail_phase6_activation E conv ''TC liveness verification'' error r
         else Some (record_dataplane_error E error r))"

definition fault_key_of :: "fault_event \<Rightarrow> fault_key option" where
  "fault_key_of e =
    (if fe_generation e \<noteq> 0 \<and> fe_family e \<in> {4, 6} \<and> fe_protocol e \<in> {6, 17} \<and>
        fe_reason e \<in> {fault_reason_discr EgressListener, fault_reason_discr IngressAssign} \<and> fe_pad0 e = 0 \<and> fe_pad1 e = 0
     then Some \<lparr>fk_generation = fe_generation e, fk_family = fe_family e, fk_protocol = fe_protocol e, fk_reason = fe_reason e, fk_pad0 = 0\<rparr>
     else None)"

definition handle_fault :: "rx_env \<Rightarrow> converger \<Rightarrow> fault_event \<Rightarrow> reactor \<Rightarrow> reactor option" where
  "handle_fault E conv event r =
    (case fault_key_of event of
       None \<Rightarrow> Some r
     | Some key \<Rightarrow>
         if fault_is_current (rx_generations r) (fe_generation event) (map_option (\<lambda>child. ep_generation (ch_params child)) (rx_engine r)) \<and>
            dp_active E r \<and> \<not> en_disabled E (rx_log r) \<and> \<not> rx_shutdown_requested r
         then apply_stimulus E conv CurrentGenerationFault ''BPF fault'' r
         else do {
           r \<leftarrow> apply_stimulus E conv StaleOrDuplicateFault ''stale BPF fault'' r;
           Some (emit (Ev_Call C_delete_fault_latch) r) })"

fun handle_fault_list :: "rx_env \<Rightarrow> converger \<Rightarrow> fault_event list \<Rightarrow> reactor \<Rightarrow> reactor option" where
  "handle_fault_list E conv [] r = Some r"
| "handle_fault_list E conv (e # es) r = do { r \<leftarrow> handle_fault E conv e r; handle_fault_list E conv es r }"

definition handle_bpf_faults :: "rx_env \<Rightarrow> converger \<Rightarrow> reactor \<Rightarrow> reactor option" where
  "handle_bpf_faults E conv r =
    (case ask (en_faults E) C_drain_faults r of
       (Inr events, r) \<Rightarrow> handle_fault_list E conv events r
     | (Inl error, r) \<Rightarrow> Some (record_dataplane_error E error r))"

text \<open>The engine that was promoted has exited.\<close>

definition engine_gone :: "rx_env \<Rightarrow> converger \<Rightarrow> engine_child \<Rightarrow> reactor \<Rightarrow> reactor option" where
  "engine_gone E conv child r =
    (let (head, r) = output_head E r;
         (t, r) = now E r;
         (ended, r) = reap_child E child r;
         exit = (case ended of Inr exit \<Rightarrow> exit | Inl _ \<Rightarrow> ''unknown'');
         r = remove_file (ch_effective child) r
     in case rx_activation_role r of
          Some role \<Rightarrow> role_failed E conv role (engine_error.Exited exit head) (r\<lparr>rx_activation_role := None\<rparr>)
        | None \<Rightarrow>
            (let r = set_error (''engine_exited:'' @ exit, if head \<noteq> [] then Some head else None) r;
                 r = (if t - ch_spawned_at child \<ge> BACKOFF_RESET_AFTER then r\<lparr>rx_crash_count := 0\<rparr> else r)
             in Some (if rx_transaction r = None then back_off E r else r)))"

definition handle_engine_exit :: "rx_env \<Rightarrow> converger \<Rightarrow> reactor \<Rightarrow> reactor option" where
  "handle_engine_exit E conv r =
    (let (m, commands) = plan (rx_planner r) EngineExited;
         kinds = map cmd_kind commands;
         r = r\<lparr>rx_planner := m\<rparr>;
         r = (if IgnoreUnexpected \<notin> set kinds \<and> PublishInactive \<in> set kinds then snd (publish_inactive E r) else r);
         (_, r) = cancel_attachment E (emit (Ev_Disarm T_tc_verify) r)
     in do {
          r \<leftarrow> (case rx_engine r of None \<Rightarrow> Some r | Some child \<Rightarrow> engine_gone E conv child (r\<lparr>rx_engine := None\<rparr>));
          Some (settle E r) })"

section \<open>Subscription events\<close>

definition start_scheduled_subscription_fetch :: "rx_env \<Rightarrow> reactor \<Rightarrow> reactor" where
  "start_scheduled_subscription_fetch E r =
    (let (config, r) =
           (case rx_current_policy r of
              Some policy \<Rightarrow> (Some (cfg_nodes (pc_flux policy)), r)
            | None \<Rightarrow>
                (case ask (en_load_config E) C_load_configuration r of
                   (Inl _, r) \<Rightarrow> (None, r)
                 | (Inr flux, r) \<Rightarrow> (Some (cfg_nodes flux), r)))
     in case config of
          None \<Rightarrow> r
        | Some config \<Rightarrow>
            if remote_sources config = [] then r
            else
              (case start_subscription_fetch_with E config r of
                 (Inl e, r) \<Rightarrow> complete_convergence_controls (set_subscription_error e r)
               | (Inr _, r) \<Rightarrow> r))"

definition maybe_retry_subscription_on_route :: "rx_env \<Rightarrow> reactor \<Rightarrow> reactor" where
  "maybe_retry_subscription_on_route E r =
    (let recovery_epoch = co_route_recovery_epoch (rx_coord r);
         r = refresh_default_route_observation E r
     in if \<not> co_retry_on_route (rx_coord r) \<or> co_route_recovery_epoch (rx_coord r) = recovery_epoch then r
        else start_scheduled_subscription_fetch E (on_coord (\<lambda>c. c\<lparr>co_retry_on_route := False\<rparr>) r))"

text \<open>What the sources of a finished fetch gave: the bytes accepted, the failures, and whether a transfer failed.\<close>

fun sort_results ::
    "rx_env \<Rightarrow> node_config \<Rightarrow> (remote_source \<times> (string \<times> string + bytes)) list \<Rightarrow>
     (remote_source \<times> bytes) list \<Rightarrow> (string \<times> string) list \<Rightarrow> bool \<Rightarrow> (remote_source \<times> bytes) list \<times> (string \<times> string) list \<times> bool" where
  "sort_results E config [] raw failures transport = (raw, failures, transport)"
| "sort_results E config ((source, result) # rest) raw failures transport =
    (case find_map (\<lambda>s. case s of Remote current pos \<Rightarrow> if current = source then Some pos else None | Manual _ _ \<Rightarrow> None) (nc_sources config) of
       None \<Rightarrow> sort_results E config rest raw failures transport
     | Some pos \<Rightarrow>
         (case result of
            Inr bytes \<Rightarrow>
              (case en_remote E (nc_policy config) bytes of
                 Inr _ \<Rightarrow> sort_results E config rest (AList.update source bytes raw) failures transport
               | Inl (token, detail) \<Rightarrow> sort_results E config rest raw (failures @ [(token, pos @ '': '' @ detail)]) transport)
          | Inl (token, detail) \<Rightarrow> sort_results E config rest raw (failures @ [(token, pos @ '': '' @ detail)]) True))"

definition note_transport_failure :: "rx_env \<Rightarrow> bool \<Rightarrow> reactor \<Rightarrow> reactor" where
  "note_transport_failure E failed r =
    (let r = on_coord (\<lambda>c. c\<lparr>co_retry_on_route := failed\<rparr>) r
     in if \<not> failed then r
        else
          on_coord (\<lambda>c. if co_route_recovery_epoch c \<noteq> co_fetch_route_epoch c
                        then c\<lparr>co_retry_on_route := False, co_fetch_queued := True\<rparr> else c)
            (refresh_default_route_observation E r))"

definition accept_fetch :: "rx_env \<Rightarrow> converger \<Rightarrow> node_config \<Rightarrow> fetch_result \<Rightarrow> reactor \<Rightarrow> reactor option" where
  "accept_fetch E conv config completed r =
    (let r = on_coord (\<lambda>c. c\<lparr>co_fetch_queued := co_fetch_queued c \<or>
               (\<exists>source\<in>set (remote_sources config). source \<notin> fst ` set (fr_sources completed))\<rparr>) r;
         (raw, failures, transport) = sort_results E config (fr_sources completed) [] [] False;
         r = rearm_subscription_timer E (note_transport_failure E transport r);
         r = (case failures of
                [] \<Rightarrow> clear_subscription_error r
              | (token, _) # _ \<Rightarrow> set_subscription_error (token, Some (join_semicolon (map (\<lambda>(t, d). t @ '': '' @ d) failures))) r)
     in if raw = [] then
          Some (complete_convergence_controls (resume_queued_subscription_work E (on_coord (\<lambda>c. c\<lparr>co_pending := None\<rparr>) r)))
        else do {
          r \<leftarrow> conv ''subscription refresh''
            ((on_coord (\<lambda>c. c\<lparr>co_pending := Some \<lparr>pb_raw = raw, pb_generation = None\<rparr>\<rparr>) r)
              \<lparr>rx_policy_changed := True, rx_policy_retry_available := True, rx_engine_config_changed := True\<rparr>);
          Some (complete_when_idle r) })"

definition handle_subscription_result :: "rx_env \<Rightarrow> converger \<Rightarrow> reactor \<Rightarrow> reactor option" where
  "handle_subscription_result E conv r =
    (case ask (en_fetched E) C_take_result r of
       (None, r) \<Rightarrow> Some r
     | (Some completed, r) \<Rightarrow>
         (let r = r\<lparr>rx_worker_busy := False\<rparr>
          in if fr_epoch completed \<noteq> co_fetch_epoch (rx_coord r) then Some (complete_convergence_controls (rearm_subscription_timer E r))
             else
               (case ask (en_load_config E) C_load_configuration r of
                  (Inl e, r) \<Rightarrow> Some (complete_convergence_controls (rearm_subscription_timer E (set_subscription_error e r)))
                | (Inr flux, r) \<Rightarrow>
                    (let (off, r) = disabled E (ensure_subscription_schedule E (cfg_nodes flux) r)
                     in if off \<or> remote_sources (cfg_nodes flux) = [] then
                          Some (complete_subscribe_controls (on_coord (\<lambda>c. c\<lparr>co_pending := None\<rparr>) r))
                        else if pending_generation (rx_coord r) \<noteq> None then
                          Some (rearm_subscription_timer E (on_coord (\<lambda>c. c\<lparr>co_fetch_queued := True\<rparr>) r))
                        else accept_fetch E conv (cfg_nodes flux) completed r))))"

section \<open>The event loop\<close>

datatype rx_input =
    In_Signal int | In_Request request | In_Stop_Sent | In_Inotify | In_Debounce | In_Backoff | In_Engine_Pidfd | In_Engine_Timer
  | In_Tx_Pidfd | In_Check_Pidfd | In_Check_Out | In_Rtnetlink | In_Nl80211 | In_Sock_Diag | In_Tc_Verify | In_Bpf_Ring
  | In_Subscription_Result | In_Subscription_Timer

fun rx_dispatch :: "rx_env \<Rightarrow> converger \<Rightarrow> rx_input \<Rightarrow> reactor \<Rightarrow> reactor option" where
  "rx_dispatch E conv (In_Signal sig) r = handle_signal E conv sig r"
| "rx_dispatch E conv (In_Request req) r = dispatch_request E conv req r"
| "rx_dispatch E conv In_Stop_Sent r = Some (request_shutdown E r)"
| "rx_dispatch E conv In_Inotify r = handle_inotify E conv r"
| "rx_dispatch E conv In_Debounce r =
    (let topology_changed = rx_topology_changed r;
         (stim, r) = take_debounce_stimulus E r
     in do {
          r \<leftarrow> apply_stimulus E conv stim ''debounced filesystem/network change'' r;
          Some (if topology_changed then maybe_retry_subscription_on_route E r else r) })"
| "rx_dispatch E conv In_Backoff r =
    (let (off, r) = (if rx_shutdown_requested r then (False, r) else disabled E r);
         r = r\<lparr>rx_backoff_until := None\<rparr>
     in if rx_shutdown_requested r \<or> off then Some (cancel_engine_work E (r\<lparr>rx_cancel_requested := True\<rparr>))
        else apply_stimulus E conv BackoffExpired ''backoff retry'' r)"
| "rx_dispatch E conv In_Engine_Pidfd r = handle_engine_exit E conv r"
| "rx_dispatch E conv In_Engine_Timer r = handle_engine_timer E conv r"
| "rx_dispatch E conv In_Tx_Pidfd r = handle_transaction_pidfd E conv r"
| "rx_dispatch E conv In_Check_Pidfd r = handle_check_exit E conv r"
| "rx_dispatch E conv In_Check_Out r = Some (drain_check_output E r)"
| "rx_dispatch E conv In_Rtnetlink r = Some (handle_rtnetlink E r)"
| "rx_dispatch E conv In_Nl80211 r = Some (handle_nl80211 E r)"
| "rx_dispatch E conv In_Sock_Diag r = handle_sock_diag E conv r"
| "rx_dispatch E conv In_Tc_Verify r = handle_tc_verify E conv r"
| "rx_dispatch E conv In_Bpf_Ring r = handle_bpf_faults E conv r"
| "rx_dispatch E conv In_Subscription_Result r = handle_subscription_result E conv r"
| "rx_dispatch E conv In_Subscription_Timer r = Some (start_scheduled_subscription_fetch E (rearm_subscription_timer E r))"

text \<open>The loop ends when shutdown is requested and nothing is supervised.\<close>

definition rx_finished :: "reactor \<Rightarrow> bool" where
  "rx_finished r \<longleftrightarrow> rx_shutdown_requested r \<and> rx_engine r = None \<and> rx_transaction r = None"

definition rx_new :: "int option \<Rightarrow> reactor" where
  "rx_new bad_page_size =
    \<lparr>rx_log = [], rx_engine_timer = False, rx_engine = None, rx_transaction = None, rx_activation_role = None,
     rx_diag_probe = None, rx_cancel_requested = False, rx_shutdown_requested = False, rx_generations = generations_new,
     rx_last_error = None, rx_last_error_detail = None, rx_policy_error = None, rx_subscription_error = None,
     rx_crash_count = 0, rx_backoff_until = None, rx_reload_requested = False, rx_policy_changed = False,
     rx_engine_config_changed = False, rx_topology_changed = False, rx_wifi_changed = False,
     rx_dataplane_error_active = False, rx_current_policy = None, rx_current_engine_user = None,
     rx_ssid_transport = False, rx_ssid_setup_failure = None, rx_ssid_status = None, rx_ssid_paused = False,
     rx_policy_retry_available = True, rx_bad_page_size = bad_page_size, rx_planner = model_new Ph_Inactive,
     rx_coord = coordinator_default, rx_worker_busy = False\<rparr>"

definition rx_start :: "rx_env \<Rightarrow> converger \<Rightarrow> int option \<Rightarrow> reactor option" where
  "rx_start E conv bad_page_size =
    (let r = settle E (rx_new bad_page_size);
         (off, r) = disabled E r
     in if off then Some (settle E (deactivate_runtime E r)) else apply_stimulus E conv Bootstrap ''cold start'' r)"

end
