(* ===== verification/Switch_Safety.thy ===== *)
theory Switch_Safety
  imports Reactor "HOL-Library.Multiset"
begin

text \<open>
  The invariant of the engine transaction. What matters of a state is its view: the events that start,
  reap, keep or activate a child, and the fields that hold one. Every function below the transaction
  leaves the view alone; the handlers move a child between the two places that can hold it.
\<close>

section \<open>The view\<close>

fun relevant :: "rx_event \<Rightarrow> bool" where
  "relevant (Ev_Spawn _ _ _) = True"
| "relevant (Ev_Reap _ _) = True"
| "relevant (Ev_Survived _) = True"
| "relevant (Ev_Activate _ _) = True"
| "relevant _ = False"

record core_view =
  v_trail :: rx_log
  v_engine :: "engine_child option"
  v_transaction :: "engine_transaction option"
  v_role :: "wait_role option"
  v_probe :: "probe_ready option"
  v_timer :: bool
  v_shutdown :: bool

definition view :: "reactor \<Rightarrow> core_view" where
  "view r = \<lparr>v_trail = filter relevant (rx_log r), v_engine = rx_engine r, v_transaction = rx_transaction r,
     v_role = rx_activation_role r, v_probe = rx_diag_probe r, v_timer = rx_engine_timer r,
     v_shutdown = rx_shutdown_requested r\<rparr>"

named_theorems quiet

lemma view_fields:
  "rx_engine r = v_engine (view r)" "rx_transaction r = v_transaction (view r)"
  "rx_activation_role r = v_role (view r)" "rx_diag_probe r = v_probe (view r)"
  "rx_shutdown_requested r = v_shutdown (view r)"
  by (simp_all add: view_def)

lemma view_set [quiet]:
  "view (r\<lparr>rx_engine := e\<rparr>) = (view r)\<lparr>v_engine := e\<rparr>"
  "view (r\<lparr>rx_transaction := t\<rparr>) = (view r)\<lparr>v_transaction := t\<rparr>"
  "view (r\<lparr>rx_activation_role := w\<rparr>) = (view r)\<lparr>v_role := w\<rparr>"
  "view (r\<lparr>rx_diag_probe := p\<rparr>) = (view r)\<lparr>v_probe := p\<rparr>"
  "view (r\<lparr>rx_engine_timer := b\<rparr>) = (view r)\<lparr>v_timer := b\<rparr>"
  "view (r\<lparr>rx_shutdown_requested := b\<rparr>) = (view r)\<lparr>v_shutdown := b\<rparr>"
  by (simp_all add: view_def)

lemma view_emit [quiet]: "view (emit ev r) = (if relevant ev then (view r)\<lparr>v_trail := v_trail (view r) @ [ev]\<rparr> else view r)"
  by (simp add: view_def emit_def)

lemma view_other [quiet]:
  "view (r\<lparr>rx_cancel_requested := b\<rparr>) = view r"
  "view (r\<lparr>rx_generations := g\<rparr>) = view r" "view (r\<lparr>rx_last_error := x\<rparr>) = view r"
  "view (r\<lparr>rx_last_error_detail := x\<rparr>) = view r" "view (r\<lparr>rx_policy_error := y\<rparr>) = view r"
  "view (r\<lparr>rx_subscription_error := y\<rparr>) = view r" "view (r\<lparr>rx_crash_count := k\<rparr>) = view r"
  "view (r\<lparr>rx_backoff_until := z\<rparr>) = view r" "view (r\<lparr>rx_reload_requested := b\<rparr>) = view r"
  "view (r\<lparr>rx_policy_changed := b\<rparr>) = view r" "view (r\<lparr>rx_engine_config_changed := b\<rparr>) = view r"
  "view (r\<lparr>rx_topology_changed := b\<rparr>) = view r" "view (r\<lparr>rx_wifi_changed := b\<rparr>) = view r"
  "view (r\<lparr>rx_dataplane_error_active := b\<rparr>) = view r" "view (r\<lparr>rx_current_policy := p\<rparr>) = view r"
  "view (r\<lparr>rx_current_engine_user := u\<rparr>) = view r" "view (r\<lparr>rx_ssid_transport := b\<rparr>) = view r"
  "view (r\<lparr>rx_ssid_setup_failure := q\<rparr>) = view r" "view (r\<lparr>rx_ssid_status := s\<rparr>) = view r"
  "view (r\<lparr>rx_ssid_paused := b\<rparr>) = view r" "view (r\<lparr>rx_policy_retry_available := b\<rparr>) = view r"
  "view (r\<lparr>rx_planner := m\<rparr>) = view r" "view (r\<lparr>rx_coord := c\<rparr>) = view r" "view (r\<lparr>rx_worker_busy := b\<rparr>) = view r"
  by (simp_all add: view_def)

text \<open>The functions below the transaction.\<close>

lemma view_ask [quiet]: "view (snd (ask f n r)) = view r"
  by (auto simp: ask_def quiet)

lemma view_calls [quiet]:
  "view (snd (disabled E r)) = view r"
  "view (snd (now E r)) = view r"
  "view (snd (watch E r)) = view r"
  "view (snd (cancel_attachment E r)) = view r"
  "view (snd (has_exited E ch r)) = view r"
  "view (snd (publish_inactive E r)) = view r"
  "view (snd (output_head E r)) = view r"
  by (auto simp: disabled_def now_def watch_def cancel_attachment_def has_exited_def publish_inactive_def output_head_def
      quiet split_beta Let_def)

lemma view_errors [quiet]:
  "view (set_error e r) = view r" "view (clear_error r) = view r" "view (set_policy_error e r) = view r"
  "view (set_subscription_error e r) = view r" "view (clear_policy_error r) = view r"
  "view (clear_subscription_error r) = view r" "view (on_coord f r) = view r" "view (remove_file p r) = view r"
  "view (schedule_backoff E s r) = view r" "view (cancel_backoff r) = view r" "view (queue_policy_retry r) = view r"
  "view (complete_convergence_controls r) = view r" "view (complete_subscribe_controls r) = view r"
  "view (complete_when_idle r) = view r" "view (back_off E r) = view r" "view (detach r) = view r"
  by (auto simp: set_error_def clear_error_def set_policy_error_def set_subscription_error_def clear_policy_error_def
      clear_subscription_error_def on_coord_def remove_file_def schedule_backoff_def cancel_backoff_def
      queue_policy_retry_def complete_convergence_controls_def complete_subscribe_controls_def complete_when_idle_def
      back_off_def detach_def quiet Let_def split_beta split: option.split)

lemma view_timer [quiet]:
  "view (arm_engine_timer d r) = (view r)\<lparr>v_timer := True\<rparr>" "view (disarm_engine_timer r) = (view r)\<lparr>v_timer := False\<rparr>"
  "view (drop_diag_probe r) = (view r)\<lparr>v_probe := None\<rparr>"
  by (simp_all add: arm_engine_timer_def disarm_engine_timer_def drop_diag_probe_def quiet split: option.split)
    (simp add: view_def)

lemma view_cleanup [quiet]:
  "view (cleanup_cancelled_wait_role role r) = view r" "view (cleanup_cancelled_stop_next nxt r) = view r"
  by (cases role; auto simp: quiet split: option.split) (cases nxt; auto simp: quiet split: option.split)

lemma view_subscription [quiet]:
  "view (refresh_default_route_observation E r) = view r"
  "view (snd (start_subscription_fetch_with E c r)) = view r"
  "view (snd (start_subscription_fetch E r)) = view r"
  "view (rearm_subscription_timer E r) = view r"
proof -
  show a: "view (refresh_default_route_observation E r) = view r" for r
    by (auto simp: refresh_default_route_observation_def quiet Let_def split_beta split: sum.split)
  show b: "view (snd (start_subscription_fetch_with E c r)) = view r" for c r
    by (auto simp: start_subscription_fetch_with_def a quiet Let_def split_beta split: sum.split)
  show "view (snd (start_subscription_fetch E r)) = view r"
    by (auto simp: start_subscription_fetch_def b quiet Let_def split_beta split: sum.split)
  show "view (rearm_subscription_timer E r) = view r"
    by (auto simp: rearm_subscription_timer_def quiet Let_def split_beta split: option.split)
qed

lemma view_schedule [quiet]: "view (ensure_subscription_schedule E c r) = view r"
  by (auto simp: ensure_subscription_schedule_def quiet Let_def split_beta split: sum.split)

lemma view_configure [quiet]: "view (configure_subscription E b r) = view r"
  by (auto simp: configure_subscription_def quiet Let_def split: option.split)

lemma view_resume [quiet]: "view (resume_queued_subscription_work E r) = view r"
  by (auto simp: resume_queued_subscription_work_def quiet split_beta split: sum.split)

lemma view_cache_writes: "view (snd (cache_writes E raw sources r)) = view r"
proof (induction raw arbitrary: r)
  case (Cons p raw)
  then show ?case by (cases p) (simp add: quiet Let_def split_beta)
qed simp

lemma view_commit [quiet]: "view (snd (commit_pending_subscription E g r)) = view r"
  by (auto simp: commit_pending_subscription_def view_cache_writes quiet Let_def split_beta split: option.split)

section \<open>The invariant\<close>

fun spawn_of :: "rx_event \<Rightarrow> int multiset" where
  "spawn_of (Ev_Spawn pid _ _) = {#pid#}"
| "spawn_of _ = {#}"

fun gone_of :: "rx_event \<Rightarrow> int multiset" where
  "gone_of (Ev_Reap pid _) = {#pid#}"
| "gone_of _ = {#}"

definition spawned :: "rx_log \<Rightarrow> int multiset" where
  "spawned log = sum_list (map spawn_of log)"

definition gone :: "rx_log \<Rightarrow> int multiset" where
  "gone log = sum_list (map gone_of log)"

lemma spawned_snoc [simp]: "spawned (log @ [e]) = spawned log + spawn_of e" "gone (log @ [e]) = gone log + gone_of e"
  by (simp_all add: spawned_def gone_def)

fun transaction_child :: "engine_transaction option \<Rightarrow> engine_child option" where
  "transaction_child (Some (Waiting c _ _ _)) = Some c"
| "transaction_child (Some (Stopping c _ _ _)) = Some c"
| "transaction_child _ = None"

definition pid_set :: "engine_child option \<Rightarrow> int multiset" where
  "pid_set c = (case c of Some c \<Rightarrow> {#ch_pid c#} | None \<Rightarrow> {#})"

lemma pid_set_simps [simp]: "pid_set None = {#}" "pid_set (Some c) = {#ch_pid c#}"
  by (simp_all add: pid_set_def)

definition ready :: "engine_child \<Rightarrow> bool" where
  "ready c \<longleftrightarrow> ch_identity_verified c \<and> ch_sockets_verified c = 4"

definition vouched :: "rx_log \<Rightarrow> engine_child \<Rightarrow> bool" where
  "vouched trail c \<longleftrightarrow> ready c \<or> Ev_Survived (ch_pid c) \<in> set trail"

definition sound_trail :: "rx_log \<Rightarrow> bool" where
  "sound_trail trail \<longleftrightarrow> (\<forall>c b. Ev_Activate (Some c) b \<in> set trail \<longrightarrow> vouched trail c)"

definition balanced :: "core_view \<Rightarrow> bool" where
  "balanced v \<longleftrightarrow>
    spawned (v_trail v) = gone (v_trail v) + pid_set (v_engine v) + pid_set (transaction_child (v_transaction v)) \<and>
    sound_trail (v_trail v) \<and> (\<forall>c. v_engine v = Some c \<longrightarrow> vouched (v_trail v) c) \<and>
    (transaction_child (v_transaction v) \<noteq> None \<longrightarrow> v_engine v = None)"

text \<open>Once shutdown is requested nothing is awaited: a check was cancelled and a child stops for good.\<close>

fun ending :: "engine_transaction option \<Rightarrow> bool" where
  "ending None = True"
| "ending (Some (Checking _ _ _ d)) = (d = Check_Cancelled \<or> d = Check_SupervisionFailed)"
| "ending (Some (Waiting _ _ _ _)) = False"
| "ending (Some (Stopping _ n _ _)) = (n = Stop_Cancelled)"

definition settled :: "core_view \<Rightarrow> bool" where
  "settled v \<longleftrightarrow> balanced v \<and>
    (v_role v \<noteq> None \<longrightarrow> v_transaction v = None \<and> v_engine v \<noteq> None) \<and>
    (v_probe v \<noteq> None \<longrightarrow> (\<exists>c w d k. v_transaction v = Some (Waiting c w d k) \<and> ch_identity_verified c)) \<and>
    (v_transaction v \<noteq> None \<longrightarrow> v_timer v)"

definition switch_inv :: "core_view \<Rightarrow> bool" where
  "switch_inv v \<longleftrightarrow> settled v \<and> (v_shutdown v \<longrightarrow> v_role v = None \<and> ending (v_transaction v))"

text \<open>Between the two places: a child in hand, or no transaction at all.\<close>

definition carrying :: "engine_child \<Rightarrow> core_view \<Rightarrow> bool" where
  "carrying c v \<longleftrightarrow> v_engine v = None \<and> v_transaction v = None \<and> v_role v = None \<and>
    spawned (v_trail v) = gone (v_trail v) + {#ch_pid c#} \<and> sound_trail (v_trail v)"

definition idle :: "core_view \<Rightarrow> bool" where
  "idle v \<longleftrightarrow> balanced v \<and> v_transaction v = None \<and> v_role v = None \<and> v_probe v = None"

definition vacant :: "core_view \<Rightarrow> bool" where
  "vacant v \<longleftrightarrow> idle v \<and> v_engine v = None"

lemmas view_preds = switch_inv_def settled_def carrying_def idle_def vacant_def balanced_def

lemma vouched_mono: "vouched trail c \<Longrightarrow> vouched (trail @ [e]) c"
  by (auto simp: vouched_def)

lemma sound_snoc:
  "sound_trail trail \<Longrightarrow> (\<And>c b. e = Ev_Activate (Some c) b \<Longrightarrow> vouched trail c) \<Longrightarrow> sound_trail (trail @ [e])"
  by (auto simp: sound_trail_def vouched_def)

lemma sound_events [simp]:
  "sound_trail trail \<Longrightarrow> sound_trail (trail @ [Ev_Spawn p e m])" "sound_trail trail \<Longrightarrow> sound_trail (trail @ [Ev_Reap p b])"
  "sound_trail trail \<Longrightarrow> sound_trail (trail @ [Ev_Survived p])" "sound_trail trail \<Longrightarrow> sound_trail (trail @ [Ev_Activate None b])"
  by (auto intro!: sound_snoc)

lemma idle_inv: "idle v \<Longrightarrow> switch_inv v"
  by (simp add: view_preds)

lemma vacant_idle: "vacant v \<Longrightarrow> idle v"
  by (simp add: vacant_def)

lemma idle_timer [simp]: "idle (v\<lparr>v_timer := b\<rparr>) = idle v" "vacant (v\<lparr>v_timer := b\<rparr>) = vacant v" "carrying c (v\<lparr>v_timer := b\<rparr>) = carrying c v"
  by (simp_all add: view_preds)

lemma carrying_probe [simp]: "carrying c (v\<lparr>v_probe := p\<rparr>) = carrying c v"
  by (simp add: view_preds)

lemma take_engine: "idle v \<Longrightarrow> v_engine v = Some c \<Longrightarrow> carrying c (v\<lparr>v_engine := None\<rparr>)"
  by (simp add: view_preds)

lemma put_engine: "idle v \<Longrightarrow> v_engine v = Some c \<Longrightarrow> idle (v\<lparr>v_timer := b, v_engine := Some c\<rparr>)"
  by (simp add: view_preds)

lemma role_not_ending: "switch_inv v \<Longrightarrow> v_role v = Some w \<Longrightarrow> \<not> v_shutdown v"
  by (auto simp: view_preds)

lemma take_role: "switch_inv v \<Longrightarrow> v_role v \<noteq> None \<Longrightarrow> idle (v\<lparr>v_role := None\<rparr>)"
  by (auto simp: view_preds)

lemma take_transaction: "switch_inv v \<Longrightarrow> transaction_child (v_transaction v) = Some c \<Longrightarrow> carrying c (v\<lparr>v_transaction := None\<rparr>)"
  by (auto simp: view_preds)

lemma take_check:
  "switch_inv v \<Longrightarrow> v_transaction v = Some (Checking k s d p) \<Longrightarrow>
   idle (v\<lparr>v_transaction := None\<rparr>) \<and> (v_shutdown v \<longrightarrow> p = Check_Cancelled \<or> p = Check_SupervisionFailed)"
  by (auto simp: view_preds)

lemma put_check: "idle v \<Longrightarrow> v_shutdown v \<longrightarrow> p = Check_Cancelled \<or> p = Check_SupervisionFailed \<Longrightarrow> switch_inv (v\<lparr>v_transaction := Some (Checking k s d p), v_timer := True\<rparr>)"
  by (simp add: view_preds)

lemma put_waiting:
  "carrying c v \<Longrightarrow> v_probe v = None \<or> ch_identity_verified c \<Longrightarrow> \<not> v_shutdown v \<Longrightarrow> switch_inv (v\<lparr>v_transaction := Some (Waiting c w d k), v_timer := True\<rparr>)"
  by (auto simp: view_preds)

lemma put_stopping: "carrying c v \<Longrightarrow> v_shutdown v \<longrightarrow> n = Stop_Cancelled \<Longrightarrow> switch_inv (v\<lparr>v_probe := None, v_transaction := Some (Stopping c n d k), v_timer := True\<rparr>)"
  by (simp add: view_preds)

lemma keep_stopping: "carrying c v \<Longrightarrow> v_probe v = None \<Longrightarrow> v_shutdown v \<longrightarrow> n = Stop_Cancelled \<Longrightarrow> switch_inv (v\<lparr>v_transaction := Some (Stopping c n d k), v_timer := True\<rparr>)"
  by (simp add: view_preds)

text \<open>Results of handlers.\<close>

definition ok :: "(core_view \<Rightarrow> bool) \<Rightarrow> reactor option \<Rightarrow> bool" where
  "ok P m \<longleftrightarrow> (\<forall>r. m = Some r \<longrightarrow> P (view r))"

lemma ok_simps [simp]: "ok P None" "ok P (Some r) = P (view r)"
  by (simp_all add: ok_def)

lemma ok_bind: "ok P m \<Longrightarrow> (\<And>r. P (view r) \<Longrightarrow> ok Q (f r)) \<Longrightarrow> ok Q (m \<bind> f)"
  by (cases m) (auto simp: ok_def)

section \<open>Handlers that call nothing back\<close>

lemma begin_stop_inv: "carrying c (view r) \<Longrightarrow> v_shutdown (view r) \<longrightarrow> n = Stop_Cancelled \<Longrightarrow> switch_inv (view (begin_stop E c n r))"
  by (simp add: begin_stop_def quiet Let_def split_beta put_stopping)

lemma wait_for_child_inv: "carrying c (view r) \<Longrightarrow> v_probe (view r) = None \<Longrightarrow> \<not> v_shutdown (view r) \<Longrightarrow> switch_inv (view (wait_for_child E c w r))"
  by (simp add: wait_for_child_def quiet Let_def split_beta put_waiting)

lemma park_waiting_inv:
  "carrying c (view r) \<Longrightarrow> v_probe (view r) = None \<or> ch_identity_verified c \<Longrightarrow> \<not> v_shutdown (view r) \<Longrightarrow> switch_inv (view (park_waiting E c w d k r))"
  by (simp add: park_waiting_def quiet Let_def split_beta put_waiting)

lemma rearm_waiting_inv: "carrying c (view r) \<Longrightarrow> v_probe (view r) = None \<Longrightarrow> \<not> v_shutdown (view r) \<Longrightarrow> switch_inv (view (rearm_waiting E c w d k r))"
  by (simp add: rearm_waiting_def quiet Let_def split_beta put_waiting)

lemma fail_waiting_inv: "carrying c (view r) \<Longrightarrow> \<not> v_shutdown (view r) \<Longrightarrow> switch_inv (view (fail_waiting E c w e r))"
  by (simp add: fail_waiting_def begin_stop_inv)

lemma spawn_carrying:
  assumes "vacant (view r)" and "spawn E p m r = (Ok c, r')"
  shows "carrying c (view r') \<and> v_probe (view r') = None \<and> v_shutdown (view r') = v_shutdown (view r)"
  using assms by (auto simp: spawn_def quiet Let_def split_beta view_preds split: sum.split_asm)

lemma spawn_failed: "spawn E p m r = (Err e, r') \<Longrightarrow> view r' = view r"
  by (auto simp: spawn_def quiet Let_def split_beta split: sum.split_asm)

lemma reap_vacant:
  "carrying c (view r) \<Longrightarrow> v_probe (view r) = None \<Longrightarrow> vacant (view (snd (reap_child E c r)))"
  by (auto simp: reap_child_def quiet Let_def split_beta view_preds)

lemma reap_shutdown [quiet]: "v_shutdown (view (snd (reap_child E c r))) = v_shutdown (view r)"
  by (simp add: reap_child_def quiet Let_def split_beta)

lemma supervision_failed_inv: "idle (view r) \<Longrightarrow> switch_inv (view (supervision_failed E k s e r))"
  by (simp add: supervision_failed_def quiet Let_def split_beta put_check)

lemma finish_check_view [quiet]: "view (snd (finish_check E k r)) = view r"
  by (simp add: finish_check_def quiet Let_def split_beta)

lemma drain_check_output_inv: "switch_inv (view r) \<Longrightarrow> switch_inv (view (drain_check_output E r))"
  by (auto simp: drain_check_output_def quiet Let_def split_beta view_fields view_preds split: option.split engine_transaction.split)

lemma record_dataplane_error_view [quiet]: "view (record_dataplane_error E e r) = view r"
  by (simp add: record_dataplane_error_def quiet Let_def split_beta)

lemma keep_survivor:
  "carrying c v \<Longrightarrow> v_probe v = None \<Longrightarrow> idle (v\<lparr>v_trail := v_trail v @ [Ev_Survived (ch_pid c)], v_engine := Some c, v_transaction := None\<rparr>)"
  by (simp add: view_preds vouched_def)

lemma stop_confirmation_failed_inv:
  "carrying c (view r) \<Longrightarrow> v_probe (view r) = None \<Longrightarrow> switch_inv (view (stop_confirmation_failed E c n r))"
  by (simp add: stop_confirmation_failed_def quiet Let_def split_beta idle_inv keep_survivor split: option.split)

lemma cancel_engine_work_inv: "settled (view r) \<Longrightarrow> switch_inv (view (cancel_engine_work E r))"
  by (auto simp: cancel_engine_work_def begin_stop_def quiet Let_def split_beta view_fields view_preds
      split: option.split engine_transaction.split)

section \<open>Handlers that may converge\<close>

text \<open>The contract between the transaction and convergence.\<close>

locale safe_convergence =
  fixes E :: rx_env and conv :: converger
  assumes conv_inv: "switch_inv (view r) \<Longrightarrow> ok switch_inv (conv reason r)"
begin

lemma run_queued_inv: "switch_inv (view r) \<Longrightarrow> ok switch_inv (run_queued_convergence E conv r)"
  by (auto simp: run_queued_convergence_def quiet Let_def split_beta intro!: conv_inv)

lemma queued_then_complete: "switch_inv (view r) \<Longrightarrow> ok switch_inv (run_queued_convergence E conv r \<bind> (\<lambda>r. Some (complete_when_idle r)))"
  by (rule ok_bind [OF run_queued_inv]) (simp_all add: quiet)

lemma finish_cancelled_inv: "idle (view r) \<Longrightarrow> ok switch_inv (finish_cancelled E conv r)"
  by (auto simp: finish_cancelled_def begin_stop_def quiet Let_def split_beta view_fields view_preds intro!: ok_bind [OF conv_inv]
      split: option.split)

lemma finish_transaction_error_inv: "idle (view r) \<Longrightarrow> ok switch_inv (finish_transaction_error E conv e x r)"
  unfolding finish_transaction_error_def Let_def split_beta
  by (rule queued_then_complete) (auto simp: quiet idle_inv view_preds)

lemma spawn_inv:
  assumes v: "vacant (view r)" and b: "\<not> v_shutdown (view r)"
    and f: "\<And>x r. vacant (view r) \<Longrightarrow> \<not> v_shutdown (view r) \<Longrightarrow> ok switch_inv (F x r)"
  shows "ok switch_inv (case spawn E path m r of
       (Inl x, r) \<Rightarrow> F x r
     | (Inr child, r) \<Rightarrow>
         (case watch E r of
            (Inr _, r) \<Rightarrow> Some (wait_for_child E child w r)
          | (Inl y, r) \<Rightarrow> Some (begin_stop E child (n y) r)))"
proof (cases "spawn E path m r")
  case (Pair a r2)
  show ?thesis
  proof (cases a)
    case (Inl x)
    then show ?thesis using Pair spawn_failed [of E _ _ r x r2] v b f by simp
  next
    case (Inr c)
    then have "carrying c (view r2)" "v_probe (view r2) = None" "\<not> v_shutdown (view r2)" using spawn_carrying [OF v] Pair b by metis+
    then show ?thesis using Pair Inr by (simp add: split_beta quiet begin_stop_inv wait_for_child_inv split: sum.split)
  qed
qed

lemma finish_error_vacant: "vacant (view r) \<Longrightarrow> ok switch_inv (finish_transaction_error E conv e x r)"
  by (simp add: finish_transaction_error_inv vacant_idle)

lemma begin_candidate_failure_inv: "vacant (view r) \<Longrightarrow> \<not> v_shutdown (view r) \<Longrightarrow> ok switch_inv (begin_candidate_failure E conv p e r)"
  by (auto simp: begin_candidate_failure_def Let_def quiet vacant_idle
      intro!: spawn_inv finish_error_vacant finish_cancelled_inv split: option.split)

lemma start_candidate_inv: "vacant (view r) \<Longrightarrow> \<not> v_shutdown (view r) \<Longrightarrow> ok switch_inv (start_candidate E conv p r)"
  unfolding start_candidate_def by (rule spawn_inv) (simp_all add: begin_candidate_failure_inv)

lemma start_generation_check_inv: "idle (view r) \<Longrightarrow> \<not> v_shutdown (view r) \<Longrightarrow> ok switch_inv (start_generation_check E conv u g r)"
  by (auto simp: start_generation_check_def Let_def split_beta quiet
      intro!: finish_transaction_error_inv put_check split: sum.split)

lemma complete_check_inv: "idle (view r) \<Longrightarrow> v_shutdown (view r) \<longrightarrow> d = Check_Cancelled \<or> d = Check_SupervisionFailed \<Longrightarrow> ok switch_inv (complete_check E conv k p d x r)"
proof (induction d)
  case Check_Normal
  then show ?case
    by (auto simp: complete_check_def Let_def split_beta quiet view_fields vacant_def
        intro!: finish_transaction_error_inv finish_cancelled_inv start_candidate_inv begin_stop_inv take_engine put_engine
        split: sum.split option.split)
qed (auto simp: complete_check_def Let_def split_beta quiet intro!: finish_transaction_error_inv finish_cancelled_inv)

lemma keep_check: "switch_inv v \<Longrightarrow> v_transaction v = Some (Checking k s d p) \<Longrightarrow> switch_inv (v\<lparr>v_transaction := Some (Checking k' s d p)\<rparr>)"
  by (auto simp: view_preds)

lemma handle_check_exit_inv: "switch_inv (view r) \<Longrightarrow> ok switch_inv (handle_check_exit E conv r)"
  by (auto simp: handle_check_exit_def split_beta quiet view_fields
      intro!: complete_check_inv supervision_failed_inv keep_check dest: take_check
      split: option.split engine_transaction.split sum.split)

lemma timer_checking_inv: "idle (view r) \<Longrightarrow> v_shutdown (view r) \<longrightarrow> q = Check_Cancelled \<or> q = Check_SupervisionFailed \<Longrightarrow> ok switch_inv (timer_checking E conv k p d q r)"
  by (auto simp: timer_checking_def Let_def split_beta quiet
      intro!: complete_check_inv supervision_failed_inv put_check split: option.split sum.split)

section \<open>Activation\<close>

lemma fail_phase6_inv: "switch_inv (view r) \<Longrightarrow> ok switch_inv (fail_phase6_activation E conv op e r)"
  by (auto simp: fail_phase6_activation_def Let_def quiet view_fields
      intro!: finish_transaction_error_inv begin_stop_inv take_engine take_role dest: role_not_ending split: option.split)

lemma activated_inv:
  "switch_inv v \<Longrightarrow> switch_inv (v\<lparr>v_trail := v_trail v @ [Ev_Activate (v_engine v) b]\<rparr>)"
  by (cases "v_engine v") (auto simp: view_preds intro!: sound_snoc vouched_mono)

lemma publish_active_inv: "switch_inv (view r) \<Longrightarrow> switch_inv (view (snd (publish_active E r)))"
  by (simp add: publish_active_def Let_def split_beta quiet view_fields activated_inv)

lemma end_role: "switch_inv v \<Longrightarrow> switch_inv (v\<lparr>v_role := None\<rparr>)"
  by (simp add: view_preds)

lemma commit_activation_inv: "switch_inv (view r) \<Longrightarrow> ok switch_inv (commit_activation E conv c r)"
  by (auto simp: commit_activation_def Let_def quiet intro!: queued_then_complete end_role split: option.split wait_role.split)

lemma publish_activation_inv: "switch_inv (view r) \<Longrightarrow> ok switch_inv (publish_activation E conv r)"
  using publish_active_inv [of r]
  by (auto simp: publish_activation_def split_beta intro!: fail_phase6_inv commit_activation_inv split: sum.split option.split)

lemma finish_phase6_inv: "switch_inv (view r) \<Longrightarrow> ok switch_inv (finish_phase6_activation E conv r)"
  by (auto simp: finish_phase6_activation_def Let_def split_beta quiet view_fields
      intro!: publish_activation_inv finish_transaction_error_inv begin_stop_inv take_engine take_role dest: role_not_ending
      split: option.split wait_role.split bool.split)

lemma attach_inv: "switch_inv (view r) \<Longrightarrow> ok switch_inv (attach E conv b r)"
  by (auto simp: attach_def Let_def split_beta quiet intro!: finish_phase6_inv fail_phase6_inv split: sum.split option.split)

lemma start_phase6_inv: "switch_inv (view r) \<Longrightarrow> ok switch_inv (start_phase6_attachment E conv m r)"
  by (auto simp: start_phase6_attachment_def split_beta quiet intro!: attach_inv fail_phase6_inv split: sum.split)

lemma put_promoted:
  "carrying c v \<Longrightarrow> ready c \<Longrightarrow> \<not> v_shutdown v \<Longrightarrow> switch_inv (v\<lparr>v_probe := None, v_timer := b, v_engine := Some c, v_role := Some w\<rparr>)"
  by (simp add: view_preds vouched_def)

lemma promote_inv:
  "carrying c (view r) \<Longrightarrow> ready c \<Longrightarrow> \<not> v_shutdown (view r) \<Longrightarrow> ok switch_inv (promote_ready_child E conv c w r)"
  by (auto simp: promote_ready_child_def split_beta quiet intro!: begin_stop_inv put_promoted start_phase6_inv split: sum.split)

section \<open>Waiting and stopping\<close>

lemma role_failed_inv: "vacant (view r) \<Longrightarrow> \<not> v_shutdown (view r) \<Longrightarrow> ok switch_inv (role_failed E conv w e r)"
  by (auto simp: role_failed_def intro!: begin_candidate_failure_inv finish_error_vacant split: wait_role.split)

lemma finish_waiting_exit_inv: "carrying c (view r) \<Longrightarrow> \<not> v_shutdown (view r) \<Longrightarrow> ok switch_inv (finish_waiting_exit E conv c w r)"
  by (auto simp: finish_waiting_exit_def Let_def split_beta quiet intro!: role_failed_inv reap_vacant)

lemma start_probe_inv:
  "carrying c (view r) \<Longrightarrow> ch_identity_verified c \<Longrightarrow> \<not> v_shutdown (view r) \<Longrightarrow> ok switch_inv (start_probe E c w d k r)"
  by (auto simp: start_probe_def split_beta quiet intro!: fail_waiting_inv park_waiting_inv split: outcome.split sum.split)

lemma still_waiting_inv:
  assumes "carrying c (view r)" and "\<not> v_shutdown (view r)"
    and "\<And>r. carrying c (view r) \<Longrightarrow> \<not> v_shutdown (view r) \<Longrightarrow> v_probe (view r) = p \<Longrightarrow> ok switch_inv (alive r)" and "v_probe (view r) = p"
    and "\<And>r. view (leave r) = view r"
  shows "ok switch_inv (still_waiting E conv c w d r alive leave)"
  using assms by (auto simp: still_waiting_def Let_def split_beta quiet intro!: begin_stop_inv finish_waiting_exit_inv fail_waiting_inv)

lemma check_identity_child:
  assumes "check_identity E c r = ((x, c'), r')"
  shows "ch_pid c' = ch_pid c \<and> (x = Ok True \<longrightarrow> ch_identity_verified c') \<and> (ch_identity_verified c \<longrightarrow> ch_identity_verified c') \<and> view r' = view r"
  using assms by (auto simp: check_identity_def ask_def quiet verify_process_identity_def split: if_split_asm option.split_asm sum.split_asm)

lemma carrying_pid: "ch_pid c' = ch_pid c \<Longrightarrow> carrying c' v = carrying c v"
  by (simp add: carrying_def)

lemma advance_waiting_inv:
  assumes c: "carrying c (view r)" "\<not> v_shutdown (view r)" and p: "v_probe (view r) = None \<or> ch_identity_verified c"
  shows "ok switch_inv (advance_waiting E conv c w d k r)"
  unfolding advance_waiting_def
proof (rule still_waiting_inv [OF c _ refl])
  fix s
  assume s: "carrying c (view s)" "\<not> v_shutdown (view s)" "v_probe (view s) = v_probe (view r)"
  obtain x c' s' where i: "check_identity E c s = ((x, c'), s')" by (metis surj_pair)
  then have c: "carrying c' (view s')" "view s' = view s" "x = Ok True \<Longrightarrow> ch_identity_verified c'"
    using check_identity_child [OF i] s carrying_pid [of c' c "view s"] by auto
  then show "ok switch_inv (case check_identity E c s of
         ((Inl error, child), r) \<Rightarrow> Some (fail_waiting E child w (Engine_Io error) r)
       | ((Inr False, child), r) \<Rightarrow> Some (rearm_waiting E child w d k (drop_diag_probe r))
       | ((Inr True, child), r) \<Rightarrow>
           if rx_diag_probe r \<noteq> None then Some (park_waiting E child w d k r) else start_probe E child w d k r)"
    unfolding i using s by (auto simp: quiet intro!: fail_waiting_inv rearm_waiting_inv park_waiting_inv start_probe_inv split: sum.split bool.split)
qed (rule refl)

lemma judge_inodes_inv:
  assumes c: "carrying c (view r)" "v_probe (view r) = None" "\<not> v_shutdown (view r)" and i: "ch_identity_verified c"
  shows "ok switch_inv (judge_inodes E conv c w d k inodes r)"
proof -
  obtain x c' where v: "verify_listener_inodes (en_owns E (rx_log r) (ch_pid c)) c inodes = (x, c')" by fastforce
  then have "ch_pid c' = ch_pid c" "x = Ok Readiness_Ready \<Longrightarrow> ready c'"
    using i by (auto simp: verify_listener_inodes_def ready_def split: sum.split_asm prod.split_asm if_split_asm)
  moreover then have "carrying c' (view r)" using c(1) carrying_pid by metis
  ultimately show ?thesis using c(2,3)
    by (auto simp: judge_inodes_def ask_def v quiet intro!: promote_inv rearm_waiting_inv fail_waiting_inv
        split: sum.split readiness.split)
qed

lemma handle_sock_diag_inv:
  assumes i: "switch_inv (view r)"
  shows "ok switch_inv (handle_sock_diag E conv r)"
proof (cases "v_probe (view r)")
  case None
  then show ?thesis using i by (simp add: handle_sock_diag_def view_fields)
next
  case (Some p)
  then obtain c w d k where t: "v_transaction (view r) = Some (Waiting c w d k)" "ch_identity_verified c"
    using i by (auto simp: switch_inv_def settled_def)
  define r' where "r' = r\<lparr>rx_diag_probe := None, rx_transaction := None\<rparr>"
  have r': "carrying c (view r')" "v_probe (view r') = None" "\<not> v_shutdown (view r')"
    using i t by (auto simp: r'_def quiet view_preds)
  have "ok switch_inv (still_waiting E conv c w d r'
     (\<lambda>r. case ask (\<lambda>log. on_readable (en_recv E log) (en_send E log) p) C_read_probe r of
        ((_, Panicked), _) \<Rightarrow> None
      | ((probe, Done Wait), r) \<Rightarrow> Some (park_waiting E c w d k (r\<lparr>rx_diag_probe := Some probe\<rparr>))
      | ((_, Done (Pending _ inodes)), r) \<Rightarrow> judge_inodes E conv c w d k inodes (detach r)
      | ((_, Done (Ready inodes)), r) \<Rightarrow> judge_inodes E conv c w d k (map Some inodes) (detach r)
      | ((_, Failed error), r) \<Rightarrow>
          Some (if dump_retryable error then rearm_waiting E c w d k (detach r) else fail_waiting E c w (Engine_Io error) (detach r)))
     detach)"
    by (rule still_waiting_inv [where p = None])
      (use r' t in \<open>auto simp: split_beta quiet intro!: park_waiting_inv judge_inodes_inv rearm_waiting_inv fail_waiting_inv
        split: outcome.split probe_step.split\<close>)
  then show ?thesis using Some t(1) by (simp add: handle_sock_diag_def Let_def view_fields r'_def)
qed

lemma complete_stopped_inv:
  "carrying c (view r) \<Longrightarrow> v_probe (view r) = None \<Longrightarrow> v_shutdown (view r) \<longrightarrow> n = Stop_Cancelled \<Longrightarrow> ok switch_inv (complete_stopped E conv c n r)"
  by (auto simp: complete_stopped_def Let_def split_beta quiet
      intro!: finish_cancelled_inv start_candidate_inv begin_candidate_failure_inv finish_error_vacant reap_vacant vacant_idle
      split: stop_next.split)

lemma timer_stopping_inv:
  "carrying c (view r) \<Longrightarrow> v_probe (view r) = None \<Longrightarrow> v_shutdown (view r) \<longrightarrow> n = Stop_Cancelled \<Longrightarrow> ok switch_inv (timer_stopping E conv c n d k r)"
  by (auto simp: timer_stopping_def Let_def split_beta quiet
      intro!: complete_stopped_inv stop_confirmation_failed_inv keep_stopping)

lemma take_stopping:
  "switch_inv v \<Longrightarrow> v_transaction v = Some (Stopping c n d k) \<Longrightarrow> carrying c (v\<lparr>v_transaction := None\<rparr>) \<and> v_probe v = None \<and> (v_shutdown v \<longrightarrow> n = Stop_Cancelled)"
  by (auto simp: view_preds)

lemma take_waiting:
  "switch_inv v \<Longrightarrow> v_transaction v = Some (Waiting c w d k) \<Longrightarrow> carrying c (v\<lparr>v_transaction := None\<rparr>) \<and> (v_probe v = None \<or> ch_identity_verified c) \<and> \<not> v_shutdown v"
  by (auto simp: view_preds)

lemma fired: "(v::core_view)\<lparr>v_timer := b, v_transaction := t\<rparr> = v\<lparr>v_transaction := t\<rparr>\<lparr>v_timer := b\<rparr>"
  by simp

lemma handle_transaction_pidfd_inv: "switch_inv (view r) \<Longrightarrow> ok switch_inv (handle_transaction_pidfd E conv r)"
  by (auto simp: handle_transaction_pidfd_def quiet view_fields
      intro!: advance_waiting_inv complete_stopped_inv dest: take_stopping take_waiting split: option.split engine_transaction.split)

lemma handle_engine_timer_inv: "switch_inv (view r) \<Longrightarrow> ok switch_inv (handle_engine_timer E conv r)"
  by (auto simp: handle_engine_timer_def Let_def quiet view_fields fired
      intro!: advance_waiting_inv timer_stopping_inv timer_checking_inv dest: take_stopping take_waiting take_check
      split: option.split engine_transaction.split) (simp add: view_preds)

end

end
