(* ===== verification/Reactor_Safety.thy ===== *)
theory Reactor_Safety
  imports Switch_Safety
begin

text \<open>
  The invariant of the engine transaction through convergence and every event: the contract of
  \<open>safe_convergence\<close> is proved for the reactor's own convergence at every depth, so it holds in every
  state the event loop reaches, whatever the environment answers.
\<close>

section \<open>What convergence leaves alone\<close>

lemma view_ssid [quiet]:
  "view (mark_ssid_unreadable r) = view r" "view (mark_ssid_setup_failed p r) = view r" "view (close_ssid_transport r) = view r"
  by (simp_all add: mark_ssid_unreadable_def mark_ssid_setup_failed_def close_ssid_transport_def quiet)

lemma view_judge_ssid [quiet]: "view (snd (judge_ssid E p r)) = view r"
  by (simp add: judge_ssid_def quiet Let_def split_beta split: sum.split)

lemma view_evaluate_ssid [quiet]: "view (snd (evaluate_ssid E p b r)) = view r"
  by (auto simp: evaluate_ssid_def quiet Let_def split_beta split: sum.split bool.split)

lemma view_read [quiet]:
  "view (snd (read_candidate_policy E b r)) = view r" "view (accept_user r) = view r" "view (reject_user e r) = view r"
  "view (snd (validate_policy E p u r)) = view r" "view (snd (validate_user E p u r)) = view r"
  "view (policy_refused E d r) = view r" "view (disable_tail r) = view r" "view (settle E r) = view r"
  by (auto simp: read_candidate_policy_def accept_user_def reject_user_def validate_policy_def validate_user_def
      policy_refused_def disable_tail_def settle_def quiet Let_def split_beta split: sum.split option.split)

lemma view_read_user [quiet]: "view (snd (read_candidate_user E b f r)) = view r"
  by (auto simp: read_candidate_user_def quiet split_beta split: sum.split option.split)

lemma view_install [quiet]: "view (snd (install_policy E rd r)) = view r"
  by (auto simp: install_policy_def quiet Let_def split_beta split: sum.split option.split bool.split)

lemma inv_settled: "switch_inv v \<Longrightarrow> settled v"
  by (simp add: switch_inv_def)

lemma settled_shutdown [simp]: "settled (v\<lparr>v_shutdown := b\<rparr>) = settled v"
  by (simp add: settled_def balanced_def)

lemma deactivate_runtime_inv: "switch_inv (view r) \<Longrightarrow> switch_inv (view (deactivate_runtime E r))"
  by (simp add: deactivate_runtime_def quiet Let_def split_beta cancel_engine_work_inv inv_settled)

lemma dataplane_blocked_inv: "switch_inv (view r) \<Longrightarrow> switch_inv (view (dataplane_blocked E e r))"
  by (simp add: dataplane_blocked_def quiet Let_def split_beta cancel_engine_work_inv inv_settled)

lemma request_shutdown_inv: "switch_inv (view r) \<Longrightarrow> switch_inv (view (request_shutdown E r))"
  by (simp add: request_shutdown_def quiet Let_def split_beta cancel_engine_work_inv inv_settled)

lemma view_events [quiet]:
  "view (start_scheduled_subscription_fetch E r) = view r" "view (handle_rtnetlink E r) = view r"
  "view (handle_nl80211 E r) = view r" "view (snd (take_debounce_stimulus E r)) = view r"
  by (auto simp: start_scheduled_subscription_fetch_def handle_rtnetlink_def handle_nl80211_def take_debounce_stimulus_def
      quiet Let_def split_beta split: sum.split option.split)

lemma view_retry [quiet]: "view (maybe_retry_subscription_on_route E r) = view r"
  by (simp add: maybe_retry_subscription_on_route_def quiet Let_def)

section \<open>Convergence\<close>

context safe_convergence
begin

lemma keep_engine_inv: "switch_inv (view r) \<Longrightarrow> ok switch_inv (keep_engine E conv u r)"
  by (auto simp: keep_engine_def quiet Let_def split_beta intro!: start_phase6_inv split: option.split)

lemma not_busy_idle: "switch_inv v \<Longrightarrow> v_transaction v = None \<Longrightarrow> v_role v = None \<Longrightarrow> idle v"
  by (auto simp: view_preds)

lemma converge_engine_inv:
  assumes "switch_inv (view r)" and "\<not> v_shutdown (view r)" and "rd_busy rd \<or> idle (view r)"
  shows "ok switch_inv (converge_engine E conv rd u r)"
  using assms by (auto simp: converge_engine_def quiet Let_def view_fields idle_def
      intro!: start_phase6_inv keep_engine_inv start_generation_check_inv split: option.split)

lemma converge_installed_inv:
  assumes "switch_inv (view r)" and "\<not> v_shutdown (view r)" and "rd_busy rd \<or> idle (view r)"
  shows "ok switch_inv (converge_installed E conv rd r)"
  using assms by (auto simp: converge_installed_def quiet Let_def split_beta intro!: converge_engine_inv)

lemma converge_dataplane_inv:
  assumes "switch_inv (view r)" and "\<not> v_shutdown (view r)" and "rd_busy rd \<or> idle (view r)"
  shows "ok switch_inv (converge_dataplane E conv rd r)"
  using assms by (auto simp: converge_dataplane_def quiet Let_def split_beta
      intro!: converge_installed_inv dataplane_blocked_inv split: sum.split option.split)

lemma converge_inputs_inv: "switch_inv (view r) \<Longrightarrow> \<not> v_shutdown (view r) \<Longrightarrow> ok switch_inv (converge_inputs E conv r)"
  unfolding converge_inputs_def Let_def split_beta
  by (auto simp: quiet transaction_busy_def view_fields intro!: deactivate_runtime_inv converge_dataplane_inv not_busy_idle)

lemma converge_step_inv: "switch_inv (view r) \<Longrightarrow> ok switch_inv (converge_step E conv reason r)"
  by (auto simp: converge_step_def quiet Let_def split_beta view_fields
      intro!: cancel_engine_work_inv inv_settled deactivate_runtime_inv converge_inputs_inv split: option.split sum.split)

section \<open>Events\<close>

lemma execute_commands_inv: "switch_inv (view r) \<Longrightarrow> ok switch_inv (execute_commands E conv ks s reason r)"
  by (auto simp: execute_commands_def quiet Let_def split_beta
      intro!: request_shutdown_inv deactivate_runtime_inv cancel_engine_work_inv inv_settled conv_inv split: sum.split)

lemma apply_stimulus_inv: "switch_inv (view r) \<Longrightarrow> ok switch_inv (apply_stimulus E conv s reason r)"
  by (auto simp: apply_stimulus_def quiet Let_def split_beta intro!: ok_bind [OF execute_commands_inv])

lemma handle_signal_inv: "switch_inv (view r) \<Longrightarrow> ok switch_inv (handle_signal E conv sig r)"
  by (auto simp: handle_signal_def quiet intro!: apply_stimulus_inv)

lemma dispatch_request_inv: "switch_inv (view r) \<Longrightarrow> ok switch_inv (dispatch_request E conv q r)"
  by (cases q) (auto simp: dispatch_request_def set_switch_def quiet split_beta intro!: apply_stimulus_inv split: sum.split)

lemma handle_inotify_inv: "switch_inv (view r) \<Longrightarrow> ok switch_inv (handle_inotify E conv r)"
  by (auto simp: handle_inotify_def quiet Let_def split_beta intro!: ok_bind [where P = switch_inv] apply_stimulus_inv)

lemma handle_tc_verify_inv: "switch_inv (view r) \<Longrightarrow> ok switch_inv (handle_tc_verify E conv r)"
  by (auto simp: handle_tc_verify_def quiet split_beta
      intro!: ok_bind [where P = switch_inv] finish_phase6_inv fail_phase6_inv run_queued_inv split: sum.split option.split)

lemma handle_fault_inv: "switch_inv (view r) \<Longrightarrow> ok switch_inv (handle_fault E conv e r)"
  by (auto simp: handle_fault_def quiet intro!: ok_bind [where P = switch_inv] apply_stimulus_inv split: option.split)

lemma handle_fault_list_inv: "switch_inv (view r) \<Longrightarrow> ok switch_inv (handle_fault_list E conv es r)"
  by (induction es arbitrary: r) (auto intro!: ok_bind [where P = switch_inv] handle_fault_inv)

lemma handle_bpf_faults_inv: "switch_inv (view r) \<Longrightarrow> ok switch_inv (handle_bpf_faults E conv r)"
  by (auto simp: handle_bpf_faults_def quiet split_beta intro!: handle_fault_list_inv split: sum.split)

lemma reap_view:
  "\<exists>b. view (snd (reap_child E c r)) = (view r)\<lparr>v_trail := v_trail (view r) @ [Ev_Reap (ch_pid c) b]\<rparr>"
  by (auto simp: reap_child_def quiet Let_def split_beta)

lemma engine_gone_inv:
  assumes i: "switch_inv (view r)" and c: "v_engine (view r) = Some c"
  shows "ok switch_inv (engine_gone E conv c (r\<lparr>rx_engine := None\<rparr>))"
proof -
  define r1 where "r1 = snd (now E (snd (output_head E (r\<lparr>rx_engine := None\<rparr>))))"
  obtain b where b: "view (snd (reap_child E c r1)) = (view r1)\<lparr>v_trail := v_trail (view r1) @ [Ev_Reap (ch_pid c) b]\<rparr>"
    using reap_view by blast
  have v1: "view r1 = (view r)\<lparr>v_engine := None\<rparr>" by (simp add: r1_def quiet)
  show ?thesis
  proof (cases "v_role (view r)")
    case None
    then have "switch_inv (view (snd (reap_child E c r1)))" using i c unfolding b v1 by (auto simp: view_preds)
    then show ?thesis using None b v1
      by (auto simp: engine_gone_def Let_def split_beta quiet view_fields r1_def [symmetric])
  next
    case (Some w)
    then have "vacant ((view (snd (reap_child E c r1)))\<lparr>v_role := None\<rparr>)" using i c unfolding b v1 by (auto simp: view_preds)
    then show ?thesis using Some b v1
      by (auto simp: engine_gone_def Let_def split_beta quiet view_fields r1_def [symmetric] dest: role_not_ending [OF i]
        intro!: role_failed_inv)
  qed
qed

lemma handle_engine_exit_inv: "switch_inv (view r) \<Longrightarrow> ok switch_inv (handle_engine_exit E conv r)"
  by (auto simp: handle_engine_exit_def quiet Let_def split_beta view_fields
      intro!: ok_bind [where P = switch_inv] engine_gone_inv split: option.split)

lemma accept_fetch_inv: "switch_inv (view r) \<Longrightarrow> ok switch_inv (accept_fetch E conv config f r)"
  unfolding accept_fetch_def Let_def split_beta
  by (auto simp: quiet note_transport_failure_def Let_def intro!: ok_bind [OF conv_inv] split: list.split)

lemma handle_subscription_result_inv: "switch_inv (view r) \<Longrightarrow> ok switch_inv (handle_subscription_result E conv r)"
  by (auto simp: handle_subscription_result_def quiet Let_def split_beta intro!: accept_fetch_inv split: sum.split option.split)

lemma dispatch_inv: "switch_inv (view r) \<Longrightarrow> ok switch_inv (rx_dispatch E conv i r)"
proof (cases i)
  case In_Debounce
  assume "switch_inv (view r)"
  then show ?thesis using In_Debounce
    by (auto simp: quiet Let_def split_beta intro!: ok_bind [OF apply_stimulus_inv])
next
  case In_Backoff
  assume "switch_inv (view r)"
  then show ?thesis using In_Backoff
    by (auto simp: quiet Let_def split_beta intro!: apply_stimulus_inv cancel_engine_work_inv inv_settled)
qed (simp_all add: quiet handle_signal_inv dispatch_request_inv request_shutdown_inv handle_inotify_inv handle_engine_exit_inv
    handle_engine_timer_inv handle_transaction_pidfd_inv handle_check_exit_inv drain_check_output_inv handle_sock_diag_inv
    handle_tc_verify_inv handle_bpf_faults_inv handle_subscription_result_inv)

lemma start_inv: "ok switch_inv (rx_start E conv p)"
proof -
  have "switch_inv (view (settle E (rx_new p)))"
    by (simp add: quiet) (simp add: view_def rx_new_def view_preds spawned_def gone_def sound_trail_def)
  then show ?thesis
    by (auto simp: rx_start_def quiet Let_def split_beta intro!: apply_stimulus_inv deactivate_runtime_inv)
qed

end

section \<open>Every reachable state\<close>

lemma rx_converge_inv: "switch_inv (view r) \<Longrightarrow> ok switch_inv (rx_converge E n reason r)"
proof (induction n arbitrary: reason r)
  case (Suc n)
  then have "safe_convergence (rx_converge E n)" by unfold_locales
  then show ?case using safe_convergence.converge_step_inv Suc.prems by simp
qed simp

interpretation rx: safe_convergence E "rx_converge E n" for E n
  by unfold_locales (rule rx_converge_inv)

text \<open>The event loop: a cold start, then any sequence of events, each handled with some depth of convergence.\<close>

inductive rx_reach :: "rx_env \<Rightarrow> reactor \<Rightarrow> bool" for E where
  cold: "rx_start E (rx_converge E n) p = Some r \<Longrightarrow> rx_reach E r"
| event: "rx_reach E r \<Longrightarrow> rx_dispatch E (rx_converge E n) i r = Some r' \<Longrightarrow> rx_reach E r'"

lemma reach_inv: "rx_reach E r \<Longrightarrow> switch_inv (view r)"
proof (induction rule: rx_reach.induct)
  case (cold n p r)
  then show ?case using rx.start_inv [of E n p] by (simp add: ok_def)
next
  case (event r n i r')
  then show ?case using rx.dispatch_inv [of r E n i] by (simp add: ok_def)
qed

lemma trail_spawned: "spawned (filter relevant log) = spawned log" "gone (filter relevant log) = gone log"
proof -
  have "spawn_of e = {#} \<and> gone_of e = {#}" if "\<not> relevant e" for e using that by (cases e) simp_all
  then show "spawned (filter relevant log) = spawned log" "gone (filter relevant log) = gone log"
    by (induction log) (auto simp: spawned_def gone_def)
qed

end
