(* ===== verification/Reactor_Runs.thy ===== *)
theory Reactor_Runs
  imports Reactor_Safety
begin

text \<open>
  Properties of every state the event loop reaches, and runs of it in a concrete environment: a cold
  start whose child becomes ready and gets capture, a shutdown, and a child that outlives SIGKILL.
\<close>

section \<open>A concrete environment\<close>

definition sample_flux :: flux_config where
  "sample_flux = \<lparr>cfg_apps_mode = Blacklist, cfg_apps = [], cfg_cidr_mode = Blacklist, cfg_bypass_v4 = [], cfg_bypass_v6 = [],
     cfg_interfaces_mode = Blacklist, cfg_interfaces = [], cfg_ssid_mode = Blacklist, cfg_ssids = [],
     cfg_nodes = \<lparr>nc_sources = [], nc_fetch = fetch_default, nc_policy = \<lparr>np_config = \<lparr>rc_exclude_pattern = [], rc_rename = [], rc_strip_emoji = False, rc_max_tag_length = 1\<rparr>,
       np_exclude = None,
       np_renames = [], np_groups = []\<rparr>\<rparr>, cfg_log = log_default\<rparr>"

definition sample_listeners :: "raw_message list" where
  "sample_listeners =
    [diag_message 20 0 1 ([2, 10, 0, 0, 238, 73, 0, 0, 127, 0, 0, 1] @ replicate 56 0 @ [7, 0, 0, 0]),
     diag_message 20 0 1 ([10, 10, 0, 0, 238, 74, 0, 0] @ replicate 15 0 @ [1] @ replicate 44 0 @ [8, 0, 0, 0]),
     diag_message NLMSG_DONE 0 1 [0, 0, 0, 0]]"

definition sample_spec :: engine_spec where
  "sample_spec = \<lparr>sp_binary = ''e'', sp_workdir = ''w'', sp_listen_v4 = 0x7F000001, sp_listen_v6 = 1\<rparr>"

definition sample_world :: "(rx_log \<Rightarrow> nat) \<Rightarrow> rx_env" where
  "sample_world clock = \<lparr>
     en_spec = sample_spec,
     en_io_text = (\<lambda>_. ''io''), en_to_vec = (\<lambda>_. None), en_disabled = (\<lambda>_. False), en_now = clock,
     en_ports = (\<lambda>_. Ok (61001, 61002)), en_write_effective = (\<lambda>_ _ _. Ok ''c''), en_spawn_check = (\<lambda>_ _. Ok ()),
     en_watch = (\<lambda>_. Ok ()), en_reads = (\<lambda>_. []), en_try_wait = (\<lambda>_. Ok (Some (Exit_Code 0))),
     en_spawn = (\<lambda>_ _ _. Ok (7, 5)), en_exited = (\<lambda>_ _. False),
     en_stat = (\<lambda>_ _. Some ''7 (e) R 0 0 0 0 0 0 0 0 0 0 0 0 0 0 0 0 0 0 5''),
     en_exe = (\<lambda>_ _. Ok ''e''), en_canonical = (\<lambda>_ _. Ok ''e''), en_owns = (\<lambda>_ _ _. Ok True), en_send = (\<lambda>_ _. Ok ()),
     en_recv = (\<lambda>_. Ok sample_listeners), en_terminate = (\<lambda>_ _. Ok ''code=0''), en_freeze = (\<lambda>_. Ok ()),
     en_activate = (\<lambda>_. Ok ()), en_prepare = (\<lambda>_ _. Ok ()), en_clear_latch = (\<lambda>_. Ok ()), en_attach = (\<lambda>_. Ok None),
     en_cancel_attachment = (\<lambda>_. Ok ()), en_apply_policy = (\<lambda>_ _. Ok ()), en_dp_error = (\<lambda>_. None), en_dp_active = (\<lambda>_. False),
     en_attachment_ready = (\<lambda>_. True), en_attachment_busy = (\<lambda>_. False), en_register_ring = (\<lambda>_. Ok ()),
     en_route_ready = (\<lambda>_. Ok True), en_layout = (\<lambda>_. Ok ()),
     en_read_policy = (\<lambda>_. Ok \<lparr>pc_flux = sample_flux, pc_desired = sample_policy, pc_warnings = []\<rparr>),
     en_read_engine = (\<lambda>_ _. Ok (JObject [])), en_load_config = (\<lambda>_. Ok sample_flux), en_fakeip = (\<lambda>_ _. Ok ()),
     en_worker_start = (\<lambda>_. Ok True), en_snapshots = (\<lambda>_. []), en_cache_write = (\<lambda>_ _ _. Ok ()), en_ssid_open = (\<lambda>_. Ok False),
     en_ssid_dump = (\<lambda>_. Ok []), en_ssid_drain = (\<lambda>_. Ok Drain_Quiet), en_advance = (\<lambda>_. Ok None), en_faults = (\<lambda>_. Ok []),
     en_rtnetlink = (\<lambda>_. Ok Drain_Quiet), en_watches = (\<lambda>_. Ok []), en_set_switch = (\<lambda>_ _. Ok ()), en_fetched = (\<lambda>_. None),
     en_remote = (\<lambda>_ _. Ok ())\<rparr>"

lemma sample_world_simps [simp]:
  "en_spec (sample_world clock) = sample_spec"
  "en_io_text (sample_world clock) = (\<lambda>_. ''io'')"
  "en_to_vec (sample_world clock) = (\<lambda>_. None)"
  "en_disabled (sample_world clock) = (\<lambda>_. False)"
  "en_now (sample_world clock) = clock"
  "en_ports (sample_world clock) = (\<lambda>_. Ok (61001, 61002))"
  "en_write_effective (sample_world clock) = (\<lambda>_ _ _. Ok ''c'')"
  "en_spawn_check (sample_world clock) = (\<lambda>_ _. Ok ())"
  "en_watch (sample_world clock) = (\<lambda>_. Ok ())"
  "en_reads (sample_world clock) = (\<lambda>_. [])"
  "en_try_wait (sample_world clock) = (\<lambda>_. Ok (Some (Exit_Code 0)))"
  "en_spawn (sample_world clock) = (\<lambda>_ _ _. Ok (7, 5))"
  "en_exited (sample_world clock) = (\<lambda>_ _. False)"
  "en_stat (sample_world clock) = (\<lambda>_ _. Some ''7 (e) R 0 0 0 0 0 0 0 0 0 0 0 0 0 0 0 0 0 0 5'')"
  "en_exe (sample_world clock) = (\<lambda>_ _. Ok ''e'')"
  "en_canonical (sample_world clock) = (\<lambda>_ _. Ok ''e'')"
  "en_owns (sample_world clock) = (\<lambda>_ _ _. Ok True)"
  "en_send (sample_world clock) = (\<lambda>_ _. Ok ())"
  "en_recv (sample_world clock) = (\<lambda>_. Ok sample_listeners)"
  "en_terminate (sample_world clock) = (\<lambda>_ _. Ok ''code=0'')"
  "en_freeze (sample_world clock) = (\<lambda>_. Ok ())"
  "en_activate (sample_world clock) = (\<lambda>_. Ok ())"
  "en_prepare (sample_world clock) = (\<lambda>_ _. Ok ())"
  "en_clear_latch (sample_world clock) = (\<lambda>_. Ok ())"
  "en_attach (sample_world clock) = (\<lambda>_. Ok None)"
  "en_cancel_attachment (sample_world clock) = (\<lambda>_. Ok ())"
  "en_apply_policy (sample_world clock) = (\<lambda>_ _. Ok ())"
  "en_dp_error (sample_world clock) = (\<lambda>_. None)"
  "en_dp_active (sample_world clock) = (\<lambda>_. False)"
  "en_attachment_ready (sample_world clock) = (\<lambda>_. True)"
  "en_attachment_busy (sample_world clock) = (\<lambda>_. False)"
  "en_register_ring (sample_world clock) = (\<lambda>_. Ok ())"
  "en_route_ready (sample_world clock) = (\<lambda>_. Ok True)"
  "en_layout (sample_world clock) = (\<lambda>_. Ok ())"
  "en_read_policy (sample_world clock) = (\<lambda>_. Ok \<lparr>pc_flux = sample_flux, pc_desired = sample_policy, pc_warnings = []\<rparr>)"
  "en_read_engine (sample_world clock) = (\<lambda>_ _. Ok (JObject []))"
  "en_load_config (sample_world clock) = (\<lambda>_. Ok sample_flux)"
  "en_fakeip (sample_world clock) = (\<lambda>_ _. Ok ())"
  "en_worker_start (sample_world clock) = (\<lambda>_. Ok True)"
  "en_snapshots (sample_world clock) = (\<lambda>_. [])"
  "en_cache_write (sample_world clock) = (\<lambda>_ _ _. Ok ())"
  "en_ssid_open (sample_world clock) = (\<lambda>_. Ok False)"
  "en_ssid_dump (sample_world clock) = (\<lambda>_. Ok [])"
  "en_ssid_drain (sample_world clock) = (\<lambda>_. Ok Drain_Quiet)"
  "en_advance (sample_world clock) = (\<lambda>_. Ok None)"
  "en_faults (sample_world clock) = (\<lambda>_. Ok [])"
  "en_rtnetlink (sample_world clock) = (\<lambda>_. Ok Drain_Quiet)"
  "en_watches (sample_world clock) = (\<lambda>_. Ok [])"
  "en_set_switch (sample_world clock) = (\<lambda>_ _. Ok ())"
  "en_fetched (sample_world clock) = (\<lambda>_. None)"
  "en_remote (sample_world clock) = (\<lambda>_ _. Ok ())"
  by (simp_all add: sample_world_def)

lemma sample_effective: "\<exists>j. build_effective (JObject []) \<lparr>ep_generation = 1, ep_port_v4 = 61001, ep_port_v6 = 61002\<rparr> = Ok j"
proof -
  have "isl (build_effective (JObject []) \<lparr>ep_generation = 1, ep_port_v4 = 61001, ep_port_v6 = 61002\<rparr>) = False" by code_simp
  then show ?thesis by (metis isl_def not_Some_eq sum.exhaust_sel)
qed

definition sample_candidate :: policy_candidate where
  "sample_candidate = \<lparr>pc_flux = sample_flux, pc_desired = sample_policy, pc_warnings = []\<rparr>"

definition sample_state :: "rx_log \<Rightarrow> engine_transaction option \<Rightarrow> probe_ready option \<Rightarrow> reactor" where
  "sample_state log t p = (rx_new None)\<lparr>rx_log := log, rx_engine_timer := True, rx_transaction := t, rx_diag_probe := p,
     rx_generations := \<lparr>g_next = 2, g_committed = 0\<rparr>, rx_current_policy := Some sample_candidate,
     rx_planner := \<lparr>m_phase = Ph_Activating, m_next_id = 2\<rparr>\<rparr>"

definition sample_plan :: switch_plan where
  "sample_plan = \<lparr>pl_generation = 1, pl_params = \<lparr>ep_generation = 1, ep_port_v4 = 61001, ep_port_v6 = 61002\<rparr>,
     pl_candidate = ''c'', pl_user = JObject [], pl_old = None\<rparr>"

lemma sample_sources [simp]: "remote_sources (cfg_nodes sample_flux) = []" "cfg_ssids sample_flux = []"
  by (simp_all add: sample_flux_def remote_sources_def map_filter_def)

lemmas cold_start =
  rx_start_def settle_def rx_phase_def rx_new_def coordinator_default_def transaction_busy_def dp_active_def
  disabled_def ask_def emit_def apply_stimulus_def execute_commands_def converge_step_def converge_inputs_def
  read_candidate_policy_def read_candidate_user_def ensure_subscription_schedule_def on_coord_def
  accept_user_def flux_of_def validate_policy_def validate_user_def evaluate_ssid_def close_ssid_transport_def
  converge_dataplane_def cancel_attachment_def converge_installed_def install_policy_def
  clear_policy_error_def configure_subscription_def complete_subscribe_controls_def
  clear_subscription_error_def converge_engine_def start_generation_check_def retain_current_def
  cancel_backoff_def watch_def now_def arm_engine_timer_def pending_generation_def

lemma sample_start:
  "\<exists>log d. rx_start (sample_world clock) (rx_converge (sample_world clock) 1) None =
    Some (sample_state log (Some (Checking \<lparr>ck_captured = []\<rparr> sample_plan d Check_Normal)) None)"
  using sample_effective
  by (auto simp: cold_start Let_def plan_def observe_def model_new_def with_cmds_def generations_new_def allocate_def checked_add_def
    saturating_add_def sample_state_def sample_plan_def sample_candidate_def)

definition sample_child :: "nat \<Rightarrow> engine_child" where
  "sample_child t = \<lparr>ch_pid = 7, ch_start_time = 5, ch_identity_verified = False, ch_params = pl_params sample_plan,
     ch_effective = ''c'', ch_spawned_at = t, ch_sockets_verified = 0\<rparr>"

lemma sample_checked:
  "\<exists>log' mid t. handle_check_exit (sample_world clock) conv
      (sample_state log (Some (Checking \<lparr>ck_captured = []\<rparr> sample_plan d Check_Normal)) None) =
    Some (sample_state log' (Some (Waiting (sample_child t) (Candidate sample_plan) (clock mid + READY_DEADLINE) 10)) None) \<and>
    length mid < length log'"
  by (simp add: handle_check_exit_def finish_check_def check_finish_def drain_output_def drain_reads_code complete_check_def
      start_candidate_def spawn_def wait_for_child_def disarm_engine_timer_def cold_start Let_def sample_state_def sample_child_def sample_plan_def)
    (use less_Suc_eq_le in fastforce)

definition verified_child :: "nat \<Rightarrow> engine_child" where
  "verified_child t = (sample_child t)\<lparr>ch_identity_verified := True\<rparr>"

lemma sample_identity:
  "verify_process_identity (en_stat (sample_world clock) log 7) (Ok ''e'') (Ok ''e'') (sample_child t) = (Ok True, verified_child t)"
proof -
  have "proc_start_time (Some ''7 (e) R 0 0 0 0 0 0 0 0 0 0 0 0 0 0 0 0 0 0 5'') = Some 5" by code_simp
  then show ?thesis by (simp add: verify_process_identity_def sample_child_def verified_child_def)
qed

fun sample_probe :: "nat \<Rightarrow> probe_ready" where
  "sample_probe 0 = fst (probe_start (\<lambda>_. Ok ()) (expectations sample_spec (pl_params sample_plan)))"
| "sample_probe (Suc k) = fst (on_readable (Ok sample_listeners) (\<lambda>_. Ok ()) (sample_probe k))"

lemma sample_probe_run:
  "snd (probe_start (\<lambda>_. Ok ()) (expectations sample_spec (pl_params sample_plan))) = Done ()"
  "snd (on_readable (Ok sample_listeners) (\<lambda>_. Ok ()) (sample_probe 0)) = Done Wait"
  "snd (on_readable (Ok sample_listeners) (\<lambda>_. Ok ()) (sample_probe 1)) = Done Wait"
  "snd (on_readable (Ok sample_listeners) (\<lambda>_. Ok ()) (sample_probe 2)) = Done Wait"
  "snd (on_readable (Ok sample_listeners) (\<lambda>_. Ok ()) (sample_probe 3)) = Done (Ready [7, 7, 8, 8])"
  by code_simp+

lemma ch_pid_sample [simp]: "ch_pid (sample_child t) = 7" "ch_pid (verified_child t) = 7" "ch_params (verified_child t) = pl_params sample_plan"
  by (simp_all add: sample_child_def verified_child_def)

text \<open>With a clock that stands still the child becomes ready in time.\<close>

abbreviation waiting :: "engine_child \<Rightarrow> engine_transaction option" where
  "waiting c \<equiv> Some (Waiting c (Candidate sample_plan) READY_DEADLINE 10)"

abbreviation still_world :: rx_env where
  "still_world \<equiv> sample_world (\<lambda>_. 0)"

lemma sample_timer:
  "\<exists>log'. handle_engine_timer still_world conv (sample_state log (waiting (sample_child t)) None) =
    Some (sample_state log' (waiting (verified_child t)) (Some (sample_probe 0)))"
  using sample_probe_run(1) sample_identity
  by (auto simp: handle_engine_timer_def advance_waiting_def still_waiting_def has_exited_def check_identity_def start_probe_def
      park_waiting_def cold_start Let_def sample_state_def READY_DEADLINE_def split: prod.split outcome.split)

lemma sample_diag:
  assumes "snd (on_readable (Ok sample_listeners) (\<lambda>_. Ok ()) (sample_probe k)) = Done Wait"
  shows "\<exists>log'. handle_sock_diag still_world conv (sample_state log (waiting (verified_child t)) (Some (sample_probe k))) =
    Some (sample_state log' (waiting (verified_child t)) (Some (sample_probe (Suc k))))"
  using assms by (auto simp: handle_sock_diag_def still_waiting_def has_exited_def park_waiting_def cold_start Let_def sample_state_def
      READY_DEADLINE_def split: prod.split)

definition ready_child :: "nat \<Rightarrow> engine_child" where
  "ready_child t = (verified_child t)\<lparr>ch_sockets_verified := 4\<rparr>"

lemma sample_ready:
  "\<exists>log'. handle_sock_diag still_world conv (sample_state log (waiting (verified_child t)) (Some (sample_probe 3))) =
    promote_ready_child still_world conv (ready_child t) (Candidate sample_plan) (sample_state log' None None)"
proof -
  obtain p where "on_readable (Ok sample_listeners) (\<lambda>_. Ok ()) (sample_probe 3) = (p, Done (Ready [7, 7, 8, 8]))"
    using sample_probe_run(5) by (metis prod.collapse)
  then show ?thesis
    by (auto simp: handle_sock_diag_def still_waiting_def has_exited_def judge_inodes_def verify_listener_inodes_def detach_def
        cold_start Let_def sample_state_def READY_DEADLINE_def ready_child_def)
qed

lemma sample_commit:
  assumes "rx_activation_role r \<in> {None, Some (Candidate sample_plan)}" "rx_transaction r = None" "rx_coord r = coordinator_default"
    "\<not> rx_shutdown_requested r" "\<not> rx_reload_requested r" "\<not> rx_policy_changed r" "\<not> rx_engine_config_changed r" "\<not> rx_topology_changed r"
  shows "\<exists>r' es. commit_activation (sample_world clock) conv c r = Some r' \<and> rx_log r' = rx_log r @ es"
  using assms by (auto simp: commit_activation_def clear_error_def resume_queued_subscription_work_def transaction_busy_def
      coordinator_default_def run_queued_convergence_def disabled_def ask_def emit_def complete_when_idle_def
      complete_convergence_controls_def sample_plan_def)

lemma sample_publish:
  assumes "rx_activation_role r \<in> {None, Some (Candidate sample_plan)}" "rx_engine r = Some c" "rx_transaction r = None" "rx_coord r = coordinator_default"
    "\<not> rx_shutdown_requested r" "\<not> rx_reload_requested r" "\<not> rx_policy_changed r" "\<not> rx_engine_config_changed r" "\<not> rx_topology_changed r"
  shows "\<exists>r'. attach (sample_world clock) conv True r = Some r' \<and> Ev_Activate (Some c) True \<in> set (rx_log r')"
proof -
  define s where "s = snd (publish_active (sample_world clock) (emit (Ev_Disarm T_tc_verify) (snd (ask (en_attach (sample_world clock)) C_begin_attachment r))))"
  have "\<exists>r' es. commit_activation (sample_world clock) conv c s = Some r' \<and> rx_log r' = rx_log s @ es"
    by (rule sample_commit) (use assms in \<open>simp_all add: s_def publish_active_def ask_def emit_def\<close>)
  moreover have "attach (sample_world clock) conv True r = commit_activation (sample_world clock) conv c s"
    using assms by (cases r) (auto simp: s_def attach_def finish_phase6_activation_def commit_pending_subscription_def take_pending_if_generation_def
        coordinator_default_def publish_activation_def publish_active_def ask_def emit_def Let_def)
  moreover have "Ev_Activate (Some c) True \<in> set (rx_log s)"
    using assms by (simp add: s_def publish_active_def ask_def emit_def)
  ultimately show ?thesis by auto
qed

lemma sample_active:
  "\<exists>r. promote_ready_child (sample_world clock) conv (ready_child t) (Candidate sample_plan) (sample_state log None None) = Some r \<and>
    Ev_Activate (Some (ready_child t)) True \<in> set (rx_log r)"
proof -
  define s where "s = snd (ask (en_clear_latch (sample_world clock)) C_clear_fault_latch (snd (ask (\<lambda>log. en_prepare (sample_world clock) log (ch_params (ready_child t))) C_prepare_generation
    ((disarm_engine_timer (snd (watch (sample_world clock) (sample_state log None None))))\<lparr>rx_engine := Some (ready_child t),
      rx_activation_role := Some (Candidate sample_plan), rx_cancel_requested := False\<rparr>))))"
  have "promote_ready_child (sample_world clock) conv (ready_child t) (Candidate sample_plan) (sample_state log None None) = attach (sample_world clock) conv True s"
    by (simp add: promote_ready_child_def drop_diag_probe_def sample_state_def watch_def start_phase6_attachment_def ask_def s_def disarm_engine_timer_def emit_def rx_new_def)
  moreover have "\<exists>r'. attach (sample_world clock) conv True s = Some r' \<and> Ev_Activate (Some (ready_child t)) True \<in> set (rx_log r')"
    by (rule sample_publish) (simp_all add: s_def ask_def emit_def watch_def disarm_engine_timer_def sample_state_def rx_new_def)
  ultimately show ?thesis by simp
qed

lemma dispatch_reach: "rx_reach E r \<Longrightarrow> rx_dispatch E (rx_converge E n) i r = Some r' \<Longrightarrow> rx_reach E r'"
  by (rule rx_reach.event)

lemma sample_waiting_reached:
  "\<exists>log mid t. rx_reach (sample_world clock) (sample_state log (Some (Waiting (sample_child t) (Candidate sample_plan) (clock mid + READY_DEADLINE) 10)) None) \<and>
    length mid < length log"
proof -
  obtain log d where a: "rx_start (sample_world clock) (rx_converge (sample_world clock) 1) None =
      Some (sample_state log (Some (Checking \<lparr>ck_captured = []\<rparr> sample_plan d Check_Normal)) None)"
    using sample_start by blast
  obtain log' mid t where b: "handle_check_exit (sample_world clock) (rx_converge (sample_world clock) 1)
        (sample_state log (Some (Checking \<lparr>ck_captured = []\<rparr> sample_plan d Check_Normal)) None) =
      Some (sample_state log' (Some (Waiting (sample_child t) (Candidate sample_plan) (clock mid + READY_DEADLINE) 10)) None)"
    "length mid < length log'"
    using sample_checked by blast
  then show ?thesis using rx_reach.cold [OF a] dispatch_reach [where i = In_Check_Pidfd] by (metis rx_dispatch.simps(10))
qed

lemma sample_active_reached: "\<exists>r t. rx_reach still_world r \<and> Ev_Activate (Some (ready_child t)) True \<in> set (rx_log r)"
proof -
  obtain log t where 0: "rx_reach still_world (sample_state log (waiting (sample_child t)) None)"
    using sample_waiting_reached [of "\<lambda>_. 0"] by auto
  obtain log1 where 1: "rx_reach still_world (sample_state log1 (waiting (verified_child t)) (Some (sample_probe 0)))"
    using sample_timer [of "rx_converge still_world 1" log t] dispatch_reach [OF 0, where i = In_Engine_Timer and n = 1] by fastforce
  have step: "\<exists>log'. rx_reach still_world (sample_state log' (waiting (verified_child t)) (Some (sample_probe (Suc k))))"
    if "rx_reach still_world (sample_state log (waiting (verified_child t)) (Some (sample_probe k)))"
      "snd (on_readable (Ok sample_listeners) (\<lambda>_. Ok ()) (sample_probe k)) = Done Wait" for log k
    using sample_diag [OF that(2), of "rx_converge still_world 1" log t] dispatch_reach [OF that(1), where i = In_Sock_Diag and n = 1]
    by fastforce
  obtain log2 where 2: "rx_reach still_world (sample_state log2 (waiting (verified_child t)) (Some (sample_probe 3)))"
    using step [OF 1 sample_probe_run(2)] step sample_probe_run(3,4) by (metis One_nat_def Suc_1 numeral_3_eq_3)
  obtain log3 r where "handle_sock_diag still_world (rx_converge still_world 1) (sample_state log2 (waiting (verified_child t)) (Some (sample_probe 3))) = Some r"
      "Ev_Activate (Some (ready_child t)) True \<in> set (rx_log r)"
    using sample_ready [of "rx_converge still_world 1" log2 t] sample_active by metis
  then show ?thesis using dispatch_reach [OF 2, where i = In_Sock_Diag and n = 1] by auto
qed

section \<open>Properties of every reachable state\<close>

text \<open>
  C5: Whatever the environment answers, in every state the event loop reaches each engine process that
  was started has been given up to \<open>terminate\<close> or is held, and at most one is held: by the running
  engine or by the transaction, never by both. So no two supervised engines exist at once.
\<close>

theorem one_engine_at_a_time:
  assumes "rx_reach E r"
  shows "spawned (rx_log r) = gone (rx_log r) + pid_set (rx_engine r) + pid_set (transaction_child (rx_transaction r)) \<and>
    (rx_engine r = None \<or> transaction_child (rx_transaction r) = None)"
  using reach_inv [OF assms] by (auto simp: view_preds view_def trail_spawned)

theorem one_engine_at_a_time_witness:
  "\<exists>r. rx_reach still_world r \<and> rx_engine r = None \<and> spawned (rx_log r) = gone (rx_log r) + {#7#}"
proof -
  obtain log t where r: "rx_reach still_world (sample_state log (waiting (sample_child t)) None)"
    using sample_waiting_reached [of "\<lambda>_. 0"] by auto
  then show ?thesis using one_engine_at_a_time [OF r] by (intro exI [of _ "sample_state log (waiting (sample_child t)) None"])
    (simp add: sample_state_def rx_new_def)
qed



text \<open>
  C8: The fields of a reachable state fit together: a pending transaction always has its timer armed, a
  socket probe belongs to a waiting child whose identity is verified, an engine waiting for activation is
  held and no transaction is pending then, and after a shutdown request nothing is awaited.
\<close>

theorem reactor_state_well_formed:
  assumes "rx_reach E r"
  shows "(rx_transaction r \<noteq> None \<longrightarrow> rx_engine_timer r) \<and>
    (rx_diag_probe r \<noteq> None \<longrightarrow> (\<exists>c w d k. rx_transaction r = Some (Waiting c w d k) \<and> ch_identity_verified c)) \<and>
    (rx_activation_role r \<noteq> None \<longrightarrow> rx_transaction r = None \<and> rx_engine r \<noteq> None) \<and>
    (rx_shutdown_requested r \<longrightarrow> rx_activation_role r = None \<and> ending (rx_transaction r))"
  using reach_inv [OF assms] by (simp add: switch_inv_def settled_def view_def)

theorem reactor_state_well_formed_witness:
  "\<exists>r. rx_reach still_world r \<and> rx_transaction r \<noteq> None \<and> rx_engine_timer r"
proof -
  obtain log t where r: "rx_reach still_world (sample_state log (waiting (sample_child t)) None)"
    using sample_waiting_reached [of "\<lambda>_. 0"] by auto
  then show ?thesis using reactor_state_well_formed [OF r]
    by (intro exI [of _ "sample_state log (waiting (sample_child t)) None"]) (simp add: sample_state_def rx_new_def)
qed

lemma cancelled_stop_finishes:
  assumes "rx_shutdown_requested r" and "rx_engine r = None"
  shows "\<exists>r'. complete_stopped E conv c Stop_Cancelled r = Some r' \<and> rx_finished r'"
  using assms by (auto simp: complete_stopped_def output_head_def ask_def emit_def reap_child_def finish_cancelled_def remove_file_def
      disarm_engine_timer_def drop_diag_probe_def disabled_def complete_convergence_controls_def clear_error_def rx_finished_def
      Let_def split: option.split)

text \<open>
  C9: Once shutdown is requested, the exit of the child being stopped ends the event loop: its handler
  returns without converging again and leaves neither an engine nor a transaction.
\<close>

theorem shutdown_ends_with_last_child:
  assumes "rx_reach E r" and "rx_shutdown_requested r" and "rx_transaction r = Some (Stopping c nxt d k)"
  shows "\<exists>r'. rx_dispatch E conv In_Tx_Pidfd r = Some r' \<and> rx_finished r'"
proof -
  have "nxt = Stop_Cancelled" "rx_engine r = None"
    using reach_inv [OF assms(1)] assms(2,3) by (auto simp: view_preds view_def)
  then show ?thesis using cancelled_stop_finishes [of "r\<lparr>rx_transaction := None\<rparr>" E conv c] assms(2,3)
    by (simp add: handle_transaction_pidfd_def)
qed

lemma sample_stopping_reached:
  "\<exists>r c d k. rx_reach still_world r \<and> rx_shutdown_requested r \<and> rx_transaction r = Some (Stopping c Stop_Cancelled d k)"
proof -
  obtain log t where 0: "rx_reach still_world (sample_state log (waiting (sample_child t)) None)"
    using sample_waiting_reached [of "\<lambda>_. 0"] by auto
  have "\<exists>r c d k. rx_dispatch still_world (rx_converge still_world 1) (In_Signal SIGTERM) (sample_state log (waiting (sample_child t)) None) = Some r \<and>
      rx_shutdown_requested r \<and> rx_transaction r = Some (Stopping c Stop_Cancelled d k)"
    by (auto simp: handle_signal_def SIGTERM_def SIGHUP_def apply_stimulus_def plan_def with_cmds_def execute_commands_def request_shutdown_def
        Engine_Switch.publish_inactive_def cancel_attachment_def cancel_engine_work_def drop_diag_probe_def begin_stop_def watch_def now_def
        ask_def emit_def arm_engine_timer_def settle_def sample_state_def rx_new_def sample_plan_def Let_def)
  then show ?thesis using dispatch_reach [OF 0] by blast
qed

theorem shutdown_ends_with_last_child_witness:
  "\<exists>r r'. rx_reach still_world r \<and> rx_dispatch still_world (\<lambda>_ _. None) In_Tx_Pidfd r = Some r' \<and> rx_finished r'"
  using sample_stopping_reached shutdown_ends_with_last_child by blast

section \<open>A child that outlives SIGKILL\<close>

text \<open>With a clock that runs fast the candidate misses its deadline; it is stopped, killed and taken back, and the
  next retry activates capture for it.\<close>

definition fast_clock :: "rx_log \<Rightarrow> nat" where
  "fast_clock log = 100000 * length log"

abbreviation fast_world :: rx_env where
  "fast_world \<equiv> sample_world fast_clock"

lemma fast_passed:
  assumes "length a < length b" and "k < 100000"
  shows "fast_clock a + k \<le> fast_clock b" and "\<not> fast_clock b < fast_clock a + k"
proof -
  have "100000 * (length a + 1) \<le> 100000 * length b" using assms(1) by (intro mult_le_mono2) simp
  then show "fast_clock a + k \<le> fast_clock b" "\<not> fast_clock b < fast_clock a + k" using assms(2) by (simp_all add: fast_clock_def)
qed

lemma fast_missed:
  assumes "length mid < length log"
  shows "\<exists>log' mid'. handle_engine_timer fast_world conv
      (sample_state log (Some (Waiting (sample_child t) (Candidate sample_plan) (fast_clock mid + READY_DEADLINE) 10)) None) =
    Some (sample_state log' (Some (Stopping (sample_child t) (Recover sample_plan (NotReady 0)) (fast_clock mid' + TERMINATE_GRACE) False)) None) \<and>
    length mid' < length log'"
  using assms by (simp add: handle_engine_timer_def advance_waiting_def still_waiting_def has_exited_def fail_waiting_def begin_stop_def
      drop_diag_probe_def cold_start Let_def sample_state_def READY_DEADLINE_def fast_passed sample_child_def) (use less_Suc_eq_le in fastforce)

lemma fast_killed:
  assumes "length mid < length log"
  shows "\<exists>log' mid'. handle_engine_timer fast_world conv
      (sample_state log (Some (Stopping (sample_child t) nxt (fast_clock mid + TERMINATE_GRACE) False)) None) =
    Some (sample_state log' (Some (Stopping (sample_child t) nxt (fast_clock mid' + 2000) True)) None) \<and> length mid' < length log'"
  using assms by (simp add: handle_engine_timer_def timer_stopping_def has_exited_def
      cold_start Let_def sample_state_def TERMINATE_GRACE_def fast_passed) (use less_Suc_eq_le in fastforce)

definition taken_back :: "engine_child \<Rightarrow> reactor \<Rightarrow> bool" where
  "taken_back c r \<longleftrightarrow> rx_engine r = Some c \<and> rx_transaction r = None \<and> rx_activation_role r = None \<and> rx_coord r = coordinator_default \<and>
    \<not> rx_shutdown_requested r \<and> \<not> rx_reload_requested r \<and> \<not> rx_policy_changed r \<and> \<not> rx_engine_config_changed r \<and>
    \<not> rx_topology_changed r \<and> rx_bad_page_size r = None \<and> rx_current_policy r = Some sample_candidate \<and>
    rx_subscription_error r = None \<and> \<not> rx_ssid_transport r \<and> \<not> rx_dataplane_error_active r \<and> m_phase (rx_planner r) = Ph_Activating"

lemma fast_taken_back:
  assumes "length mid < length log"
  shows "\<exists>r. handle_engine_timer fast_world conv (sample_state log (Some (Stopping c (Recover sample_plan e) (fast_clock mid + 2000) True)) None) = Some r \<and>
    taken_back c r"
  using assms by (simp add: handle_engine_timer_def timer_stopping_def has_exited_def stop_confirmation_failed_def discard_generation_def
      set_error_def schedule_backoff_def complete_convergence_controls_def resume_queued_subscription_work_def disarm_engine_timer_def
      cold_start Let_def sample_state_def fast_passed taken_back_def sample_plan_def sample_child_def)

lemma taken_back_phase6:
  assumes "taken_back c r"
  shows "\<exists>r'. start_phase6_attachment (sample_world clock) conv (ch_params c) r = Some r' \<and> Ev_Activate (Some c) True \<in> set (rx_log r')"
proof -
  define s where "s = emit (Ev_Call C_clear_fault_latch) (emit (Ev_Call C_prepare_generation) r)"
  have "start_phase6_attachment (sample_world clock) conv (ch_params c) r = attach (sample_world clock) conv True s"
    by (simp add: start_phase6_attachment_def dp_active_def ask_def s_def)
  moreover have "\<exists>r'. attach (sample_world clock) conv True s = Some r' \<and> Ev_Activate (Some c) True \<in> set (rx_log r')"
    by (rule sample_publish) (use assms in \<open>simp_all add: s_def emit_def taken_back_def\<close>)
  ultimately show ?thesis by simp
qed

lemma taken_back_converges:
  assumes "taken_back c r"
  shows "\<exists>r'. converge_step (sample_world clock) conv reason r = Some r' \<and> Ev_Activate (Some c) True \<in> set (rx_log r')"
proof -
  have "\<exists>r1. converge_step (sample_world clock) conv reason r = start_phase6_attachment (sample_world clock) conv (ch_params c) r1 \<and> taken_back c r1"
    using assms by (cases r) (simp add: taken_back_def keep_engine_def cold_start Let_def sample_candidate_def, intro exI, rule conjI, rule refl, simp)
  then show ?thesis using taken_back_phase6 by metis
qed


end
