(* ===== verification/Spec2Isabelle.thy ===== *)
theory Spec2Isabelle
  imports Runtime List_Mode Snapshot Map_Table Policy_Epoch Parse_Bounds Selector Mod_Info Sha256 Btf Kmod_Uapi Wire Config
    Ring_Buffer Supervisor Bpf_Object Sock_Diag Manager_Life Reactor_Runs
begin

text \<open>
  A verification of Flux, a transparent-proxy daemon for Android written in Rust.

  The program. The daemon (crates/fluxd) runs a proxy engine, sing-box, as a child process and steers the
  traffic of selected applications into it through a kernel module. Its pure decisions are in
  crates/flux-core. A supervisor process restarts the daemon. In the daemon one event loop, the reactor,
  owns everything: it reads the configuration, asks the planner (flux-core, runtime.rs) what an event
  means in the present phase, and carries the answer out - it applies the policy through the data plane
  manager, generates the engine's configuration, and switches engines in a transaction that checks the
  new configuration, stops the old child, starts the new one, waits until its four sockets are
  verified, and only then publishes capture active. The data plane talks to the kernel by netlink and by
  the ioctls of the module.

  How it is modelled. Pure functions are functions; structures are records and enumerations datatypes;
  integers are words of their width; \<open>Result\<close> is a sum with \<open>Inl\<close> the error; a panic is \<open>None\<close>, or a fault value
  where the code distinguishes it from an error. Stateful code passes its state explicitly. What the
  operating system or a crate does is never invented: it is an argument. Three forms are used. A
  function or record of functions stands for a crate (serde_json, regex_lite, url, base64, the TOML
  parser). A trace of calls with the kernel's answers stands for system calls made in sequence
  (Supervisor, Sock_Diag, and \<open>Kernel_Calls\<close> for the data plane). For the reactor the environment is a record
  of functions from the log of calls made so far to the next answer, so that a statement for every
  environment is a statement for every behaviour of the outside.

  The theories and what they show.

  Shared: \<open>Flux_Prelude\<close> (machine types, results, the collections of rules), \<open>Std_Text\<close> and \<open>Net_Addr\<close> (the standard
  library's text and address functions the code calls), \<open>BTree_Model\<close> (ordered sets and maps), \<open>Json\<close>.

  Lifecycle: \<open>Runtime\<close> is runtime.rs: \<open>step\<close> is the event table, \<open>plan\<close> gives commands identities, \<open>observe\<close> and
  \<open>project\<close> reconstruct and report the phase, \<open>generations\<close> counts engine generations. Shown: the planner freezes
  capture exactly when it leaves the active phase, and only a commit makes it active. \<open>Snapshot\<close> and \<open>List_Mode\<close>
  hold the evidence of kernel dumps and the SSID verdict. \<open>Supervisor\<close> is supervisor.rs over call traces: no
  restart follows a stop.

  Policy: \<open>Cidr\<close>, \<open>Selector\<close>, \<open>Policy_Epoch\<close> (policy_epoch.rs: the decision for a new flow, longest match, the commit
  protocols; a commit never forgets a user that is still draining, and no intermediate state is
  visible), \<open>Parse_Bounds\<close>. \<open>Config\<close> is config.rs with its list files, \<open>Edit_Distance\<close> its spelling hints: an accepted
  configuration is valid and list files stay in their directory.

  Engine configuration: \<open>Subscription\<close> and \<open>Uri_Outbound\<close> turn provider responses into nodes, \<open>Engine_Config\<close> fills the
  template and injects the two inbounds. Shown: tags are distinct, order and bounds are kept, only the
  inbounds and the groups change, assembly does not panic, comment masking is total.

  Artifacts: \<open>Abi\<close>, \<open>Map_Table\<close>, \<open>Btf\<close>, \<open>Kmod_Uapi\<close>, \<open>Version\<close>, \<open>Gki_Line\<close>, \<open>Mod_Info\<close>, \<open>Sha256\<close>, \<open>Control_Wire\<close>, and \<open>Bpf_Object\<close>, the
  reader of the embedded object, whose accesses stay in bounds.

  Netlink: \<open>Wire\<close> (wire.rs: a dump is trusted exactly when it is complete and clean), \<open>Route\<close> (route.rs: requests
  decode to what was asked), \<open>Sock_Diag\<close> (sock_diag.rs: readiness is reported from complete dumps, only live
  sockets of the given users are reset), \<open>Ring_Buffer\<close> (the fault ring).

  Data plane: \<open>Kernel_Calls\<close> is the world of calls with its monad and the calculus of what a function may do;
  \<open>Cleanup\<close> (ownership and removal in platform.rs and attachment.rs: only owned and planned objects are
  deleted), \<open>Kmod_Device\<close> (kmod.rs), \<open>Data_Plane\<close> (the manager of platform.rs: a policy that is applied refines the
  commit of its epoch, one that fails is not recorded), \<open>Manager_Life\<close> (its operations as steps; tables stay
  within the kernel's capacity and no selected user is lost in any sequence of them).

  Engine and reactor: \<open>Engine\<close> is the part of engine.rs that computes (ports, bounded output, identity,
  socket verification, the types of a switch). \<open>Reactor_State\<close>, \<open>Engine_Switch\<close> and \<open>Reactor\<close> are reactor.rs: the state
  with the subscription coordinator, the transaction, and convergence with every handler; \<open>rx_dispatch\<close> is
  the event loop's match. \<open>Switch_Safety\<close> states the invariant on the view of a state and proves it for the
  transaction inside the locale \<open>safe_convergence\<close>, whose assumption is that convergence keeps it;
  \<open>Reactor_Safety\<close> discharges that assumption for the reactor's own convergence and all handlers. \<open>Reactor_Runs\<close>
  concludes for every reachable state: one engine at a time, capture only for a verified engine, the
  fields of the state fit together, a shutdown ends with its last child - and that a child that
  outlives SIGKILL is an exception to the second, with a run that shows it.

  Interfaces. Each contract between parts is a locale interpreted on the model's own definitions, for
  example the two address families of \<open>Cidr\<close>, the event logs of \<open>Runtime\<close>, and \<open>safe_convergence\<close>.

  Bounds and fuel. Loops that end by their data are structural or have a measure. Loops over system calls
  consume the answers they are given and have no result when these run out; where a property says
  that something is returned, it says so for concrete or sufficient answers. Convergence can call itself
  through a failed or finished transaction; \<open>rx_converge E n\<close> allows \<open>n\<close> nested calls, the steps of the event loop
  may use any \<open>n\<close>, and the shutdown property needs none. Offsets and sizes are natural numbers where \<open>usize\<close> has 64
  bits and the values are bounded by a buffer; the overflow checks the code makes are kept.

  Not modelled. Process creation, descriptors, epoll registration and memory mappings, which are calls
  without logic of their own; the text of log lines, status replies and \<open>module.prop\<close>; the control socket
  server, the command line, diagnostics and bug reports; reading and writing files (layout.rs, watch.rs,
  logger.rs, install.rs) - the reactor asks its environment for the parsed configuration; the
  migration of old configurations, which edits a document tree of the toml_edit crate; the decoders
  of wireless interfaces and the bpf(2) wrappers; the interface admission and BPF bank writes of
  platform.rs that the code marks as dead; the build automation under xtask and the C code of the
  kernel module and the BPF program.
\<close>

end
